(* ===== verification/Prelude.thy ===== *)
theory Prelude
  imports Main "HOL-Library.Word" "HOL-Library.State_Monad" "HOL-Library.Sublist"
    "HOL-Library.Code_Target_Numeral"
begin

text \<open>
  What every component of the development shares.

  \<^item> Go values: times and durations (nanoseconds; a \<open>time.Duration\<close> is an int64, so its
    arithmetic wraps and \<open>Time.Sub\<close> saturates), and the functions of the packages \<open>strings\<close>
    and \<open>strconv\<close> that the sources call, on strings as lists of characters.
  \<^item> Effects: Go functions that call the outside world are programs of the library's state
    monad. \<open>bindE\<close> is the pattern \<open>if err != nil { return err }\<close>, and \<open>wp\<close> is the weakest
    precondition of a program; its rules carry the proofs about handlers.
  \<^item> The named collections \<open>wp_rules\<close> and \<open>go_defs\<close>.
\<close>

named_theorems wp_rules \<open>weakest preconditions of program constructs and primitive calls\<close>
named_theorems go_defs \<open>definitions that evaluation of a concrete input unfolds\<close>


section \<open>The container marker\<close>

text \<open>
  \<open>src/internal/constants\<close>: the variable with which the controller marks every container and by which
  the sidecar finds its processes.
\<close>

definition IsolaContainerNameEnv :: string where
  "IsolaContainerNameEnv = ''ISOLA_CONTAINER_NAME''"


section \<open>Times and durations\<close>

type_synonym time = int
type_synonym duration = int

definition min_duration :: duration where
  "min_duration = - (2 ^ 63)"

definition max_duration :: duration where
  "max_duration = 2 ^ 63 - 1"

text \<open>An int64 result of an exact integer: the two's complement wrap of Go.\<close>

definition int64 :: "int \<Rightarrow> int" where
  "int64 x = sint (word_of_int x :: 64 word)"

definition nano_second :: duration where "nano_second = 1000000000"
definition milli_second :: duration where "milli_second = 1000000"

text \<open>\<open>time.Duration(n) * time.Second\<close>.\<close>

definition duration_of_seconds :: "int \<Rightarrow> duration" where
  "duration_of_seconds n = int64 (n * nano_second)"

text \<open>\<open>t.Add(d)\<close>, \<open>t.Sub(u)\<close> (saturating) and \<open>t.After(u)\<close>.\<close>

definition time_add :: "time \<Rightarrow> duration \<Rightarrow> time" where
  "time_add t d = t + d"

definition time_sub :: "time \<Rightarrow> time \<Rightarrow> duration" where
  "time_sub t u = max min_duration (min max_duration (t - u))"

definition time_after :: "time \<Rightarrow> time \<Rightarrow> bool" where
  "time_after t u \<longleftrightarrow> u < t"

definition time_before :: "time \<Rightarrow> time \<Rightarrow> bool" where
  "time_before t u \<longleftrightarrow> t < u"

text \<open>The zero \<open>time.Time\<close> (1 January of year 1) on the Unix nanosecond scale.\<close>

definition zero_time :: time where
  "zero_time = - 62135596800 * 1000000000"

lemma int64_mod: "int64 x = (x + 2 ^ 63) mod 2 ^ 64 - 2 ^ 63"
  by (simp add: int64_def int_word_sint)

lemma int64_eq: "min_duration \<le> x \<Longrightarrow> x \<le> max_duration \<Longrightarrow> int64 x = x"
  by (simp add: int64_mod min_duration_def max_duration_def)

lemma int64_lower: "min_duration \<le> int64 x"
  using pos_mod_sign [of "2 ^ 64" "x + 2 ^ 63"] by (simp add: int64_mod min_duration_def)

lemma int64_upper: "int64 x \<le> max_duration"
  using pos_mod_bound [of "2 ^ 64" "x + 2 ^ 63"] by (simp add: int64_mod max_duration_def)

lemma int64_over:
  assumes "2 ^ 63 \<le> x" "x < 2 ^ 63 + 2 ^ 64"
  shows "int64 x = x - 2 ^ 64"
proof -
  have "(x + 2 ^ 63) mod 2 ^ 64 = (x + 2 ^ 63 - 2 ^ 64) mod 2 ^ 64"
    by (metis minus_mod_self2)
  also have "\<dots> = x + 2 ^ 63 - 2 ^ 64"
    using assms by (intro mod_pos_pos_trivial) simp_all
  finally show ?thesis by (simp add: int64_mod)
qed

text \<open>
  The conversion of seconds is exact up to 9223372036 seconds (292 years); above, it wraps.
\<close>

lemma duration_of_seconds_exact:
  "0 \<le> n \<Longrightarrow> n \<le> 9223372036 \<Longrightarrow> duration_of_seconds n = n * nano_second"
  by (simp add: duration_of_seconds_def nano_second_def int64_eq min_duration_def max_duration_def)

lemma duration_of_seconds_wraps:
  assumes "9223372037 \<le> n" "n \<le> 18446744073"
  shows "duration_of_seconds n = n * nano_second - 2 ^ 64"
  using assms by (simp add: duration_of_seconds_def nano_second_def int64_over)


section \<open>Strings\<close>

text \<open>
  A Go string is a sequence of bytes; \<open>string\<close> is a list of 8-bit characters. The functions
  follow the package \<open>strings\<close>: \<open>Index\<close>, \<open>Contains\<close>, \<open>Cut\<close>, \<open>Split\<close>, \<open>Join\<close>, \<open>TrimPrefix\<close>,
  \<open>TrimSpace\<close> (ASCII space) and \<open>Fields\<close>.
\<close>

fun str_index :: "string \<Rightarrow> string \<Rightarrow> nat option" where
  "str_index [] sep = (if sep = [] then Some 0 else None)"
| "str_index (c # s) sep =
     (if prefix sep (c # s) then Some 0 else map_option Suc (str_index s sep))"

definition str_contains :: "string \<Rightarrow> string \<Rightarrow> bool" where
  "str_contains s sub \<longleftrightarrow> str_index s sub \<noteq> None"

definition str_cut :: "string \<Rightarrow> string \<Rightarrow> string \<times> string \<times> bool" where
  "str_cut s sep =
     (case str_index s sep of
        None \<Rightarrow> (s, [], False)
      | Some i \<Rightarrow> (take i s, drop (i + length sep) s, True))"

definition trim_prefix :: "string \<Rightarrow> string \<Rightarrow> string" where
  "trim_prefix s p = (if prefix p s then drop (length p) s else s)"

definition trim_suffix :: "string \<Rightarrow> string \<Rightarrow> string" where
  "trim_suffix s p = (if suffix p s then take (length s - length p) s else s)"

text \<open>The separators of one character that the sources split on.\<close>

fun split_char :: "char \<Rightarrow> string \<Rightarrow> string list" where
  "split_char d [] = [[]]"
| "split_char d (c # s) =
     (if c = d then [] # split_char d s
      else (case split_char d s of
              [] \<Rightarrow> [[c]]
            | w # ws \<Rightarrow> (c # w) # ws))"

fun str_join :: "string \<Rightarrow> string list \<Rightarrow> string" where
  "str_join sep [] = []"
| "str_join sep [w] = w"
| "str_join sep (w # v # ws) = w @ sep @ str_join sep (v # ws)"

definition is_space :: "char \<Rightarrow> bool" where
  "is_space c \<longleftrightarrow> (let n = of_char c :: nat in n = 32 \<or> 9 \<le> n \<and> n \<le> 13)"

definition trim_space :: "string \<Rightarrow> string" where
  "trim_space s = rev (dropWhile is_space (rev (dropWhile is_space s)))"

definition is_digit :: "char \<Rightarrow> bool" where
  "is_digit c \<longleftrightarrow> (let n = of_char c :: nat in 48 \<le> n \<and> n \<le> 57)"

definition char_in :: "char \<Rightarrow> char \<Rightarrow> char \<Rightarrow> bool" where
  "char_in lo hi c \<longleftrightarrow> of_char lo \<le> (of_char c :: nat) \<and> (of_char c :: nat) \<le> of_char hi"

text \<open>\<open>strconv.Itoa\<close>: decimal digits, with a minus sign for a negative number.\<close>

fun nat_digits :: "nat \<Rightarrow> string" where
  "nat_digits n =
     (if n < 10 then [char_of (48 + n)] else nat_digits (n div 10) @ [char_of (48 + n mod 10)])"

declare nat_digits.simps [simp del]

definition itoa :: "int \<Rightarrow> string" where
  "itoa i = (if i < 0 then ''-'' @ nat_digits (nat (- i)) else nat_digits (nat i))"

definition newline :: string where
  "newline = [CHR 0x0A]"

text \<open>\<open>%q\<close> of \<open>fmt\<close> for the names the messages quote: the text between double quotes.\<close>

definition quoted :: "string \<Rightarrow> string" where
  "quoted s = [CHR 0x22] @ s @ [CHR 0x22]"

text \<open>
  \<open>filepath.IsLocal\<close> on Unix: a relative, non-empty path that does not climb out of its
  directory when its dots are resolved (\<open>filepath.Clean\<close>, on the components, last one first).
\<close>

definition clean_step :: "string list \<Rightarrow> string \<Rightarrow> string list" where
  "clean_step stack part =
     (if part = [] \<or> part = ''.'' then stack
      else if part = ''..'' then
        (case stack of
           [] \<Rightarrow> [''..'']
         | upper # rest \<Rightarrow> if upper = ''..'' then ''..'' # stack else rest)
      else part # stack)"

definition clean_parts :: "string list \<Rightarrow> string list" where
  "clean_parts ps = foldl clean_step [] ps"

definition is_local :: "string \<Rightarrow> bool" where
  "is_local path \<longleftrightarrow>
     path \<noteq> [] \<and> hd path \<noteq> CHR ''/'' \<and> ''..'' \<notin> set (clean_parts (split_char CHR ''/'' path))"

text \<open>\<open>filepath.Clean\<close> and \<open>filepath.Join\<close> on Unix: \<open>..\<close> at the root stays at the root.\<close>

definition path_clean :: "string \<Rightarrow> string" where
  "path_clean p =
     (let parts = rev (clean_parts (split_char CHR ''/'' p)) in
      if p \<noteq> [] \<and> hd p = CHR ''/'' then ''/'' @ str_join ''/'' (dropWhile (\<lambda>x. x = ''..'') parts)
      else if parts = [] then ''.'' else str_join ''/'' parts)"

definition path_join :: "string list \<Rightarrow> string" where
  "path_join elems =
     (let es = filter (\<lambda>e. e \<noteq> []) elems in if es = [] then [] else path_clean (str_join ''/'' es))"

lemma str_index_Some:
  "str_index s sep = Some i \<Longrightarrow> i + length sep \<le> length s \<and> s = take i s @ sep @ drop (i + length sep) s"
proof (induction s sep arbitrary: i rule: str_index.induct)
  case (1 sep)
  then show ?case by (simp split: if_splits)
next
  case (2 c s sep)
  then show ?case by (auto split: if_splits dest: prefix_length_le elim: prefixE)
qed

lemma str_index_none: "str_index s sep = None \<longleftrightarrow> \<not> sublist sep s"
  by (induction s sep rule: str_index.induct) (auto simp: sublist_Cons_right)

lemma str_index_first:
  "str_index s sep = Some i \<Longrightarrow> j < i \<Longrightarrow> \<not> prefix sep (drop j s)"
proof (induction s sep arbitrary: i j rule: str_index.induct)
  case (1 sep)
  then show ?case by (simp split: if_splits)
next
  case (2 c s sep)
  then show ?case by (cases j) (auto split: if_splits)
qed

lemma str_index_before:
  assumes i: "str_index s sep = Some i" and sep: "sep \<noteq> []"
  shows "\<not> sublist sep (take i s)"
proof
  assume "sublist sep (take i s)"
  then obtain p q where pq: "take i s = p @ sep @ q" by (auto simp: sublist_def)
  have "length p + length sep + length q \<le> i"
    using arg_cong [OF pq, of length] by simp
  with sep have "length p < i" by (cases sep) auto
  moreover have "s = p @ sep @ q @ drop i s"
    using append_take_drop_id [of i s] pq by simp
  then have "drop (length p) s = sep @ q @ drop i s"
    by (metis append_eq_conv_conj)
  ultimately show False using str_index_first [OF i, of "length p"] by simp
qed

lemma str_contains_sublist [simp]: "str_contains s sub \<longleftrightarrow> sublist sub s"
  using str_index_none [of s sub] by (auto simp: str_contains_def)

lemma split_char_not_Nil [simp]: "split_char d s \<noteq> []"
  by (induction s) (auto split: list.splits)

lemma str_join_split_char: "str_join [d] (split_char d s) = s"
proof (induction s)
  case (Cons c s)
  then show ?case
    by (cases "split_char d s"; cases "tl (split_char d s)") auto
qed simp

lemma split_char_pieces: "w \<in> set (split_char d s) \<Longrightarrow> d \<notin> set w"
  by (induction s arbitrary: w) (auto split: if_splits list.splits)

lemma split_char_append_sep:
  "d \<notin> set w \<Longrightarrow> split_char d (w @ d # s) = w # split_char d s"
  by (induction w) auto

lemma split_char_single: "d \<notin> set w \<Longrightarrow> split_char d w = [w]"
  by (induction w) auto

lemma split_char_str_join:
  "ws \<noteq> [] \<Longrightarrow> \<forall>w \<in> set ws. d \<notin> set w \<Longrightarrow> split_char d (str_join [d] ws) = ws"
  by (induction "[d]" ws rule: str_join.induct)
     (simp_all add: split_char_single split_char_append_sep)

lemma char_of_digit [simp]: "n < (10 :: nat) \<Longrightarrow> is_digit (char_of (48 + n))"
  by (simp add: is_digit_def)

lemma nat_digits_digits: "c \<in> set (nat_digits n) \<Longrightarrow> is_digit c"
  by (induction n arbitrary: c rule: nat_digits.induct)
     (subst (asm) nat_digits.simps, auto split: if_splits)

lemma nat_digits_not_Nil [simp]: "nat_digits n \<noteq> []"
  by (subst nat_digits.simps) simp

text \<open>\<open>strconv.Atoi\<close> on digits, the inverse of the printer.\<close>

definition digits_value :: "string \<Rightarrow> nat" where
  "digits_value s = foldl (\<lambda>n c. 10 * n + (of_char c - 48)) 0 s"

lemma digits_value_snoc [simp]:
  "digits_value (s @ [c]) = 10 * digits_value s + (of_char c - 48)"
  by (simp add: digits_value_def)

lemma digits_value_nat_digits [simp]: "digits_value (nat_digits n) = n"
proof (induction n rule: nat_digits.induct)
  case (1 n)
  show ?case
  proof (cases "n < 10")
    case True
    then show ?thesis by (subst nat_digits.simps) (simp add: digits_value_def)
  next
    case False
    have "n mod 10 < 10" by simp
    then have "of_char (char_of (48 + n mod 10) :: char) = 48 + n mod 10" by simp
    with False 1 show ?thesis by (subst nat_digits.simps) simp
  qed
qed

lemma nat_digits_inj: "nat_digits m = nat_digits n \<longleftrightarrow> m = n"
  by (metis digits_value_nat_digits)


subsection \<open>Local paths\<close>

lemma split_char_append: "split_char d (u @ d # v) = split_char d u @ split_char d v"
  by (induction u) (auto split: list.splits)

lemma split_char_suffix:
  "d \<notin> set w \<Longrightarrow> split_char d (u @ w) = butlast (split_char d u) @ [last (split_char d u) @ w]"
proof (induction u)
  case (Cons c u)
  obtain x xs where x: "split_char d u = x # xs" by (cases "split_char d u") simp_all
  with Cons show ?case by (cases xs) simp_all
qed (simp add: split_char_single)

lemma clean_step_dots: "''..'' \<in> set st \<Longrightarrow> ''..'' \<in> set (clean_step st p)"
  by (auto simp: clean_step_def split: list.splits)

lemma clean_fold_dots: "''..'' \<in> set st \<Longrightarrow> ''..'' \<in> set (foldl clean_step st ps)"
  by (induction ps arbitrary: st) (simp_all add: clean_step_dots)

lemma clean_fold_append:
  "''..'' \<notin> set (foldl clean_step st ps) \<Longrightarrow>
     foldl clean_step (st @ b) ps = foldl clean_step st ps @ b"
proof (induction ps arbitrary: st)
  case (Cons p ps)
  have "''..'' \<notin> set (clean_step st p)" using Cons.prems clean_fold_dots [of "clean_step st p" ps] by auto
  then have "clean_step (st @ b) p = clean_step st p @ b"
    by (cases st) (auto simp: clean_step_def split: if_splits)
  then show ?case using Cons by simp
qed simp

lemma is_local_join:
  assumes "is_local u" "is_local v"
  shows "is_local (u @ ''/'' @ v)"
proof -
  let ?d = "CHR ''/''"
  have "''..'' \<notin> set (foldl clean_step (foldl clean_step [] (split_char ?d u)) (split_char ?d v))"
    using assms clean_fold_append [of "[]" "split_char ?d v" "foldl clean_step [] (split_char ?d u)"]
    by (simp add: is_local_def clean_parts_def)
  then show ?thesis
    using assms by (simp add: is_local_def clean_parts_def split_char_append)
qed

lemma long_not_dots: "2 < length (x :: string) \<Longrightarrow> x \<noteq> [] \<and> x \<noteq> ''.'' \<and> x \<noteq> ''..''"
  by auto

lemma is_local_suffix:
  assumes "is_local u" "CHR ''/'' \<notin> set w" "2 < length w"
  shows "is_local (u @ w)"
proof -
  let ?ps = "split_char CHR ''/'' u"
  have "foldl clean_step [] ?ps = clean_step (foldl clean_step [] (butlast ?ps)) (last ?ps)"
    by (subst append_butlast_last_id [of ?ps, symmetric]) (simp_all del: append_butlast_last_id)
  then have "''..'' \<notin> set (foldl clean_step [] (butlast ?ps))"
    using assms(1) clean_step_dots by (auto simp: is_local_def clean_parts_def)
  moreover have "last ?ps @ w \<noteq> []" "last ?ps @ w \<noteq> ''.''" "last ?ps @ w \<noteq> ''..''"
    using long_not_dots [of "last ?ps @ w"] assms(3) by simp_all
  ultimately show ?thesis
    using assms by (simp add: is_local_def clean_parts_def split_char_suffix clean_step_def)
qed


section \<open>Programs with effects and errors\<close>

text \<open>
  A Go function with effects is a \<open>('s, 'a) state\<close>; one that also returns an \<open>error\<close> returns
  \<open>'e + 'a\<close>, \<open>Inl\<close> the error. \<open>bindE\<close> continues on success and returns the error unchanged,
  \<open>handleE\<close> deals with it.
\<close>

definition returnE :: "'a \<Rightarrow> ('s, 'e + 'a) state" where
  "returnE a = State_Monad.return (Inr a)"

definition throwE :: "'e \<Rightarrow> ('s, 'e + 'a) state" where
  "throwE e = State_Monad.return (Inl e)"

definition bindE :: "('s, 'e + 'a) state \<Rightarrow> ('a \<Rightarrow> ('s, 'e + 'b) state) \<Rightarrow> ('s, 'e + 'b) state" where
  "bindE m f = State_Monad.bind m (\<lambda>r. case r of Inl e \<Rightarrow> throwE e | Inr a \<Rightarrow> f a)"

definition handleE :: "('s, 'e + 'a) state \<Rightarrow> ('e \<Rightarrow> ('s, 'f + 'a) state) \<Rightarrow> ('s, 'f + 'a) state" where
  "handleE m h = State_Monad.bind m (\<lambda>r. case r of Inl e \<Rightarrow> h e | Inr a \<Rightarrow> returnE a)"

definition wp :: "('s, 'a) state \<Rightarrow> ('a \<Rightarrow> 's \<Rightarrow> bool) \<Rightarrow> 's \<Rightarrow> bool" where
  "wp m Q s = (case run_state m s of (a, s') \<Rightarrow> Q a s')"

lemma wp_return [wp_rules, simp]: "wp (State_Monad.return a) Q s = Q a s"
  by (simp add: wp_def State_Monad.return_def)

lemma wp_returnE [wp_rules, simp]: "wp (returnE a) Q s = Q (Inr a) s"
  by (simp add: returnE_def)

lemma wp_throwE [wp_rules, simp]: "wp (throwE e) Q s = Q (Inl e) s"
  by (simp add: throwE_def)

lemma wp_bind [wp_rules, simp]: "wp (State_Monad.bind m f) Q s = wp m (\<lambda>a. wp (f a) Q) s"
  by (simp add: wp_def State_Monad.bind_def split: prod.splits)

lemma wp_bindE [wp_rules, simp]:
  "wp (bindE m f) Q s = wp m (\<lambda>r. case r of Inl e \<Rightarrow> Q (Inl e) | Inr a \<Rightarrow> wp (f a) Q) s"
  unfolding bindE_def wp_bind
  by (rule arg_cong [of _ _ "\<lambda>P. wp m P s"]) (auto simp: fun_eq_iff split: sum.splits)

lemma wp_handleE [wp_rules, simp]:
  "wp (handleE m h) Q s = wp m (\<lambda>r. case r of Inl e \<Rightarrow> wp (h e) Q | Inr a \<Rightarrow> Q (Inr a)) s"
  unfolding handleE_def wp_bind
  by (rule arg_cong [of _ _ "\<lambda>P. wp m P s"]) (auto simp: fun_eq_iff split: sum.splits)

lemma wp_get [wp_rules, simp]: "wp State_Monad.get Q s = Q s s"
  by (simp add: wp_def State_Monad.get_def)

lemma wp_set [wp_rules, simp]: "wp (State_Monad.set t) Q s = Q () t"
  by (simp add: wp_def State_Monad.set_def)

lemma wp_update [wp_rules, simp]: "wp (State_Monad.update f) Q s = Q () (f s)"
  by (simp add: State_Monad.update_def)

lemma wp_if [wp_rules]: "wp (if b then m else n) Q s = (if b then wp m Q s else wp n Q s)"
  by simp

lemma wp_mono: "wp m P s \<Longrightarrow> (\<And>a t. P a t \<Longrightarrow> Q a t) \<Longrightarrow> wp m Q s"
  by (auto simp: wp_def split: prod.splits)

lemma wp_conj: "wp m P s \<Longrightarrow> wp m Q s \<Longrightarrow> wp m (\<lambda>a t. P a t \<and> Q a t) s"
  by (auto simp: wp_def split: prod.splits)

lemma wp_run: "wp m Q s \<Longrightarrow> run_state m s = (a, t) \<Longrightarrow> Q a t"
  by (simp add: wp_def)

end
