(* ===== verification/Traced.thy ===== *)
theory Traced
  imports Prelude
begin

text \<open>
  Programs that call the outside world and leave a record of it. A program of this kind is a Go method on
  a world of any type, with one object in memory that it works on and the sequence of the calls it
  has made, each with its arguments and outcome. \<open>traces I m R\<close> and \<open>emits I P m\<close> relate the calls
  a program adds to its result; their rules follow the structure of programs.
\<close>


section \<open>Runs\<close>

record ('w, 'o, 'c) run =
  rWorld :: 'w
  rCalls :: "'c list"
  rObject :: 'o

type_synonym ('w, 'o, 'c, 'a) program = "(('w, 'o, 'c) run, 'a) state"

text \<open>One call: the world moves on and the call is recorded.\<close>

definition call_api :: "('w \<Rightarrow> 'a \<times> 'w) \<Rightarrow> ('a \<Rightarrow> 'c) \<Rightarrow> ('w, 'o, 'c, 'a) program" where
  "call_api f c = State (\<lambda>s. case f (rWorld s) of
     (a, w) \<Rightarrow> (a, s \<lparr>rWorld := w, rCalls := rCalls s @ [c a]\<rparr>))"

definition get_object :: "('w, 'o, 'c, 'o) program" where
  "get_object = State_Monad.bind State_Monad.get (\<lambda>s. State_Monad.return (rObject s))"

definition set_object :: "'o \<Rightarrow> ('w, 'o, 'c, unit) program" where
  "set_object sb = State_Monad.update (\<lambda>s. s \<lparr>rObject := sb\<rparr>)"


section \<open>Reasoning about programs\<close>

lemma wp_call_api [wp_rules, simp]:
  "wp (call_api f c) Q s =
     (case f (rWorld s) of (a, w) \<Rightarrow> Q a (s \<lparr>rWorld := w, rCalls := rCalls s @ [c a]\<rparr>))"
  by (simp add: wp_def call_api_def split: prod.splits)

lemma wp_get_object [wp_rules, simp]: "wp get_object Q s = Q (rObject s) s"
  by (simp add: get_object_def)

lemma wp_set_object [wp_rules, simp]: "wp (set_object sb) Q s = Q () (s \<lparr>rObject := sb\<rparr>)"
  by (simp add: set_object_def)

text \<open>
  \<open>traces I m R\<close>: started with an in-memory object that satisfies \<open>I\<close>, the program ends with one
  that does, and the calls it adds to the record are related to its result by \<open>R\<close>. \<open>emits I P m\<close>
  is the case where every added call satisfies \<open>P\<close>.
\<close>

definition traces :: "('o \<Rightarrow> bool) \<Rightarrow> ('w, 'o, 'c, 'a) program \<Rightarrow> ('c list \<Rightarrow> 'a \<Rightarrow> bool) \<Rightarrow> bool" where
  "traces I m R \<longleftrightarrow> (\<forall>s. I (rObject s) \<longrightarrow>
     wp m (\<lambda>a t. I (rObject t) \<and> (\<exists>cs. rCalls t = rCalls s @ cs \<and> R cs a)) s)"

definition emits :: "('o \<Rightarrow> bool) \<Rightarrow> ('c \<Rightarrow> bool) \<Rightarrow> ('w, 'o, 'c, 'a) program \<Rightarrow> bool" where
  "emits I P m \<longleftrightarrow> traces I m (\<lambda>cs a. list_all P cs)"

named_theorems emits_intros \<open>which calls a program makes\<close>

lemma tracesI:
  "(\<And>s. I (rObject s) \<Longrightarrow>
      wp m (\<lambda>a t. I (rObject t) \<and> (\<exists>cs. rCalls t = rCalls s @ cs \<and> R cs a)) s) \<Longrightarrow> traces I m R"
  by (simp add: traces_def)

lemma tracesD:
  "traces I m R \<Longrightarrow> I (rObject s) \<Longrightarrow>
     wp m (\<lambda>a t. I (rObject t) \<and> (\<exists>cs. rCalls t = rCalls s @ cs \<and> R cs a)) s"
  by (simp add: traces_def)

lemma traces_run:
  "traces I m R \<Longrightarrow> I (rObject s) \<Longrightarrow> run_state m s = (a, t) \<Longrightarrow>
     I (rObject t) \<and> (\<exists>cs. rCalls t = rCalls s @ cs \<and> R cs a)"
  using tracesD [of I m R s] by (simp add: wp_def)

lemma traces_weaken:
  fixes m :: "('w, 'o, 'c, 'a) program"
  assumes m: "traces I m R" and RS: "\<And>cs a. R cs a \<Longrightarrow> S cs a"
  shows "traces I m S"
proof (rule tracesI)
  fix s :: "('w, 'o, 'c) run" assume I: "I (rObject s)"
  show "wp m (\<lambda>a t. I (rObject t) \<and> (\<exists>cs. rCalls t = rCalls s @ cs \<and> S cs a)) s"
    by (rule wp_mono [OF tracesD [OF m, OF I]]) (use RS in blast)
qed

lemma traces_return: "R [] a \<Longrightarrow> traces I (State_Monad.return a) R"
  by (rule tracesI) simp

lemma traces_returnE: "R [] (Inr a) \<Longrightarrow> traces I (returnE a) R"
  by (rule tracesI) simp

lemma traces_throwE: "R [] (Inl e) \<Longrightarrow> traces I (throwE e) R"
  by (rule tracesI) simp

lemma traces_call_api: "(\<And>a. R [c a] a) \<Longrightarrow> traces I (call_api f c) R"
  by (rule tracesI) (simp split: prod.splits)

lemma traces_bind:
  fixes m :: "('w, 'o, 'c, 'a) program"
  assumes m: "traces I m Q" and f: "\<And>a cs. Q cs a \<Longrightarrow> traces I (f a) (\<lambda>ds b. R (cs @ ds) b)"
  shows "traces I (State_Monad.bind m f) R"
proof (rule tracesI)
  fix s :: "('w, 'o, 'c) run" assume I: "I (rObject s)"
  have "wp m (\<lambda>a t. wp (f a) (\<lambda>b u. I (rObject u) \<and> (\<exists>cs. rCalls u = rCalls s @ cs \<and> R cs b)) t) s"
  proof (rule wp_mono [OF tracesD [OF m, OF I]])
    fix a and t :: "('w, 'o, 'c) run" assume "I (rObject t) \<and> (\<exists>cs. rCalls t = rCalls s @ cs \<and> Q cs a)"
    then obtain cs where cs: "I (rObject t)" "rCalls t = rCalls s @ cs" "Q cs a" by blast
    show "wp (f a) (\<lambda>b u. I (rObject u) \<and> (\<exists>cs. rCalls u = rCalls s @ cs \<and> R cs b)) t"
      by (rule wp_mono [OF tracesD [OF f [OF cs(3)], OF cs(1)]]) (use cs in auto)
  qed
  then show "wp (State_Monad.bind m f) (\<lambda>b u. I (rObject u) \<and> (\<exists>cs. rCalls u = rCalls s @ cs \<and> R cs b)) s"
    by simp
qed

lemma traces_bindE:
  assumes m: "traces I m Q"
    and err: "\<And>e cs. Q cs (Inl e) \<Longrightarrow> R cs (Inl e)"
    and ok: "\<And>a cs. Q cs (Inr a) \<Longrightarrow> traces I (f a) (\<lambda>ds b. R (cs @ ds) b)"
  shows "traces I (bindE m f) R"
  unfolding bindE_def
proof (rule traces_bind [OF m])
  fix r cs assume "Q cs r"
  then show "traces I (case r of Inl e \<Rightarrow> throwE e | Inr a \<Rightarrow> f a) (\<lambda>ds b. R (cs @ ds) b)"
    by (cases r) (simp_all add: traces_throwE err ok)
qed

lemma traces_get_object:
  "(\<And>sb. I sb \<Longrightarrow> traces I (f sb) R) \<Longrightarrow> traces I (State_Monad.bind get_object f) R"
  by (rule tracesI) (simp add: tracesD)

lemma traces_set_object:
  fixes f :: "unit \<Rightarrow> ('w, 'o, 'c, 'a) program"
  assumes "I sb" and m: "traces I (f ()) R"
  shows "traces I (State_Monad.bind (set_object sb) f) R"
proof (rule tracesI)
  fix s :: "('w, 'o, 'c) run"
  have "I (rObject (s \<lparr>rObject := sb\<rparr>))" using assms(1) by simp
  from tracesD [OF m this]
  show "wp (State_Monad.bind (set_object sb) f)
      (\<lambda>a t. I (rObject t) \<and> (\<exists>cs. rCalls t = rCalls s @ cs \<and> R cs a)) s"
    by simp
qed

lemma traces_bind_call:
  "(\<And>a. traces I (f a) (\<lambda>ds b. R (c a # ds) b)) \<Longrightarrow> traces I (State_Monad.bind (call_api g c) f) R"
  by (rule traces_bind [OF traces_call_api [where R = "\<lambda>cs a. cs = [c a]"]]) simp_all

lemma traces_if:
  "(b \<Longrightarrow> traces I m R) \<Longrightarrow> (\<not> b \<Longrightarrow> traces I n R) \<Longrightarrow> traces I (if b then m else n) R"
  by simp

lemma traces_case_option:
  "(x = None \<Longrightarrow> traces I m R) \<Longrightarrow> (\<And>a. x = Some a \<Longrightarrow> traces I (f a) R) \<Longrightarrow>
     traces I (case x of None \<Rightarrow> m | Some a \<Rightarrow> f a) R"
  by (cases x) simp_all

lemma traces_case_sum:
  "(\<And>a. x = Inl a \<Longrightarrow> traces I (f a) R) \<Longrightarrow> (\<And>b. x = Inr b \<Longrightarrow> traces I (g b) R) \<Longrightarrow>
     traces I (case x of Inl a \<Rightarrow> f a | Inr b \<Rightarrow> g b) R"
  by (cases x) simp_all

lemma traces_case_prod:
  "(\<And>a b. x = (a, b) \<Longrightarrow> traces I (f a b) R) \<Longrightarrow> traces I (case x of (a, b) \<Rightarrow> f a b) R"
  by (cases x) simp_all

lemma traces_Let: "traces I (f x) R \<Longrightarrow> traces I (Let x f) R"
  by simp

lemmas run_intros =
  traces_get_object traces_set_object traces_bind_call
  traces_if traces_case_option traces_case_sum traces_case_prod traces_Let
  traces_return traces_returnE traces_throwE

lemma emits_traces: "emits I P m \<Longrightarrow> traces I m (\<lambda>cs a. list_all P cs)"
  by (simp add: emits_def)

lemma emits_tracesI: "traces I m R \<Longrightarrow> (\<And>cs a. R cs a \<Longrightarrow> list_all P cs) \<Longrightarrow> emits I P m"
  unfolding emits_def by (rule traces_weaken)

lemma emits_run:
  "emits I P m \<Longrightarrow> I (rObject s) \<Longrightarrow> run_state m s = (a, t) \<Longrightarrow>
     I (rObject t) \<and> (\<exists>cs. rCalls t = rCalls s @ cs \<and> list_all P cs)"
  unfolding emits_def by (rule traces_run)

lemma emits_weaken: "emits I P m \<Longrightarrow> (\<And>c. P c \<Longrightarrow> Q c) \<Longrightarrow> emits I Q m"
  unfolding emits_def by (erule traces_weaken) (auto simp: list_all_iff)

lemma emits_return [emits_intros]: "emits I P (State_Monad.return a)"
  by (simp add: emits_def traces_return)

lemma emits_returnE [emits_intros]: "emits I P (returnE a)"
  by (simp add: emits_def traces_returnE)

lemma emits_throwE [emits_intros]: "emits I P (throwE e)"
  by (simp add: emits_def traces_throwE)

lemma emits_call_api [emits_intros]: "(\<And>a. P (c a)) \<Longrightarrow> emits I P (call_api f c)"
  by (simp add: emits_def traces_call_api)

lemma emits_bind:
  assumes m: "emits I P m" and f: "\<And>a. emits I P (f a)"
  shows "emits I P (State_Monad.bind m f)"
  unfolding emits_def
proof (rule traces_bind [OF emits_traces [OF m]])
  fix a cs assume "list_all P cs"
  then show "traces I (f a) (\<lambda>ds b. list_all P (cs @ ds))"
    using traces_weaken [OF emits_traces [OF f]] by fastforce
qed

lemma emits_bind_get [emits_intros]:
  "(\<And>sb. I sb \<Longrightarrow> emits I P (f sb)) \<Longrightarrow> emits I P (State_Monad.bind get_object f)"
  unfolding emits_def by (rule traces_get_object)

lemma emits_bind_set [emits_intros]:
  "I sb \<Longrightarrow> emits I P (f ()) \<Longrightarrow> emits I P (State_Monad.bind (set_object sb) f)"
  unfolding emits_def by (rule traces_set_object)

lemma emits_bind_call [emits_intros]:
  "(\<And>a. P (c a)) \<Longrightarrow> (\<And>a. emits I P (f a)) \<Longrightarrow> emits I P (State_Monad.bind (call_api g c) f)"
  by (intro emits_bind emits_call_api)

lemma emits_bindE [emits_intros]:
  "emits I P m \<Longrightarrow> (\<And>a. emits I P (f a)) \<Longrightarrow> emits I P (bindE m f)"
  unfolding bindE_def by (rule emits_bind) (auto intro: emits_throwE split: sum.splits)

lemma emits_handleE [emits_intros]:
  "emits I P m \<Longrightarrow> (\<And>e. emits I P (h e)) \<Longrightarrow> emits I P (handleE m h)"
  unfolding handleE_def by (rule emits_bind) (auto intro: emits_returnE split: sum.splits)

lemma emits_if [emits_intros]:
  "(b \<Longrightarrow> emits I P m) \<Longrightarrow> (\<not> b \<Longrightarrow> emits I P n) \<Longrightarrow> emits I P (if b then m else n)"
  by simp

lemma emits_case_option [emits_intros]:
  "(x = None \<Longrightarrow> emits I P m) \<Longrightarrow> (\<And>a. x = Some a \<Longrightarrow> emits I P (f a)) \<Longrightarrow>
     emits I P (case x of None \<Rightarrow> m | Some a \<Rightarrow> f a)"
  by (cases x) simp_all

lemma emits_case_sum [emits_intros]:
  "(\<And>a. x = Inl a \<Longrightarrow> emits I P (f a)) \<Longrightarrow> (\<And>b. x = Inr b \<Longrightarrow> emits I P (g b)) \<Longrightarrow>
     emits I P (case x of Inl a \<Rightarrow> f a | Inr b \<Rightarrow> g b)"
  by (cases x) simp_all

lemma emits_case_prod [emits_intros]:
  "(\<And>a b. x = (a, b) \<Longrightarrow> emits I P (f a b)) \<Longrightarrow> emits I P (case x of (a, b) \<Rightarrow> f a b)"
  by (cases x) simp_all

lemma emits_Let [emits_intros]: "emits I P (f x) \<Longrightarrow> emits I P (Let x f)"
  by simp


text \<open>
  \<open>ends I m R\<close> is \<open>traces I m R\<close> without the promise about the object at the end: the rules for
  programs that read the object and then replace it.
\<close>

definition ends :: "('o \<Rightarrow> bool) \<Rightarrow> ('w, 'o, 'c, 'a) program \<Rightarrow> ('c list \<Rightarrow> 'a \<Rightarrow> bool) \<Rightarrow> bool" where
  "ends I m R \<longleftrightarrow> (\<forall>s. I (rObject s) \<longrightarrow> wp m (\<lambda>a t. \<exists>cs. rCalls t = rCalls s @ cs \<and> R cs a) s)"

lemma endsI: "(\<And>s. I (rObject s) \<Longrightarrow> wp m (\<lambda>a t. \<exists>cs. rCalls t = rCalls s @ cs \<and> R cs a) s) \<Longrightarrow> ends I m R"
  by (simp add: ends_def)

lemma endsD: "ends I m R \<Longrightarrow> I (rObject s) \<Longrightarrow> wp m (\<lambda>a t. \<exists>cs. rCalls t = rCalls s @ cs \<and> R cs a) s"
  by (simp add: ends_def)

lemma ends_run:
  "ends I m R \<Longrightarrow> I (rObject s) \<Longrightarrow> run_state m s = (a, t) \<Longrightarrow> \<exists>cs. rCalls t = rCalls s @ cs \<and> R cs a"
  using endsD [of I m R s] by (simp add: wp_def)

lemma ends_weaken: "ends I m R \<Longrightarrow> (\<And>cs a. R cs a \<Longrightarrow> S cs a) \<Longrightarrow> ends I m S"
  unfolding ends_def by (fast elim: wp_mono)

lemma ends_traces: "traces I m R \<Longrightarrow> ends I m R"
  unfolding ends_def traces_def by (fast elim: wp_mono)

lemma ends_bind:
  fixes m :: "('w, 'o, 'c, 'a) program"
  assumes m: "traces I m Q" and f: "\<And>a cs. Q cs a \<Longrightarrow> ends I (f a) (\<lambda>ds b. R (cs @ ds) b)"
  shows "ends I (State_Monad.bind m f) R"
proof (rule endsI)
  fix s :: "('w, 'o, 'c) run" assume I: "I (rObject s)"
  have "wp m (\<lambda>a t. wp (f a) (\<lambda>b u. \<exists>cs. rCalls u = rCalls s @ cs \<and> R cs b) t) s"
  proof (rule wp_mono [OF tracesD [OF m, OF I]])
    fix a and t :: "('w, 'o, 'c) run" assume "I (rObject t) \<and> (\<exists>cs. rCalls t = rCalls s @ cs \<and> Q cs a)"
    then obtain cs where cs: "I (rObject t)" "rCalls t = rCalls s @ cs" "Q cs a" by blast
    show "wp (f a) (\<lambda>b u. \<exists>cs. rCalls u = rCalls s @ cs \<and> R cs b) t"
      by (rule wp_mono [OF endsD [OF f [OF cs(3)], OF cs(1)]]) (use cs in auto)
  qed
  then show "wp (State_Monad.bind m f) (\<lambda>b u. \<exists>cs. rCalls u = rCalls s @ cs \<and> R cs b) s"
    by simp
qed

lemma ends_throwE: "R [] (Inl e) \<Longrightarrow> ends I (throwE e) R"
  by (rule ends_traces) (rule traces_throwE)

lemma ends_returnE: "R [] (Inr a) \<Longrightarrow> ends I (returnE a) R"
  by (rule ends_traces) (rule traces_returnE)

lemma ends_bindE:
  assumes m: "traces I m Q"
    and err: "\<And>e cs. Q cs (Inl e) \<Longrightarrow> R cs (Inl e)"
    and ok: "\<And>a cs. Q cs (Inr a) \<Longrightarrow> ends I (f a) (\<lambda>ds b. R (cs @ ds) b)"
  shows "ends I (bindE m f) R"
  unfolding bindE_def
proof (rule ends_bind [OF m])
  fix r cs assume "Q cs r"
  then show "ends I (case r of Inl e \<Rightarrow> throwE e | Inr a \<Rightarrow> f a) (\<lambda>ds b. R (cs @ ds) b)"
    by (cases r) (simp_all add: ends_throwE err ok)
qed

lemma ends_get_object:
  "(\<And>x. I x \<Longrightarrow> ends (\<lambda>y. y = x) (f x) R) \<Longrightarrow> ends I (State_Monad.bind get_object f) R"
  unfolding ends_def by simp

lemma ends_set_object:
  fixes f :: "unit \<Rightarrow> ('w, 'o, 'c, 'a) program"
  assumes m: "ends (\<lambda>y. y = x) (f ()) R"
  shows "ends I (State_Monad.bind (set_object x) f) R"
proof (rule endsI)
  fix s :: "('w, 'o, 'c) run"
  have "rObject (s \<lparr>rObject := x\<rparr>) = x" by simp
  from endsD [OF m this]
  show "wp (State_Monad.bind (set_object x) f) (\<lambda>a t. \<exists>cs. rCalls t = rCalls s @ cs \<and> R cs a) s"
    by simp
qed

lemma ends_bind_call:
  "(\<And>a. ends I (f a) (\<lambda>ds b. R (c a # ds) b)) \<Longrightarrow> ends I (State_Monad.bind (call_api g c) f) R"
  by (rule ends_bind [OF traces_call_api [where R = "\<lambda>cs a. cs = [c a]"]]) simp_all

lemma ends_if: "(b \<Longrightarrow> ends I m R) \<Longrightarrow> (\<not> b \<Longrightarrow> ends I n R) \<Longrightarrow> ends I (if b then m else n) R"
  by simp

lemma ends_case_option:
  "(x = None \<Longrightarrow> ends I m R) \<Longrightarrow> (\<And>a. x = Some a \<Longrightarrow> ends I (f a) R) \<Longrightarrow>
     ends I (case x of None \<Rightarrow> m | Some a \<Rightarrow> f a) R"
  by (cases x) simp_all

lemma ends_case_sum:
  "(\<And>a. x = Inl a \<Longrightarrow> ends I (f a) R) \<Longrightarrow> (\<And>b. x = Inr b \<Longrightarrow> ends I (g b) R) \<Longrightarrow>
     ends I (case x of Inl a \<Rightarrow> f a | Inr b \<Rightarrow> g b) R"
  by (cases x) simp_all

lemma ends_case_prod:
  "(\<And>a b. x = (a, b) \<Longrightarrow> ends I (f a b) R) \<Longrightarrow> ends I (case x of (a, b) \<Rightarrow> f a b) R"
  by (cases x) simp_all

lemma ends_Let: "ends I (f x) R \<Longrightarrow> ends I (Let x f) R"
  by simp

lemmas ends_intros =
  ends_get_object ends_set_object ends_bind_call ends_if ends_case_option ends_case_sum
  ends_case_prod ends_Let ends_throwE ends_returnE


text \<open>Whenever a call satisfies \<open>P\<close>, the calls before it satisfy \<open>Q\<close>.\<close>

definition before :: "('c \<Rightarrow> bool) \<Rightarrow> ('c list \<Rightarrow> bool) \<Rightarrow> 'c list \<Rightarrow> bool" where
  "before P Q cs \<longleftrightarrow> (\<forall>pre c post. cs = pre @ c # post \<longrightarrow> P c \<longrightarrow> Q pre)"

lemma before_none: "list_all (\<lambda>c. \<not> P c) cs \<Longrightarrow> before P Q cs"
  by (auto simp: before_def)

lemma before_append:
  assumes "before P Q cs" "before P (\<lambda>pre. Q (cs @ pre)) ds"
  shows "before P Q (cs @ ds)"
  unfolding before_def
proof (intro allI impI)
  fix pre c post assume eq: "cs @ ds = pre @ c # post" and "P c"
  from eq obtain us where "cs = pre @ us \<and> us @ ds = c # post \<or> cs @ us = pre \<and> ds = us @ c # post"
    unfolding append_eq_append_conv2 by blast
  then consider vs where "cs = pre @ c # vs" | us where "pre = cs @ us" "ds = us @ c # post"
    by (cases us) fastforce+
  then show "Q pre"
    using assms \<open>P c\<close> unfolding before_def by cases blast+
qed

lemma before_mono: "before P Q cs \<Longrightarrow> (\<And>pre. Q pre \<Longrightarrow> R pre) \<Longrightarrow> before P R cs"
  unfolding before_def by blast

end
