(* ===== verification/ApiTypes.thy ===== *)
theory ApiTypes
  imports Prelude
begin

text \<open>
  The custom resources of \<open>api/v1alpha1\<close> (Sandbox, RootfsSnapshot), the parts of the Kubernetes
  objects the operator reads or writes, and the helpers of
  \<open>internal/operator/controller/podutil\<close>.

  A pointer field of Go is an \<open>option\<close>, a \<open>map[string]string\<close> a partial function, an absent
  \<open>metav1.Time\<close> the zero time. A nil slice and an empty one are the same list, except for the
  container statuses, where the code tells them apart. What a Kubernetes object holds beside
  the fields the code touches is the string of a field \<open>...Rest\<close>, so that a lemma can say that it
  is carried over.
\<close>

type_synonym str_map = "string \<rightharpoonup> string"

datatype cond_status = StatusTrue | StatusFalse | StatusUnknown

record condition =
  condType :: string
  condStatus :: cond_status
  condReason :: string
  condMessage :: string
  condGeneration :: int
  condTransition :: time

record owner_ref =
  ownerName :: string
  ownerUID :: string
  ownerController :: bool

record object_meta =
  metaName :: string
  metaNamespace :: string
  metaUID :: string
  metaLabels :: str_map
  metaAnnotations :: str_map
  metaFinalizers :: "string list"
  metaOwners :: "owner_ref list"
  metaGeneration :: int
  metaCreated :: time
  metaDeleted :: "time option"

definition empty_meta :: object_meta where
  "empty_meta = \<lparr>metaName = [], metaNamespace = [], metaUID = [], metaLabels = Map.empty,
     metaAnnotations = Map.empty, metaFinalizers = [], metaOwners = [], metaGeneration = 0,
     metaCreated = zero_time, metaDeleted = None\<rparr>"

text \<open>\<open>DeletionTimestamp.IsZero()\<close>: a nil pointer is zero.\<close>

definition time_is_zero :: "time option \<Rightarrow> bool" where
  "time_is_zero t \<longleftrightarrow> (case t of None \<Rightarrow> True | Some u \<Rightarrow> u = zero_time)"

text \<open>A \<open>*bool\<close> that is set and true.\<close>

definition is_true :: "bool option \<Rightarrow> bool" where
  "is_true b \<longleftrightarrow> b = Some True"

lemma is_true_simps [simp]: "is_true (Some b) = b" "\<not> is_true None"
  by (simp_all add: is_true_def)


section \<open>Pods and jobs\<close>

record env_var =
  envName :: string
  envVal :: string

datatype restart_policy = RestartAlways | RestartNever | RestartOnFailure

text \<open>A container restart rule: restart when the exit code is one of the list.\<close>

record restart_rule =
  ruleRestart :: bool
  ruleExitCodesIn :: "int list"

record resource_list =
  rlCPU :: "string option"
  rlMemory :: "string option"
  rlEphemeral :: "string option"

text \<open>A quantity is its canonical text; a list without entries and a nil one are the same.\<close>

record pod_resources =
  resLimits :: resource_list
  resRequests :: resource_list

record security_context =
  runAsUser :: "int option"
  privileged :: "bool option"
  capAdd :: "string list"

record pod_container =
  ctrName :: string
  ctrImage :: string
  ctrPullPolicy :: string
  ctrCommand :: "string list"
  ctrEnv :: "env_var list"
  ctrRestartPolicy :: "restart_policy option"
  ctrRestartRules :: "restart_rule list"
  ctrResources :: "pod_resources option"
  ctrSecurity :: "security_context option"
  ctrRest :: string

record dns_config =
  dnsNameservers :: "string list"
  dnsSearches :: "string list"
  dnsOptions :: "(string \<times> string option) list"

datatype dns_policy = DNSUnset | DNSClusterFirst | DNSClusterFirstWithHostNet | DNSDefault | DNSNone

record pod_spec =
  podContainers :: "pod_container list"
  podInitContainers :: "pod_container list"
  podRestartPolicy :: "restart_policy option"
  podAutomountToken :: "bool option"
  podPullSecrets :: "string list"
  podRuntimeClass :: "string option"
  podSharePID :: "bool option"
  podPriorityClass :: string
  podDNSPolicy :: dns_policy
  podDNSConfig :: "dns_config option"
  podNodeName :: string
  podSpecRest :: string

datatype pod_phase = PhaseUnset | PodPending | PodRunning | PodSucceeded | PodFailed | PodUnknown

record pod_condition =
  pcType :: string
  pcStatus :: cond_status

record container_status =
  csName :: string
  csContainerID :: string
  csTerminated :: "string option"

record pod_status =
  podPhase :: pod_phase
  podConditions :: "pod_condition list"
  podContainerStatuses :: "container_status list option"
  podIP :: string
  podStartTime :: "time option"

record pod =
  podMeta :: object_meta
  podSpec :: pod_spec
  podStatus :: pod_status

definition empty_pod_status :: pod_status where
  "empty_pod_status = \<lparr>podPhase = PhaseUnset, podConditions = [], podContainerStatuses = None,
     podIP = [], podStartTime = None\<rparr>"

record job_condition =
  jcType :: string
  jcStatus :: cond_status
  jcMessage :: string

text \<open>The parts of a job that the snapshot controller writes or reads.\<close>

datatype volume_source = HostPathDirectory string | HostPathFile string | EmptyDir string

record volume =
  volName :: string
  volSource :: volume_source

record volume_mount =
  mntName :: string
  mntPath :: string
  mntReadOnly :: bool

record job_security =
  jsUser :: int
  jsGroup :: int
  jsNonRoot :: "bool option"
  jsDrop :: "string list"
  jsReadOnlyRoot :: bool
  jsEscalation :: bool

record job_container =
  jcnName :: string
  jcnImage :: string
  jcnPullPolicy :: string
  jcnCommand :: "string list"
  jcnArgs :: "string list"
  jcnEnv :: "env_var list"
  jcnEnvFromSecrets :: "string list"
  jcnSecurity :: job_security
  jcnMounts :: "volume_mount list"
  jcnRequests :: "string \<times> string"

record job_spec =
  jobBackoffLimit :: int
  jobActiveDeadline :: int
  jobTemplateLabels :: str_map
  jobServiceAccount :: string
  jobHostPID :: bool
  jobNodeSelector :: str_map
  jobRestartPolicy :: restart_policy
  jobPullSecrets :: "string list"
  jobInitContainers :: "job_container list"
  jobContainers :: "job_container list"
  jobVolumes :: "volume list"

record job =
  jobMeta :: object_meta
  jobSpec :: job_spec
  jobConditions :: "job_condition list"

text \<open>The upload result that the uploader leaves in its termination message (JSON).\<close>

record upload_result =
  urSnapshotKey :: string
  urBytesWritten :: int


section \<open>Sandbox\<close>

text \<open>\<open>api/v1alpha1/sandbox_types.go\<close>.\<close>

definition SandboxSucceededCondition :: string where
  "SandboxSucceededCondition = ''Succeeded''"

definition SandboxReadyCondition :: string where
  "SandboxReadyCondition = ''Ready''"

text \<open>
  The type of a termination policy is a string; the two the API declares are constructors, any
  other is kept (the controller has a branch for it).
\<close>

datatype termination_type = TerminationDelete | TerminationSnapshotRootfs | TerminationOther string

record snapshot_rootfs_termination =
  trSnapshotName :: string
  trTimeoutSeconds :: "int option"

record termination_policy =
  tpType :: termination_type
  tpSnapshotRootfs :: "snapshot_rootfs_termination option"

record network =
  allowInternetEgress :: "bool option"
  allowClusterDNS :: "bool option"
  allowIPv6Egress :: "bool option"
  allowedEgressCIDRs :: "string list"
  nameservers :: "string list"
  egressRateLimit :: "int option"

record snapshot_source =
  srcSnapshotName :: string
  srcContainerName :: string

record pod_template =
  tplLabels :: str_map
  tplAnnotations :: str_map
  tplSpec :: pod_spec

record sandbox_spec =
  podTemplate :: pod_template
  timeoutSeconds :: "int option"
  startupTimeoutSeconds :: "int option"
  terminationPolicy :: "termination_policy option"
  sbNetwork :: "network option"
  snapshotSources :: "snapshot_source list"

record sandbox_status =
  sbConditions :: "condition list"
  timeoutAt :: "time option"
  terminationDeadlineAt :: "time option"
  sbPodIP :: string
  sidecarVersion :: string

record sandbox =
  sbMeta :: object_meta
  sbSpec :: sandbox_spec
  sbStatus :: sandbox_status


section \<open>RootfsSnapshot\<close>

text \<open>\<open>api/v1alpha1/rootfssnapshot_types.go\<close>.\<close>

definition RootfsSnapshotSucceededCondition :: string where
  "RootfsSnapshotSucceededCondition = ''Succeeded''"

definition ReasonRootfsSnapshotSucceeded :: string where
  "ReasonRootfsSnapshotSucceeded = ''Succeeded''"

definition ReasonRootfsSnapshotFailed :: string where
  "ReasonRootfsSnapshotFailed = ''Failed''"

record snapshot_spec =
  snSandboxName :: string
  snSnapshotName :: string
  snContainerName :: string
  snTimeoutSeconds :: "int option"
  snTTLSeconds :: "int option"

record snapshot_status =
  snConditions :: "condition list"
  snContainerID :: string
  snSnapshotKey :: string
  snStartTime :: "time option"
  snCompletionTime :: "time option"

record rootfs_snapshot =
  snMeta :: object_meta
  snSpec :: snapshot_spec
  snStatus :: snapshot_status

definition empty_snapshot_status :: snapshot_status where
  "empty_snapshot_status = \<lparr>snConditions = [], snContainerID = [], snSnapshotKey = [],
     snStartTime = None, snCompletionTime = None\<rparr>"


section \<open>podutil\<close>

text \<open>
  A nil pod is \<open>None\<close>. \<open>podIsReady\<close> and its siblings follow
  \<open>internal/operator/controller/podutil/podutil.go\<close>.
\<close>

definition PodStartTime :: "pod option \<Rightarrow> time option" where
  "PodStartTime p = (case p of None \<Rightarrow> None | Some q \<Rightarrow> podStartTime (podStatus q))"

definition IsPodReady :: "pod option \<Rightarrow> bool" where
  "IsPodReady p \<longleftrightarrow>
     (case p of
        None \<Rightarrow> False
      | Some q \<Rightarrow>
          podPhase (podStatus q) = PodRunning \<and>
          list_ex (\<lambda>c. pcType c = ''Ready'' \<and> pcStatus c = StatusTrue)
            (podConditions (podStatus q)))"

definition IsPodTerminated :: "pod option \<Rightarrow> bool" where
  "IsPodTerminated p \<longleftrightarrow>
     (case p of
        None \<Rightarrow> False
      | Some q \<Rightarrow> podPhase (podStatus q) = PodSucceeded \<or> podPhase (podStatus q) = PodFailed)"

definition GetSandboxPodName :: "string \<Rightarrow> string" where
  "GetSandboxPodName n = n @ ''-pod''"

definition GetCustomNetworkPolicyName :: "string \<Rightarrow> string" where
  "GetCustomNetworkPolicyName n = n @ ''-custom-netpol''"

definition GetTerminationSnapshotName :: "string \<Rightarrow> string" where
  "GetTerminationSnapshotName n = n @ ''-termination''"

definition GetSnapshotJobName :: "string \<Rightarrow> string" where
  "GetSnapshotJobName n = n @ ''-job''"

text \<open>
  \<open>strings.SplitN(id, "://", 2)\<close> has two parts exactly when the separator occurs; the second is
  what follows its first occurrence.
\<close>

fun extract_from :: "string \<Rightarrow> container_status list \<Rightarrow> string + string" where
  "extract_from name [] = Inl (''container '' @ quoted name @ '' not found in pod status'')"
| "extract_from name (cs # rest) =
     (if csName cs = name then
        if csContainerID cs = [] then
          Inl (''container '' @ quoted name @ '' has no containerID yet'')
        else
          (case str_cut (csContainerID cs) ''://'' of
             (scheme, cid, found) \<Rightarrow>
               if \<not> found then
                 Inl (''unexpected containerID format for '' @ quoted name @ '': ''
                      @ csContainerID cs)
               else Inr cid)
      else extract_from name rest)"

definition ExtractContainerID :: "pod option \<Rightarrow> string \<Rightarrow> string + string" where
  "ExtractContainerID p name =
     (case p of
        None \<Rightarrow> Inl ''pod is nil''
      | Some q \<Rightarrow>
          (case podContainerStatuses (podStatus q) of
             None \<Rightarrow> Inl ''pod has no container statuses''
           | Some css \<Rightarrow> extract_from name css))"

text \<open>The three loops over the conditions of a job (\<open>None\<close> for a nil job).\<close>

definition job_condition_true :: "string \<Rightarrow> job_condition \<Rightarrow> bool" where
  "job_condition_true t c \<longleftrightarrow> jcType c = t \<and> jcStatus c = StatusTrue"

definition IsJobComplete :: "job_condition list option \<Rightarrow> bool" where
  "IsJobComplete j \<longleftrightarrow>
     (case j of None \<Rightarrow> False | Some cs \<Rightarrow> list_ex (job_condition_true ''Complete'') cs)"

definition IsJobFailed :: "job_condition list option \<Rightarrow> bool" where
  "IsJobFailed j \<longleftrightarrow>
     (case j of None \<Rightarrow> False | Some cs \<Rightarrow> list_ex (job_condition_true ''Failed'') cs)"

definition GetJobConditionMessage :: "job_condition list option \<Rightarrow> string \<Rightarrow> string" where
  "GetJobConditionMessage j t =
     (case j of
        None \<Rightarrow> []
      | Some cs \<Rightarrow> (case find (job_condition_true t) cs of None \<Rightarrow> [] | Some c \<Rightarrow> jcMessage c))"

lemma IsPodReady_None [simp]: "\<not> IsPodReady None"
  by (simp add: IsPodReady_def)

lemma IsPodTerminated_None [simp]: "\<not> IsPodTerminated None"
  by (simp add: IsPodTerminated_def)

lemma PodStartTime_None [simp]: "PodStartTime None = None"
  by (simp add: PodStartTime_def)

lemma pod_ready_not_terminated: "IsPodReady p \<Longrightarrow> \<not> IsPodTerminated p"
  by (auto simp: IsPodReady_def IsPodTerminated_def split: option.splits)

text \<open>The names of the objects derived from a sandbox never clash.\<close>

lemma derived_names_inj:
  "GetSandboxPodName m = GetSandboxPodName n \<longleftrightarrow> m = n"
  "GetCustomNetworkPolicyName m = GetCustomNetworkPolicyName n \<longleftrightarrow> m = n"
  "GetTerminationSnapshotName m = GetTerminationSnapshotName n \<longleftrightarrow> m = n"
  by (simp_all add: GetSandboxPodName_def GetCustomNetworkPolicyName_def
      GetTerminationSnapshotName_def)

lemma extract_from_Inr:
  "extract_from name css = Inr cid \<Longrightarrow>
     \<exists>cs \<in> set css. csName cs = name \<and>
       (\<exists>scheme. csContainerID cs = scheme @ ''://'' @ cid \<and> \<not> sublist ''://'' scheme)"
proof (induction name css rule: extract_from.induct)
  case (2 name cs rest)
  show ?case
  proof (cases "csName cs = name")
    case False
    with 2 show ?thesis by auto
  next
    case True
    with 2(2) obtain i where i: "str_index (csContainerID cs) ''://'' = Some i"
      and cid: "cid = drop (i + 3) (csContainerID cs)"
      by (auto simp: str_cut_def eval_nat_numeral split: if_splits option.splits)
    have eq: "csContainerID cs = take i (csContainerID cs) @ ''://'' @ cid"
      using str_index_Some [OF i] cid by (simp add: eval_nat_numeral)
    have "\<not> sublist ''://'' (take i (csContainerID cs))"
      using str_index_before [OF i] by simp
    with True eq show ?thesis by auto
  qed
qed simp

end
