(* ===== verification/Netip.thy ===== *)
theory Netip
  imports Prelude
begin

unbundle bit_operations_syntax

text \<open>
  The part of the standard library's \<open>net/netip\<close> the operator uses: addresses and prefixes as
  32-bit and 128-bit words, masking, containment, parsing and printing. The texts of its errors
  are reduced to the input they name.

  \<open>addr_in\<close> reads a prefix as the set of its addresses. The lemmas show that inclusion of these
  sets is decided on the bits, that two prefixes are nested or disjoint, and that parsing
  inverts printing in both families.
\<close>


section \<open>Addresses and prefixes\<close>

text \<open>An address of either family; the string of an IPv6 address is its zone.\<close>

datatype ip_addr = IPv4 "32 word" | IPv6 "128 word" string

record ip_prefix =
  pfxAddr :: ip_addr
  pfxBits :: nat

fun Is4 :: "ip_addr \<Rightarrow> bool" where
  "Is4 (IPv4 a) = True"
| "Is4 (IPv6 a z) = False"

fun Is6 :: "ip_addr \<Rightarrow> bool" where
  "Is6 (IPv4 a) = False"
| "Is6 (IPv6 a z) = True"

fun Is4In6 :: "ip_addr \<Rightarrow> bool" where
  "Is4In6 (IPv4 a) = False"
| "Is4In6 (IPv6 a z) = (drop_bit 32 a = 0xFFFF)"

fun zone_of :: "ip_addr \<Rightarrow> string" where
  "zone_of (IPv4 a) = []"
| "zone_of (IPv6 a z) = z"

fun max_bits :: "ip_addr \<Rightarrow> nat" where
  "max_bits (IPv4 a) = 32"
| "max_bits (IPv6 a z) = 128"

text \<open>\<open>PrefixFrom\<close> drops the zone; \<open>Masked\<close> clears the bits after the prefix length.\<close>

definition PrefixFrom :: "ip_addr \<Rightarrow> nat \<Rightarrow> ip_prefix" where
  "PrefixFrom a n =
     \<lparr>pfxAddr = (case a of IPv4 x \<Rightarrow> IPv4 x | IPv6 x z \<Rightarrow> IPv6 x []), pfxBits = n\<rparr>"

definition Masked :: "ip_prefix \<Rightarrow> ip_prefix" where
  "Masked p =
     (case pfxAddr p of
        IPv4 x \<Rightarrow> \<lparr>pfxAddr = IPv4 (x AND NOT (mask (32 - pfxBits p))), pfxBits = pfxBits p\<rparr>
      | IPv6 x z \<Rightarrow> \<lparr>pfxAddr = IPv6 (x AND NOT (mask (128 - pfxBits p))) [], pfxBits = pfxBits p\<rparr>)"

text \<open>\<open>p.Contains(a)\<close>: an address with a zone is in no prefix.\<close>

definition addr_in :: "ip_prefix \<Rightarrow> ip_addr \<Rightarrow> bool" where
  "addr_in p a =
     (case (pfxAddr p, a) of
        (IPv4 x, IPv4 y) \<Rightarrow> drop_bit (32 - pfxBits p) (y XOR x) = 0
      | (IPv6 x z, IPv6 y w) \<Rightarrow> w = [] \<and> drop_bit (128 - pfxBits p) (y XOR x) = 0
      | _ \<Rightarrow> False)"

subsection \<open>Parsing\<close>

definition bytes_value :: "nat list \<Rightarrow> nat" where
  "bytes_value bs = foldl (\<lambda>n b. 256 * n + b) 0 bs"

text \<open>
  A field of a dotted address: digits, at most 255, and no leading zero. \<open>v4_fields\<close> is
  \<open>parseIPv4Fields\<close>: four fields.
\<close>

definition v4_field :: "string \<Rightarrow> nat option" where
  "v4_field f =
     (if f = [] \<or> \<not> list_all is_digit f \<or> (1 < length f \<and> hd f = CHR ''0'')
        \<or> 255 < digits_value f
      then None else Some (digits_value f))"

definition v4_fields :: "string \<Rightarrow> nat list option" where
  "v4_fields s =
     (let fs = split_char CHR ''.'' s in
      if length fs = 4 then those (map v4_field fs) else None)"

definition hex_value :: "char \<Rightarrow> nat option" where
  "hex_value c =
     (let n = of_char c :: nat in
      if 48 \<le> n \<and> n \<le> 57 then Some (n - 48)
      else if 97 \<le> n \<and> n \<le> 102 then Some (n - 87)
      else if 65 \<le> n \<and> n \<le> 70 then Some (n - 55)
      else None)"

definition is_hex :: "char \<Rightarrow> bool" where
  "is_hex c \<longleftrightarrow> hex_value c \<noteq> None"

definition hex_number :: "string \<Rightarrow> nat" where
  "hex_number s = foldl (\<lambda>n c. 16 * n + (case hex_value c of None \<Rightarrow> 0 | Some d \<Rightarrow> d)) 0 s"

text \<open>
  The loop of \<open>parseIPv6\<close>: the 16-bit groups read so far as bytes, the position of the ellipsis
  and the rest of the text. The number counts the groups that still fit.
\<close>

fun v6_loop :: "nat \<Rightarrow> string \<Rightarrow> nat list \<Rightarrow> nat option \<Rightarrow> (nat list \<times> nat option \<times> string) option" where
  "v6_loop 0 s bs ell = Some (bs, ell, s)"
| "v6_loop (Suc k) s bs ell =
     (let ds = takeWhile is_hex s; rest = dropWhile is_hex s; n = hex_number ds in
      if ds = [] \<or> 4 < length ds then None
      else if rest \<noteq> [] \<and> hd rest = CHR ''.'' then
        if (ell = None \<and> length bs \<noteq> 12) \<or> 12 < length bs then None
        else (case v4_fields s of None \<Rightarrow> None | Some fs \<Rightarrow> Some (bs @ fs, ell, []))
      else
        let bs' = bs @ [n div 256, n mod 256] in
        if rest = [] then Some (bs', ell, [])
        else if hd rest \<noteq> CHR '':'' \<or> tl rest = [] then None
        else
          let s' = tl rest in
          if hd s' = CHR '':'' then
            if ell \<noteq> None then None
            else if tl s' = [] then Some (bs', Some (length bs'), [])
            else v6_loop k (tl s') bs' (Some (length bs'))
          else v6_loop k s' bs' ell)"

definition v6_finish :: "nat list \<Rightarrow> nat option \<Rightarrow> string \<Rightarrow> nat list option" where
  "v6_finish bs ell rest =
     (if rest \<noteq> [] then None
      else if length bs < 16 then
        (case ell of
           None \<Rightarrow> None
         | Some e \<Rightarrow> Some (take e bs @ replicate (16 - length bs) 0 @ drop e bs))
      else if ell \<noteq> None then None
      else Some bs)"

definition parse_v6 :: "string \<Rightarrow> ip_addr option" where
  "parse_v6 inp =
     (case str_cut inp ''%'' of
        (s, zone, has_zone) \<Rightarrow>
          if has_zone \<and> zone = [] then None
          else if s = ''::'' then Some (IPv6 0 zone)
          else
            let ell = (if prefix ''::'' s then Some 0 else None);
                body = (if prefix ''::'' s then drop 2 s else s) in
            (case v6_loop 8 body [] ell of
               None \<Rightarrow> None
             | Some (bs, e, rest) \<Rightarrow>
                 map_option (\<lambda>l. IPv6 (word_of_nat (bytes_value l)) zone) (v6_finish bs e rest)))"

definition parse_v4 :: "string \<Rightarrow> ip_addr option" where
  "parse_v4 s = map_option (\<lambda>fs. IPv4 (word_of_nat (bytes_value fs))) (v4_fields s)"

definition netip_ParseAddr :: "string \<Rightarrow> ip_addr option" where
  "netip_ParseAddr s =
     (case find (\<lambda>c. c \<in> set ''.:%'') s of
        None \<Rightarrow> None
      | Some c \<Rightarrow> if c = CHR ''.'' then parse_v4 s
                  else if c = CHR '':'' then parse_v6 s
                  else None)"

text \<open>\<open>netip.ParsePrefix\<close>: the bits follow the last slash, without sign or leading zero.\<close>

definition parse_bits :: "string \<Rightarrow> nat option" where
  "parse_bits s =
     (if s = [] \<or> \<not> list_all is_digit s \<or> (1 < length s \<and> hd s = CHR ''0'') then None
      else Some (digits_value s))"

definition netip_ParsePrefix :: "string \<Rightarrow> ip_prefix option" where
  "netip_ParsePrefix s =
     (if CHR ''/'' \<notin> set s then None
      else
        let bits = rev (takeWhile (\<lambda>c. c \<noteq> CHR ''/'') (rev s));
            addr = take (length s - length bits - 1) s in
        (case netip_ParseAddr addr of
           None \<Rightarrow> None
         | Some a \<Rightarrow>
             if zone_of a \<noteq> [] then None
             else (case parse_bits bits of
                     None \<Rightarrow> None
                   | Some n \<Rightarrow> if max_bits a < n then None else Some (PrefixFrom a n))))"

subsection \<open>Printing\<close>

definition v4_bytes :: "32 word \<Rightarrow> nat list" where
  "v4_bytes x = map (\<lambda>i. unat (drop_bit i x) mod 256) [24, 16, 8, 0]"

definition v4_string :: "32 word \<Rightarrow> string" where
  "v4_string x = str_join ''.'' (map nat_digits (v4_bytes x))"

definition v6_groups :: "128 word \<Rightarrow> nat list" where
  "v6_groups x = map (\<lambda>i. unat (drop_bit i x) mod 65536) [112, 96, 80, 64, 48, 32, 16, 0]"

definition hex_char :: "nat \<Rightarrow> char" where
  "hex_char n = char_of (if n < 10 then 48 + n else 87 + n)"

fun hex_digits :: "nat \<Rightarrow> string" where
  "hex_digits n =
     (if n < 16 then [hex_char n] else hex_digits (n div 16) @ [hex_char (n mod 16)])"

declare hex_digits.simps [simp del]

definition zero_run :: "nat list \<Rightarrow> nat \<Rightarrow> nat" where
  "zero_run gs i = length (takeWhile (\<lambda>g. g = 0) (drop i gs))"

text \<open>The first longest run of at least two zero groups, as start and length.\<close>

definition best_run :: "nat list \<Rightarrow> nat \<times> nat" where
  "best_run gs =
     foldl (\<lambda>(s, l) i. if 2 \<le> zero_run gs i \<and> l < zero_run gs i then (i, zero_run gs i) else (s, l))
       (0, 0) [0..<length gs]"

definition v6_string :: "128 word \<Rightarrow> string" where
  "v6_string x =
     (let gs = v6_groups x; (s, l) = best_run gs; hexes = map hex_digits in
      if l = 0 then str_join '':'' (hexes gs)
      else str_join '':'' (hexes (take s gs)) @ ''::'' @ str_join '':'' (hexes (drop (s + l) gs)))"

definition addr_string :: "ip_addr \<Rightarrow> string" where
  "addr_string a =
     (case a of
        IPv4 x \<Rightarrow> v4_string x
      | IPv6 x z \<Rightarrow>
          (if Is4In6 a then ''::ffff:'' @ v4_string (ucast x) else v6_string x)
          @ (if z = [] then [] else ''%'' @ z))"

definition prefix_string :: "ip_prefix \<Rightarrow> string" where
  "prefix_string p = addr_string (pfxAddr p) @ ''/'' @ nat_digits (pfxBits p)"


section \<open>Prefixes as sets of addresses\<close>

lemma xor_word_zero: "(a :: 'a::len word) XOR b = 0 \<longleftrightarrow> a = b"
  by (metis xor.left_neutral xor.assoc xor.right_neutral xor_self_eq)

lemma drop_bit_masked: "drop_bit n (a AND NOT (mask n)) = drop_bit n (a :: 'a::len word)"
  by (rule bit_word_eqI) (auto simp: bit_simps dest: bit_imp_le_length)

lemma masked_word_eq:
  "a AND NOT (mask n) = b AND NOT (mask n) \<longleftrightarrow> drop_bit n a = drop_bit n (b :: 'a::len word)"
  (is "?l = ?r")
proof
  assume ?l
  then show ?r by (metis drop_bit_masked)
next
  assume r: ?r
  show ?l
  proof (rule bit_word_eqI)
    fix k assume "k < LENGTH('a)"
    show "bit (a AND NOT (mask n)) k = bit (b AND NOT (mask n)) k"
      using r [THEN arg_cong, of "\<lambda>x. bit x (k - n)"] by (cases "k < n") (auto simp: bit_simps)
  qed
qed

lemma masked_word_idem:
  "(a AND NOT (mask n)) AND NOT (mask n) = a AND NOT (mask n :: 'a::len word)"
  by (simp add: masked_word_eq drop_bit_masked)

lemma drop_bit_coarser:
  "n \<le> m \<Longrightarrow> drop_bit n a = drop_bit n b \<Longrightarrow> drop_bit m a = drop_bit m (b :: 'a::len word)"
  by (metis drop_bit_drop_bit le_add_diff_inverse2)

lemma drop_bit_differ:
  assumes "n < m" "m \<le> LENGTH('a)"
  shows "\<exists>b. drop_bit m b = drop_bit m (a :: 'a::len word) \<and> drop_bit n b \<noteq> drop_bit n a"
proof -
  let ?b = "flip_bit n a"
  have 1: "drop_bit m ?b = drop_bit m a"
    using assms by (intro bit_word_eqI) (auto simp: bit_simps dest: bit_imp_le_length)
  have "bit (drop_bit n ?b) 0 \<noteq> bit (drop_bit n a) 0"
    using assms by (simp add: bit_simps)
  with 1 show ?thesis by metis
qed

definition wf_prefix :: "ip_prefix \<Rightarrow> bool" where
  "wf_prefix p \<longleftrightarrow> pfxBits p \<le> max_bits (pfxAddr p) \<and> zone_of (pfxAddr p) = []"

lemma addr_in_IPv4 [simp]:
  "addr_in p (IPv4 y) \<longleftrightarrow>
     (\<exists>x. pfxAddr p = IPv4 x \<and> drop_bit (32 - pfxBits p) y = drop_bit (32 - pfxBits p) x)"
  by (cases "pfxAddr p") (simp_all add: addr_in_def drop_bit_xor xor_word_zero)

lemma addr_in_IPv6 [simp]:
  "addr_in p (IPv6 y w) \<longleftrightarrow> w = [] \<and>
     (\<exists>x z. pfxAddr p = IPv6 x z \<and> drop_bit (128 - pfxBits p) y = drop_bit (128 - pfxBits p) x)"
  by (cases "pfxAddr p") (auto simp add: addr_in_def drop_bit_xor xor_word_zero)

lemma addr_in_family: "addr_in p a \<Longrightarrow> Is4 (pfxAddr p) = Is4 a"
  by (cases a) auto

lemma Is6_not_Is4: "Is6 a \<longleftrightarrow> \<not> Is4 a"
  by (cases a) simp_all

lemma Masked_bits [simp]: "pfxBits (Masked p) = pfxBits p"
  by (simp add: Masked_def split: ip_addr.splits)

lemma Masked_family [simp]: "Is4 (pfxAddr (Masked p)) = Is4 (pfxAddr p)"
    "Is6 (pfxAddr (Masked p)) = Is6 (pfxAddr p)" "max_bits (pfxAddr (Masked p)) = max_bits (pfxAddr p)"
  by (simp_all add: Masked_def split: ip_addr.splits)

lemma addr_in_Masked [simp]: "addr_in (Masked p) a = addr_in p a"
  by (cases a) (auto simp: Masked_def drop_bit_masked simp del: drop_bit_and split: ip_addr.splits)

lemma Masked_idem [simp]: "Masked (Masked p) = Masked p"
  by (simp add: Masked_def masked_word_idem split: ip_addr.splits)

lemma wf_prefix_Masked [simp]: "wf_prefix p \<Longrightarrow> wf_prefix (Masked p)"
  by (auto simp: wf_prefix_def Masked_def split: ip_addr.splits)

lemma addr_in_network [simp]: "wf_prefix p \<Longrightarrow> addr_in p (pfxAddr p)"
  by (cases "pfxAddr p") (auto simp: wf_prefix_def)

text \<open>Inclusion of the sets is a comparison of lengths and of one address.\<close>

definition prefix_covers :: "ip_prefix \<Rightarrow> ip_prefix \<Rightarrow> bool" where
  "prefix_covers p q \<longleftrightarrow> (\<forall>a. addr_in q a \<longrightarrow> addr_in p a)"

lemma prefix_covers_refl [simp]: "prefix_covers p p"
  by (simp add: prefix_covers_def)

lemma prefix_covers_trans: "prefix_covers p q \<Longrightarrow> prefix_covers q r \<Longrightarrow> prefix_covers p r"
  by (simp add: prefix_covers_def)

lemma prefix_covers_bits:
  assumes "wf_prefix p" "wf_prefix q" "prefix_covers p q"
  shows "pfxBits p \<le> pfxBits q"
proof (rule ccontr)
  assume less: "\<not> pfxBits p \<le> pfxBits q"
  have fam: "Is4 (pfxAddr p) = Is4 (pfxAddr q)"
    using assms(2,3) addr_in_network addr_in_family unfolding prefix_covers_def by blast
  show False
  proof (cases "pfxAddr q")
    case (IPv4 x)
    have "32 - pfxBits p < 32 - pfxBits q"
      using less assms(1) fam by (cases "pfxAddr p") (auto simp: wf_prefix_def IPv4)
    then obtain y where y: "drop_bit (32 - pfxBits q) y = drop_bit (32 - pfxBits q) x"
        "drop_bit (32 - pfxBits p) y \<noteq> drop_bit (32 - pfxBits p) x"
      using drop_bit_differ [of "32 - pfxBits p" "32 - pfxBits q" x] by auto
    have "addr_in q (IPv4 x)" "addr_in q (IPv4 y)" using IPv4 y by simp_all
    then have "addr_in p (IPv4 x)" "addr_in p (IPv4 y)"
      using assms(3) by (auto simp only: prefix_covers_def)
    then show False using y by auto
  next
    case (IPv6 x z)
    have "128 - pfxBits p < 128 - pfxBits q"
      using less assms(1) fam by (cases "pfxAddr p") (auto simp: wf_prefix_def IPv6)
    then obtain y where y: "drop_bit (128 - pfxBits q) y = drop_bit (128 - pfxBits q) x"
        "drop_bit (128 - pfxBits p) y \<noteq> drop_bit (128 - pfxBits p) x"
      using drop_bit_differ [of "128 - pfxBits p" "128 - pfxBits q" x] by auto
    have "addr_in q (IPv6 x [])" "addr_in q (IPv6 y [])" using IPv6 y by simp_all
    then have "addr_in p (IPv6 x [])" "addr_in p (IPv6 y [])"
      using assms(3) by (auto simp only: prefix_covers_def)
    then show False using y by auto
  qed
qed

lemma prefix_coversI:
  assumes "addr_in p (pfxAddr q)" "pfxBits p \<le> pfxBits q"
  shows "prefix_covers p q"
  unfolding prefix_covers_def
proof (intro allI impI)
  fix a assume a: "addr_in q a"
  show "addr_in p a"
  proof (cases a)
    case (IPv4 y)
    then obtain x where "pfxAddr q = IPv4 x"
        "drop_bit (32 - pfxBits q) y = drop_bit (32 - pfxBits q) x"
      using a by auto
    moreover from this have "drop_bit (32 - pfxBits p) y = drop_bit (32 - pfxBits p) x"
      using assms(2) by (intro drop_bit_coarser [of "32 - pfxBits q" "32 - pfxBits p"]) auto
    ultimately show ?thesis using assms(1) IPv4 by auto
  next
    case (IPv6 y w)
    then obtain x z where "w = []" "pfxAddr q = IPv6 x z"
        "drop_bit (128 - pfxBits q) y = drop_bit (128 - pfxBits q) x"
      using a by auto
    moreover from this have "drop_bit (128 - pfxBits p) y = drop_bit (128 - pfxBits p) x"
      using assms(2) by (intro drop_bit_coarser [of "128 - pfxBits q" "128 - pfxBits p"]) auto
    ultimately show ?thesis using assms(1) IPv6 by auto
  qed
qed

lemma prefix_covers_iff:
  assumes "wf_prefix p" "wf_prefix q"
  shows "prefix_covers p q \<longleftrightarrow> pfxBits p \<le> pfxBits q \<and> addr_in p (pfxAddr q)"
  using assms prefix_covers_bits [OF assms] prefix_coversI [of p q] addr_in_network [OF assms(2)]
  by (auto simp: wf_prefix_def prefix_covers_def)

lemma addr_in_sym:
  assumes "addr_in q a" "wf_prefix q" "wf_prefix p" "addr_in p a" "pfxBits p \<le> pfxBits q"
  shows "addr_in p (pfxAddr q)"
proof -
  have "addr_in (p \<lparr>pfxAddr := pfxAddr q\<rparr>) a"
    using prefix_coversI [of "p \<lparr>pfxAddr := pfxAddr q\<rparr>" q] assms addr_in_family [of p a]
      addr_in_family [of q a]
    by (cases "pfxAddr q") (auto simp: prefix_covers_def wf_prefix_def)
  with assms show ?thesis by (cases a) (auto simp: wf_prefix_def)
qed

lemma addr_in_same:
  "addr_in p a \<Longrightarrow> addr_in q a \<Longrightarrow> pfxBits p \<le> pfxBits q \<Longrightarrow> wf_prefix p \<Longrightarrow> wf_prefix q \<Longrightarrow>
     prefix_covers p q"
  by (rule prefix_coversI) (auto intro: addr_in_sym)

text \<open>Two prefixes are nested or disjoint, and a masked prefix is determined by its set.\<close>

lemma nested_or_disjoint:
  assumes "wf_prefix p" "wf_prefix q" "addr_in p a" "addr_in q a"
  shows "prefix_covers p q \<or> prefix_covers q p"
  using addr_in_same [of p a q] addr_in_same [of q a p] assms by (meson nle_le)

lemma Masked_eq_iff:
  assumes "wf_prefix p" "wf_prefix q"
  shows "Masked p = Masked q \<longleftrightarrow> prefix_covers p q \<and> prefix_covers q p"
proof
  assume "Masked p = Masked q"
  then show "prefix_covers p q \<and> prefix_covers q p"
    by (metis addr_in_Masked prefix_covers_def)
next
  assume c: "prefix_covers p q \<and> prefix_covers q p"
  then have b: "pfxBits p = pfxBits q" using prefix_covers_bits assms by (simp add: le_antisym)
  have "addr_in p (pfxAddr q)" using c assms by (simp add: prefix_covers_iff)
  with b show "Masked p = Masked q"
    by (cases "pfxAddr q") (auto simp: Masked_def masked_word_eq)
qed


section \<open>Parsing inverts printing\<close>

lemma bytes_value_snoc [simp]: "bytes_value (bs @ [b]) = 256 * bytes_value bs + b"
  by (simp add: bytes_value_def)

lemma bytes_value_Nil [simp]: "bytes_value [] = 0"
  by (simp add: bytes_value_def)

lemma unat_drop_bit_div: "unat (drop_bit i (x :: 'a::len word)) = unat x div 2 ^ i"
  unfolding unat_drop_bit_eq by (simp add: drop_bit_eq_div)

lemma v4_bytes_unat:
  "v4_bytes x = map (\<lambda>i. unat x div 2 ^ i mod 256) [24, 16, 8, 0]"
  unfolding v4_bytes_def unat_drop_bit_div ..

lemma v6_groups_unat:
  "v6_groups x = map (\<lambda>i. unat x div 2 ^ i mod 65536) [112, 96, 80, 64, 48, 32, 16, 0]"
  unfolding v6_groups_def unat_drop_bit_div ..

text \<open>Reading a number back from its digits in base \<open>b\<close>, four or eight of them.\<close>

lemma fold_digits4:
  assumes "\<And>i j :: nat. j = i + 8 \<Longrightarrow> b * f j + f i mod b = f i" "f 24 < b"
  shows "foldl (\<lambda>n g. b * n + g) 0 (map (\<lambda>i. f i mod b) [24, 16, 8, 0]) = (f 0 :: nat)"
  using assms(2) assms(1) [of 8 0] by (simp add: assms(1))

lemma fold_digits8:
  assumes "\<And>i j :: nat. j = i + 16 \<Longrightarrow> b * f j + f i mod b = f i" "f 112 < b"
  shows "foldl (\<lambda>n g. b * n + g) 0 (map (\<lambda>i. f i mod b) [112, 96, 80, 64, 48, 32, 16, 0])
     = (f 0 :: nat)"
  using assms(2) assms(1) [of 16 0] by (simp add: assms(1))

lemma div_step: "2 ^ k * ((x :: nat) div 2 ^ (i + k)) + x div 2 ^ i mod 2 ^ k = x div 2 ^ i"
  by (simp add: power_add div_mult2_eq)

lemma unat_less: "unat (x :: 'a::len word) < 2 ^ LENGTH('a)"
  by (rule unsigned_less)

lemma v4_bytes_value: "bytes_value (v4_bytes x) = unat x"
proof -
  have "unat x div 2 ^ 24 < 256"
    using unat_less [of x] by (simp add: less_mult_imp_div_less)
  then show ?thesis
    using fold_digits4 [of 256 "\<lambda>i. unat x div 2 ^ i"] div_step [of 8 "unat x"]
    by (simp add: bytes_value_def v4_bytes_unat)
qed

definition group_bytes :: "nat list \<Rightarrow> nat list" where
  "group_bytes gs = concat (map (\<lambda>g. [g div 256, g mod 256]) gs)"

lemma length_group_bytes [simp]: "length (group_bytes gs) = 2 * length gs"
  by (induction gs) (simp_all add: group_bytes_def)

lemma bytes_value_two: "bytes_value (bs @ [b, c]) = 65536 * bytes_value bs + 256 * b + c"
  by (simp add: bytes_value_def)

lemma group_bytes_value: "bytes_value (bs @ group_bytes gs) = foldl (\<lambda>n g. 65536 * n + g) (bytes_value bs) gs"
proof (induction gs arbitrary: bs)
  case (Cons g gs)
  have "bytes_value (bs @ [g div 256, g mod 256]) = 65536 * bytes_value bs + g"
    by (simp add: bytes_value_two)
  then show ?case using Cons [of "bs @ [g div 256, g mod 256]"] by (simp add: group_bytes_def)
qed (simp add: group_bytes_def)

lemma v6_groups_value: "bytes_value (group_bytes (v6_groups x)) = unat x"
proof -
  have "unat x div 2 ^ 112 < 65536"
    using unat_less [of x] by (simp add: less_mult_imp_div_less)
  then show ?thesis
    using group_bytes_value [of "[]" "v6_groups x"] div_step [of 16 "unat x"]
      fold_digits8 [of 65536 "\<lambda>i. unat x div 2 ^ i"]
    by (simp add: v6_groups_unat)
qed

subsection \<open>IPv4\<close>

lemma is_digit_chars: "is_digit c \<Longrightarrow> c \<notin> set ''./:%''"
  by (auto simp: is_digit_def)

lemma nat_digits_hd: "n \<noteq> 0 \<Longrightarrow> hd (nat_digits n) \<noteq> CHR ''0''"
proof (induction n rule: nat_digits.induct)
  case (1 n)
  show ?case
  proof (cases "n < 10")
    case True
    with 1(2) have "char_of (48 + n) \<noteq> CHR ''0''"
      by (simp add: char_of_eq_iff take_bit_eq_mod)
    with True 1(2) show ?thesis by (subst nat_digits.simps) auto
  next
    case False
    with 1 show ?thesis by (subst nat_digits.simps) simp
  qed
qed

lemma nat_digits_zero [simp]: "nat_digits 0 = ''0''"
  by (simp add: nat_digits.simps char_of_eq_iff)

lemma nat_digits_no_leading_zero: "1 < length (nat_digits n) \<Longrightarrow> hd (nat_digits n) \<noteq> CHR ''0''"
  by (cases "n = 0") (simp_all add: nat_digits_hd)

lemma nat_digits_all_digits: "list_all is_digit (nat_digits n)"
  using nat_digits_digits by (auto simp: list_all_iff)

lemma v4_field_nat_digits: "n \<le> 255 \<Longrightarrow> v4_field (nat_digits n) = Some n"
  by (simp add: v4_field_def nat_digits_all_digits nat_digits_no_leading_zero)

lemma those_map_Some: "(\<And>x. x \<in> set xs \<Longrightarrow> f x = Some (g x)) \<Longrightarrow> those (map f xs) = Some (map g xs)"
  by (induction xs) auto

lemma v4_fields_string:
  "v4_fields (str_join ''.'' (map nat_digits bs)) = Some bs"
  if "length bs = 4" "\<forall>b \<in> set bs. b \<le> 255" for bs
proof -
  have "split_char CHR ''.'' (str_join ''.'' (map nat_digits bs)) = map nat_digits bs"
    using that is_digit_chars nat_digits_digits by (intro split_char_str_join) fastforce+
  then show ?thesis
    using that by (simp add: v4_fields_def v4_field_nat_digits those_map_Some o_def)
qed

lemma v4_bytes_bounds: "length (v4_bytes x) = 4" "\<forall>b \<in> set (v4_bytes x). b \<le> 255"
  by (simp_all add: v4_bytes_def less_Suc_eq_le [symmetric])

lemma parse_v4_string: "parse_v4 (v4_string x) = Some (IPv4 x)"
  by (simp add: parse_v4_def v4_string_def v4_fields_string v4_bytes_bounds v4_bytes_value)


subsection \<open>IPv6\<close>

lemma hex_value_hex_char [simp]: "n < 16 \<Longrightarrow> hex_value (hex_char n) = Some n"
  by (auto simp: hex_value_def hex_char_def Let_def take_bit_eq_mod)

lemma hex_number_snoc [simp]:
  "hex_number (s @ [c]) = 16 * hex_number s + (case hex_value c of None \<Rightarrow> 0 | Some d \<Rightarrow> d)"
  by (simp add: hex_number_def)

lemma hex_number_hex_digits [simp]: "hex_number (hex_digits n) = n"
proof (induction n rule: hex_digits.induct)
  case (1 n)
  then show ?case
    by (subst hex_digits.simps) (auto simp: hex_number_def [of "[_]"])
qed

lemma hex_digits_hex: "c \<in> set (hex_digits n) \<Longrightarrow> is_hex c"
proof (induction n arbitrary: c rule: hex_digits.induct)
  case (1 n)
  then show ?case
    by (subst (asm) hex_digits.simps) (auto simp: is_hex_def split: if_splits)
qed

lemma hex_digits_not_Nil [simp]: "hex_digits n \<noteq> []"
  by (subst hex_digits.simps) simp

lemma hex_digits_length: "n < 16 ^ Suc k \<Longrightarrow> length (hex_digits n) \<le> Suc k"
proof (induction k arbitrary: n)
  case 0
  then show ?case by (subst hex_digits.simps) simp
next
  case (Suc k)
  then have "n div 16 < 16 ^ Suc k" by (simp add: less_mult_imp_div_less)
  then show ?case using Suc.IH [of "n div 16"] by (subst hex_digits.simps) simp
qed

lemma not_hex [simp]: "\<not> is_hex CHR '':''" "\<not> is_hex CHR ''.''" "\<not> is_hex CHR ''%''" "\<not> is_hex CHR ''/''"
  by (simp_all add: is_hex_def hex_value_def)

lemma takeWhile_hex [simp]: "takeWhile is_hex (hex_digits n @ s) = hex_digits n @ takeWhile is_hex s"
  and dropWhile_hex [simp]: "dropWhile is_hex (hex_digits n @ s) = dropWhile is_hex s"
  using hex_digits_hex by (simp_all add: takeWhile_append2 dropWhile_append2)

lemma takeWhile_hex_all [simp]: "takeWhile is_hex (hex_digits n) = hex_digits n"
  and dropWhile_hex_all [simp]: "dropWhile is_hex (hex_digits n) = []"
  using takeWhile_hex [of n "[]"] dropWhile_hex [of n "[]"] by simp_all

definition colons :: "nat list \<Rightarrow> string" where
  "colons gs = str_join '':'' (map hex_digits gs)"

lemma colons_Nil [simp]: "colons [] = []"
  by (simp add: colons_def)

lemma colons_Cons: "colons (g # gs) = hex_digits g @ (if gs = [] then [] else CHR '':'' # colons gs)"
  by (cases gs) (simp_all add: colons_def)

lemma colons_hd: "gs \<noteq> [] \<Longrightarrow> \<exists>c cs. colons gs = c # cs \<and> c \<noteq> CHR '':''"
proof (cases gs)
  case (Cons g gs')
  obtain c cs where "hex_digits g = c # cs" by (cases "hex_digits g") simp_all
  then show ?thesis using Cons hex_digits_hex [of c g] not_hex by (auto simp: colons_Cons)
qed simp

lemma group_bytes_Cons [simp]: "group_bytes (g # gs) = [g div 256, g mod 256] @ group_bytes gs"
  by (simp add: group_bytes_def)

lemma group_bytes_Nil [simp]: "group_bytes [] = []"
  by (simp add: group_bytes_def)

lemma hex_digits_length4: "g < 65536 \<Longrightarrow> \<not> 4 < length (hex_digits g)"
  using hex_digits_length [of g 3] by simp

lemma v6_loop_colons:
  "gs \<noteq> [] \<Longrightarrow> length gs \<le> k \<Longrightarrow> \<forall>g \<in> set gs. g < 65536 \<Longrightarrow>
     v6_loop k (colons gs) bs ell = Some (bs @ group_bytes gs, ell, [])"
proof (induction gs arbitrary: k bs)
  case (Cons g gs)
  then obtain k' where k: "k = Suc k'" by (cases k) simp_all
  show ?case
  proof (cases "gs = []")
    case True
    with Cons k show ?thesis by (simp add: hex_digits_length4 colons_Cons)
  next
    case False
    then obtain c cs where c: "colons gs = c # cs" "c \<noteq> CHR '':''" using colons_hd by blast
    have "v6_loop k' (colons gs) (bs @ [g div 256, g mod 256]) ell
        = Some ((bs @ [g div 256, g mod 256]) @ group_bytes gs, ell, [])"
      using Cons False k by (intro Cons.IH) auto
    with Cons False k c show ?thesis
      by (simp add: hex_digits_length4 colons_Cons Let_def)
  qed
qed simp

lemma v6_loop_ellipsis:
  "gs \<noteq> [] \<Longrightarrow> length gs + length hs < k \<Longrightarrow> \<forall>g \<in> set gs \<union> set hs. g < 65536 \<Longrightarrow>
     v6_loop k (colons gs @ ''::'' @ colons hs) bs None
       = Some (bs @ group_bytes gs @ group_bytes hs, Some (length bs + 2 * length gs), [])"
proof (induction gs arbitrary: k bs)
  case (Cons g gs)
  then obtain k' where k: "k = Suc k'" by (cases k) simp_all
  show ?case
  proof (cases "gs = []")
    case True
    show ?thesis
    proof (cases "hs = []")
      case False
      have "v6_loop k' (colons hs) (bs @ [g div 256, g mod 256]) (Some (length bs + 2))
          = Some ((bs @ [g div 256, g mod 256]) @ group_bytes hs, Some (length bs + 2), [])"
        using Cons k False by (intro v6_loop_colons) auto
      with Cons k True False colons_hd [OF False] show ?thesis
        by (auto simp add: hex_digits_length4 colons_Cons Let_def)
    qed (use Cons k True in \<open>simp add: hex_digits_length4 colons_Cons Let_def\<close>)
  next
    case False
    then obtain c cs where c: "colons gs = c # cs" "c \<noteq> CHR '':''" using colons_hd by blast
    have "v6_loop k' (colons gs @ ''::'' @ colons hs) (bs @ [g div 256, g mod 256]) None
        = Some ((bs @ [g div 256, g mod 256]) @ group_bytes gs @ group_bytes hs,
            Some (length (bs @ [g div 256, g mod 256]) + 2 * length gs), [])"
      using Cons False k by (intro Cons.IH) auto
    with Cons False k c show ?thesis
      by (simp add: hex_digits_length4 colons_Cons Let_def)
  qed
qed simp

text \<open>The run the printer elides is a run of zeros of at least two groups.\<close>

lemma best_run_fold:
  "(\<And>i. i \<in> set is \<Longrightarrow> i < length gs) \<Longrightarrow>
   (l0 = 0 \<or> (2 \<le> l0 \<and> l0 = zero_run gs s0 \<and> s0 < length gs)) \<Longrightarrow>
   foldl (\<lambda>(s, l) i. if 2 \<le> zero_run gs i \<and> l < zero_run gs i then (i, zero_run gs i) else (s, l))
     (s0, l0) is = (s, l) \<Longrightarrow>
   l = 0 \<or> (2 \<le> l \<and> l = zero_run gs s \<and> s < length gs)"
  by (induction "is" arbitrary: s0 l0) (auto split: if_splits)

lemma best_run_zero:
  assumes "best_run gs = (s, l)"
  shows "l = 0 \<or> 2 \<le> l \<and> s + l \<le> length gs \<and> take l (drop s gs) = replicate l 0"
proof -
  have "l = 0 \<or> (2 \<le> l \<and> l = zero_run gs s \<and> s < length gs)"
    by (rule best_run_fold [of "[0..<length gs]" gs 0 0]) (use assms in \<open>auto simp: best_run_def\<close>)
  moreover have "zero_run gs s \<le> length gs - s"
    using length_takeWhile_le [of _ "drop s gs"] by (simp add: zero_run_def)
  moreover have "take (zero_run gs s) (drop s gs) = replicate (zero_run gs s) 0"
    unfolding zero_run_def takeWhile_eq_take [symmetric]
    by (metis (full_types) replicate_eqI set_takeWhileD)
  ultimately show ?thesis by auto
qed


lemma v6_string_colons:
  "v6_string x =
     (let gs = v6_groups x; (s, l) = best_run gs in
      if l = 0 then colons gs else colons (take s gs) @ ''::'' @ colons (drop (s + l) gs))"
  by (simp add: v6_string_def colons_def Let_def split: prod.splits)

lemma v6_groups_bounds: "length (v6_groups x) = 8" "\<forall>g \<in> set (v6_groups x). g < 65536"
  by (simp_all add: v6_groups_unat)

lemma colons_chars: "c \<in> set (colons gs) \<Longrightarrow> is_hex c \<or> c = CHR '':''"
  by (induction gs) (auto simp: colons_Cons dest: hex_digits_hex split: if_splits)

lemma v6_string_chars: "c \<in> set (v6_string x) \<Longrightarrow> is_hex c \<or> c = CHR '':''"
  by (auto simp: v6_string_colons Let_def split: prod.splits if_splits dest: colons_chars)

lemma str_cut_absent: "c \<notin> set s \<Longrightarrow> str_cut s [c] = (s, [], False)"
proof -
  assume "c \<notin> set s"
  then have "str_index s [c] = None" by (induction s) auto
  then show ?thesis by (simp add: str_cut_def)
qed

lemma group_bytes_append [simp]: "group_bytes (gs @ hs) = group_bytes gs @ group_bytes hs"
  by (simp add: group_bytes_def)

lemma group_bytes_replicate: "group_bytes (replicate n 0) = replicate (2 * n) 0"
  by (induction n) simp_all

lemma colons_prefix: "gs \<noteq> [] \<Longrightarrow> \<not> prefix ''::'' (colons gs @ s)"
  using colons_hd [of gs] by auto

lemma colons_not_ellipsis: "gs \<noteq> [] \<Longrightarrow> colons gs @ s \<noteq> ''::''"
  using colons_hd [of gs] by auto

lemma bytes_value_zeros [simp]: "bytes_value (replicate n 0) = 0"
proof -
  have "foldl (\<lambda>n b. 256 * n + b) 0 (replicate n 0) = (0 :: nat)" by (induction n) simp_all
  then show ?thesis by (simp add: bytes_value_def)
qed

lemma v6_finish_ellipsis:
  "0 < 16 - length (bs @ cs) \<Longrightarrow>
     v6_finish (bs @ cs) (Some (length bs)) [] = Some (bs @ replicate (16 - length (bs @ cs)) 0 @ cs)"
  by (simp add: v6_finish_def)

lemma parse_v6_string: "parse_v6 (v6_string x) = Some (IPv6 x [])"
proof -
  let ?gs = "v6_groups x"
  obtain s l where run: "best_run ?gs = (s, l)" by (cases "best_run ?gs")
  have "CHR ''%'' \<notin> set (v6_string x)" using v6_string_chars by fastforce
  then have cut: "str_cut (v6_string x) ''%'' = (v6_string x, [], False)" by (rule str_cut_absent)
  have len: "length ?gs = 8" and small: "\<forall>g \<in> set ?gs. g < 65536" by (rule v6_groups_bounds)+
  have ne: "?gs \<noteq> []" using len by auto
  have x: "(word_of_nat (bytes_value (group_bytes ?gs)) :: 128 word) = x"
    by (simp add: v6_groups_value)
  show ?thesis
  proof (cases "l = 0")
    case True
    then have "v6_string x = colons ?gs" using run by (simp add: v6_string_colons)
    moreover have "v6_loop 8 (colons ?gs) [] None = Some (group_bytes ?gs, None, [])"
      using v6_loop_colons [of ?gs 8 "[]" None] ne len small by simp
    ultimately show ?thesis
      using cut ne len x colons_prefix [OF ne, of "[]"] colons_not_ellipsis [OF ne, of "[]"]
      by (simp add: parse_v6_def v6_finish_def)
  next
    case False
    let ?a = "take s ?gs" and ?b = "drop (s + l) ?gs"
    have l: "2 \<le> l" "s + l \<le> 8" and zeros: "take l (drop s ?gs) = replicate l 0"
      using best_run_zero [OF run] False len by simp_all
    have str: "v6_string x = colons ?a @ ''::'' @ colons ?b"
      using run False by (simp add: v6_string_colons Let_def)
    have gs: "?gs = ?a @ replicate l 0 @ ?b"
      by (metis append_take_drop_id drop_drop add.commute zeros)
    have bytes: "group_bytes ?gs = group_bytes ?a @ replicate (2 * l) 0 @ group_bytes ?b"
      by (subst gs) (simp add: group_bytes_replicate)
    have small': "\<forall>g \<in> set ?a \<union> set ?b. g < 65536"
      using small by (auto dest: in_set_takeD in_set_dropD)
    have len': "length ?a = s" "length ?b = 8 - (s + l)" using len l by auto
    have fin: "v6_finish (group_bytes ?a @ group_bytes ?b) (Some (2 * s)) [] = Some (group_bytes ?gs)"
    proof -
      have "16 - length (group_bytes ?a @ group_bytes ?b) = 2 * l" using len' l by simp
      moreover have "length (group_bytes ?a) = 2 * s" using len' by simp
      ultimately show ?thesis
        using v6_finish_ellipsis [of "group_bytes ?a" "group_bytes ?b"] l unfolding bytes by simp
    qed
    show ?thesis
    proof (cases "s = 0")
      case True
      show ?thesis
      proof (cases "?b = []")
        case True
        with \<open>s = 0\<close> str have "v6_string x = ''::''" by simp
        moreover have "group_bytes ?gs = replicate (2 * l) 0"
          using True \<open>s = 0\<close> bytes by simp
        then have "x = 0" using x by simp
        ultimately show ?thesis using cut by (simp add: parse_v6_def)
      next
        case False
        have "v6_loop 8 (colons ?b) [] (Some 0) = Some (group_bytes ?b, Some 0, [])"
          using v6_loop_colons [of ?b 8 "[]" "Some 0"] False len' small' by simp
        moreover obtain c cs where "colons ?b = c # cs" using colons_hd [OF False] by blast
        ultimately show ?thesis
          using cut str fin x \<open>s = 0\<close> by (simp add: parse_v6_def Let_def)
      qed
    next
      case False
      then have a: "?a \<noteq> []" using len by auto
      have "v6_loop 8 (v6_string x) [] None
          = Some (group_bytes ?a @ group_bytes ?b, Some (2 * s), [])"
        using v6_loop_ellipsis [of ?a ?b 8 "[]"] a len' small' l str by simp
      moreover have "\<not> prefix ''::'' (v6_string x)" "v6_string x \<noteq> ''::''"
        using colons_prefix [OF a] colons_not_ellipsis [OF a] str by (metis, metis)
      ultimately show ?thesis using cut fin x by (simp add: parse_v6_def Let_def)
    qed
  qed
qed

subsection \<open>Addresses and prefixes\<close>

lemma v4_string_chars: "c \<in> set (v4_string x) \<Longrightarrow> is_digit c \<or> c = CHR ''.''"
  using nat_digits_digits by (auto simp: v4_string_def v4_bytes_def)

lemma v4_string_dot: "CHR ''.'' \<in> set (v4_string x)"
  by (simp add: v4_string_def v4_bytes_def)

lemma v6_string_colon: "CHR '':'' \<in> set (v6_string x)"
proof -
  obtain g h gs where "v6_groups x = g # h # gs" by (simp add: v6_groups_def)
  then have "CHR '':'' \<in> set (colons (v6_groups x))" by (simp add: colons_Cons)
  then show ?thesis by (cases "best_run (v6_groups x)") (simp add: v6_string_colons Let_def)
qed

lemma find_first:
  "d \<in> set s \<Longrightarrow> (\<And>c. c \<in> set s \<Longrightarrow> P c \<longleftrightarrow> c = d) \<Longrightarrow> find P s = Some d"
  by (induction s) auto

theorem netip_addr_roundtrip:
  "zone_of a = [] \<Longrightarrow> \<not> Is4In6 a \<Longrightarrow> netip_ParseAddr (addr_string a) = Some a"
proof (cases a)
  case (IPv4 x)
  have "find (\<lambda>c. c \<in> set ''.:%'') (v4_string x) = Some CHR ''.''"
    using v4_string_dot by (rule find_first) (use v4_string_chars is_digit_chars in fastforce)
  then show ?thesis by (simp add: netip_ParseAddr_def addr_string_def IPv4 parse_v4_string)
next
  case (IPv6 x z)
  assume "zone_of a = []" "\<not> Is4In6 a"
  have "find (\<lambda>c. c \<in> set ''.:%'') (v6_string x) = Some CHR '':''"
    using v6_string_colon by (rule find_first) (use v6_string_chars in fastforce)
  with IPv6 \<open>zone_of a = []\<close> \<open>\<not> Is4In6 a\<close> show ?thesis
    by (simp add: netip_ParseAddr_def addr_string_def parse_v6_string)
qed

lemma addr_string_no_slash:
  "zone_of a = [] \<Longrightarrow> \<not> Is4In6 a \<Longrightarrow> CHR ''/'' \<notin> set (addr_string a)"
  using v4_string_chars is_digit_chars v6_string_chars
  by (cases a) (fastforce simp: addr_string_def)+

theorem netip_prefix_roundtrip:
  assumes "wf_prefix p" "\<not> Is4In6 (pfxAddr p)"
  shows "netip_ParsePrefix (prefix_string p) = Some p"
proof -
  let ?n = "nat_digits (pfxBits p)" and ?a = "addr_string (pfxAddr p)"
  have n: "CHR ''/'' \<notin> set ?n" using nat_digits_digits is_digit_chars by fastforce
  have bits: "rev (takeWhile (\<lambda>c. c \<noteq> CHR ''/'') (rev (prefix_string p))) = ?n"
  proof -
    have "takeWhile (\<lambda>c. c \<noteq> CHR ''/'') (rev ?n @ CHR ''/'' # rev ?a) = rev ?n"
      using n by (subst takeWhile_append2) auto
    then show ?thesis by (simp add: prefix_string_def)
  qed
  have parse: "parse_bits ?n = Some (pfxBits p)"
    by (simp add: parse_bits_def nat_digits_all_digits nat_digits_no_leading_zero)
  have addr: "netip_ParseAddr ?a = Some (pfxAddr p)"
    using assms by (intro netip_addr_roundtrip) (simp_all add: wf_prefix_def)
  have p: "PrefixFrom (pfxAddr p) (pfxBits p) = p"
    using assms(1) by (cases p) (auto simp: PrefixFrom_def wf_prefix_def split: ip_addr.splits)
  have "take (length (prefix_string p) - length ?n - 1) (prefix_string p) = ?a"
    by (simp add: prefix_string_def)
  moreover have "CHR ''/'' \<in> set (prefix_string p)" by (simp add: prefix_string_def)
  ultimately show ?thesis
    using assms(1) unfolding netip_ParsePrefix_def
    by (simp add: bits parse addr p Let_def wf_prefix_def)
qed

end
