(* ===== verification/Cidr.thy ===== *)
theory Cidr
  imports Netip
begin

unbundle bit_operations_syntax

text \<open>
  \<open>internal/operator/controller/network/cidr/cidr.go\<close>: the ranges a sandbox may never reach and
  the \<open>except\<close> list of an egress rule. The lemmas show that \<open>prefixContains\<close> is inclusion of the
  sets of addresses, that the exceptions \<open>ComputeExcept\<close> returns take out the blocked addresses
  and no other, and that it fails exactly on a range that lies inside a blocked one.
\<close>


section \<open>cidr.go\<close>

text \<open>\<open>MustParsePrefix\<close> panics on a bad literal; the lists below are read once, at start.\<close>

definition MustParsePrefix :: "string \<Rightarrow> ip_prefix" where
  "MustParsePrefix s = (case netip_ParsePrefix s of Some p \<Rightarrow> p | None \<Rightarrow> undefined)"

definition BlockedV4 :: "ip_prefix list" where
  "BlockedV4 = map MustParsePrefix
     [''10.0.0.0/8'', ''100.64.0.0/10'', ''169.254.0.0/16'', ''172.16.0.0/12'', ''192.168.0.0/16'',
      ''198.18.0.0/15'', ''240.0.0.0/4'', ''34.118.224.0/20'', ''224.0.0.0/4'', ''192.0.0.0/24'',
      ''192.0.2.0/24'', ''192.88.99.0/24'', ''198.51.100.0/24'', ''203.0.113.0/24'',
      ''168.63.129.16/32'']"

definition BlockedV6 :: "ip_prefix list" where
  "BlockedV6 = map MustParsePrefix
     [''fc00::/7'', ''fe80::/10'', ''2600:2d00:0:4::/64'', ''ff00::/8'', ''64:ff9b:1::/48'',
      ''100::/64'', ''100:0:0:1::/64'', ''2001::/32'', ''2001:2::/48'', ''2001:db8::/32'',
      ''2002::/16'', ''3fff::/20'', ''5f00::/16'', ''2600:2d00:0:2::/63'']"

definition prefixContains :: "ip_prefix \<Rightarrow> ip_prefix \<Rightarrow> bool" where
  "prefixContains outer0 inner0 =
     (let outer = Masked outer0; inner = Masked inner0 in
      if Is4 (pfxAddr outer) \<noteq> Is4 (pfxAddr inner) then False
      else if pfxBits inner < pfxBits outer then False
      else addr_in outer (pfxAddr inner))"

text \<open>The loop over the blocked ranges, with the exceptions collected so far.\<close>

fun except_loop :: "ip_prefix \<Rightarrow> ip_prefix list \<Rightarrow> ip_prefix list \<Rightarrow> string + ip_prefix list" where
  "except_loop allowed [] acc = Inr acc"
| "except_loop allowed (b # bs) acc =
     (if allowed = b then
        Inl (''CIDR '' @ prefix_string allowed @ '' equals blocked range'')
      else if prefixContains b allowed then
        Inl (''CIDR '' @ prefix_string allowed @ '' is inside blocked range '' @ prefix_string b)
      else if prefixContains allowed b then except_loop allowed bs (acc @ [b])
      else except_loop allowed bs acc)"

definition blocked_for :: "ip_prefix \<Rightarrow> ip_prefix list" where
  "blocked_for p = (if Is6 (pfxAddr p) then BlockedV6 else BlockedV4)"

definition ComputeExcept :: "ip_prefix \<Rightarrow> string + ip_prefix list" where
  "ComputeExcept allowed0 =
     (let allowed = Masked allowed0 in except_loop allowed (blocked_for allowed) [])"

definition ParsePrefix :: "string \<Rightarrow> string + ip_prefix" where
  "ParsePrefix cidrStr =
     (case netip_ParsePrefix cidrStr of
        None \<Rightarrow> Inl (''invalid CIDR '' @ quoted cidrStr @ '': netip.ParsePrefix('' @ quoted cidrStr @ '')'')
      | Some p \<Rightarrow>
          if Is4In6 (pfxAddr p) then
            Inl (''invalid CIDR '' @ quoted cidrStr @ '': IPv4-mapped IPv6 not allowed'')
          else Inr (Masked p))"

definition ParseDNSServerIP :: "string \<Rightarrow> string + ip_addr" where
  "ParseDNSServerIP ipStr =
     (case netip_ParseAddr ipStr of
        None \<Rightarrow> Inl (''invalid DNS server IP '' @ quoted ipStr @ '': ParseAddr('' @ quoted ipStr @ '')'')
      | Some a \<Rightarrow>
          if Is4In6 a then
            Inl (''invalid DNS server IP '' @ quoted ipStr @ '': IPv4-mapped IPv6 not allowed'')
          else Inr a)"


section \<open>What the loop computes\<close>

text \<open>The tables, as the strings say: each entry is read and masked.\<close>

lemma BlockedV4_list [code]: "BlockedV4 =
  [\<lparr>pfxAddr = IPv4 0xA000000, pfxBits = 8\<rparr>,
   \<lparr>pfxAddr = IPv4 0x64400000, pfxBits = 10\<rparr>,
   \<lparr>pfxAddr = IPv4 0xA9FE0000, pfxBits = 16\<rparr>,
   \<lparr>pfxAddr = IPv4 0xAC100000, pfxBits = 12\<rparr>,
   \<lparr>pfxAddr = IPv4 0xC0A80000, pfxBits = 16\<rparr>,
   \<lparr>pfxAddr = IPv4 0xC6120000, pfxBits = 15\<rparr>,
   \<lparr>pfxAddr = IPv4 0xF0000000, pfxBits = 4\<rparr>,
   \<lparr>pfxAddr = IPv4 0x2276E000, pfxBits = 20\<rparr>,
   \<lparr>pfxAddr = IPv4 0xE0000000, pfxBits = 4\<rparr>,
   \<lparr>pfxAddr = IPv4 0xC0000000, pfxBits = 24\<rparr>,
   \<lparr>pfxAddr = IPv4 0xC0000200, pfxBits = 24\<rparr>,
   \<lparr>pfxAddr = IPv4 0xC0586300, pfxBits = 24\<rparr>,
   \<lparr>pfxAddr = IPv4 0xC6336400, pfxBits = 24\<rparr>,
   \<lparr>pfxAddr = IPv4 0xCB007100, pfxBits = 24\<rparr>,
   \<lparr>pfxAddr = IPv4 0xA83F8110, pfxBits = 32\<rparr>]"
  by code_simp

lemma BlockedV6_list [code]: "BlockedV6 =
  [\<lparr>pfxAddr = IPv6 0xFC000000000000000000000000000000 [], pfxBits = 7\<rparr>,
   \<lparr>pfxAddr = IPv6 0xFE800000000000000000000000000000 [], pfxBits = 10\<rparr>,
   \<lparr>pfxAddr = IPv6 0x26002D00000000040000000000000000 [], pfxBits = 64\<rparr>,
   \<lparr>pfxAddr = IPv6 0xFF000000000000000000000000000000 [], pfxBits = 8\<rparr>,
   \<lparr>pfxAddr = IPv6 0x64FF9B000100000000000000000000 [], pfxBits = 48\<rparr>,
   \<lparr>pfxAddr = IPv6 0x1000000000000000000000000000000 [], pfxBits = 64\<rparr>,
   \<lparr>pfxAddr = IPv6 0x1000000000000010000000000000000 [], pfxBits = 64\<rparr>,
   \<lparr>pfxAddr = IPv6 0x20010000000000000000000000000000 [], pfxBits = 32\<rparr>,
   \<lparr>pfxAddr = IPv6 0x20010002000000000000000000000000 [], pfxBits = 48\<rparr>,
   \<lparr>pfxAddr = IPv6 0x20010DB8000000000000000000000000 [], pfxBits = 32\<rparr>,
   \<lparr>pfxAddr = IPv6 0x20020000000000000000000000000000 [], pfxBits = 16\<rparr>,
   \<lparr>pfxAddr = IPv6 0x3FFF0000000000000000000000000000 [], pfxBits = 20\<rparr>,
   \<lparr>pfxAddr = IPv6 0x5F000000000000000000000000000000 [], pfxBits = 16\<rparr>,
   \<lparr>pfxAddr = IPv6 0x26002D00000000020000000000000000 [], pfxBits = 63\<rparr>]"
  by code_simp

lemma Blocked_wf: "\<forall>b \<in> set (BlockedV4 @ BlockedV6). wf_prefix b \<and> Masked b = b"
  unfolding BlockedV4_list BlockedV6_list wf_prefix_def Masked_def
  by (simp add: mask_eq_exp_minus_1)

lemma Blocked_families: "\<forall>b \<in> set BlockedV4. Is4 (pfxAddr b)" "\<forall>b \<in> set BlockedV6. Is6 (pfxAddr b)"
  by code_simp+

lemma Blocked_not_mapped: "\<forall>b \<in> set (BlockedV4 @ BlockedV6). \<not> Is4In6 (pfxAddr b)"
  unfolding BlockedV4_list BlockedV6_list by (simp add: drop_bit_eq_div)

text \<open>The addresses no sandbox may reach.\<close>

definition blocked_addr :: "ip_addr \<Rightarrow> bool" where
  "blocked_addr a \<longleftrightarrow> list_ex (\<lambda>b. addr_in b a) (BlockedV4 @ BlockedV6)"

lemma prefixContains_covers:
  assumes "wf_prefix p" "wf_prefix q"
  shows "prefixContains p q \<longleftrightarrow> prefix_covers p q"
proof -
  have "prefix_covers p q \<longleftrightarrow> prefix_covers (Masked p) (Masked q)"
    by (simp add: prefix_covers_def)
  also have "\<dots> \<longleftrightarrow> pfxBits p \<le> pfxBits q \<and> addr_in p (pfxAddr (Masked q))"
    using assms by (simp add: prefix_covers_iff)
  finally show ?thesis
    using addr_in_family [of p "pfxAddr (Masked q)"] by (auto simp: prefixContains_def Let_def)
qed

lemma except_loop_Inr:
  "except_loop p bs acc = Inr ex \<Longrightarrow>
     ex = acc @ filter (prefixContains p) bs \<and> (\<forall>b \<in> set bs. b \<noteq> p \<and> \<not> prefixContains b p)"
proof (induction bs arbitrary: acc)
  case (Cons b bs)
  then show ?case
    using Cons.IH [of acc] Cons.IH [of "acc @ [b]"] by (simp split: if_splits)
qed simp

lemma except_loop_Inl:
  "(\<exists>e. except_loop p bs acc = Inl e) \<longleftrightarrow> (\<exists>b \<in> set bs. b = p \<or> prefixContains b p)"
  by (induction p bs acc rule: except_loop.induct) auto

lemma blocked_for_wf: "b \<in> set (blocked_for p) \<Longrightarrow> wf_prefix b \<and> Masked b = b"
  using Blocked_wf by (auto simp: blocked_for_def split: if_splits)

lemma blocked_for_addr:
  assumes "addr_in p a"
  shows "blocked_addr a \<longleftrightarrow> (\<exists>b \<in> set (blocked_for p). addr_in b a)"
  using addr_in_family [OF assms] Blocked_families addr_in_family [of _ a]
  by (auto simp: blocked_addr_def blocked_for_def list_ex_iff Is6_not_Is4)

lemma ComputeExcept_Inr:
  assumes "ComputeExcept p = Inr ex" "wf_prefix p"
  shows "set ex = {b \<in> set (blocked_for p). prefix_covers p b}"
    and "b \<in> set (blocked_for p) \<Longrightarrow> \<not> prefix_covers b p"
proof -
  have bf: "blocked_for (Masked p) = blocked_for p" by (simp add: blocked_for_def)
  have loop: "except_loop (Masked p) (blocked_for p) [] = Inr ex"
    using assms(1) by (simp add: ComputeExcept_def Let_def bf)
  have cov: "prefix_covers (Masked p) b = prefix_covers p b" "prefix_covers b (Masked p) = prefix_covers b p" for b
    by (simp_all add: prefix_covers_def)
  show "set ex = {b \<in> set (blocked_for p). prefix_covers p b}"
    using except_loop_Inr [OF loop] blocked_for_wf assms(2)
    by (auto simp: prefixContains_covers cov)
  show "b \<in> set (blocked_for p) \<Longrightarrow> \<not> prefix_covers b p"
    using except_loop_Inr [OF loop] blocked_for_wf [of b p] assms(2)
    by (auto simp: prefixContains_covers cov)
qed

text \<open>
  An address of the range is taken out exactly when it is blocked: a blocked range that meets
  the allowed one without containing it lies inside it.
\<close>

lemma except_addr_iff_blocked:
  assumes ok: "ComputeExcept p = Inr ex" and wf: "wf_prefix p" and a: "addr_in p a"
  shows "(\<exists>e \<in> set ex. addr_in e a) \<longleftrightarrow> blocked_addr a"
proof
  assume "\<exists>e \<in> set ex. addr_in e a"
  then show "blocked_addr a"
    unfolding blocked_for_addr [OF a] using ComputeExcept_Inr(1) [OF ok wf] by auto
next
  assume "blocked_addr a"
  then obtain b where b: "b \<in> set (blocked_for p)" "addr_in b a"
    unfolding blocked_for_addr [OF a] by auto
  then have "prefix_covers p b"
    using nested_or_disjoint [OF wf _ a] blocked_for_wf ComputeExcept_Inr(2) [OF ok wf] by blast
  with b show "\<exists>e \<in> set ex. addr_in e a"
    using ComputeExcept_Inr(1) [OF ok wf] by auto
qed

lemma ComputeExcept_Inl:
  assumes "wf_prefix p"
  shows "(\<exists>e. ComputeExcept p = Inl e) \<longleftrightarrow> (\<exists>b \<in> set (blocked_for p). prefix_covers b p)"
proof -
  have bf: "blocked_for (Masked p) = blocked_for p" by (simp add: blocked_for_def)
  have cov: "prefix_covers b (Masked p) = prefix_covers b p" for b
    by (simp add: prefix_covers_def)
  have "b = Masked p \<Longrightarrow> prefix_covers b p" for b by (simp add: prefix_covers_def)
  then show ?thesis
    using assms blocked_for_wf [of _ p]
    unfolding ComputeExcept_def Let_def except_loop_Inl bf
    by (auto simp: prefixContains_covers cov)
qed

lemma netip_ParsePrefix_wf: "netip_ParsePrefix s = Some p \<Longrightarrow> wf_prefix p"
  by (auto simp: netip_ParsePrefix_def PrefixFrom_def wf_prefix_def Let_def
      split: if_splits option.splits ip_addr.splits)

lemma Masked_not_mapped:
  assumes "wf_prefix p" "\<not> Is4In6 (pfxAddr p)"
  shows "\<not> Is4In6 (pfxAddr (Masked p))"
proof (cases "pfxAddr p")
  case (IPv6 x z)
  let ?n = "128 - pfxBits p"
  show ?thesis
  proof (cases "?n \<le> 32")
    case True
    have "drop_bit 32 (x AND NOT (mask ?n)) = drop_bit 32 x"
      by (rule drop_bit_coarser [OF True]) (rule drop_bit_masked)
    with assms(2) IPv6 show ?thesis by (simp add: Masked_def del: drop_bit_and)
  next
    case False
    then have "\<not> bit (drop_bit 32 (x AND NOT (mask ?n))) 0"
      by (simp add: bit_simps)
    moreover have "bit (0xFFFF :: 128 word) 0" by simp
    ultimately have "drop_bit 32 (x AND NOT (mask ?n)) \<noteq> 0xFFFF" by metis
    with IPv6 show ?thesis by (simp add: Masked_def del: drop_bit_and)
  qed
qed (simp add: Masked_def)

lemma ParsePrefix_canonical:
  assumes "ParsePrefix s = Inr p"
  shows "wf_prefix p \<and> Masked p = p \<and> \<not> Is4In6 (pfxAddr p)"
  using assms Masked_not_mapped netip_ParsePrefix_wf
  by (auto simp: ParsePrefix_def split: option.splits if_splits)

end
