(* ===== verification/NetPolicy.thy ===== *)
theory NetPolicy
  imports ApiTypes Cidr "HOL-Library.Signed_Division"
begin

text \<open>
  \<open>internal/operator/controller/network/builder.go\<close>: the NetworkPolicy of a sandbox with egress
  ranges or nameservers of its own.

  \<open>policy_permits\<close> is what such a policy means: the traffic to an address, port and protocol
  that one of its rules admits, the strings of the rules read back as prefixes. The main lemma,
  \<open>built_policy_permits\<close>, says what the policy the builder returns admits, in terms of
  the sandbox's specification only.
\<close>

record ip_block =
  ipCIDR :: string
  ipExcept :: "string list"

record np_port =
  npProtocol :: string
  npPort :: int

record egress_rule =
  ruleTo :: "ip_block list"
  rulePorts :: "np_port list"

record network_policy =
  npMeta :: object_meta
  npSelector :: str_map
  npPolicyTypes :: "string list"
  npEgress :: "egress_rule list"


section \<open>Heuristics\<close>

definition DefaultPublicNameservers :: "string list" where
  "DefaultPublicNameservers = [''8.8.8.8'', ''1.1.1.1'']"

definition MinEgressBurstBytes :: int where "MinEgressBurstBytes = 128 * 1024"
definition MaxEgressBurstBytes :: int where "MaxEgressBurstBytes = 2 ^ 32 - 1"

definition EffectiveEgressBurstBytes :: "int \<Rightarrow> int" where
  "EffectiveEgressBurstBytes rate =
     (let burst = rate sdiv 10 in
      if burst < MinEgressBurstBytes then MinEgressBurstBytes
      else if MaxEgressBurstBytes < burst then MaxEgressBurstBytes
      else burst)"

definition EffectiveNameservers :: "network option \<Rightarrow> string list" where
  "EffectiveNameservers nw =
     (case nw of
        None \<Rightarrow> []
      | Some n \<Rightarrow>
          if nameservers n \<noteq> [] then nameservers n
          else if \<not> is_true (allowClusterDNS n) \<and>
                  (allowedEgressCIDRs n \<noteq> [] \<or> is_true (allowInternetEgress n))
          then DefaultPublicNameservers
          else [])"


section \<open>The rules\<close>

text \<open>A validated egress range with its exceptions.\<close>

record egress_cidr =
  ecPrefix :: ip_prefix
  ecExcept :: "ip_prefix list"

text \<open>
  The loop over the egress ranges, with the keys seen so far and the ranges collected so far.
\<close>

fun egress_loop :: "bool \<Rightarrow> string list \<Rightarrow> string list \<Rightarrow> egress_cidr list \<Rightarrow> string + egress_cidr list" where
  "egress_loop ipv6 [] seen acc = Inr acc"
| "egress_loop ipv6 (s # ss) seen acc =
     (case ParsePrefix s of
        Inl e \<Rightarrow> Inl e
      | Inr p \<Rightarrow>
          if Is6 (pfxAddr p) \<and> \<not> ipv6 then egress_loop ipv6 ss seen acc
          else
            let key = prefix_string p in
            if key \<in> set seen then egress_loop ipv6 ss seen acc
            else
              (case ComputeExcept p of
                 Inl e \<Rightarrow> Inl e
               | Inr ex \<Rightarrow>
                   egress_loop ipv6 ss (key # seen) (acc @ [\<lparr>ecPrefix = p, ecExcept = ex\<rparr>])))"

fun dns_loop :: "bool \<Rightarrow> string list \<Rightarrow> ip_addr list \<Rightarrow> string + ip_addr list" where
  "dns_loop ipv6 [] acc = Inr acc"
| "dns_loop ipv6 (s # ss) acc =
     (case ParseDNSServerIP s of
        Inl e \<Rightarrow> Inl e
      | Inr a \<Rightarrow>
          if Is6 a \<and> \<not> ipv6 then dns_loop ipv6 ss acc
          else dns_loop ipv6 ss (acc @ [a]))"

definition dns_peer :: "ip_addr \<Rightarrow> ip_block" where
  "dns_peer a =
     \<lparr>ipCIDR = prefix_string (PrefixFrom a (if Is6 a then 128 else 32)), ipExcept = []\<rparr>"

definition buildDNSServerEgressRule :: "ip_addr list \<Rightarrow> egress_rule" where
  "buildDNSServerEgressRule servers =
     \<lparr>ruleTo = map dns_peer servers,
      rulePorts = [\<lparr>npProtocol = ''UDP'', npPort = 53\<rparr>, \<lparr>npProtocol = ''TCP'', npPort = 53\<rparr>]\<rparr>"

definition cidr_rule :: "egress_cidr \<Rightarrow> egress_rule" where
  "cidr_rule ec =
     \<lparr>ruleTo = [\<lparr>ipCIDR = prefix_string (ecPrefix ec), ipExcept = map prefix_string (ecExcept ec)\<rparr>],
      rulePorts = []\<rparr>"

definition buildEgressRules :: "egress_cidr list \<Rightarrow> ip_addr list \<Rightarrow> egress_rule list" where
  "buildEgressRules ecs servers =
     (if servers \<noteq> [] then [buildDNSServerEgressRule servers] else []) @ map cidr_rule ecs"


section \<open>The policy\<close>

definition policy_labels :: "string \<Rightarrow> str_map" where
  "policy_labels sandboxName =
     [''app.kubernetes.io/name'' \<mapsto> ''isola-sandbox'',
      ''app.kubernetes.io/instance'' \<mapsto> sandboxName,
      ''app.kubernetes.io/component'' \<mapsto> ''sandbox-network'',
      ''app.kubernetes.io/part-of'' \<mapsto> ''isola'',
      ''app.kubernetes.io/managed-by'' \<mapsto> ''isola-operator'']"

definition BuildCustomNetworkPolicy ::
  "string \<Rightarrow> string \<Rightarrow> network option \<Rightarrow> string + network_policy option" where
  "BuildCustomNetworkPolicy sandboxName namespace nw =
     (case nw of
        None \<Rightarrow> Inr None
      | Some n \<Rightarrow>
          let internet = is_true (allowInternetEgress n);
              ipv6 = is_true (allowIPv6Egress n) in
          (case (if internet then Inr [] else egress_loop ipv6 (allowedEgressCIDRs n) [] []) of
             Inl e \<Rightarrow> Inl e
           | Inr ecs \<Rightarrow>
               (case (if internet then Inr [] else dns_loop ipv6 (EffectiveNameservers nw) []) of
                  Inl e \<Rightarrow> Inl e
                | Inr addrs \<Rightarrow>
                    if ecs = [] \<and> addrs = [] then Inr None
                    else
                      Inr (Some
                        \<lparr>npMeta = empty_meta
                           \<lparr>metaName := GetCustomNetworkPolicyName sandboxName,
                            metaNamespace := namespace,
                            metaLabels := policy_labels sandboxName\<rparr>,
                         npSelector = [''app.kubernetes.io/instance'' \<mapsto> sandboxName],
                         npPolicyTypes = [''Egress''],
                         npEgress = buildEgressRules ecs addrs\<rparr>))))"


section \<open>What a policy admits\<close>

text \<open>
  The meaning Kubernetes gives to a rule: the address is in the range and in no exception, and
  the rule lists no port or lists this one.
\<close>

definition block_admits :: "ip_block \<Rightarrow> ip_addr \<Rightarrow> bool" where
  "block_admits b a \<longleftrightarrow>
     (case netip_ParsePrefix (ipCIDR b) of None \<Rightarrow> False | Some p \<Rightarrow> addr_in p a) \<and>
     \<not> list_ex (\<lambda>e. case netip_ParsePrefix e of None \<Rightarrow> False | Some q \<Rightarrow> addr_in q a) (ipExcept b)"

definition rule_admits :: "egress_rule \<Rightarrow> string \<Rightarrow> int \<Rightarrow> ip_addr \<Rightarrow> bool" where
  "rule_admits r proto port a \<longleftrightarrow>
     list_ex (\<lambda>b. block_admits b a) (ruleTo r) \<and>
     (rulePorts r = [] \<or> list_ex (\<lambda>q. npProtocol q = proto \<and> npPort q = port) (rulePorts r))"

definition policy_permits :: "network_policy \<Rightarrow> string \<Rightarrow> int \<Rightarrow> ip_addr \<Rightarrow> bool" where
  "policy_permits np proto port a \<longleftrightarrow> list_ex (\<lambda>r. rule_admits r proto port a) (npEgress np)"

text \<open>A range or a nameserver of the specification that the family switch lets through.\<close>

definition usable_cidr :: "bool \<Rightarrow> string \<Rightarrow> ip_prefix \<Rightarrow> bool" where
  "usable_cidr ipv6 s p \<longleftrightarrow> ParsePrefix s = Inr p \<and> (Is4 (pfxAddr p) \<or> ipv6)"

definition usable_dns :: "bool \<Rightarrow> string \<Rightarrow> ip_addr \<Rightarrow> bool" where
  "usable_dns ipv6 s a \<longleftrightarrow> ParseDNSServerIP s = Inr a \<and> (Is4 a \<or> ipv6)"

fun drop_zone :: "ip_addr \<Rightarrow> ip_addr" where
  "drop_zone (IPv4 x) = IPv4 x"
| "drop_zone (IPv6 x z) = IPv6 x []"

definition good_cidr :: "egress_cidr \<Rightarrow> bool" where
  "good_cidr ec \<longleftrightarrow> wf_prefix (ecPrefix ec) \<and> \<not> Is4In6 (pfxAddr (ecPrefix ec)) \<and>
     ComputeExcept (ecPrefix ec) = Inr (ecExcept ec)"

lemma prefix_string_inj:
  "wf_prefix p \<Longrightarrow> \<not> Is4In6 (pfxAddr p) \<Longrightarrow> wf_prefix q \<Longrightarrow> \<not> Is4In6 (pfxAddr q) \<Longrightarrow>
     prefix_string p = prefix_string q \<longleftrightarrow> p = q"
  by (metis netip_prefix_roundtrip option.inject)

lemma egress_loop_good:
  assumes "egress_loop ipv6 ss seen acc = Inr ecs" "\<forall>ec \<in> set acc. good_cidr ec"
    "set seen = (prefix_string \<circ> ecPrefix) ` set acc"
  shows "(\<forall>ec \<in> set ecs. good_cidr ec) \<and>
     ecPrefix ` set ecs = ecPrefix ` set acc \<union> {p. \<exists>s \<in> set ss. usable_cidr ipv6 s p}"
  using assms
proof (induction ipv6 ss seen acc rule: egress_loop.induct)
  case (2 ipv6 s ss seen acc)
  then obtain p where p: "ParsePrefix s = Inr p" by (auto split: sum.splits)
  have canon: "wf_prefix p \<and> Masked p = p \<and> \<not> Is4In6 (pfxAddr p)"
    using ParsePrefix_canonical [OF p] .
  have usable: "usable_cidr ipv6 s q \<longleftrightarrow> q = p \<and> (Is4 (pfxAddr p) \<or> ipv6)" for q
    using p by (auto simp: usable_cidr_def)
  have more: "{q. \<exists>t \<in> set (s # ss). usable_cidr ipv6 t q}
      = insert p {q. \<exists>t \<in> set ss. usable_cidr ipv6 t q}" if "\<not> (Is6 (pfxAddr p) \<and> \<not> ipv6)"
    using usable that by (auto simp: Is6_not_Is4)
  consider (skip) "Is6 (pfxAddr p) \<and> \<not> ipv6"
    | (seen) "\<not> (Is6 (pfxAddr p) \<and> \<not> ipv6)" "prefix_string p \<in> set seen"
    | (new) ex where "\<not> (Is6 (pfxAddr p) \<and> \<not> ipv6)" "prefix_string p \<notin> set seen"
        "ComputeExcept p = Inr ex"
  proof (cases "ComputeExcept p")
    case (Inl e)
    then have "(Is6 (pfxAddr p) \<and> \<not> ipv6) \<or> prefix_string p \<in> set seen"
      using "2.prems"(1) p by (simp add: Let_def split: if_splits)
    then show ?thesis using skip seen by blast
  qed (use skip seen new in blast)
  then show ?case
  proof cases
    case skip
    then have "{q. \<exists>t \<in> set (s # ss). usable_cidr ipv6 t q} = {q. \<exists>t \<in> set ss. usable_cidr ipv6 t q}"
      using usable by (auto simp: Is6_not_Is4)
    moreover have "egress_loop ipv6 ss seen acc = Inr ecs"
      using "2.prems"(1) p skip by simp
    ultimately show ?thesis using 2(1) [OF p skip] "2.prems"(2,3) by simp
  next
    case seen
    then obtain ec where ec: "ec \<in> set acc" "prefix_string p = prefix_string (ecPrefix ec)"
      using "2.prems"(3) by auto
    then have "ecPrefix ec = p"
      using canon "2.prems"(2) prefix_string_inj [of p "ecPrefix ec"] unfolding good_cidr_def by metis
    then have "p \<in> ecPrefix ` set acc" using ec by blast
    moreover have "egress_loop ipv6 ss seen acc = Inr ecs"
      using "2.prems"(1) p seen by (auto simp: Let_def)
    ultimately show ?thesis
      using 2(2) [OF p seen(1) refl seen(2)] "2.prems"(2,3)
      unfolding more [OF seen(1)] by (simp add: insert_absorb)
  next
    case (new ex)
    let ?ec = "\<lparr>ecPrefix = p, ecExcept = ex\<rparr>"
    have "good_cidr ?ec" using new canon by (simp add: good_cidr_def)
    moreover have "egress_loop ipv6 ss (prefix_string p # seen) (acc @ [?ec]) = Inr ecs"
      using "2.prems"(1) p new by (auto simp: Let_def)
    moreover have "set (prefix_string p # seen) = (prefix_string \<circ> ecPrefix) ` set (acc @ [?ec])"
      using "2.prems"(3) by simp
    ultimately have "(\<forall>ec \<in> set ecs. good_cidr ec) \<and> ecPrefix ` set ecs =
        ecPrefix ` set (acc @ [?ec]) \<union> {p. \<exists>s \<in> set ss. usable_cidr ipv6 s p}"
      using "2.prems"(2) by (intro 2(3) [OF p new(1) refl new(2,3)]) auto
    then show ?thesis unfolding more [OF new(1)] by simp
  qed
qed simp

lemma dns_loop_usable:
  "dns_loop ipv6 ss acc = Inr as \<Longrightarrow>
     set as = set acc \<union> {a. \<exists>s \<in> set ss. usable_dns ipv6 s a}"
  by (induction ipv6 ss acc rule: dns_loop.induct)
     (auto simp: usable_dns_def Is6_not_Is4 split: sum.splits if_splits)

lemma cidr_rule_admits:
  assumes "good_cidr ec"
  shows "rule_admits (cidr_rule ec) proto port a \<longleftrightarrow> addr_in (ecPrefix ec) a \<and> \<not> blocked_addr a"
proof -
  have wf: "wf_prefix (ecPrefix ec)" and ok: "ComputeExcept (ecPrefix ec) = Inr (ecExcept ec)"
    and map: "\<not> Is4In6 (pfxAddr (ecPrefix ec))"
    using assms by (auto simp: good_cidr_def)
  have "netip_ParsePrefix (prefix_string e) = Some e" if "e \<in> set (ecExcept ec)" for e
    using that ComputeExcept_Inr(1) [OF ok wf] Blocked_wf Blocked_not_mapped
    by (intro netip_prefix_roundtrip) (auto simp: blocked_for_def split: if_splits)
  then have "list_ex (\<lambda>e. case netip_ParsePrefix e of None \<Rightarrow> False | Some q \<Rightarrow> addr_in q a)
      (map prefix_string (ecExcept ec)) \<longleftrightarrow> (\<exists>e \<in> set (ecExcept ec). addr_in e a)"
    by (simp add: list_ex_iff)
  then show ?thesis
    using except_addr_iff_blocked [OF ok wf, of a]
    by (auto simp: rule_admits_def cidr_rule_def block_admits_def netip_prefix_roundtrip [OF wf map])
qed

lemma host_prefix:
  assumes "\<not> Is4In6 s"
  shows "block_admits (dns_peer s) a \<longleftrightarrow> a = drop_zone s"
proof -
  let ?p = "PrefixFrom s (if Is6 s then 128 else 32)"
  have "netip_ParsePrefix (prefix_string ?p) = Some ?p"
    using assms by (intro netip_prefix_roundtrip) (cases s; simp add: wf_prefix_def PrefixFrom_def)+
  moreover have "addr_in ?p a \<longleftrightarrow> a = drop_zone s"
    by (cases s; cases a) (auto simp: PrefixFrom_def)
  ultimately show ?thesis by (simp add: block_admits_def dns_peer_def)
qed

lemma ParseDNSServerIP_not_mapped: "ParseDNSServerIP s = Inr a \<Longrightarrow> \<not> Is4In6 a"
  by (auto simp: ParseDNSServerIP_def split: option.splits if_splits)

lemma dns_rule_admits:
  assumes "\<forall>s \<in> set servers. \<not> Is4In6 s"
  shows "rule_admits (buildDNSServerEgressRule servers) proto port a \<longleftrightarrow>
     port = 53 \<and> (proto = ''UDP'' \<or> proto = ''TCP'') \<and> a \<in> drop_zone ` set servers"
  using assms host_prefix
  by (auto simp: rule_admits_def buildDNSServerEgressRule_def list_ex_iff)

lemma built_policy_permits:
  assumes "BuildCustomNetworkPolicy sandboxName namespace nw = Inr (Some np)"
  obtains n where "nw = Some n" "\<not> is_true (allowInternetEgress n)"
    "\<And>proto port a. policy_permits np proto port a \<longleftrightarrow>
       (\<exists>s \<in> set (allowedEgressCIDRs n). \<exists>p. usable_cidr (is_true (allowIPv6Egress n)) s p \<and>
          addr_in p a \<and> \<not> blocked_addr a) \<or>
       (port = 53 \<and> (proto = ''UDP'' \<or> proto = ''TCP'') \<and>
        (\<exists>s \<in> set (EffectiveNameservers nw). \<exists>d. usable_dns (is_true (allowIPv6Egress n)) s d \<and>
           a = drop_zone d))"
proof -
  obtain n where n: "nw = Some n" using assms by (cases nw) (simp_all add: BuildCustomNetworkPolicy_def)
  let ?six = "is_true (allowIPv6Egress n)"
  have net: "\<not> is_true (allowInternetEgress n)"
    using assms n by (auto simp: BuildCustomNetworkPolicy_def)
  obtain ecs addrs where loops: "egress_loop ?six (allowedEgressCIDRs n) [] [] = Inr ecs"
      "dns_loop ?six (EffectiveNameservers nw) [] = Inr addrs"
      and np: "npEgress np = buildEgressRules ecs addrs"
    using assms n net
    by (auto simp: BuildCustomNetworkPolicy_def Let_def split: sum.splits if_splits)
  have ecs: "\<forall>ec \<in> set ecs. good_cidr ec"
      "ecPrefix ` set ecs = {p. \<exists>s \<in> set (allowedEgressCIDRs n). usable_cidr ?six s p}"
    using egress_loop_good [OF loops(1)] by simp_all
  have addrs: "set addrs = {a. \<exists>s \<in> set (EffectiveNameservers nw). usable_dns ?six s a}"
    using dns_loop_usable [OF loops(2)] by simp
  then have plain: "\<forall>a \<in> set addrs. \<not> Is4In6 a"
    using ParseDNSServerIP_not_mapped by (auto simp: usable_dns_def)
  have cidrs: "(\<exists>ec \<in> set ecs. rule_admits (cidr_rule ec) proto port a) \<longleftrightarrow>
      (\<exists>p \<in> ecPrefix ` set ecs. addr_in p a \<and> \<not> blocked_addr a)" for proto port a
    using ecs(1) cidr_rule_admits by auto
  have "policy_permits np proto port a \<longleftrightarrow>
      (\<exists>p \<in> ecPrefix ` set ecs. addr_in p a \<and> \<not> blocked_addr a) \<or>
      (port = 53 \<and> (proto = ''UDP'' \<or> proto = ''TCP'') \<and> a \<in> drop_zone ` set addrs)"
    for proto port a
    unfolding cidrs [symmetric, where proto = proto and port = port]
    using dns_rule_admits [OF plain, of proto port a]
    by (auto simp: policy_permits_def np buildEgressRules_def list_ex_iff)
  then show thesis
    using n net unfolding ecs(2) addrs by (intro that [of n]) auto
qed


section \<open>When the builder fails\<close>

definition bad_cidr :: "bool \<Rightarrow> string \<Rightarrow> bool" where
  "bad_cidr ipv6 s \<longleftrightarrow>
     (case ParsePrefix s of
        Inl e \<Rightarrow> True
      | Inr p \<Rightarrow> (Is4 (pfxAddr p) \<or> ipv6) \<and> (\<exists>b \<in> set (blocked_for p). prefix_covers b p))"

lemma egress_loop_bad:
  assumes "\<forall>k \<in> set seen. \<exists>p. k = prefix_string p \<and> wf_prefix p \<and> \<not> Is4In6 (pfxAddr p) \<and>
     \<not> (\<exists>b \<in> set (blocked_for p). prefix_covers b p)"
  shows "(\<exists>e. egress_loop ipv6 ss seen acc = Inl e) \<longleftrightarrow> (\<exists>s \<in> set ss. bad_cidr ipv6 s)"
  using assms
proof (induction ipv6 ss seen acc rule: egress_loop.induct)
  case (2 ipv6 s ss seen acc)
  show ?case
  proof (cases "ParsePrefix s")
    case (Inl e)
    then show ?thesis by (simp add: bad_cidr_def)
  next
    case (Inr p)
    have canon: "wf_prefix p" "\<not> Is4In6 (pfxAddr p)" using ParsePrefix_canonical [OF Inr] by auto
    have bad: "bad_cidr ipv6 s \<longleftrightarrow> (Is4 (pfxAddr p) \<or> ipv6) \<and> (\<exists>e. ComputeExcept p = Inl e)"
      using Inr ComputeExcept_Inl [OF canon(1)] by (simp add: bad_cidr_def)
    consider (skip) "Is6 (pfxAddr p) \<and> \<not> ipv6"
      | (seen) "\<not> (Is6 (pfxAddr p) \<and> \<not> ipv6)" "prefix_string p \<in> set seen"
      | (fail) e where "\<not> (Is6 (pfxAddr p) \<and> \<not> ipv6)" "prefix_string p \<notin> set seen"
          "ComputeExcept p = Inl e"
      | (new) ex where "\<not> (Is6 (pfxAddr p) \<and> \<not> ipv6)" "prefix_string p \<notin> set seen"
          "ComputeExcept p = Inr ex"
      by (cases "ComputeExcept p") auto
    then show ?thesis
    proof cases
      case skip
      then have "\<not> bad_cidr ipv6 s" using bad by (simp add: Is6_not_Is4)
      then show ?thesis using 2(1) [OF Inr skip] "2.prems" Inr skip by simp
    next
      case seen
      then obtain q where "prefix_string p = prefix_string q" "wf_prefix q"
          "\<not> Is4In6 (pfxAddr q)" "\<not> (\<exists>b \<in> set (blocked_for q). prefix_covers b q)"
        using "2.prems" by blast
      then have "\<not> bad_cidr ipv6 s"
        using prefix_string_inj canon ComputeExcept_Inl [OF canon(1)] bad by metis
      then show ?thesis using 2(2) [OF Inr seen(1) refl seen(2)] "2.prems" Inr seen
        by (auto simp add: Let_def)
    next
      case (fail e)
      then show ?thesis using Inr bad by (auto simp: Is6_not_Is4)
    next
      case (new ex)
      then have "\<not> bad_cidr ipv6 s" using bad by simp
      moreover have "\<forall>k \<in> set (prefix_string p # seen). \<exists>p. k = prefix_string p \<and> wf_prefix p \<and>
          \<not> Is4In6 (pfxAddr p) \<and> \<not> (\<exists>b \<in> set (blocked_for p). prefix_covers b p)"
        using "2.prems" canon new(3) ComputeExcept_Inl [OF canon(1)] by auto
      ultimately show ?thesis
        using 2(3) [OF Inr new(1) refl new(2,3)] Inr new by (auto simp add: Let_def)
    qed
  qed
qed simp

lemma dns_loop_bad:
  "(\<exists>e. dns_loop ipv6 ss acc = Inl e) \<longleftrightarrow> (\<exists>s \<in> set ss. \<exists>e. ParseDNSServerIP s = Inl e)"
  by (induction ipv6 ss acc rule: dns_loop.induct) (auto split: sum.splits)


section \<open>Properties\<close>

text \<open>
  C2. The NetworkPolicy built for a sandbox admits exactly the traffic its specification asks
  for: an address of one of the egress ranges (IPv6 ones only when IPv6 egress is allowed) that
  lies in none of the blocked ranges, on any port, and the nameservers in effect on UDP and TCP
  port 53.  The rules are read back from their printed form, so the statement
  covers parsing, canonicalisation, deduplication, the exceptions and printing.
\<close>

theorem built_policy_exact:
  assumes "BuildCustomNetworkPolicy sandboxName namespace (Some n) = Inr (Some np)"
  shows "policy_permits np proto port a \<longleftrightarrow>
     (\<exists>s \<in> set (allowedEgressCIDRs n). \<exists>p. usable_cidr (is_true (allowIPv6Egress n)) s p \<and>
        addr_in p a \<and> \<not> blocked_addr a) \<or>
     (port = 53 \<and> (proto = ''UDP'' \<or> proto = ''TCP'') \<and>
      (\<exists>s \<in> set (EffectiveNameservers (Some n)).
         \<exists>d. usable_dns (is_true (allowIPv6Egress n)) s d \<and> a = drop_zone d))"
proof (rule built_policy_permits [OF assms])
  fix m
  assume "Some n = Some m"
  then have m: "m = n" by simp
  assume iff: "\<And>proto port a. policy_permits np proto port a \<longleftrightarrow>
     (\<exists>s \<in> set (allowedEgressCIDRs m). \<exists>p. usable_cidr (is_true (allowIPv6Egress m)) s p \<and>
        addr_in p a \<and> \<not> blocked_addr a) \<or>
     (port = 53 \<and> (proto = ''UDP'' \<or> proto = ''TCP'') \<and>
      (\<exists>s \<in> set (EffectiveNameservers (Some n)).
         \<exists>d. usable_dns (is_true (allowIPv6Egress m)) s d \<and> a = drop_zone d))"
  show ?thesis by (rule iff [unfolded m])
qed

definition example_network :: network where
  "example_network = \<lparr>allowInternetEgress = None, allowClusterDNS = None, allowIPv6Egress = None,
     allowedEgressCIDRs = [''168.63.0.0/16'', ''168.63.7.0/16''], nameservers = [''10.0.0.53''],
     egressRateLimit = None\<rparr>"

lemma example_network_loops:
  "is_true (allowInternetEgress example_network) = False"
  "is_true (allowIPv6Egress example_network) = False"
  "egress_loop False (allowedEgressCIDRs example_network) [] [] =
     Inr [\<lparr>ecPrefix = \<lparr>pfxAddr = IPv4 0xA83F0000, pfxBits = 16\<rparr>,
           ecExcept = [\<lparr>pfxAddr = IPv4 0xA83F8110, pfxBits = 32\<rparr>]\<rparr>]"
  "dns_loop False (EffectiveNameservers (Some example_network)) [] = Inr [IPv4 0x0A000035]"
  by code_simp+

lemma example_network_policy:
  "\<exists>np. BuildCustomNetworkPolicy ''sb'' ''ns'' (Some example_network) = Inr (Some np)"
  using example_network_loops by (auto simp: BuildCustomNetworkPolicy_def)

theorem built_policy_exact_witness:
  "\<exists>np. BuildCustomNetworkPolicy ''sb'' ''ns'' (Some example_network) = Inr (Some np) \<and>
     policy_permits np ''TCP'' 443 (IPv4 0xA83F0101) \<and>
     \<not> policy_permits np ''TCP'' 80 (IPv4 0xA83F8110) \<and>
     policy_permits np ''UDP'' 53 (IPv4 0x0A000035)"
proof -
  obtain np where np: "BuildCustomNetworkPolicy ''sb'' ''ns'' (Some example_network) = Inr (Some np)"
    using example_network_policy by blast
  have 1: "\<not> blocked_addr (IPv4 0xA83F0101)" "blocked_addr (IPv4 0xA83F8110)" by code_simp+
  have 2: "usable_cidr False ''168.63.0.0/16'' \<lparr>pfxAddr = IPv4 0xA83F0000, pfxBits = 16\<rparr>"
      "addr_in \<lparr>pfxAddr = IPv4 0xA83F0000, pfxBits = 16\<rparr> (IPv4 0xA83F0101)"
      "usable_dns False ''10.0.0.53'' (IPv4 0x0A000035)"
      "drop_zone (IPv4 0x0A000035) = IPv4 0x0A000035"
      "''168.63.0.0/16'' \<in> set (allowedEgressCIDRs example_network)"
      "''10.0.0.53'' \<in> set (EffectiveNameservers (Some example_network))"
    by code_simp+
  note exact = built_policy_exact [OF np, unfolded example_network_loops]
  have "policy_permits np ''TCP'' 443 (IPv4 0xA83F0101)" unfolding exact using 1 2 by blast
  moreover have "\<not> policy_permits np ''TCP'' 80 (IPv4 0xA83F8110)" unfolding exact using 1 by simp
  moreover have "policy_permits np ''UDP'' 53 (IPv4 0x0A000035)"
    unfolding exact using 2 by metis
  ultimately show ?thesis using np by blast
qed

text \<open>
  C3. Building the policy fails exactly when internet egress is off and some egress range does
  not parse, or lies inside (or equals) a blocked range of its family while that family is
  allowed, or some nameserver in effect is not an address. IPv6 entries that the sandbox may
  not use are skipped, not errors.
\<close>

theorem built_policy_fails_iff:
  "(\<exists>e. BuildCustomNetworkPolicy sandboxName namespace nw = Inl e) \<longleftrightarrow>
     (\<exists>n. nw = Some n \<and> \<not> is_true (allowInternetEgress n) \<and>
        ((\<exists>s \<in> set (allowedEgressCIDRs n). bad_cidr (is_true (allowIPv6Egress n)) s) \<or>
         (\<exists>s \<in> set (EffectiveNameservers nw). \<exists>e. ParseDNSServerIP s = Inl e)))"
  (is "?lhs \<longleftrightarrow> ?rhs")
proof (cases nw)
  case (Some n)
  have loop: "(\<exists>e. egress_loop (is_true (allowIPv6Egress n)) (allowedEgressCIDRs n) [] [] = Inl e) \<longleftrightarrow>
      (\<exists>s \<in> set (allowedEgressCIDRs n). bad_cidr (is_true (allowIPv6Egress n)) s)"
    by (rule egress_loop_bad) simp
  show ?thesis
    using loop dns_loop_bad [of "is_true (allowIPv6Egress n)" "EffectiveNameservers nw" "[]"] Some
    by (cases "is_true (allowInternetEgress n)";
        cases "egress_loop (is_true (allowIPv6Egress n)) (allowedEgressCIDRs n) [] []";
        cases "dns_loop (is_true (allowIPv6Egress n)) (EffectiveNameservers nw) []")
       (auto simp: BuildCustomNetworkPolicy_def Let_def)
qed (simp add: BuildCustomNetworkPolicy_def)

text \<open>
  The token bucket that caps a sandbox's egress gets a burst between 128 KiB and the 32-bit
  limit of the gVisor flag, and a tenth of the rate wherever that lies in between.
\<close>

theorem egress_burst_bounds:
  "MinEgressBurstBytes \<le> EffectiveEgressBurstBytes rate \<and>
   EffectiveEgressBurstBytes rate \<le> MaxEgressBurstBytes \<and>
   (10 * MinEgressBurstBytes \<le> rate \<and> rate \<le> 10 * MaxEgressBurstBytes + 9 \<longrightarrow>
      EffectiveEgressBurstBytes rate = rate div 10)"
proof -
  have "0 \<le> rate \<Longrightarrow> rate sdiv 10 = rate div 10"
    by (cases "rate = 0") (simp_all add: signed_divide_int_def)
  then show ?thesis
    by (auto simp: EffectiveEgressBurstBytes_def MinEgressBurstBytes_def MaxEgressBurstBytes_def Let_def)
qed

theorem egress_burst_bounds_witness:
  "EffectiveEgressBurstBytes 10000000 = 1000000"
  using egress_burst_bounds [of 10000000]
  by (simp add: MinEgressBurstBytes_def MaxEgressBurstBytes_def)

end
