(* ===== verification/Kube.thy ===== *)
theory Kube
  imports Traced ApiTypes NetPolicy
begin

text \<open>
  What the operator's handlers ask of the outside world. The Kubernetes client, the helpers of
  \<open>apimachinery\<close> and \<open>controllerutil\<close>, the event recorder and the clock are not code of the
  repository: they are the fields of the record \<open>kube\<close>, a parameter of every handler, over a
  world of any type. A handler is a program on \<open>run\<close>: that world, the in-memory object the
  handler was called for, and the sequence of the calls it made with their outcomes. Logging
  and metrics are left out.

  \<open>emits P m\<close> says that every call the program makes satisfies \<open>P\<close>; its rules follow the program's
  structure. The locale \<open>kube_laws\<close> collects what the documentation of the helpers promises.
\<close>


section \<open>Errors\<close>

text \<open>
  The classes of API errors the code tells apart, errors it makes itself, and the two ways it
  wraps one. \<open>IsNotFound\<close> and \<open>IsAlreadyExists\<close> look through wrapping.
\<close>

datatype go_error =
    ApiNotFound string
  | ApiAlreadyExists string
  | ApiOther string
  | PlainError string
  | WrapError string go_error
  | TerminalError go_error

fun IsNotFound :: "go_error \<Rightarrow> bool" where
  "IsNotFound (ApiNotFound m) = True"
| "IsNotFound (WrapError m e) = IsNotFound e"
| "IsNotFound (TerminalError e) = IsNotFound e"
| "IsNotFound _ = False"

fun IsAlreadyExists :: "go_error \<Rightarrow> bool" where
  "IsAlreadyExists (ApiAlreadyExists m) = True"
| "IsAlreadyExists (WrapError m e) = IsAlreadyExists e"
| "IsAlreadyExists (TerminalError e) = IsAlreadyExists e"
| "IsAlreadyExists _ = False"

fun is_terminal :: "go_error \<Rightarrow> bool" where
  "is_terminal (TerminalError e) = True"
| "is_terminal (WrapError m e) = is_terminal e"
| "is_terminal _ = False"


section \<open>The interface\<close>

type_synonym 'a outcome = "go_error + 'a"

record 'w kube =
  kGetSandbox :: "string \<Rightarrow> string \<Rightarrow> 'w \<Rightarrow> sandbox outcome \<times> 'w"
  kUpdateSandbox :: "sandbox \<Rightarrow> 'w \<Rightarrow> sandbox outcome \<times> 'w"
  kPatchSandboxStatus :: "sandbox \<Rightarrow> sandbox \<Rightarrow> 'w \<Rightarrow> sandbox outcome \<times> 'w"
  kDeleteSandbox :: "sandbox \<Rightarrow> 'w \<Rightarrow> unit outcome \<times> 'w"
  kGetPod :: "string \<Rightarrow> string \<Rightarrow> 'w \<Rightarrow> pod outcome \<times> 'w"
  kCreatePod :: "pod \<Rightarrow> 'w \<Rightarrow> unit outcome \<times> 'w"
  kGetNetPol :: "string \<Rightarrow> string \<Rightarrow> 'w \<Rightarrow> network_policy outcome \<times> 'w"
  kCreateNetPol :: "network_policy \<Rightarrow> 'w \<Rightarrow> unit outcome \<times> 'w"
  kGetSnapshot :: "string \<Rightarrow> string \<Rightarrow> 'w \<Rightarrow> rootfs_snapshot outcome \<times> 'w"
  kCreateSnapshot :: "rootfs_snapshot \<Rightarrow> 'w \<Rightarrow> unit outcome \<times> 'w"
  kPatchSnapshotStatus :: "rootfs_snapshot \<Rightarrow> rootfs_snapshot \<Rightarrow> 'w \<Rightarrow> rootfs_snapshot outcome \<times> 'w"
  kDeleteSnapshot :: "rootfs_snapshot \<Rightarrow> 'w \<Rightarrow> unit outcome \<times> 'w"
  kGetJob :: "string \<Rightarrow> string \<Rightarrow> 'w \<Rightarrow> job outcome \<times> 'w"
  kCreateJob :: "job \<Rightarrow> 'w \<Rightarrow> unit outcome \<times> 'w"
  kDeleteJob :: "job \<Rightarrow> 'w \<Rightarrow> unit outcome \<times> 'w"
  kListJobPods :: "string \<Rightarrow> string \<Rightarrow> 'w \<Rightarrow> pod list outcome \<times> 'w"
  kGetRuntimeHandler :: "string \<Rightarrow> 'w \<Rightarrow> string outcome \<times> 'w"
  kNow :: "'w \<Rightarrow> time \<times> 'w"
  kEvent :: "string \<Rightarrow> string \<Rightarrow> string \<Rightarrow> 'w \<Rightarrow> 'w"
  kParseUploadResult :: "string \<Rightarrow> go_error + upload_result"
  kErrorText :: "go_error \<Rightarrow> string"
  kFindCondition :: "condition list \<Rightarrow> string \<Rightarrow> condition option"
  kSetCondition :: "'w \<Rightarrow> condition list \<Rightarrow> condition \<Rightarrow> condition list"
  kSetControllerRef :: "object_meta \<Rightarrow> object_meta \<Rightarrow> object_meta outcome"
  kContainsFinalizer :: "object_meta \<Rightarrow> string \<Rightarrow> bool"
  kAddFinalizer :: "object_meta \<Rightarrow> string \<Rightarrow> object_meta"
  kRemoveFinalizer :: "object_meta \<Rightarrow> string \<Rightarrow> object_meta"

text \<open>A call with its arguments and its outcome.\<close>

datatype call =
    GetSandbox string string "sandbox outcome"
  | UpdateSandbox sandbox "sandbox outcome"
  | PatchSandboxStatus sandbox sandbox "sandbox outcome"
  | DeleteSandbox sandbox "unit outcome"
  | GetPod string string "pod outcome"
  | CreatePod pod "unit outcome"
  | GetNetPol string string "network_policy outcome"
  | CreateNetPol network_policy "unit outcome"
  | GetSnapshot string string "rootfs_snapshot outcome"
  | CreateSnapshot rootfs_snapshot "unit outcome"
  | PatchSnapshotStatus rootfs_snapshot rootfs_snapshot "rootfs_snapshot outcome"
  | DeleteSnapshot rootfs_snapshot "unit outcome"
  | GetJob string string "job outcome"
  | CreateJob job "unit outcome"
  | DeleteJob job "unit outcome"
  | ListJobPods string string "pod list outcome"
  | GetRuntimeHandler string "string outcome"
  | ReadClock time
  | Event string string string

type_synonym 'w sandbox_run = "('w, sandbox, call) run"
type_synonym ('w, 'a) prog = "('w, sandbox, call, 'a) program"
type_synonym ('w, 'a) progE = "('w, sandbox, call, go_error + 'a) program"

definition read_clock :: "'w kube \<Rightarrow> ('w, 'o, call, time) program" where
  "read_clock k = call_api (kNow k) ReadClock"

definition emit_event :: "'w kube \<Rightarrow> string \<Rightarrow> string \<Rightarrow> string \<Rightarrow> ('w, 'o, call, unit) program" where
  "emit_event k kind reason msg = call_api (\<lambda>w. ((), kEvent k kind reason msg w)) (\<lambda>_. Event kind reason msg)"

text \<open>
  The client writes the answer of the server over the object it was given: after a successful
  update or patch the in-memory object is the server's.
\<close>

definition update_sandbox :: "'w kube \<Rightarrow> ('w, unit) progE" where
  "update_sandbox k = State_Monad.bind get_object (\<lambda>sb.
     bindE (call_api (kUpdateSandbox k sb) (UpdateSandbox sb)) (\<lambda>sb'.
       State_Monad.bind (set_object sb') (\<lambda>_. returnE ())))"

definition patch_sandbox_status :: "'w kube \<Rightarrow> sandbox \<Rightarrow> ('w, unit) progE" where
  "patch_sandbox_status k base = State_Monad.bind get_object (\<lambda>sb.
     bindE (call_api (kPatchSandboxStatus k base sb) (PatchSandboxStatus base sb)) (\<lambda>sb'.
       State_Monad.bind (set_object sb') (\<lambda>_. returnE ())))"

definition delete_sandbox :: "'w kube \<Rightarrow> ('w, unit) progE" where
  "delete_sandbox k = State_Monad.bind get_object (\<lambda>sb.
     call_api (kDeleteSandbox k sb) (DeleteSandbox sb))"


section \<open>Reasoning about programs\<close>

lemma wp_patch_sandbox_status [wp_rules]:
  "wp (patch_sandbox_status k base) Q s =
     (case kPatchSandboxStatus k base (rObject s) (rWorld s) of
        (r, w) \<Rightarrow>
          let s' = s \<lparr>rWorld := w, rCalls := rCalls s @ [PatchSandboxStatus base (rObject s) r]\<rparr> in
          (case r of Inl e \<Rightarrow> Q (Inl e) s' | Inr sb \<Rightarrow> Q (Inr ()) (s' \<lparr>rObject := sb\<rparr>)))"
  unfolding patch_sandbox_status_def wp_bind wp_get_object wp_bindE wp_call_api
  by (cases "kPatchSandboxStatus k base (rObject s) (rWorld s)"; cases "fst (kPatchSandboxStatus k base (rObject s) (rWorld s))")
     (simp_all add: Let_def)

lemma traces_bind_clock:
  "(\<And>t. traces I (f t) (\<lambda>ds b. R (ReadClock t # ds) b)) \<Longrightarrow>
     traces I (State_Monad.bind (read_clock k) f) R"
  unfolding read_clock_def by (rule traces_bind_call)

lemma traces_bind_event:
  "traces I (f ()) (\<lambda>ds b. R (Event kind reason msg # ds) b) \<Longrightarrow>
     traces I (State_Monad.bind (emit_event k kind reason msg) f) R"
  unfolding emit_event_def by (rule traces_bind_call) (simp add: unit_eq)

lemma ends_bind_clock:
  "(\<And>t. ends I (f t) (\<lambda>ds b. R (ReadClock t # ds) b)) \<Longrightarrow>
     ends I (State_Monad.bind (read_clock k) f) R"
  unfolding read_clock_def by (rule ends_bind_call)

lemma ends_bind_event:
  "ends I (f ()) (\<lambda>ds b. R (Event kind reason msg # ds) b) \<Longrightarrow>
     ends I (State_Monad.bind (emit_event k kind reason msg) f) R"
  unfolding emit_event_def by (rule ends_bind_call) (simp add: unit_eq)

lemmas traces_intros = run_intros traces_bind_clock traces_bind_event

text \<open>What an answer of the server does to the object is up to the server.\<close>

definition server_keeps :: "(sandbox \<Rightarrow> bool) \<Rightarrow> 'w kube \<Rightarrow> bool" where
  "server_keeps I k \<longleftrightarrow>
     (\<forall>sb w sb' w'. I sb \<and> kUpdateSandbox k sb w = (Inr sb', w') \<longrightarrow> I sb') \<and>
     (\<forall>base sb w sb' w'. I sb \<and> kPatchSandboxStatus k base sb w = (Inr sb', w') \<longrightarrow> I sb')"

lemma server_keeps_True [simp]: "server_keeps (\<lambda>sb. True) k"
  by (simp add: server_keeps_def)

lemma traces_update_sandbox:
  assumes "server_keeps I k" "\<And>sb r. I sb \<Longrightarrow> R [UpdateSandbox sb r] (map_sum id (\<lambda>_. ()) r)"
  shows "traces I (update_sandbox k) R"
proof (rule tracesI)
  fix s :: "'a sandbox_run" assume I: "I (rObject s)"
  obtain r w where r: "kUpdateSandbox k (rObject s) (rWorld s) = (r, w)" by (cases "kUpdateSandbox k (rObject s) (rWorld s)")
  show "wp (update_sandbox k) (\<lambda>a t. I (rObject t) \<and> (\<exists>cs. rCalls t = rCalls s @ cs \<and> R cs a)) s"
  proof (cases r)
    case (Inl e)
    then show ?thesis using I r assms(2) [OF I, of r] by (simp add: update_sandbox_def)
  next
    case (Inr sb')
    then have "I sb'" using assms(1) I r unfolding server_keeps_def by blast
    with Inr show ?thesis using r assms(2) [OF I, of r] by (simp add: update_sandbox_def)
  qed
qed

lemma traces_patch_sandbox_status:
  assumes "server_keeps I k" "\<And>sb r. I sb \<Longrightarrow> R [PatchSandboxStatus base sb r] (map_sum id (\<lambda>_. ()) r)"
  shows "traces I (patch_sandbox_status k base) R"
proof (rule tracesI)
  fix s :: "'a sandbox_run" assume I: "I (rObject s)"
  obtain r w where r: "kPatchSandboxStatus k base (rObject s) (rWorld s) = (r, w)"
    by (cases "kPatchSandboxStatus k base (rObject s) (rWorld s)")
  show "wp (patch_sandbox_status k base) (\<lambda>a t. I (rObject t) \<and> (\<exists>cs. rCalls t = rCalls s @ cs \<and> R cs a)) s"
  proof (cases r)
    case (Inl e)
    then show ?thesis using I r assms(2) [OF I, of r] by (simp add: patch_sandbox_status_def)
  next
    case (Inr sb')
    then have "I sb'" using assms(1) I r unfolding server_keeps_def by blast
    with Inr show ?thesis using r assms(2) [OF I, of r] by (simp add: patch_sandbox_status_def)
  qed
qed

lemma emits_update_sandbox [emits_intros]:
  "server_keeps I k \<Longrightarrow> (\<And>sb r. P (UpdateSandbox sb r)) \<Longrightarrow> emits I P (update_sandbox k)"
  unfolding emits_def by (rule traces_update_sandbox) simp_all

lemma emits_patch_sandbox_status [emits_intros]:
  "server_keeps I k \<Longrightarrow> (\<And>sb r. P (PatchSandboxStatus base sb r)) \<Longrightarrow>
     emits I P (patch_sandbox_status k base)"
  unfolding emits_def by (rule traces_patch_sandbox_status) simp_all

lemma emits_delete_sandbox [emits_intros]:
  "(\<And>sb r. P (DeleteSandbox sb r)) \<Longrightarrow> emits I P (delete_sandbox k)"
  unfolding delete_sandbox_def by (intro emits_intros)

lemma emits_bind_clock [emits_intros]:
  "(\<And>t. P (ReadClock t)) \<Longrightarrow> (\<And>t. emits I P (f t)) \<Longrightarrow>
     emits I P (State_Monad.bind (read_clock k) f)"
  unfolding read_clock_def by (rule emits_bind_call)

lemma emits_bind_event [emits_intros]:
  "P (Event kind reason msg) \<Longrightarrow> emits I P (f ()) \<Longrightarrow>
     emits I P (State_Monad.bind (emit_event k kind reason msg) f)"
  unfolding emit_event_def by (rule emits_bind_call) (simp_all add: unit_eq)


section \<open>What stays the same about a sandbox\<close>

type_synonym identity = "string \<times> string \<times> network option \<times> termination_policy option"

definition identity :: "sandbox \<Rightarrow> identity" where
  "identity sb = (metaName (sbMeta sb), metaNamespace (sbMeta sb), sbNetwork (sbSpec sb),
     terminationPolicy (sbSpec sb))"

text \<open>
  The assumptions on the outside world: the server's answers keep name, namespace and the
  immutable fields, and the finalizer helpers touch the finalizers only.
\<close>

definition orderly :: "'w kube \<Rightarrow> bool" where
  "orderly k \<longleftrightarrow> (\<forall>i. server_keeps (\<lambda>sb. identity sb = i) k) \<and>
     (\<forall>m f. kContainsFinalizer k (kAddFinalizer k m f) f) \<and>
     (\<forall>m f. kAddFinalizer k m f \<lparr>metaFinalizers := metaFinalizers m\<rparr> = m) \<and>
     (\<forall>m f. kRemoveFinalizer k m f \<lparr>metaFinalizers := metaFinalizers m\<rparr> = m)"


section \<open>The helpers' contract\<close>

text \<open>
  \<open>meta.SetStatusCondition\<close> sets or replaces the condition of its type and leaves the others;
  \<open>meta.FindStatusCondition\<close> finds by type. \<open>AddFinalizer\<close>, \<open>RemoveFinalizer\<close> and
  \<open>ContainsFinalizer\<close> treat the finalizers as a set.
\<close>

definition same_condition :: "condition \<Rightarrow> condition \<Rightarrow> bool" where
  "same_condition c d \<longleftrightarrow> condType c = condType d \<and> condStatus c = condStatus d \<and>
     condReason c = condReason d \<and> condMessage c = condMessage d"

locale kube_laws =
  fixes k :: "'w kube"
  assumes find_type: "kFindCondition k cs t = Some c \<Longrightarrow> condType c = t"
    and find_set_same:
      "\<exists>d. kFindCondition k (kSetCondition k w cs c) (condType c) = Some d \<and> same_condition c d"
    and find_set_other:
      "condType c \<noteq> t \<Longrightarrow> kFindCondition k (kSetCondition k w cs c) t = kFindCondition k cs t"
    and contains_add: "kContainsFinalizer k (kAddFinalizer k m f) f"
    and contains_remove: "\<not> kContainsFinalizer k (kRemoveFinalizer k m f) f"
    and add_frame: "kAddFinalizer k m f \<lparr>metaFinalizers := metaFinalizers m\<rparr> = m"
    and remove_frame: "kRemoveFinalizer k m f \<lparr>metaFinalizers := metaFinalizers m\<rparr> = m"
begin

lemma find_after_sets:
  "\<forall>c \<in> set new. condType c \<noteq> t \<Longrightarrow>
     kFindCondition k (foldl (kSetCondition k w) cs new) t = kFindCondition k cs t"
proof (induction new arbitrary: cs)
  case (Cons c new)
  then show ?case using find_set_other [of c t w cs] by simp
qed simp

lemma find_after_sets_last:
  assumes "\<forall>d \<in> set new. condType d \<noteq> condType c"
  shows "\<exists>d. kFindCondition k (foldl (kSetCondition k w) cs (pre @ c # new)) (condType c) = Some d \<and>
     same_condition c d"
proof -
  let ?cs = "kSetCondition k w (foldl (kSetCondition k w) cs pre) c"
  have "kFindCondition k (foldl (kSetCondition k w) ?cs new) (condType c)
      = kFindCondition k ?cs (condType c)"
    using assms by (rule find_after_sets)
  then show ?thesis using find_set_same by simp
qed

end

end
