(* ===== verification/SandboxPod.thy ===== *)
theory SandboxPod
  imports Kube
begin

text \<open>
  How \<open>SandboxReconciler.CreateSandboxPod\<close> turns a sandbox into its pod: labels, annotations,
  the restore of rootfs snapshots, DNS, the markers of the containers and the sidecar. These
  are the pure steps; the calls are in the theory of the controller.
\<close>


section \<open>Configuration and names\<close>

text \<open>The fields of \<open>SandboxReconciler\<close> the steps read, and the version of the operator build.\<close>

record sandbox_reconciler =
  SandboxSidecarImage :: string
  SandboxSidecarImagePullPolicy :: string
  RuntimeClassName :: string
  PriorityClassName :: string
  ImagePullSecrets :: "string list"
  RootfsSnapshotHostMountPath :: string
  GitVersion :: string

definition sandboxSidecarContainerName :: string where
  "sandboxSidecarContainerName = ''sandbox-sidecar''"

definition LabelSandbox :: string where "LabelSandbox = ''isola.run/sandbox''"

definition LabelAllowIPv4Internet :: string where
  "LabelAllowIPv4Internet = ''isola.run/allow-ipv4-internet-egress''"

definition LabelAllowIPv6Internet :: string where
  "LabelAllowIPv6Internet = ''isola.run/allow-ipv6-internet-egress''"

definition LabelAllowClusterDNS :: string where
  "LabelAllowClusterDNS = ''isola.run/allow-cluster-dns''"

definition SidecarVersionAnnotation :: string where
  "SidecarVersionAnnotation = ''isola.run/sidecar-version''"


section \<open>Labels and annotations\<close>

definition buildNetworkLabels :: "network option \<Rightarrow> str_map" where
  "buildNetworkLabels nw =
     (case nw of
        None \<Rightarrow> Map.empty
      | Some n \<Rightarrow>
          let l1 = (if is_true (allowInternetEgress n)
                    then (let l = [LabelAllowIPv4Internet \<mapsto> ''true''] in
                          if is_true (allowIPv6Egress n)
                          then l(LabelAllowIPv6Internet \<mapsto> ''true'') else l)
                    else Map.empty) in
          if is_true (allowClusterDNS n) then l1(LabelAllowClusterDNS \<mapsto> ''true'') else l1)"

text \<open>The template's labels first, then the operator's own over them.\<close>

definition pod_labels :: "sandbox \<Rightarrow> str_map" where
  "pod_labels sb =
     (tplLabels (podTemplate (sbSpec sb)))
       (''app.kubernetes.io/name'' \<mapsto> ''isola-sandbox'',
        ''app.kubernetes.io/instance'' \<mapsto> metaName (sbMeta sb),
        ''app.kubernetes.io/component'' \<mapsto> ''sandbox'',
        ''app.kubernetes.io/part-of'' \<mapsto> ''isola'',
        ''app.kubernetes.io/managed-by'' \<mapsto> ''isola-operator'',
        LabelSandbox \<mapsto> ''true'',
        ''cluster-autoscaler.kubernetes.io/safe-to-evict'' \<mapsto> ''false'')
     ++ buildNetworkLabels (sbNetwork (sbSpec sb))"

definition pod_annotations :: "sandbox \<Rightarrow> str_map" where
  "pod_annotations sb =
     (let a = (tplAnnotations (podTemplate (sbSpec sb)))(''dev.gvisor.flag.overlay2'' \<mapsto> ''root:self'') in
      (case sbNetwork (sbSpec sb) of
         None \<Rightarrow> a
       | Some n \<Rightarrow>
           (case egressRateLimit n of
              None \<Rightarrow> a
            | Some rate \<Rightarrow>
                a(''dev.gvisor.flag.qdisc'' \<mapsto> ''tbf'',
                  ''dev.gvisor.flag.qdisc-tbf-rate'' \<mapsto> itoa rate,
                  ''dev.gvisor.flag.qdisc-tbf-burst'' \<mapsto> itoa (EffectiveEgressBurstBytes rate)))))"

text \<open>The pod as it stands before the snapshot sources are looked at.\<close>

definition base_pod :: "sandbox_reconciler \<Rightarrow> sandbox \<Rightarrow> pod" where
  "base_pod r sb =
     (let spec = tplSpec (podTemplate (sbSpec sb)) in
      \<lparr>podMeta = empty_meta
         \<lparr>metaName := GetSandboxPodName (metaName (sbMeta sb)),
          metaNamespace := metaNamespace (sbMeta sb),
          metaLabels := pod_labels sb,
          metaAnnotations := pod_annotations sb\<rparr>,
       podSpec = spec
         \<lparr>podRestartPolicy := Some RestartNever,
          podAutomountToken := Some False,
          podPullSecrets := podPullSecrets spec @ ImagePullSecrets r,
          podRuntimeClass := Some (RuntimeClassName r)\<rparr>,
       podStatus = empty_pod_status\<rparr>)"


section \<open>Restoring rootfs snapshots\<close>

definition restore_key :: "string \<Rightarrow> string" where
  "restore_key name = ''dev.gvisor.tar.rootfs.upper.'' @ name"

definition restore_path :: "sandbox_reconciler \<Rightarrow> string \<Rightarrow> string \<Rightarrow> string" where
  "restore_path r namespace snap =
     RootfsSnapshotHostMountPath r @ ''/'' @ namespace @ ''/'' @ snap @ ''.tar''"

text \<open>The first container of that name gets the restart rule for exit code 128.\<close>

fun set_restart_rule :: "string \<Rightarrow> pod_container list \<Rightarrow> pod_container list" where
  "set_restart_rule name [] = []"
| "set_restart_rule name (c # cs) =
     (if ctrName c = name then
        c \<lparr>ctrRestartPolicy := Some RestartNever,
           ctrRestartRules := [\<lparr>ruleRestart = True, ruleExitCodesIn = [128]\<rparr>]\<rparr> # cs
      else c # set_restart_rule name cs)"

text \<open>
  One source. The container set was computed before the loop; the rules only change restart
  fields, so the names do not change on the way.
\<close>

definition restore_target :: "snapshot_source \<Rightarrow> pod \<Rightarrow> go_error + string" where
  "restore_target src p =
     (let cs = podContainers (podSpec p) in
      if srcContainerName src = [] then
        (case cs of
           [c] \<Rightarrow> Inr (ctrName c)
         | _ \<Rightarrow> Inl (TerminalError (PlainError
                (''containerName must be specified when sandbox has ''
                 @ nat_digits (length cs) @ '' containers''))))
      else Inr (srcContainerName src))"

definition restore_one :: "sandbox_reconciler \<Rightarrow> string \<Rightarrow> snapshot_source \<Rightarrow> pod \<Rightarrow> go_error + pod" where
  "restore_one r namespace src p =
     (case restore_target src p of
        Inl e \<Rightarrow> Inl e
      | Inr name \<Rightarrow>
          if name \<notin> ctrName ` set (podContainers (podSpec p)) then
            Inl (TerminalError (PlainError
              (''container '' @ quoted name @ '' not found in sandbox pod'')))
          else if \<not> is_local (srcSnapshotName src) then
            Inl (TerminalError (PlainError
              (''invalid snapshot name '' @ quoted (srcSnapshotName src)
               @ '': must be a safe local path component'')))
          else if metaAnnotations (podMeta p) (restore_key name) \<noteq> None then
            Inl (TerminalError (PlainError
              (''duplicate restore target: container '' @ quoted name)))
          else
            Inr (p \<lparr>podMeta := (podMeta p) \<lparr>metaAnnotations := (metaAnnotations (podMeta p))
                      (restore_key name \<mapsto> restore_path r namespace (srcSnapshotName src))\<rparr>,
                    podSpec := (podSpec p) \<lparr>podContainers :=
                      set_restart_rule name (podContainers (podSpec p))\<rparr>\<rparr>))"

text \<open>
  \<open>injectRootfsRestore\<close> works on the pod in place, so an error comes with the pod as the
  sources before it left it.
\<close>

fun restore_loop :: "sandbox_reconciler \<Rightarrow> string \<Rightarrow> snapshot_source list \<Rightarrow> pod \<Rightarrow> go_error option \<times> pod" where
  "restore_loop r namespace [] p = (None, p)"
| "restore_loop r namespace (src # rest) p =
     (case restore_one r namespace src p of
        Inl e \<Rightarrow> (Some e, p)
      | Inr q \<Rightarrow> restore_loop r namespace rest q)"

definition injectRootfsRestore ::
  "sandbox_reconciler \<Rightarrow> snapshot_source list \<Rightarrow> pod \<Rightarrow> string \<Rightarrow> go_error option \<times> pod" where
  "injectRootfsRestore r sources p namespace =
     (if \<not> is_local namespace then
        (Some (TerminalError (PlainError
           (''invalid namespace '' @ quoted namespace @ '': must be a safe local path component''))), p)
      else restore_loop r namespace sources p)"


section \<open>DNS, markers and the sidecar\<close>

definition empty_dns :: dns_config where
  "empty_dns = \<lparr>dnsNameservers = [], dnsSearches = [], dnsOptions = []\<rparr>"

definition allow_cluster_dns :: "network option \<Rightarrow> bool" where
  "allow_cluster_dns nw \<longleftrightarrow> (case nw of None \<Rightarrow> False | Some n \<Rightarrow> is_true (allowClusterDNS n))"

definition own_nameservers :: "network option \<Rightarrow> string list" where
  "own_nameservers nw = (case nw of None \<Rightarrow> [] | Some n \<Rightarrow> nameservers n)"

definition isolated_dns :: "network option \<Rightarrow> dns_config" where
  "isolated_dns nw =
     (let ns = EffectiveNameservers nw in
      if ns \<noteq> [] then
        \<lparr>dnsNameservers = ns, dnsSearches = [], dnsOptions = [(''ndots'', Some ''1'')]\<rparr>
      else
        \<lparr>dnsNameservers = [''127.0.0.1''], dnsSearches = [],
         dnsOptions = [(''timeout'', Some ''1''), (''attempts'', Some ''1''), (''ndots'', Some ''1'')]\<rparr>)"

definition configureDNS :: "network option \<Rightarrow> pod_spec \<Rightarrow> pod_spec" where
  "configureDNS nw spec =
     (if allow_cluster_dns nw then
        (let spec1 = spec \<lparr>podDNSPolicy := DNSClusterFirst\<rparr> in
         if own_nameservers nw \<noteq> [] then
           (let dns = (case podDNSConfig spec of None \<Rightarrow> empty_dns | Some d \<Rightarrow> d) in
            spec1 \<lparr>podDNSConfig := Some (dns \<lparr>dnsNameservers := own_nameservers nw\<rparr>)\<rparr>)
         else spec1)
      else spec \<lparr>podDNSPolicy := DNSNone, podDNSConfig := Some (isolated_dns nw)\<rparr>)"

definition default_command :: "pod_container \<Rightarrow> pod_container" where
  "default_command c =
     (if ctrCommand c = [] then c \<lparr>ctrCommand := [''sleep'', ''infinity'']\<rparr> else c)"

definition mark_container :: "pod_container \<Rightarrow> pod_container" where
  "mark_container c =
     c \<lparr>ctrEnv := ctrEnv c @ [\<lparr>envName = IsolaContainerNameEnv, envVal = ctrName c\<rparr>]\<rparr>"

definition markContainers :: "pod \<Rightarrow> pod" where
  "markContainers p = p \<lparr>podSpec := (podSpec p)
     \<lparr>podContainers := map mark_container (podContainers (podSpec p))\<rparr>\<rparr>"

definition buildSandboxSidecarContainer :: "sandbox_reconciler \<Rightarrow> pod_container" where
  "buildSandboxSidecarContainer r =
     \<lparr>ctrName = sandboxSidecarContainerName, ctrImage = SandboxSidecarImage r,
      ctrPullPolicy = SandboxSidecarImagePullPolicy r, ctrCommand = [], ctrEnv = [],
      ctrRestartPolicy = Some RestartAlways, ctrRestartRules = [],
      ctrResources = Some
        \<lparr>resLimits = \<lparr>rlCPU = Some ''1m'', rlMemory = Some ''1Mi'', rlEphemeral = None\<rparr>,
         resRequests = \<lparr>rlCPU = Some ''1m'', rlMemory = Some ''1Mi'', rlEphemeral = None\<rparr>\<rparr>,
      ctrSecurity = Some \<lparr>runAsUser = Some 0, privileged = None, capAdd = [''SYS_PTRACE'']\<rparr>,
      ctrRest = []\<rparr>"

definition injectSandboxSidecar :: "sandbox_reconciler \<Rightarrow> pod \<Rightarrow> pod" where
  "injectSandboxSidecar r p = p \<lparr>podSpec := (podSpec p)
     \<lparr>podInitContainers := podInitContainers (podSpec p) @ [buildSandboxSidecarContainer r]\<rparr>\<rparr>"

text \<open>What follows the restore in \<open>CreateSandboxPod\<close>, up to the owner reference.\<close>

definition finish_pod :: "sandbox_reconciler \<Rightarrow> sandbox \<Rightarrow> pod \<Rightarrow> pod" where
  "finish_pod r sb p0 =
     (let p1 = p0 \<lparr>podSpec := (podSpec p0) \<lparr>podSharePID := Some True\<rparr>\<rparr>;
          p2 = (if PriorityClassName r \<noteq> []
                then p1 \<lparr>podSpec := (podSpec p1) \<lparr>podPriorityClass := PriorityClassName r\<rparr>\<rparr> else p1);
          p3 = p2 \<lparr>podSpec := (podSpec p2)
                 \<lparr>podContainers := map default_command (podContainers (podSpec p2))\<rparr>\<rparr>;
          p4 = p3 \<lparr>podSpec := configureDNS (sbNetwork (sbSpec sb)) (podSpec p3)\<rparr>;
          p5 = injectSandboxSidecar r (markContainers p4) in
      p5 \<lparr>podMeta := (podMeta p5) \<lparr>metaAnnotations :=
            (metaAnnotations (podMeta p5))(SidecarVersionAnnotation \<mapsto> GitVersion r)\<rparr>\<rparr>)"

text \<open>
  The pod's containers and, when the template has one, its DNS configuration are the objects of
  the sandbox's template: what the steps write to them, the in-memory sandbox shows. With
  cluster DNS off the pod gets a DNS configuration of its own.
\<close>

definition share_template :: "pod \<Rightarrow> sandbox \<Rightarrow> sandbox" where
  "share_template p sb =
     (let tpl = podTemplate (sbSpec sb); spec = tplSpec tpl;
          dns = (if podDNSConfig spec \<noteq> None \<and> podDNSPolicy (podSpec p) = DNSClusterFirst
                   \<and> allow_cluster_dns (sbNetwork (sbSpec sb))
                 then podDNSConfig (podSpec p) else podDNSConfig spec) in
      sb \<lparr>sbSpec := (sbSpec sb) \<lparr>podTemplate := tpl
        \<lparr>tplSpec := spec \<lparr>podContainers := podContainers (podSpec p), podDNSConfig := dns\<rparr>\<rparr>\<rparr>\<rparr>)"


section \<open>Lemmas on the steps\<close>

lemma set_restart_rule_names [simp]: "map ctrName (set_restart_rule name cs) = map ctrName cs"
  by (induction cs) auto

lemma set_restart_rule_name_set [simp]: "ctrName ` set (set_restart_rule name cs) = ctrName ` set cs"
  by (induction cs) auto

lemma set_restart_rule_length [simp]: "length (set_restart_rule name cs) = length cs"
  by (induction cs) auto

lemma restore_key_inj [simp]: "restore_key m = restore_key n \<longleftrightarrow> m = n"
  by (simp add: restore_key_def)

lemma restore_one_Inl: "restore_one r ns src p = Inl e \<Longrightarrow> is_terminal e"
  by (auto simp: restore_one_def restore_target_def Let_def split: sum.splits if_splits list.splits)

lemma restore_one_Inr:
  assumes "restore_one r ns src p = Inr q"
  obtains name where "name \<in> ctrName ` set (podContainers (podSpec p))"
    "is_local (srcSnapshotName src)"
    "metaAnnotations (podMeta p) (restore_key name) = None"
    "srcContainerName src = name \<or> srcContainerName src = [] \<and> (\<exists>c. podContainers (podSpec p) = [c] \<and> name = ctrName c)"
    "metaAnnotations (podMeta q) =
       (metaAnnotations (podMeta p))(restore_key name \<mapsto> restore_path r ns (srcSnapshotName src))"
    "podContainers (podSpec q) = set_restart_rule name (podContainers (podSpec p))"
    "podSpec q \<lparr>podContainers := podContainers (podSpec p)\<rparr> = podSpec p"
    "podMeta q \<lparr>metaAnnotations := metaAnnotations (podMeta p)\<rparr> = podMeta p"
proof -
  obtain name where t: "restore_target src p = Inr name"
    using assms by (auto simp: restore_one_def split: sum.splits)
  have "srcContainerName src = name \<or>
      srcContainerName src = [] \<and> (\<exists>c. podContainers (podSpec p) = [c] \<and> name = ctrName c)"
    using t by (auto simp: restore_target_def Let_def split: if_splits list.splits)
  then show thesis
    using assms t by (intro that [of name]) (auto simp: restore_one_def split: if_splits)
qed

lemma injectRootfsRestore_error_terminal:
  "injectRootfsRestore r sources p ns = (Some e, q) \<Longrightarrow> is_terminal e"
proof -
  have "restore_loop r ns sources p = (Some e, q) \<Longrightarrow> is_terminal e" for sources p
    by (induction sources arbitrary: p) (auto split: sum.splits dest: restore_one_Inl)
  then show "injectRootfsRestore r sources p ns = (Some e, q) \<Longrightarrow> is_terminal e"
    by (auto simp: injectRootfsRestore_def split: if_splits)
qed

text \<open>The annotations a restore of the sources into the containers adds.\<close>

definition restore_map :: "sandbox_reconciler \<Rightarrow> string \<Rightarrow> snapshot_source list \<Rightarrow> string list \<Rightarrow> str_map" where
  "restore_map r ns sources targets =
     map_of (zip (map restore_key targets) (map (restore_path r ns \<circ> srcSnapshotName) sources))"

lemma restore_loop_ok:
  assumes "restore_loop r ns sources p = (None, q)"
  shows "\<exists>targets. length targets = length sources \<and> distinct targets \<and>
     set targets \<subseteq> ctrName ` set (podContainers (podSpec p)) \<and>
     (\<forall>t \<in> set targets. metaAnnotations (podMeta p) (restore_key t) = None) \<and>
     (\<forall>src \<in> set sources. is_local (srcSnapshotName src)) \<and>
     metaAnnotations (podMeta q) = metaAnnotations (podMeta p) ++ restore_map r ns sources targets \<and>
     map ctrName (podContainers (podSpec q)) = map ctrName (podContainers (podSpec p)) \<and>
     podSpec q \<lparr>podContainers := podContainers (podSpec p)\<rparr> = podSpec p \<and>
     podMeta q \<lparr>metaAnnotations := metaAnnotations (podMeta p)\<rparr> = podMeta p"
  using assms
proof (induction sources arbitrary: p)
  case Nil
  then show ?case by (intro exI [of _ "[]"]) (simp add: restore_map_def)
next
  case (Cons src sources)
  then obtain p' where p': "restore_one r ns src p = Inr p'" and
      rest: "restore_loop r ns sources p' = (None, q)"
    by (auto split: sum.splits)
  obtain name where n: "name \<in> ctrName ` set (podContainers (podSpec p))"
    "is_local (srcSnapshotName src)" "metaAnnotations (podMeta p) (restore_key name) = None"
    and ann: "metaAnnotations (podMeta p') =
       (metaAnnotations (podMeta p))(restore_key name \<mapsto> restore_path r ns (srcSnapshotName src))"
    and ctr: "podContainers (podSpec p') = set_restart_rule name (podContainers (podSpec p))"
    and frame: "podSpec p' \<lparr>podContainers := podContainers (podSpec p)\<rparr> = podSpec p"
    "podMeta p' \<lparr>metaAnnotations := metaAnnotations (podMeta p)\<rparr> = podMeta p"
    using restore_one_Inr [OF p'] by metis
  obtain ts where ts: "length ts = length sources" "distinct ts"
     "set ts \<subseteq> ctrName ` set (podContainers (podSpec p'))"
     "\<forall>t \<in> set ts. metaAnnotations (podMeta p') (restore_key t) = None"
     "\<forall>src \<in> set sources. is_local (srcSnapshotName src)"
     "metaAnnotations (podMeta q) = metaAnnotations (podMeta p') ++ restore_map r ns sources ts"
     "map ctrName (podContainers (podSpec q)) = map ctrName (podContainers (podSpec p'))"
     "podSpec q \<lparr>podContainers := podContainers (podSpec p')\<rparr> = podSpec p'"
     "podMeta q \<lparr>metaAnnotations := metaAnnotations (podMeta p')\<rparr> = podMeta p'"
    using Cons.IH [OF rest] by blast
  have new: "name \<notin> set ts" using ts(4) by (auto simp: ann)
  have dom: "restore_key name \<notin> dom (restore_map r ns sources ts)"
    using new ts(1) by (auto simp: restore_map_def dom_map_of_zip)
  have "restore_map r ns (src # sources) (name # ts) =
      (restore_map r ns sources ts)(restore_key name \<mapsto> restore_path r ns (srcSnapshotName src))"
    by (simp add: restore_map_def)
  then have "metaAnnotations (podMeta q) =
      metaAnnotations (podMeta p) ++ restore_map r ns (src # sources) (name # ts)"
    using dom ts(6) ann by (simp add: map_add_upd_left)
  moreover have "podSpec q \<lparr>podContainers := podContainers (podSpec p)\<rparr> = podSpec p"
    using ts(8) frame(1) by (metis pod_spec.surjective pod_spec.update_convs(1))
  moreover have "podMeta q \<lparr>metaAnnotations := metaAnnotations (podMeta p)\<rparr> = podMeta p"
    using ts(9) frame(2) by (metis object_meta.surjective object_meta.update_convs(5))
  ultimately show ?case
    using n new ts ctr ann
    by (intro exI [of _ "name # ts"]) (auto split: if_splits)
qed

lemma restore_path_local:
  assumes "is_local ns" "is_local snap"
  shows "\<exists>rel. restore_path r ns snap = RootfsSnapshotHostMountPath r @ ''/'' @ rel \<and> is_local rel"
proof -
  have "is_local (ns @ ''/'' @ (snap @ ''.tar''))"
    using assms by (intro is_local_join is_local_suffix) auto
  then show ?thesis by (auto simp: restore_path_def)
qed


text \<open>The labels the operator owns.\<close>

definition operator_labels :: "sandbox \<Rightarrow> str_map" where
  "operator_labels sb =
     [''app.kubernetes.io/name'' \<mapsto> ''isola-sandbox'',
      ''app.kubernetes.io/instance'' \<mapsto> metaName (sbMeta sb),
      ''app.kubernetes.io/component'' \<mapsto> ''sandbox'',
      ''app.kubernetes.io/part-of'' \<mapsto> ''isola'',
      ''app.kubernetes.io/managed-by'' \<mapsto> ''isola-operator'',
      LabelSandbox \<mapsto> ''true'',
      ''cluster-autoscaler.kubernetes.io/safe-to-evict'' \<mapsto> ''false'']"

text \<open>A network label is granted by the network specification.\<close>

definition granted :: "network option \<Rightarrow> string \<Rightarrow> bool" where
  "granted nw l \<longleftrightarrow>
     (case nw of
        None \<Rightarrow> False
      | Some n \<Rightarrow>
          l = LabelAllowIPv4Internet \<and> is_true (allowInternetEgress n) \<or>
          l = LabelAllowIPv6Internet \<and> is_true (allowInternetEgress n) \<and> is_true (allowIPv6Egress n) \<or>
          l = LabelAllowClusterDNS \<and> is_true (allowClusterDNS n))"

lemma label_names_distinct [simp]:
  "LabelAllowIPv4Internet \<noteq> LabelAllowIPv6Internet" "LabelAllowIPv6Internet \<noteq> LabelAllowIPv4Internet"
  "LabelAllowIPv4Internet \<noteq> LabelAllowClusterDNS" "LabelAllowClusterDNS \<noteq> LabelAllowIPv4Internet"
  "LabelAllowIPv6Internet \<noteq> LabelAllowClusterDNS" "LabelAllowClusterDNS \<noteq> LabelAllowIPv6Internet"
  by (simp_all add: LabelAllowIPv4Internet_def LabelAllowIPv6Internet_def LabelAllowClusterDNS_def)

lemma buildNetworkLabels_granted:
  "buildNetworkLabels nw l = (if granted nw l then Some ''true'' else None)"
  by (auto simp: buildNetworkLabels_def granted_def Let_def split: option.splits)

lemma granted_not_operator: "granted nw l \<Longrightarrow> operator_labels sb l = None"
  by (auto simp: granted_def operator_labels_def LabelSandbox_def LabelAllowIPv4Internet_def
      LabelAllowIPv6Internet_def LabelAllowClusterDNS_def split: option.splits)

lemma pod_labels_eq:
  "pod_labels sb = tplLabels (podTemplate (sbSpec sb)) ++ operator_labels sb
     ++ buildNetworkLabels (sbNetwork (sbSpec sb))"
  by (simp add: pod_labels_def operator_labels_def)


section \<open>Properties\<close>

text \<open>
  The labels of a sandbox pod, for every label: the operator's value for the labels it
  owns, whatever the template says; \<open>true\<close> for a network label that the network specification
  grants; and the template's value for every other label. In particular a network label that
  is not granted keeps the value the template gives it: the operator does not remove it.
\<close>

theorem pod_labels_exact:
  "pod_labels sb l =
     (if granted (sbNetwork (sbSpec sb)) l then Some ''true''
      else case operator_labels sb l of
             Some v \<Rightarrow> Some v
           | None \<Rightarrow> tplLabels (podTemplate (sbSpec sb)) l)"
  by (auto simp: pod_labels_eq buildNetworkLabels_granted map_add_def granted_not_operator
      split: option.splits)

text \<open>
  C12. When the restore of the rootfs snapshots into a pod succeeds, each source has its own
  container of the pod; the pod's annotations are the old ones and one new annotation per
  source, none of which replaces an old one; and each new path is the host mount followed by
  a path that stays below it. Names and order of the containers and everything else of
  the pod stay as they were.
\<close>

theorem restore_confined:
  assumes "injectRootfsRestore r sources p ns = (None, q)"
  shows "\<exists>targets. length targets = length sources \<and> distinct targets \<and>
     set targets \<subseteq> ctrName ` set (podContainers (podSpec p)) \<and>
     (\<forall>t \<in> set targets. metaAnnotations (podMeta p) (restore_key t) = None) \<and>
     metaAnnotations (podMeta q) = metaAnnotations (podMeta p) ++ restore_map r ns sources targets \<and>
     (\<forall>src \<in> set sources. \<exists>rel. is_local rel \<and>
        restore_path r ns (srcSnapshotName src) = RootfsSnapshotHostMountPath r @ ''/'' @ rel) \<and>
     map ctrName (podContainers (podSpec q)) = map ctrName (podContainers (podSpec p)) \<and>
     podSpec q \<lparr>podContainers := podContainers (podSpec p)\<rparr> = podSpec p \<and>
     podMeta q \<lparr>metaAnnotations := metaAnnotations (podMeta p)\<rparr> = podMeta p"
proof -
  have ns: "is_local ns" and loop: "restore_loop r ns sources p = (None, q)"
    using assms by (auto simp: injectRootfsRestore_def split: if_splits)
  show ?thesis
    using restore_loop_ok [OF loop] restore_path_local [OF ns, of _ r] by metis
qed

definition example_container :: "string \<Rightarrow> pod_container" where
  "example_container n = \<lparr>ctrName = n, ctrImage = ''img'', ctrPullPolicy = [], ctrCommand = [],
     ctrEnv = [], ctrRestartPolicy = None, ctrRestartRules = [], ctrResources = None,
     ctrSecurity = None, ctrRest = []\<rparr>"

definition example_spec :: pod_spec where
  "example_spec = \<lparr>podContainers = [example_container ''a'', example_container ''b''],
     podInitContainers = [], podRestartPolicy = None, podAutomountToken = None, podPullSecrets = [],
     podRuntimeClass = None, podSharePID = None, podPriorityClass = [], podDNSPolicy = DNSUnset,
     podDNSConfig = None, podNodeName = [], podSpecRest = []\<rparr>"

definition example_reconciler :: sandbox_reconciler where
  "example_reconciler = \<lparr>SandboxSidecarImage = ''sidecar:1'', SandboxSidecarImagePullPolicy = [],
     RuntimeClassName = ''gvisor'', PriorityClassName = [], ImagePullSecrets = [],
     RootfsSnapshotHostMountPath = ''/mnt'', GitVersion = ''v1''\<rparr>"

definition example_pod :: pod where
  "example_pod = \<lparr>podMeta = empty_meta, podSpec = example_spec, podStatus = empty_pod_status\<rparr>"

theorem restore_confined_witness:
  "\<exists>q targets. injectRootfsRestore example_reconciler
       [\<lparr>srcSnapshotName = ''s1'', srcContainerName = ''b''\<rparr>] example_pod ''ns'' = (None, q) \<and>
     length targets = 1 \<and>
     metaAnnotations (podMeta q) = metaAnnotations (podMeta example_pod) ++
       restore_map example_reconciler ''ns'' [\<lparr>srcSnapshotName = ''s1'', srcContainerName = ''b''\<rparr>] targets"
proof -
  let ?src = "\<lparr>srcSnapshotName = ''s1'', srcContainerName = ''b''\<rparr>"
  obtain q where q: "injectRootfsRestore example_reconciler [?src] example_pod ''ns'' = (None, q)"
    by (simp add: injectRootfsRestore_def restore_one_def restore_target_def Let_def example_pod_def
        example_spec_def example_container_def empty_meta_def is_local_def clean_parts_def
        clean_step_def example_reconciler_def)
  show ?thesis using restore_confined [OF q] q by auto
qed

text \<open>
  Every error of the restore is terminal: the sandbox's specification is at fault, and
  no retry would help. Both the sources and the namespace are checked.
\<close>

theorem restore_errors_terminal:
  "fst (injectRootfsRestore r sources p ns) = None \<or>
   (\<exists>e. fst (injectRootfsRestore r sources p ns) = Some e \<and> is_terminal e)"
  using injectRootfsRestore_error_terminal [of r sources p ns]
  by (cases "injectRootfsRestore r sources p ns"; cases "fst (injectRootfsRestore r sources p ns)") auto

lemma configureDNS_fields [simp]:
  "podContainers (configureDNS nw spec) = podContainers spec"
  "podInitContainers (configureDNS nw spec) = podInitContainers spec"
  "podRestartPolicy (configureDNS nw spec) = podRestartPolicy spec"
  "podAutomountToken (configureDNS nw spec) = podAutomountToken spec"
  "podRuntimeClass (configureDNS nw spec) = podRuntimeClass spec"
  "podSharePID (configureDNS nw spec) = podSharePID spec"
  "podSpecRest (configureDNS nw spec) = podSpecRest spec"
  by (auto simp: configureDNS_def Let_def)

text \<open>
  The pod the operator creates: never restarted, without a service account token, on the
  configured runtime class, with a shared process namespace and the user's containers in
  their order. Each of them carries its own name in the last entry of its environment, has a
  command, and keeps image, resources and security context. The sidecar is the last
  init container, and everything else of the template's specification is kept.
\<close>

theorem finished_pod:
  fixes r :: sandbox_reconciler and sb :: sandbox
  defines "p \<equiv> base_pod r sb" and "q \<equiv> finish_pod r sb (base_pod r sb)"
  shows "podRestartPolicy (podSpec q) = Some RestartNever \<and>
    podAutomountToken (podSpec q) = Some False \<and>
    podRuntimeClass (podSpec q) = Some (RuntimeClassName r) \<and>
    podSharePID (podSpec q) = Some True \<and>
    podInitContainers (podSpec q) =
      podInitContainers (tplSpec (podTemplate (sbSpec sb))) @ [buildSandboxSidecarContainer r] \<and>
    podSpecRest (podSpec q) = podSpecRest (tplSpec (podTemplate (sbSpec sb))) \<and>
    podContainers (podSpec q) =
      map (\<lambda>c. c \<lparr>ctrCommand := (if ctrCommand c = [] then [''sleep'', ''infinity''] else ctrCommand c),
                  ctrEnv := ctrEnv c @ [\<lparr>envName = IsolaContainerNameEnv, envVal = ctrName c\<rparr>]\<rparr>)
        (podContainers (tplSpec (podTemplate (sbSpec sb)))) \<and>
    metaName (podMeta q) = GetSandboxPodName (metaName (sbMeta sb)) \<and>
    metaLabels (podMeta q) = pod_labels sb \<and>
    metaAnnotations (podMeta q) SidecarVersionAnnotation = Some (GitVersion r)"
  by (auto simp: q_def finish_pod_def base_pod_def markContainers_def injectSandboxSidecar_def
      mark_container_def default_command_def Let_def)

text \<open>
  Without cluster DNS the pod's resolver configuration is the operator's alone: the
  nameservers in effect, or a sink on the loopback address when there are none, whatever the
  template asks for. With cluster DNS the template's configuration stays, its nameservers
  replaced by the sandbox's own when there are some.
\<close>

theorem pod_dns_exact:
  "podDNSPolicy (configureDNS nw spec) = (if allow_cluster_dns nw then DNSClusterFirst else DNSNone) \<and>
   (\<not> allow_cluster_dns nw \<longrightarrow>
      (\<exists>d. podDNSConfig (configureDNS nw spec) = Some d \<and> dnsSearches d = [] \<and>
         dnsNameservers d =
           (if EffectiveNameservers nw = [] then [''127.0.0.1''] else EffectiveNameservers nw))) \<and>
   (allow_cluster_dns nw \<longrightarrow>
      podDNSConfig (configureDNS nw spec) =
        (if own_nameservers nw = [] then podDNSConfig spec
         else Some ((case podDNSConfig spec of None \<Rightarrow> empty_dns | Some d \<Rightarrow> d)
                \<lparr>dnsNameservers := own_nameservers nw\<rparr>)))"
  by (auto simp: configureDNS_def isolated_dns_def Let_def)

theorem pod_dns_exact_witness:
  "\<exists>d. podDNSConfig (configureDNS None example_spec) = Some d \<and> dnsNameservers d = [''127.0.0.1'']"
  using pod_dns_exact [of None example_spec]
  by (auto simp: allow_cluster_dns_def EffectiveNameservers_def)

end
