(* ===== verification/SandboxController.thy ===== *)
theory SandboxController
  imports SandboxPod
begin

text \<open>
  \<open>internal/operator/controller/sandbox_controller.go\<close>: the reconciler of sandboxes, as programs
  over the interface of \<open>Kube\<close>. The object the Go code calls \<open>sandbox\<close> is the \<open>rObject\<close> of
  the run; \<open>baseSandbox\<close>, the copy patches are computed against, is an argument. A
  \<open>ctrl.Result\<close> is its \<open>RequeueAfter\<close>, 0 for none.
\<close>


section \<open>Constants and conditions\<close>

definition SandboxPodReadyCondition :: string where "SandboxPodReadyCondition = ''PodReady''"
definition SandboxNetworkReadyCondition :: string where
  "SandboxNetworkReadyCondition = ''NetworkConfigured''"
definition SandboxRootfsSnapshotCondition :: string where
  "SandboxRootfsSnapshotCondition = ''RootfsSnapshot''"

definition SandboxFinalizer :: string where "SandboxFinalizer = ''sandbox.isola.run/cleanup''"
definition defaultTimeoutSeconds :: int where "defaultTimeoutSeconds = 300"

text \<open>A condition literal: \<open>LastTransitionTime\<close> is left zero.\<close>

definition mk_cond :: "sandbox \<Rightarrow> string \<Rightarrow> cond_status \<Rightarrow> string \<Rightarrow> string \<Rightarrow> condition" where
  "mk_cond sb ty st reason msg =
     \<lparr>condType = ty, condStatus = st, condReason = reason, condMessage = msg,
      condGeneration = metaGeneration (sbMeta sb), condTransition = zero_time\<rparr>"

definition thenE :: "('s, 'e + 'a) state \<Rightarrow> ('s, 'e + 'b) state \<Rightarrow> ('s, 'e + 'b) state" where
  "thenE m n = bindE m (\<lambda>_. n)"

definition set_conditions :: "'w kube \<Rightarrow> condition list \<Rightarrow> ('w, unit) prog" where
  "set_conditions k new = State_Monad.update (\<lambda>s.
     let sb = rObject s; st = sbStatus sb in
     s \<lparr>rObject := sb \<lparr>sbStatus := st
          \<lparr>sbConditions := foldl (kSetCondition k (rWorld s)) (sbConditions st) new\<rparr>\<rparr>\<rparr>)"

definition patchStatus :: "'w kube \<Rightarrow> sandbox \<Rightarrow> condition list \<Rightarrow> ('w, unit) progE" where
  "patchStatus k base new =
     State_Monad.bind (set_conditions k new) (\<lambda>_. patch_sandbox_status k base)"

definition markSandboxSucceeded :: "'w kube \<Rightarrow> sandbox \<Rightarrow> string \<Rightarrow> string \<Rightarrow> ('w, unit) progE" where
  "markSandboxSucceeded k base reason msg =
     State_Monad.bind get_object (\<lambda>sb.
       if kFindCondition k (sbConditions (sbStatus sb)) SandboxSucceededCondition \<noteq> None then returnE ()
       else patchStatus k base
         [mk_cond sb SandboxReadyCondition StatusFalse reason msg,
          mk_cond sb SandboxSucceededCondition StatusTrue reason msg])"

definition markSandboxFailed :: "'w kube \<Rightarrow> sandbox \<Rightarrow> string \<Rightarrow> string \<Rightarrow> ('w, unit) progE" where
  "markSandboxFailed k base reason msg =
     State_Monad.bind get_object (\<lambda>sb.
       if kFindCondition k (sbConditions (sbStatus sb)) SandboxSucceededCondition \<noteq> None then returnE ()
       else patchStatus k base
         [mk_cond sb SandboxReadyCondition StatusFalse reason msg,
          mk_cond sb SandboxSucceededCondition StatusFalse reason msg])"


section \<open>Lookups\<close>

definition getSandboxPod :: "'w kube \<Rightarrow> ('w, pod option) progE" where
  "getSandboxPod k =
     State_Monad.bind get_object (\<lambda>sb.
       let ns = metaNamespace (sbMeta sb); name = GetSandboxPodName (metaName (sbMeta sb)) in
       State_Monad.bind (call_api (kGetPod k ns name) (GetPod ns name)) (\<lambda>r.
         case r of
           Inl e \<Rightarrow> if IsNotFound e then returnE None else throwE e
         | Inr p \<Rightarrow> returnE (Some p)))"

definition getTerminationRootfssnapshot :: "'w kube \<Rightarrow> ('w, rootfs_snapshot option) progE" where
  "getTerminationRootfssnapshot k =
     State_Monad.bind get_object (\<lambda>sb.
       let ns = metaNamespace (sbMeta sb); name = GetTerminationSnapshotName (metaName (sbMeta sb)) in
       State_Monad.bind (call_api (kGetSnapshot k ns name) (GetSnapshot ns name)) (\<lambda>r.
         case r of
           Inl e \<Rightarrow> if IsNotFound e then returnE None else throwE e
         | Inr sn \<Rightarrow> returnE (Some sn)))"

text \<open>\<open>internal/operator/controller/snapshot/support.go\<close>.\<close>

definition CheckRuntimeClassSupport :: "'w kube \<Rightarrow> string \<Rightarrow> ('w, 'o, call, go_error + bool) program" where
  "CheckRuntimeClassSupport k name =
     State_Monad.bind (call_api (kGetRuntimeHandler k name) (GetRuntimeHandler name)) (\<lambda>r.
       case r of
         Inl e \<Rightarrow> if IsNotFound e then returnE False else throwE e
       | Inr h \<Rightarrow> returnE (h = ''runsc'' \<or> h = ''gvisor''))"

definition CheckRootfsSnapshotSupport ::
  "'w kube \<Rightarrow> pod option \<Rightarrow> ('w, 'o, call, go_error + bool) program" where
  "CheckRootfsSnapshotSupport k p =
     (case p of
        None \<Rightarrow> returnE False
      | Some q \<Rightarrow>
          (case podRuntimeClass (podSpec q) of
             None \<Rightarrow> returnE False
           | Some name \<Rightarrow> if name = [] then returnE False else CheckRuntimeClassSupport k name))"


section \<open>Creating the pod\<close>

text \<open>The error comes with the flag that says whether it is permanent.\<close>

definition validateRootfsRestoreConfig ::
  "sandbox_reconciler \<Rightarrow> 'w kube \<Rightarrow> ('w, (bool \<times> go_error) option) prog" where
  "validateRootfsRestoreConfig r k =
     (if RootfsSnapshotHostMountPath r = [] then
        State_Monad.return (Some (True, PlainError
          (''rootfsSnapshotSources requires rootfs snapshot restore to be configured ''
           @ ''(--rootfssnapshot-host-mount-path)'')))
      else
        State_Monad.bind (CheckRuntimeClassSupport k (RuntimeClassName r)) (\<lambda>res.
          case res of
            Inl e \<Rightarrow> State_Monad.return (Some (False,
              WrapError ''failed to validate runtime for rootfs restore: '' e))
          | Inr supported \<Rightarrow>
              if \<not> supported then
                State_Monad.return (Some (True, PlainError
                  (''rootfsSnapshotSources requires a gVisor runtime (RuntimeClass ''
                   @ quoted (RuntimeClassName r) @ '' handler is not runsc/gvisor)'')))
              else State_Monad.return None))"

definition restore_step ::
  "sandbox_reconciler \<Rightarrow> 'w kube \<Rightarrow> sandbox \<Rightarrow> sandbox \<Rightarrow> pod \<Rightarrow> ('w, pod) progE" where
  "restore_step r k base sb p =
     (if snapshotSources (sbSpec sb) = [] then returnE p
      else
        State_Monad.bind (validateRootfsRestoreConfig r k) (\<lambda>bad.
          case bad of
            Some (fatal, e) \<Rightarrow>
              if fatal then
                thenE (markSandboxFailed k base ''RootfsRestoreConfigurationError'' (kErrorText k e))
                      (throwE (TerminalError e))
              else
                thenE (patchStatus k base
                         [mk_cond sb SandboxReadyCondition StatusFalse
                            ''RootfsRestoreConfigurationError'' (kErrorText k e)])
                      (throwE e)
          | None \<Rightarrow>
              (case injectRootfsRestore r (snapshotSources (sbSpec sb)) p (metaNamespace (sbMeta sb)) of
                 (res, q) \<Rightarrow>
                   State_Monad.bind (set_object (share_template q sb)) (\<lambda>_.
                     case res of
                       Some e \<Rightarrow>
                         thenE (markSandboxFailed k base ''RootfsRestoreConfigurationError'' (kErrorText k e))
                               (throwE (TerminalError e))
                     | None \<Rightarrow> returnE q))))"

definition create_pod_call :: "'w kube \<Rightarrow> sandbox \<Rightarrow> pod \<Rightarrow> ('w, unit) progE" where
  "create_pod_call k base p =
     State_Monad.bind get_object (\<lambda>sb.
     State_Monad.bind (call_api (kCreatePod k p) (CreatePod p)) (\<lambda>res.
       case res of
         Inl e \<Rightarrow>
           State_Monad.bind (patchStatus k base
             [mk_cond sb SandboxPodReadyCondition StatusFalse ''PodCreationFailed'' (kErrorText k e),
              mk_cond sb SandboxReadyCondition StatusFalse ''PodCreationFailed'' (kErrorText k e)])
             (\<lambda>_. throwE e)
       | Inr _ \<Rightarrow>
           State_Monad.bind (emit_event k ''Normal'' ''PodCreated'' ''Sandbox Pod created'') (\<lambda>_.
             patchStatus k base
               [mk_cond sb SandboxPodReadyCondition StatusFalse ''PodCreating'' ''Creating sandbox Pod'',
                mk_cond sb SandboxReadyCondition StatusFalse ''Reconciling''
                  ''Waiting for Pod to be created/ready''])))"

definition CreateSandboxPod :: "sandbox_reconciler \<Rightarrow> 'w kube \<Rightarrow> sandbox \<Rightarrow> ('w, unit) progE" where
  "CreateSandboxPod r k base =
     State_Monad.bind get_object (\<lambda>sb.
       bindE (restore_step r k base sb (base_pod r sb)) (\<lambda>p.
         let q = finish_pod r sb p in
         State_Monad.bind (set_object (share_template q sb)) (\<lambda>_.
           case kSetControllerRef k (sbMeta sb) (podMeta q) of
             Inl e \<Rightarrow> throwE e
           | Inr m \<Rightarrow> create_pod_call k base (q \<lparr>podMeta := m\<rparr>))))"


section \<open>Network policy and timeouts\<close>

definition ensureCustomNetworkPolicy :: "'w kube \<Rightarrow> sandbox \<Rightarrow> ('w, unit) progE" where
  "ensureCustomNetworkPolicy k base =
     State_Monad.bind get_object (\<lambda>sb.
       let ns = metaNamespace (sbMeta sb); name = metaName (sbMeta sb) in
       case BuildCustomNetworkPolicy name ns (sbNetwork (sbSpec sb)) of
         Inl msg \<Rightarrow>
           thenE (markSandboxFailed k base ''NetworkPolicyFailed'' (kErrorText k (PlainError msg)))
                 (throwE (TerminalError (PlainError msg)))
       | Inr None \<Rightarrow> returnE ()
       | Inr (Some np) \<Rightarrow>
           let policyName = GetCustomNetworkPolicyName name in
           State_Monad.bind (call_api (kGetNetPol k ns policyName) (GetNetPol ns policyName)) (\<lambda>got.
             case got of
               Inr _ \<Rightarrow> returnE ()
             | Inl e \<Rightarrow>
                 if \<not> IsNotFound e then throwE e
                 else
                   (case kSetControllerRef k (sbMeta sb) (npMeta np) of
                      Inl e' \<Rightarrow> throwE e'
                    | Inr m \<Rightarrow>
                        State_Monad.bind
                          (call_api (kCreateNetPol k (np \<lparr>npMeta := m\<rparr>)) (CreateNetPol (np \<lparr>npMeta := m\<rparr>)))
                          (\<lambda>res. case res of
                             Inr _ \<Rightarrow> returnE ()
                           | Inl e'' \<Rightarrow> if IsAlreadyExists e'' then returnE () else throwE e''))))"

definition set_timeout_at :: "time \<Rightarrow> sandbox \<Rightarrow> sandbox" where
  "set_timeout_at t sb = sb \<lparr>sbStatus := (sbStatus sb) \<lparr>timeoutAt := Some t\<rparr>\<rparr>"

text \<open>
  The deadline is computed once, from the pod's start; what is returned is the status field of
  the in-memory object, which after the patch is the server's.
\<close>

definition ensureTimeout :: "'w kube \<Rightarrow> sandbox \<Rightarrow> pod option \<Rightarrow> ('w, time option) progE" where
  "ensureTimeout k base p =
     State_Monad.bind get_object (\<lambda>sb.
       case timeoutSeconds (sbSpec sb) of
         None \<Rightarrow> returnE None
       | Some secs \<Rightarrow>
           (case timeoutAt (sbStatus sb) of
              Some t \<Rightarrow> returnE (Some t)
            | None \<Rightarrow>
                (case PodStartTime p of
                   None \<Rightarrow> returnE None
                 | Some start \<Rightarrow>
                     State_Monad.bind
                       (set_object (set_timeout_at (time_add start (duration_of_seconds secs)) sb)) (\<lambda>_.
                     bindE (patch_sandbox_status k base) (\<lambda>_.
                     State_Monad.bind get_object (\<lambda>sb'. returnE (timeoutAt (sbStatus sb'))))))))"

end
