(* ===== verification/SandboxReconcile.thy ===== *)
theory SandboxReconcile
  imports SandboxController
begin

text \<open>
  The rest of \<open>sandbox_controller.go\<close>: the conditions that mirror the pod, the termination
  policy with its snapshot, and \<open>Reconcile\<close>.
\<close>


section \<open>Conditions that mirror the pod\<close>

definition determinePodCondition :: "sandbox \<Rightarrow> pod option \<Rightarrow> condition" where
  "determinePodCondition sb p =
     (if IsPodReady p then
        mk_cond sb SandboxPodReadyCondition StatusTrue ''PodRunning'' ''Pod is running''
      else if IsPodTerminated p then
        (if map_option (podPhase \<circ> podStatus) p = Some PodSucceeded
         then mk_cond sb SandboxPodReadyCondition StatusFalse ''PodSucceeded'' ''Pod completed''
         else mk_cond sb SandboxPodReadyCondition StatusFalse ''PodFailed'' ''Pod failed'')
      else mk_cond sb SandboxPodReadyCondition StatusFalse ''PodPending'' ''Pod is not ready yet'')"

definition determineRootfssnapshotCondition ::
  "'w kube \<Rightarrow> sandbox \<Rightarrow> rootfs_snapshot option \<Rightarrow> condition" where
  "determineRootfssnapshotCondition k sb snap =
     (case snap of
        None \<Rightarrow> mk_cond sb SandboxRootfsSnapshotCondition StatusFalse ''NoRootfsSnapshot''
                  ''No termination rootfs snapshot exists''
      | Some sn \<Rightarrow>
          let name = quoted (metaName (snMeta sn)) in
          if snCompletionTime (snStatus sn) = None then
            mk_cond sb SandboxRootfsSnapshotCondition StatusFalse ''RootfsSnapshottingInProgress''
              (''RootfsSnapshot '' @ name @ '' is running'')
          else
            (let unknown = mk_cond sb SandboxRootfsSnapshotCondition StatusFalse
                   ''RootfsSnapshottingInProgress'' (''RootfsSnapshot '' @ name @ '' status unknown'') in
             case kFindCondition k (snConditions (snStatus sn)) RootfsSnapshotSucceededCondition of
               None \<Rightarrow> unknown
             | Some c \<Rightarrow>
                 if condStatus c = StatusTrue then
                   mk_cond sb SandboxRootfsSnapshotCondition StatusTrue ''RootfsSnapshotComplete''
                     (''RootfsSnapshot '' @ name @ '' succeeded'')
                 else if condStatus c = StatusFalse then
                   mk_cond sb SandboxRootfsSnapshotCondition StatusFalse ''RootfsSnapshotFailed''
                     (''RootfsSnapshot '' @ name @ '' failed: '' @ condMessage c)
                 else unknown))"

definition determineNetworkCondition :: "sandbox \<Rightarrow> condition" where
  "determineNetworkCondition sb =
     mk_cond sb SandboxNetworkReadyCondition StatusTrue ''NetworkPolicyApplied''
       ''Network configuration applied''"

definition determineReadyCondition :: "sandbox \<Rightarrow> pod option \<Rightarrow> condition" where
  "determineReadyCondition sb p =
     (if IsPodTerminated p then
        (if map_option (podPhase \<circ> podStatus) p = Some PodSucceeded
         then mk_cond sb SandboxReadyCondition StatusFalse ''PodSucceeded'' ''Pod completed''
         else mk_cond sb SandboxReadyCondition StatusFalse ''PodFailed'' ''Pod failed'')
      else if \<not> IsPodReady p then
        mk_cond sb SandboxReadyCondition StatusFalse ''PodPending'' ''Pod is not ready yet''
      else mk_cond sb SandboxReadyCondition StatusTrue ''PodRunning'' ''Pod is running'')"

definition determineSucceededCondition :: "'w kube \<Rightarrow> sandbox \<Rightarrow> pod option \<Rightarrow> condition option" where
  "determineSucceededCondition k sb p =
     (case kFindCondition k (sbConditions (sbStatus sb)) SandboxSucceededCondition of
        Some existing \<Rightarrow> Some existing
      | None \<Rightarrow>
          (case p of
             None \<Rightarrow> None
           | Some q \<Rightarrow>
               if podPhase (podStatus q) = PodSucceeded then
                 Some (mk_cond sb SandboxSucceededCondition StatusTrue ''PodSucceeded''
                         ''Pod completed successfully'')
               else if podPhase (podStatus q) = PodFailed then
                 Some (mk_cond sb SandboxSucceededCondition StatusFalse ''PodFailed'' ''Pod failed'')
               else None))"

definition mirror_pod :: "pod option \<Rightarrow> sandbox \<Rightarrow> sandbox" where
  "mirror_pod p sb =
     (case p of
        None \<Rightarrow> sb
      | Some q \<Rightarrow> sb \<lparr>sbStatus := (sbStatus sb)
          \<lparr>sbPodIP := podIP (podStatus q),
           sidecarVersion := (case metaAnnotations (podMeta q) SidecarVersionAnnotation of
                                None \<Rightarrow> [] | Some v \<Rightarrow> v)\<rparr>\<rparr>)"

definition reconcileSandboxStatus :: "'w kube \<Rightarrow> sandbox \<Rightarrow> pod option \<Rightarrow> ('w, unit) progE" where
  "reconcileSandboxStatus k base p =
     State_Monad.bind get_object (\<lambda>sb0.
     State_Monad.bind (set_object (mirror_pod p sb0)) (\<lambda>_.
     bindE (getTerminationRootfssnapshot k) (\<lambda>snap.
     State_Monad.bind get_object (\<lambda>sb.
       patchStatus k base
         ([determinePodCondition sb p,
           determineNetworkCondition sb,
           determineRootfssnapshotCondition k sb snap,
           determineReadyCondition sb p]
          @ (case determineSucceededCondition k sb p of None \<Rightarrow> [] | Some c \<Rightarrow> [c]))))))"


section \<open>Termination\<close>

definition getTimeoutSeconds :: "sandbox \<Rightarrow> int" where
  "getTimeoutSeconds sb =
     (case terminationPolicy (sbSpec sb) of
        None \<Rightarrow> defaultTimeoutSeconds
      | Some tp \<Rightarrow>
          (case tpSnapshotRootfs tp of
             None \<Rightarrow> defaultTimeoutSeconds
           | Some cfg \<Rightarrow>
               (case trTimeoutSeconds cfg of None \<Rightarrow> defaultTimeoutSeconds | Some n \<Rightarrow> n)))"

definition set_deadline :: "time \<Rightarrow> sandbox \<Rightarrow> sandbox" where
  "set_deadline t sb = sb \<lparr>sbStatus := (sbStatus sb) \<lparr>terminationDeadlineAt := Some t\<rparr>\<rparr>"

text \<open>The clock is read before the deletion timestamp replaces it as the anchor.\<close>

definition ensureTerminationDeadline :: "'w kube \<Rightarrow> sandbox \<Rightarrow> ('w, time) progE" where
  "ensureTerminationDeadline k base =
     State_Monad.bind get_object (\<lambda>sb.
       case terminationDeadlineAt (sbStatus sb) of
         Some t \<Rightarrow> returnE t
       | None \<Rightarrow>
           State_Monad.bind (read_clock k) (\<lambda>now.
             let anchor = (case metaDeleted (sbMeta sb) of None \<Rightarrow> now | Some t \<Rightarrow> t);
                 deadline = time_add anchor (duration_of_seconds (getTimeoutSeconds sb)) in
             State_Monad.bind (set_object (set_deadline deadline sb)) (\<lambda>_.
             bindE (handleE (patchStatus k base [])
                      (\<lambda>e. throwE (WrapError ''failed to persist termination deadline: '' e))) (\<lambda>_.
             returnE deadline))))"

definition snapshot_cond :: "sandbox \<Rightarrow> cond_status \<Rightarrow> string \<Rightarrow> string \<Rightarrow> condition" where
  "snapshot_cond sb = mk_cond sb SandboxRootfsSnapshotCondition"

text \<open>Patch the snapshot condition, then return the result.\<close>

definition snapshot_result ::
  "'w kube \<Rightarrow> sandbox \<Rightarrow> cond_status \<Rightarrow> string \<Rightarrow> string \<Rightarrow> duration \<times> bool \<Rightarrow>
     ('w, duration \<times> bool) progE" where
  "snapshot_result k base st reason msg res =
     State_Monad.bind get_object (\<lambda>sb.
       thenE (patchStatus k base [snapshot_cond sb st reason msg]) (returnE res))"

definition termination_snapshot :: "sandbox \<Rightarrow> snapshot_rootfs_termination \<Rightarrow> rootfs_snapshot" where
  "termination_snapshot sb cfg =
     \<lparr>snMeta = empty_meta
        \<lparr>metaName := GetTerminationSnapshotName (metaName (sbMeta sb)),
         metaNamespace := metaNamespace (sbMeta sb)\<rparr>,
      snSpec =
        \<lparr>snSandboxName = metaName (sbMeta sb),
         snSnapshotName = (if trSnapshotName cfg = [] then metaName (sbMeta sb) else trSnapshotName cfg),
         snContainerName = [],
         snTimeoutSeconds = Some (case trTimeoutSeconds cfg of
                                    None \<Rightarrow> defaultTimeoutSeconds | Some n \<Rightarrow> n),
         snTTLSeconds = Some 300\<rparr>,
      snStatus = empty_snapshot_status\<rparr>"

definition createTerminationSnapshot ::
  "'w kube \<Rightarrow> sandbox \<Rightarrow> snapshot_rootfs_termination \<Rightarrow> ('w, duration \<times> bool) progE" where
  "createTerminationSnapshot k base cfg =
     State_Monad.bind get_object (\<lambda>sb.
       let sn = termination_snapshot sb cfg in
       case kSetControllerRef k (sbMeta sb) (snMeta sn) of
         Inl e \<Rightarrow> throwE e
       | Inr m \<Rightarrow>
           State_Monad.bind
             (call_api (kCreateSnapshot k (sn \<lparr>snMeta := m\<rparr>)) (CreateSnapshot (sn \<lparr>snMeta := m\<rparr>))) (\<lambda>res.
             case res of
               Inl e \<Rightarrow> if IsAlreadyExists e then returnE (nano_second, False) else throwE e
             | Inr _ \<Rightarrow>
                 State_Monad.bind
                   (emit_event k ''Normal'' ''RootfsSnapshotCreated''
                      (''Created RootfsSnapshot '' @ quoted (metaName m))) (\<lambda>_.
                 snapshot_result k base StatusFalse ''RootfsSnapshottingInProgress''
                   (''RootfsSnapshot '' @ quoted (metaName m) @ '' created, waiting for completion'')
                   (nano_second, False))))"

text \<open>The snapshot exists: still running, succeeded, or completed without success.\<close>

definition existing_snapshot ::
  "'w kube \<Rightarrow> sandbox \<Rightarrow> time \<Rightarrow> rootfs_snapshot \<Rightarrow> ('w, duration \<times> bool) progE" where
  "existing_snapshot k base deadline sn =
     (let name = quoted (metaName (snMeta sn)) in
      if snCompletionTime (snStatus sn) = None then
        State_Monad.bind get_object (\<lambda>sb.
        thenE (patchStatus k base [snapshot_cond sb StatusFalse ''RootfsSnapshottingInProgress''
                                     (''Snapshot '' @ name @ '' is running'')])
          (State_Monad.bind (read_clock k) (\<lambda>now.
             let d = time_sub deadline now in
             returnE (if d \<le> 0 then nano_second else d, False))))
      else
        (let c = kFindCondition k (snConditions (snStatus sn)) RootfsSnapshotSucceededCondition in
         if map_option condStatus c = Some StatusTrue then
           State_Monad.bind
             (emit_event k ''Normal'' ''SnapshotSucceeded'' (''Snapshot '' @ name @ '' completed'')) (\<lambda>_.
           snapshot_result k base StatusTrue ''RootfsSnapshotComplete''
             (''Snapshot '' @ name @ '' completed'') (0, True))
         else
           (let msg = (case c of
                         None \<Rightarrow> ''Snapshot failed''
                       | Some d \<Rightarrow> if condMessage d = [] then ''Snapshot failed'' else condMessage d) in
            State_Monad.bind (emit_event k ''Warning'' ''SnapshotFailed'' msg) (\<lambda>_.
            snapshot_result k base StatusFalse ''RootfsSnapshotFailed'' msg (0, True)))))"

definition handleRootfsSnapshot ::
  "'w kube \<Rightarrow> sandbox \<Rightarrow> pod option \<Rightarrow> time \<Rightarrow> snapshot_rootfs_termination \<Rightarrow>
     ('w, duration \<times> bool) progE" where
  "handleRootfsSnapshot k base p deadline cfg =
     State_Monad.bind (read_clock k) (\<lambda>now.
       if time_after now deadline then
         snapshot_result k base StatusFalse ''RootfsSnapshotTimeout''
           ''Rootfs snapshot did not complete before deadline'' (0, True)
       else if p = None then
         snapshot_result k base StatusFalse ''RootfsSnapshotFailed''
           ''Sandbox pod no longer exists; snapshot skipped'' (0, True)
       else if \<not> IsPodReady p then
         State_Monad.bind (emit_event k ''Warning'' ''PodNotReady''
             ''Unable to perform rootfs snapshot: pod not ready'') (\<lambda>_.
         snapshot_result k base StatusFalse ''RootfsSnapshotFailed'' ''Sandbox pod is not ready'' (0, True))
       else
         bindE (CheckRootfsSnapshotSupport k p) (\<lambda>supported.
           if \<not> supported then
             State_Monad.bind (emit_event k ''Warning'' ''RuntimeNotSupported''
                 ''Unable to perform rootfs snapshot'') (\<lambda>_.
             snapshot_result k base StatusFalse ''InvalidRuntime''
               ''Runtime does not support rootfs snapshotting'' (0, True))
           else
             bindE (getTerminationRootfssnapshot k) (\<lambda>snap.
               case snap of
                 None \<Rightarrow> createTerminationSnapshot k base cfg
               | Some sn \<Rightarrow> existing_snapshot k base deadline sn)))"

text \<open>
  The switch on the policy's type. The policy is read again through its pointer; where it has
  gone, the Go code panics, which the controller's runtime turns into an error.
\<close>

definition termination_switch ::
  "'w kube \<Rightarrow> sandbox \<Rightarrow> pod option \<Rightarrow> time \<Rightarrow> ('w, duration \<times> bool) progE" where
  "termination_switch k base p deadline =
     State_Monad.bind get_object (\<lambda>sb.
       case terminationPolicy (sbSpec sb) of
         None \<Rightarrow> throwE (PlainError ''panic: nil pointer dereference'')
       | Some tp \<Rightarrow>
           (case tpType tp of
              TerminationDelete \<Rightarrow> returnE (0, True)
            | TerminationSnapshotRootfs \<Rightarrow>
                (case tpSnapshotRootfs tp of
                   None \<Rightarrow> returnE (0, True)
                 | Some cfg \<Rightarrow> handleRootfsSnapshot k base p deadline cfg)
            | TerminationOther x \<Rightarrow> returnE (0, True)))"

definition executeTerminationPolicy ::
  "'w kube \<Rightarrow> sandbox \<Rightarrow> pod option \<Rightarrow> time \<Rightarrow> ('w, duration \<times> bool) progE" where
  "executeTerminationPolicy k base p deadline =
     State_Monad.bind get_object (\<lambda>sb.
       let plain = thenE (patchStatus k base
             [mk_cond sb SandboxReadyCondition StatusFalse ''Deleting'' ''Sandbox being deleted''])
             (returnE (0, True)) in
       case terminationPolicy (sbSpec sb) of
         None \<Rightarrow> plain
       | Some tp \<Rightarrow>
           if tpType tp = TerminationDelete then plain
           else
             thenE (patchStatus k base
                 [mk_cond sb SandboxReadyCondition StatusFalse ''RootfsSnapshottingInProgress''
                    ''Sandbox being deleted; executing termination policy''])
               (termination_switch k base p deadline))"

definition remove_finalizer :: "'w kube \<Rightarrow> ('w, unit) prog" where
  "remove_finalizer k = State_Monad.bind get_object (\<lambda>sb.
     set_object (sb \<lparr>sbMeta := kRemoveFinalizer k (sbMeta sb) SandboxFinalizer\<rparr>))"

definition finalizeSandbox :: "'w kube \<Rightarrow> sandbox \<Rightarrow> ('w, duration \<times> bool) progE" where
  "finalizeSandbox k base =
     bindE (getSandboxPod k) (\<lambda>p.
     bindE (ensureTerminationDeadline k base) (\<lambda>deadline.
     bindE (executeTerminationPolicy k base p deadline) (\<lambda>(res, cleanup).
       if \<not> cleanup then returnE (res, False)
       else
         State_Monad.bind (remove_finalizer k) (\<lambda>_.
         thenE (update_sandbox k) (returnE (0, True))))))"


section \<open>Reconcile\<close>

definition requeue_within :: "duration \<Rightarrow> duration" where
  "requeue_within d = (if d \<le> 0 then milli_second else d)"

definition has_startup_deadline :: "sandbox \<Rightarrow> pod option \<Rightarrow> bool" where
  "has_startup_deadline sb p \<longleftrightarrow>
     p \<noteq> None \<and> \<not> IsPodReady p \<and> startupTimeoutSeconds (sbSpec sb) \<noteq> None"

definition startup_deadline :: "sandbox \<Rightarrow> pod option \<Rightarrow> time" where
  "startup_deadline sb p =
     (case (p, startupTimeoutSeconds (sbSpec sb)) of
        (Some q, Some n) \<Rightarrow> time_add (metaCreated (podMeta q)) (duration_of_seconds n)
      | _ \<Rightarrow> zero_time)"

text \<open>The requeue delay: the nearer of the two deadlines, each read against the clock anew.\<close>

definition requeue_after :: "'w kube \<Rightarrow> time option \<Rightarrow> time option \<Rightarrow> ('w, duration) prog" where
  "requeue_after k timeout startup =
     State_Monad.bind
       (case timeout of
          None \<Rightarrow> State_Monad.return 0
        | Some t \<Rightarrow> State_Monad.bind (read_clock k)
            (\<lambda>now. State_Monad.return (requeue_within (time_sub t now)))) (\<lambda>d.
       case startup of
         None \<Rightarrow> State_Monad.return d
       | Some t \<Rightarrow> State_Monad.bind (read_clock k) (\<lambda>now.
           let u = requeue_within (time_sub t now) in
           State_Monad.return (if d = 0 \<or> u < d then u else d)))"

definition handle_timed_out :: "'w kube \<Rightarrow> sandbox \<Rightarrow> ('w, duration) progE" where
  "handle_timed_out k base =
     thenE (markSandboxSucceeded k base ''Timeout'' ''Sandbox timed out'')
       (bindE (finalizeSandbox k base) (\<lambda>(res, cleanup).
          if cleanup then thenE (delete_sandbox k) (returnE res) else returnE res))"

definition handle_startup_timeout :: "'w kube \<Rightarrow> sandbox \<Rightarrow> ('w, duration) progE" where
  "handle_startup_timeout k base =
     State_Monad.bind get_object (\<lambda>sb.
       let secs = (case startupTimeoutSeconds (sbSpec sb) of None \<Rightarrow> 0 | Some n \<Rightarrow> n) in
       State_Monad.bind
         (markSandboxFailed k base ''StartupTimeoutExceeded''
            (''pod not ready within '' @ itoa secs @ ''s of creation'')) (\<lambda>_.
       State_Monad.bind (delete_sandbox k) (\<lambda>res.
         case res of
           Inl e \<Rightarrow> if IsNotFound e then returnE 0 else throwE e
         | Inr _ \<Rightarrow> returnE 0)))"

text \<open>From the timeout check on: the deadlines, then the pod and the status.\<close>

definition reconcile_running ::
  "sandbox_reconciler \<Rightarrow> 'w kube \<Rightarrow> sandbox \<Rightarrow> pod option \<Rightarrow> time option \<Rightarrow> ('w, duration) progE" where
  "reconcile_running r k base p timeout =
     State_Monad.bind get_object (\<lambda>sb.
       let startup = (if has_startup_deadline sb p then Some (startup_deadline sb p) else None) in
       State_Monad.bind (requeue_after k timeout startup) (\<lambda>d.
         if p = None then
           thenE (CreateSandboxPod r k base) (thenE (reconcileSandboxStatus k base None) (returnE d))
         else thenE (reconcileSandboxStatus k base p) (returnE d)))"

definition reconcile_deadlines ::
  "sandbox_reconciler \<Rightarrow> 'w kube \<Rightarrow> sandbox \<Rightarrow> pod option \<Rightarrow> time option \<Rightarrow> ('w, duration) progE" where
  "reconcile_deadlines r k base p timeout =
     State_Monad.bind
       (case timeout of
          None \<Rightarrow> State_Monad.return False
        | Some t \<Rightarrow> State_Monad.bind (read_clock k) (\<lambda>now. State_Monad.return (time_after now t)))
       (\<lambda>timed_out.
         if timed_out then handle_timed_out k base
         else
           State_Monad.bind get_object (\<lambda>sb.
           State_Monad.bind
             (if has_startup_deadline sb p
              then State_Monad.bind (read_clock k)
                     (\<lambda>now. State_Monad.return (time_after now (startup_deadline sb p)))
              else State_Monad.return False)
             (\<lambda>startup_exceeded.
               if startup_exceeded then handle_startup_timeout k base
               else reconcile_running r k base p timeout)))"

definition reconcile_live :: "sandbox_reconciler \<Rightarrow> 'w kube \<Rightarrow> sandbox \<Rightarrow> ('w, duration) progE" where
  "reconcile_live r k base =
     thenE (ensureCustomNetworkPolicy k base)
       (bindE (getSandboxPod k) (\<lambda>p.
        bindE (ensureTimeout k base p) (\<lambda>timeout.
        reconcile_deadlines r k base p timeout)))"

definition add_finalizer :: "'w kube \<Rightarrow> ('w, unit) progE" where
  "add_finalizer k = State_Monad.bind get_object (\<lambda>sb.
     State_Monad.bind (set_object (sb \<lparr>sbMeta := kAddFinalizer k (sbMeta sb) SandboxFinalizer\<rparr>)) (\<lambda>_.
     update_sandbox k))"

text \<open>The sandbox has been read.\<close>

definition reconcile_found :: "sandbox_reconciler \<Rightarrow> 'w kube \<Rightarrow> sandbox \<Rightarrow> ('w, duration) progE" where
  "reconcile_found r k sb =
     (let deleted = \<not> time_is_zero (metaDeleted (sbMeta sb));
          held = kContainsFinalizer k (sbMeta sb) SandboxFinalizer in
      if deleted \<and> \<not> held then returnE 0
      else if deleted then
        bindE (finalizeSandbox k sb) (\<lambda>(res, _). returnE res)
      else if held then reconcile_live r k sb
      else
        thenE (add_finalizer k)
          (State_Monad.bind get_object (\<lambda>base. reconcile_live r k base)))"

definition Reconcile ::
  "sandbox_reconciler \<Rightarrow> 'w kube \<Rightarrow> string \<Rightarrow> string \<Rightarrow> ('w, duration) progE" where
  "Reconcile r k ns name =
     State_Monad.bind (call_api (kGetSandbox k ns name) (GetSandbox ns name)) (\<lambda>got.
       case got of
         Inl e \<Rightarrow> if IsNotFound e then returnE 0 else throwE e
       | Inr sb \<Rightarrow> State_Monad.bind (set_object sb) (\<lambda>_. reconcile_found r k sb))"

end
