(* ===== verification/SandboxCalls.thy ===== *)
theory SandboxCalls
  imports SandboxReconcile
begin

text \<open>
  Which calls each step of the sandbox controller makes, for any property of the in-memory object
  that the steps and the server keep (\<open>stable\<close>).
\<close>

definition stable :: "(sandbox \<Rightarrow> bool) \<Rightarrow> 'w kube \<Rightarrow> bool" where
  "stable I k \<longleftrightarrow> server_keeps I k \<and>
     (\<forall>sb st. I sb \<longrightarrow> I (sb \<lparr>sbStatus := st\<rparr>)) \<and>
     (\<forall>sb p. I sb \<longrightarrow> I (share_template p sb)) \<and>
     (\<forall>sb. I sb \<longrightarrow> I (sb \<lparr>sbMeta := kAddFinalizer k (sbMeta sb) SandboxFinalizer\<rparr>)) \<and>
     (\<forall>sb. I sb \<longrightarrow> I (sb \<lparr>sbMeta := kRemoveFinalizer k (sbMeta sb) SandboxFinalizer\<rparr>))"

lemma stable_True [simp]: "stable (\<lambda>sb. True) k"
  by (simp add: stable_def)

lemma stableD:
  assumes "stable I k"
  shows "server_keeps I k" "I sb \<Longrightarrow> I (sb \<lparr>sbStatus := st\<rparr>)" "I sb \<Longrightarrow> I (share_template p sb)"
    "I sb \<Longrightarrow> I (sb \<lparr>sbMeta := kAddFinalizer k (sbMeta sb) SandboxFinalizer\<rparr>)"
    "I sb \<Longrightarrow> I (sb \<lparr>sbMeta := kRemoveFinalizer k (sbMeta sb) SandboxFinalizer\<rparr>)"
    "I sb \<Longrightarrow> I (set_timeout_at t sb)" "I sb \<Longrightarrow> I (set_deadline t sb)" "I sb \<Longrightarrow> I (mirror_pod q sb)"
  using assms by (auto simp: stable_def set_timeout_at_def set_deadline_def mirror_pod_def
      split: option.splits)

lemma emits_thenE [emits_intros]: "emits I P m \<Longrightarrow> emits I P n \<Longrightarrow> emits I P (thenE m n)"
  unfolding thenE_def by (rule emits_bindE)

lemma traces_thenE:
  "traces I m Q \<Longrightarrow> (\<And>e cs. Q cs (Inl e) \<Longrightarrow> R cs (Inl e)) \<Longrightarrow>
     (\<And>a cs. Q cs (Inr a) \<Longrightarrow> traces I n (\<lambda>ds b. R (cs @ ds) b)) \<Longrightarrow> traces I (thenE m n) R"
  unfolding thenE_def by (rule traces_bindE)

lemma traces_set_conditions:
  assumes "stable I k" and m: "traces I (f ()) R"
  shows "traces I (State_Monad.bind (set_conditions k new) f) R"
proof (rule tracesI)
  fix s :: "'a sandbox_run" assume I: "I (rObject s)"
  let ?s = "s \<lparr>rObject := rObject s \<lparr>sbStatus := sbStatus (rObject s)
      \<lparr>sbConditions := foldl (kSetCondition k (rWorld s)) (sbConditions (sbStatus (rObject s))) new\<rparr>\<rparr>\<rparr>"
  have "I (rObject ?s)" using stableD(2) [OF assms(1) I] by simp
  from tracesD [OF m this]
  show "wp (State_Monad.bind (set_conditions k new) f)
      (\<lambda>a t. I (rObject t) \<and> (\<exists>cs. rCalls t = rCalls s @ cs \<and> R cs a)) s"
    by (simp add: set_conditions_def Let_def)
qed

lemma traces_patchStatus:
  "stable I k \<Longrightarrow> (\<And>sb r. I sb \<Longrightarrow> R [PatchSandboxStatus base sb r] (map_sum id (\<lambda>_. ()) r)) \<Longrightarrow>
     traces I (patchStatus k base new) R"
  unfolding patchStatus_def
  by (rule traces_set_conditions, assumption, rule traces_patch_sandbox_status) (auto dest: stableD)

text \<open>The calls of the status patches: \<open>is_patch base\<close>.\<close>

fun is_patch :: "call \<Rightarrow> bool" where
  "is_patch (PatchSandboxStatus base sb r) = True"
| "is_patch _ = False"

definition allows_patch :: "(call \<Rightarrow> bool) \<Rightarrow> bool" where
  "allows_patch P \<longleftrightarrow> (\<forall>base sb r. P (PatchSandboxStatus base sb r))"

definition allows_reads :: "(call \<Rightarrow> bool) \<Rightarrow> bool" where
  "allows_reads P \<longleftrightarrow> (\<forall>ns n r. P (GetPod ns n r)) \<and> (\<forall>ns n r. P (GetSnapshot ns n r)) \<and>
     (\<forall>n r. P (GetRuntimeHandler n r)) \<and> (\<forall>t. P (ReadClock t)) \<and> (\<forall>a b c. P (Event a b c))"

lemma allowsD:
  "allows_patch P \<Longrightarrow> P (PatchSandboxStatus base sb rs)"
  "allows_reads P \<Longrightarrow> P (GetPod ns n rp)" "allows_reads P \<Longrightarrow> P (GetSnapshot ns n rn)"
  "allows_reads P \<Longrightarrow> P (GetRuntimeHandler n rh)" "allows_reads P \<Longrightarrow> P (ReadClock t)"
  "allows_reads P \<Longrightarrow> P (Event a b c)"
  by (simp_all add: allows_patch_def allows_reads_def)

lemma emits_patchStatus [emits_intros]:
  "stable I k \<Longrightarrow> allows_patch P \<Longrightarrow> emits I P (patchStatus k base new)"
  unfolding emits_def by (rule traces_patchStatus) (simp_all add: allowsD)

lemma emits_markSandboxSucceeded [emits_intros]:
  "stable I k \<Longrightarrow> allows_patch P \<Longrightarrow> emits I P (markSandboxSucceeded k base reason msg)"
  unfolding markSandboxSucceeded_def by (intro emits_intros)

lemma emits_markSandboxFailed [emits_intros]:
  "stable I k \<Longrightarrow> allows_patch P \<Longrightarrow> emits I P (markSandboxFailed k base reason msg)"
  unfolding markSandboxFailed_def by (intro emits_intros)

lemma emits_getSandboxPod [emits_intros]: "allows_reads P \<Longrightarrow> emits I P (getSandboxPod k)"
  unfolding getSandboxPod_def by (intro emits_intros) (simp_all add: allowsD)

lemma emits_getTerminationRootfssnapshot [emits_intros]:
  "allows_reads P \<Longrightarrow> emits I P (getTerminationRootfssnapshot k)"
  unfolding getTerminationRootfssnapshot_def by (intro emits_intros) (simp_all add: allowsD)

lemma emits_CheckRuntimeClassSupport [emits_intros]:
  "allows_reads P \<Longrightarrow> emits I P (CheckRuntimeClassSupport k name)"
  unfolding CheckRuntimeClassSupport_def by (intro emits_intros) (simp_all add: allowsD)

lemma emits_CheckRootfsSnapshotSupport [emits_intros]:
  "allows_reads P \<Longrightarrow> emits I P (CheckRootfsSnapshotSupport k p)"
  unfolding CheckRootfsSnapshotSupport_def by (intro emits_intros)

lemma emits_reconcileSandboxStatus [emits_intros]:
  "stable I k \<Longrightarrow> allows_patch P \<Longrightarrow> allows_reads P \<Longrightarrow>
     emits I P (reconcileSandboxStatus k base p)"
  unfolding reconcileSandboxStatus_def by (intro emits_intros) (auto intro: stableD emits_intros)

lemma emits_ensureTimeout [emits_intros]:
  "stable I k \<Longrightarrow> allows_patch P \<Longrightarrow> emits I P (ensureTimeout k base p)"
  unfolding ensureTimeout_def
  by (intro emits_intros) (auto intro: stableD emits_intros simp: allowsD)

lemma emits_ensureTerminationDeadline [emits_intros]:
  "stable I k \<Longrightarrow> allows_patch P \<Longrightarrow> allows_reads P \<Longrightarrow>
     emits I P (ensureTerminationDeadline k base)"
  unfolding ensureTerminationDeadline_def
  by (intro emits_intros) (auto intro: stableD emits_intros simp: allowsD Let_def)

lemma emits_snapshot_result [emits_intros]:
  "stable I k \<Longrightarrow> allows_patch P \<Longrightarrow> emits I P (snapshot_result k base st reason msg res)"
  unfolding snapshot_result_def by (intro emits_intros)

lemma emits_existing_snapshot [emits_intros]:
  "stable I k \<Longrightarrow> allows_patch P \<Longrightarrow> allows_reads P \<Longrightarrow>
     emits I P (existing_snapshot k base deadline sn)"
  unfolding existing_snapshot_def by (intro emits_intros) (simp_all add: allowsD)

lemma emits_createTerminationSnapshot [emits_intros]:
  "stable I k \<Longrightarrow> allows_patch P \<Longrightarrow> allows_reads P \<Longrightarrow> (\<And>sn r. P (CreateSnapshot sn r)) \<Longrightarrow>
     emits I P (createTerminationSnapshot k base cfg)"
  unfolding createTerminationSnapshot_def by (intro emits_intros) (simp_all add: allowsD)

lemma emits_handleRootfsSnapshot [emits_intros]:
  "stable I k \<Longrightarrow> allows_patch P \<Longrightarrow> allows_reads P \<Longrightarrow> (\<And>sn r. P (CreateSnapshot sn r)) \<Longrightarrow>
     emits I P (handleRootfsSnapshot k base p deadline cfg)"
  unfolding handleRootfsSnapshot_def by (intro emits_intros) (simp_all add: allowsD)

lemma emits_case_termination [emits_intros]:
  "emits I P a \<Longrightarrow> emits I P b \<Longrightarrow> (\<And>x. emits I P (c x)) \<Longrightarrow>
     emits I P (case t of TerminationDelete \<Rightarrow> a | TerminationSnapshotRootfs \<Rightarrow> b | TerminationOther x \<Rightarrow> c x)"
  by (cases t) simp_all

lemma emits_termination_switch [emits_intros]:
  "stable I k \<Longrightarrow> allows_patch P \<Longrightarrow> allows_reads P \<Longrightarrow> (\<And>sn r. P (CreateSnapshot sn r)) \<Longrightarrow>
     emits I P (termination_switch k base p deadline)"
  unfolding termination_switch_def by (intro emits_intros) simp_all

lemma emits_executeTerminationPolicy [emits_intros]:
  "stable I k \<Longrightarrow> allows_patch P \<Longrightarrow> allows_reads P \<Longrightarrow> (\<And>sn r. P (CreateSnapshot sn r)) \<Longrightarrow>
     emits I P (executeTerminationPolicy k base p deadline)"
  unfolding executeTerminationPolicy_def Let_def by (intro emits_intros) simp_all

lemma emits_bind_remove_finalizer [emits_intros]:
  assumes "stable I k" "emits I P (f ())"
  shows "emits I P (State_Monad.bind (remove_finalizer k) f)"
  unfolding emits_def
proof (rule tracesI)
  fix s :: "'a sandbox_run" assume I: "I (rObject s)"
  have "I (rObject (s \<lparr>rObject := rObject s
      \<lparr>sbMeta := kRemoveFinalizer k (sbMeta (rObject s)) SandboxFinalizer\<rparr>\<rparr>))"
    using stableD(5) [OF assms(1) I] by simp
  from tracesD [OF emits_traces [OF assms(2)] this]
  show "wp (State_Monad.bind (remove_finalizer k) f)
      (\<lambda>a t. I (rObject t) \<and> (\<exists>cs. rCalls t = rCalls s @ cs \<and> list_all P cs)) s"
    by (simp add: remove_finalizer_def)
qed

lemma emits_finalizeSandbox [emits_intros]:
  "stable I k \<Longrightarrow> allows_patch P \<Longrightarrow> allows_reads P \<Longrightarrow> (\<And>sn r. P (CreateSnapshot sn r)) \<Longrightarrow>
     (\<And>sb r. P (UpdateSandbox sb r)) \<Longrightarrow> emits I P (finalizeSandbox k base)"
  unfolding finalizeSandbox_def by (intro emits_intros) (simp_all add: stableD)

lemma emits_ensureCustomNetworkPolicy [emits_intros]:
  "stable I k \<Longrightarrow> allows_patch P \<Longrightarrow> (\<And>ns n r. P (GetNetPol ns n r)) \<Longrightarrow>
     (\<And>np r. P (CreateNetPol np r)) \<Longrightarrow> emits I P (ensureCustomNetworkPolicy k base)"
  unfolding ensureCustomNetworkPolicy_def Let_def by (intro emits_intros) simp_all

lemma emits_validateRootfsRestoreConfig [emits_intros]:
  "allows_reads P \<Longrightarrow> emits I P (validateRootfsRestoreConfig r k)"
  unfolding validateRootfsRestoreConfig_def by (intro emits_intros emits_bind) simp_all

lemma emits_restore_step [emits_intros]:
  assumes "stable I k" "allows_patch P" "allows_reads P" "I sb"
  shows "emits I P (restore_step r k base sb p)"
  unfolding restore_step_def
  by (intro emits_intros emits_bind) (use assms in \<open>simp_all add: stableD\<close>)

lemma emits_requeue_after [emits_intros]:
  "allows_reads P \<Longrightarrow> emits I P (requeue_after k timeout startup)"
  unfolding requeue_after_def Let_def
  by (intro emits_bind emits_intros) (simp_all add: allowsD)

lemma emits_handle_timed_out [emits_intros]:
  "stable I k \<Longrightarrow> allows_patch P \<Longrightarrow> allows_reads P \<Longrightarrow> (\<And>sn r. P (CreateSnapshot sn r)) \<Longrightarrow>
     (\<And>sb r. P (UpdateSandbox sb r)) \<Longrightarrow> (\<And>sb r. P (DeleteSandbox sb r)) \<Longrightarrow>
     emits I P (handle_timed_out k base)"
  unfolding handle_timed_out_def by (intro emits_intros) simp_all

lemma emits_handle_startup_timeout [emits_intros]:
  "stable I k \<Longrightarrow> allows_patch P \<Longrightarrow> (\<And>sb r. P (DeleteSandbox sb r)) \<Longrightarrow>
     emits I P (handle_startup_timeout k base)"
  unfolding handle_startup_timeout_def Let_def
  by (intro emits_intros emits_bind) simp_all

lemma emits_create_pod_call [emits_intros]:
  "stable I k \<Longrightarrow> allows_patch P \<Longrightarrow> allows_reads P \<Longrightarrow> (\<And>r. P (CreatePod p r)) \<Longrightarrow>
     emits I P (create_pod_call k base p)"
  unfolding create_pod_call_def
  by (intro emits_intros emits_bind) (simp_all add: allowsD)

lemma emits_CreateSandboxPod [emits_intros]:
  "stable I k \<Longrightarrow> allows_patch P \<Longrightarrow> allows_reads P \<Longrightarrow> (\<And>p r. P (CreatePod p r)) \<Longrightarrow>
     emits I P (CreateSandboxPod r k base)"
  unfolding CreateSandboxPod_def Let_def by (intro emits_intros) (simp_all add: stableD)

lemma emits_reconcile_running [emits_intros]:
  "stable I k \<Longrightarrow> allows_patch P \<Longrightarrow> allows_reads P \<Longrightarrow>
     (p = None \<Longrightarrow> \<forall>q r. P (CreatePod q r)) \<Longrightarrow> emits I P (reconcile_running r k base p timeout)"
  unfolding reconcile_running_def Let_def
  by (intro emits_intros emits_bind) simp_all

lemma emits_reconcile_deadlines [emits_intros]:
  "stable I k \<Longrightarrow> allows_patch P \<Longrightarrow> allows_reads P \<Longrightarrow> (\<And>sn r. P (CreateSnapshot sn r)) \<Longrightarrow>
     (\<And>sb r. P (UpdateSandbox sb r)) \<Longrightarrow> (\<And>sb r. P (DeleteSandbox sb r)) \<Longrightarrow>
     (p = None \<Longrightarrow> \<forall>q r. P (CreatePod q r)) \<Longrightarrow>
     emits I P (reconcile_deadlines r k base p timeout)"
  unfolding reconcile_deadlines_def
  by (intro emits_intros emits_bind) (simp_all add: allowsD)

lemma emits_add_finalizer [emits_intros]:
  "stable I k \<Longrightarrow> (\<And>sb r. P (UpdateSandbox sb r)) \<Longrightarrow> emits I P (add_finalizer k)"
  unfolding add_finalizer_def by (intro emits_intros) (simp_all add: stableD)

end
