(* ===== verification/KubeModel.thy ===== *)
theory KubeModel
  imports Kube
begin

text \<open>
  An API server that keeps its contract: one namespace of objects in memory, with the immutable
  fields validated as the resource definitions do. It shows that the assumptions the
  controllers rely on can be met together, and it carries the concrete runs.
\<close>

record sim =
  simSandbox :: "sandbox option"
  simPod :: "pod option"
  simNetPol :: "network_policy option"
  simSnapshot :: "rootfs_snapshot option"
  simJob :: "job option"
  simJobPods :: "pod list"
  simHandler :: "string option"
  simNow :: time

definition sim_not_found :: go_error where "sim_not_found = ApiNotFound ''not found''"

definition has_name :: "string \<Rightarrow> string \<Rightarrow> object_meta \<Rightarrow> bool" where
  "has_name ns n m \<longleftrightarrow> metaNamespace m = ns \<and> metaName m = n"

definition sim_lookup :: "('a \<Rightarrow> object_meta) \<Rightarrow> 'a option \<Rightarrow> string \<Rightarrow> string \<Rightarrow> 'a outcome" where
  "sim_lookup meta obj ns n =
     (case obj of None \<Rightarrow> Inl sim_not_found
      | Some x \<Rightarrow> if has_name ns n (meta x) then Inr x else Inl sim_not_found)"

text \<open>
  A write to a sandbox is refused when it does not concern the stored object or changes an
  immutable field. A status patch changes the status only.
\<close>

definition sim_update :: "sandbox \<Rightarrow> sim \<Rightarrow> sandbox outcome \<times> sim" where
  "sim_update sb w =
     (case simSandbox w of None \<Rightarrow> (Inl sim_not_found, w)
      | Some st \<Rightarrow>
          if identity st = identity sb
          then (let new = sb \<lparr>sbStatus := sbStatus st\<rparr> in (Inr new, w \<lparr>simSandbox := Some new\<rparr>))
          else (Inl (ApiOther ''invalid''), w))"

definition sim_patch_status :: "sandbox \<Rightarrow> sandbox \<Rightarrow> sim \<Rightarrow> sandbox outcome \<times> sim" where
  "sim_patch_status base sb w =
     (case simSandbox w of None \<Rightarrow> (Inl sim_not_found, w)
      | Some st \<Rightarrow>
          if identity st = identity sb
          then (let new = st \<lparr>sbStatus := sbStatus sb\<rparr> in (Inr new, w \<lparr>simSandbox := Some new\<rparr>))
          else (Inl (ApiOther ''invalid''), w))"

definition sim_patch_snapshot :: "rootfs_snapshot \<Rightarrow> rootfs_snapshot \<Rightarrow> sim \<Rightarrow> rootfs_snapshot outcome \<times> sim" where
  "sim_patch_snapshot base sn w =
     (case simSnapshot w of None \<Rightarrow> (Inl sim_not_found, w)
      | Some st \<Rightarrow> (let new = st \<lparr>snStatus := snStatus sn\<rparr> in (Inr new, w \<lparr>simSnapshot := Some new\<rparr>)))"

definition sim_delete :: "sandbox \<Rightarrow> sim \<Rightarrow> unit outcome \<times> sim" where
  "sim_delete sb w =
     (case simSandbox w of None \<Rightarrow> (Inl sim_not_found, w)
      | Some st \<Rightarrow> (Inr (), w \<lparr>simSandbox := None\<rparr>))"

definition find_condition :: "condition list \<Rightarrow> string \<Rightarrow> condition option" where
  "find_condition cs t = find (\<lambda>c. condType c = t) cs"

text \<open>The transition time changes with the status only.\<close>

fun set_condition :: "time \<Rightarrow> condition list \<Rightarrow> condition \<Rightarrow> condition list" where
  "set_condition now [] c = [c \<lparr>condTransition := now\<rparr>]"
| "set_condition now (d # ds) c =
     (if condType d = condType c then
        c \<lparr>condTransition := (if condStatus d = condStatus c then condTransition d else now)\<rparr> # ds
      else d # set_condition now ds c)"

definition add_finalizer_meta :: "object_meta \<Rightarrow> string \<Rightarrow> object_meta" where
  "add_finalizer_meta m f =
     (if f \<in> set (metaFinalizers m) then m else m \<lparr>metaFinalizers := metaFinalizers m @ [f]\<rparr>)"

definition remove_finalizer_meta :: "object_meta \<Rightarrow> string \<Rightarrow> object_meta" where
  "remove_finalizer_meta m f = m \<lparr>metaFinalizers := filter (\<lambda>g. g \<noteq> f) (metaFinalizers m)\<rparr>"

definition set_owner :: "object_meta \<Rightarrow> object_meta \<Rightarrow> object_meta outcome" where
  "set_owner owner m =
     Inr (m \<lparr>metaOwners := [\<lparr>ownerName = metaName owner, ownerUID = metaUID owner, ownerController = True\<rparr>]\<rparr>)"

definition sim_kube :: "sim kube" where
  "sim_kube = \<lparr>
     kGetSandbox = (\<lambda>ns n w. (sim_lookup sbMeta (simSandbox w) ns n, w)),
     kUpdateSandbox = sim_update,
     kPatchSandboxStatus = sim_patch_status,
     kDeleteSandbox = sim_delete,
     kGetPod = (\<lambda>ns n w. (sim_lookup podMeta (simPod w) ns n, w)),
     kCreatePod = (\<lambda>p w. (Inr (), w \<lparr>simPod := Some p\<rparr>)),
     kGetNetPol = (\<lambda>ns n w. (sim_lookup npMeta (simNetPol w) ns n, w)),
     kCreateNetPol = (\<lambda>np w. (Inr (), w \<lparr>simNetPol := Some np\<rparr>)),
     kGetSnapshot = (\<lambda>ns n w. (sim_lookup snMeta (simSnapshot w) ns n, w)),
     kCreateSnapshot = (\<lambda>sn w. (Inr (), w \<lparr>simSnapshot := Some sn\<rparr>)),
     kPatchSnapshotStatus = sim_patch_snapshot,
     kDeleteSnapshot = (\<lambda>sn w. (Inr (), w \<lparr>simSnapshot := None\<rparr>)),
     kGetJob = (\<lambda>ns n w. (sim_lookup jobMeta (simJob w) ns n, w)),
     kCreateJob = (\<lambda>j w. case simJob w of None \<Rightarrow> (Inr (), w \<lparr>simJob := Some j\<rparr>)
       | Some _ \<Rightarrow> (Inl (ApiAlreadyExists ''exists''), w)),
     kDeleteJob = (\<lambda>j w. (Inr (), w \<lparr>simJob := None\<rparr>)),
     kListJobPods = (\<lambda>ns n w. (Inr (simJobPods w), w)),
     kGetRuntimeHandler = (\<lambda>n w. (case simHandler w of None \<Rightarrow> Inl sim_not_found | Some h \<Rightarrow> Inr h, w)),
     kNow = (\<lambda>w. (simNow w, w)),
     kEvent = (\<lambda>_ _ _ w. w),
     kParseUploadResult = (\<lambda>m. Inr \<lparr>urSnapshotKey = m, urBytesWritten = 0\<rparr>),
     kErrorText = (\<lambda>_. ''error''),
     kFindCondition = find_condition,
     kSetCondition = (\<lambda>w. set_condition (simNow w)),
     kSetControllerRef = set_owner,
     kContainsFinalizer = (\<lambda>m f. f \<in> set (metaFinalizers m)),
     kAddFinalizer = add_finalizer_meta,
     kRemoveFinalizer = remove_finalizer_meta\<rparr>"

lemma find_condition_type: "find_condition cs t = Some c \<Longrightarrow> condType c = t"
  by (auto simp: find_condition_def find_Some_iff)

lemma find_set_condition_same:
  "\<exists>d. find_condition (set_condition now cs c) (condType c) = Some d \<and> same_condition c d"
  by (induction cs) (auto simp: find_condition_def same_condition_def)

lemma find_set_condition_other:
  "condType c \<noteq> t \<Longrightarrow> find_condition (set_condition now cs c) t = find_condition cs t"
  by (induction cs) (auto simp: find_condition_def)

interpretation sim: kube_laws sim_kube
proof unfold_locales
  fix w cs and c :: condition
  show "\<exists>d. kFindCondition sim_kube (kSetCondition sim_kube w cs c) (condType c) = Some d \<and> same_condition c d"
    using find_set_condition_same by (simp add: sim_kube_def)
next
  fix c :: condition and t w cs
  assume "condType c \<noteq> t"
  then show "kFindCondition sim_kube (kSetCondition sim_kube w cs c) t = kFindCondition sim_kube cs t"
    by (simp add: sim_kube_def find_set_condition_other)
qed (auto simp: sim_kube_def find_condition_type add_finalizer_meta_def remove_finalizer_meta_def)

lemma sim_orderly: "orderly sim_kube"
  by (auto simp: orderly_def server_keeps_def sim_kube_def sim_update_def sim_patch_status_def
      add_finalizer_meta_def remove_finalizer_meta_def identity_def Let_def
      split: option.splits if_splits)

end
