(* ===== verification/SandboxSafety.thy ===== *)
theory SandboxSafety
  imports SandboxCalls KubeModel
begin

text \<open>
  The order of the calls of a reconcile: what precedes the creation of a pod. The statements hold
  for every API server that keeps the identity of a sandbox (\<open>orderly\<close>), whatever else it
  answers.
\<close>

lemma meta_frame:
  "m' \<lparr>metaFinalizers := fs\<rparr> = m \<Longrightarrow> metaName m' = metaName m \<and> metaNamespace m' = metaNamespace m
     \<and> metaDeleted m' = metaDeleted m"
  by (cases m') auto

lemma orderly_stable:
  assumes "orderly k"
  shows "stable (\<lambda>sb. identity sb = i) k"
proof -
  have "kAddFinalizer k m f \<lparr>metaFinalizers := metaFinalizers m\<rparr> = m"
      "kRemoveFinalizer k m f \<lparr>metaFinalizers := metaFinalizers m\<rparr> = m" for m f
    using assms by (simp_all add: orderly_def)
  note frame = this [THEN meta_frame]
  have "server_keeps (\<lambda>sb. identity sb = i) k"
    using assms unfolding orderly_def by blast
  then show ?thesis
    by (simp add: stable_def identity_def share_template_def Let_def frame)
qed

section \<open>The order of the calls\<close>

fun creates_pod :: "call \<Rightarrow> bool" where
  "creates_pod (CreatePod p r) = True"
| "creates_pod _ = False"

definition policy_in_place :: "identity \<Rightarrow> call list \<Rightarrow> bool" where
  "policy_in_place i cs \<longleftrightarrow>
     (case i of (name, ns, nw, tp) \<Rightarrow>
        BuildCustomNetworkPolicy name ns nw = Inr None \<or>
        (\<exists>np. GetNetPol ns (GetCustomNetworkPolicyName name) (Inr np) \<in> set cs) \<or>
        (\<exists>np m r. BuildCustomNetworkPolicy name ns nw = Inr (Some np) \<and>
           CreateNetPol (np \<lparr>npMeta := m\<rparr>) r \<in> set cs \<and>
           (case r of Inr _ \<Rightarrow> True | Inl e \<Rightarrow> IsAlreadyExists e)))"

definition pod_absent :: "identity \<Rightarrow> call list \<Rightarrow> bool" where
  "pod_absent i cs \<longleftrightarrow>
     (case i of (name, ns, nw, tp) \<Rightarrow>
        \<exists>e. IsNotFound e \<and> GetPod ns (GetSandboxPodName name) (Inl e) \<in> set cs)"

lemma policy_in_place_mono: "policy_in_place i cs \<Longrightarrow> set cs \<subseteq> set ds \<Longrightarrow> policy_in_place i ds"
  unfolding policy_in_place_def by (cases i) (simp, blast)

lemma pod_absent_mono: "pod_absent i cs \<Longrightarrow> set cs \<subseteq> set ds \<Longrightarrow> pod_absent i ds"
  unfolding pod_absent_def by (cases i) auto

lemma no_create_prefix:
  assumes "list_all (\<lambda>c. \<not> creates_pod c) a" "a @ b = pre @ CreatePod p o1 # post"
  shows "\<exists>pre'. pre = a @ pre' \<and> b = pre' @ CreatePod p o1 # post"
proof -
  consider (pre) us where "a @ us = pre" "b = us @ CreatePod p o1 # post"
    | (post) us where "a = pre @ us" "us @ b = CreatePod p o1 # post"
    using assms(2) by (auto simp: append_eq_append_conv2)
  then show ?thesis
  proof cases
    case pre
    then show ?thesis by auto
  next
    case post
    then show ?thesis using assms(1) by (cases us) auto
  qed
qed

lemma traces_ensureCustomNetworkPolicy:
  assumes st: "stable (\<lambda>sb. identity sb = i) k"
  shows "traces (\<lambda>sb. identity sb = i) (ensureCustomNetworkPolicy k base)
     (\<lambda>cs r. list_all (\<lambda>c. \<not> creates_pod c) cs \<and> (r = Inr () \<longrightarrow> policy_in_place i cs))"
proof -
  have mark: "traces (\<lambda>sb. identity sb = i) (thenE (markSandboxFailed k base a b) (throwE e))
      (\<lambda>cs r. list_all (\<lambda>c. \<not> creates_pod c) cs \<and> (r = Inr () \<longrightarrow> policy_in_place i cs))" for a b e
    by (rule traces_thenE [OF emits_traces [OF emits_markSandboxFailed [OF st]]])
       (auto simp: allows_patch_def intro!: traces_throwE)
  show ?thesis
    unfolding ensureCustomNetworkPolicy_def Let_def
    by (intro traces_intros mark) (auto simp: policy_in_place_def identity_def split: sum.splits)
qed

lemma traces_getSandboxPod:
  "traces (\<lambda>sb. identity sb = i) (getSandboxPod k)
     (\<lambda>cs r. list_all (\<lambda>c. \<not> creates_pod c) cs \<and> (r = Inr None \<longrightarrow> pod_absent i cs))"
  unfolding getSandboxPod_def
  by (intro traces_intros) (auto simp: pod_absent_def identity_def)

text \<open>The pod a call creates comes from the steps of \<open>SandboxPod\<close>.\<close>

definition created_from :: "sandbox_reconciler \<Rightarrow> 'w kube \<Rightarrow> identity \<Rightarrow> pod \<Rightarrow> bool" where
  "created_from r k i p \<longleftrightarrow> (\<exists>sb p0 m. identity sb = i \<and>
     (snapshotSources (sbSpec sb) = [] \<and> p0 = base_pod r sb \<or>
      injectRootfsRestore r (snapshotSources (sbSpec sb)) (base_pod r sb)
        (metaNamespace (sbMeta sb)) = (None, p0)) \<and>
     kSetControllerRef k (sbMeta sb) (podMeta (finish_pod r sb p0)) = Inr m \<and>
     p = finish_pod r sb p0 \<lparr>podMeta := m\<rparr>)"

definition creations_ok :: "sandbox_reconciler \<Rightarrow> 'w kube \<Rightarrow> identity \<Rightarrow> call list \<Rightarrow> bool" where
  "creations_ok r k i cs \<longleftrightarrow> length (filter creates_pod cs) \<le> 1 \<and>
     (\<forall>p o1. CreatePod p o1 \<in> set cs \<longrightarrow> created_from r k i p)"

lemma creations_ok_none: "list_all (\<lambda>c. \<not> creates_pod c) cs \<Longrightarrow> creations_ok r k i cs"
  by (auto simp: creations_ok_def list_all_iff filter_empty_conv)

lemma creations_ok_append:
  "list_all (\<lambda>c. \<not> creates_pod c) cs \<Longrightarrow> creations_ok r k i (cs @ ds) = creations_ok r k i ds"
  "list_all (\<lambda>c. \<not> creates_pod c) ds \<Longrightarrow> creations_ok r k i (cs @ ds) = creations_ok r k i cs"
  by (fastforce simp: creations_ok_def list_all_iff filter_empty_conv)+

lemma quiet_classes:
  "allows_patch (\<lambda>c. \<not> creates_pod c)" "allows_reads (\<lambda>c. \<not> creates_pod c)"
  by (simp_all add: allows_patch_def allows_reads_def)

lemma traces_restore_step:
  assumes st: "stable (\<lambda>sb. identity sb = i) k" and i: "identity sb = i"
  shows "traces (\<lambda>sb. identity sb = i) (restore_step r k base sb p)
     (\<lambda>cs res. list_all (\<lambda>c. \<not> creates_pod c) cs \<and>
        (\<forall>q. res = Inr q \<longrightarrow> snapshotSources (sbSpec sb) = [] \<and> q = p \<or>
           injectRootfsRestore r (snapshotSources (sbSpec sb)) p (metaNamespace (sbMeta sb)) = (None, q)))"
proof -
  have mark: "traces (\<lambda>sb. identity sb = i) (thenE (markSandboxFailed k base a b) (throwE e))
      (\<lambda>ds res. list_all (\<lambda>c. \<not> creates_pod c) (cs @ ds) \<and> (\<forall>q. res = Inr q \<longrightarrow> Q q))"
    if "list_all (\<lambda>c. \<not> creates_pod c) cs" for a b e cs Q
    by (rule traces_thenE [OF emits_traces [OF emits_markSandboxFailed [OF st quiet_classes(1)]]])
       (use that in \<open>auto intro!: traces_throwE\<close>)
  have patch: "traces (\<lambda>sb. identity sb = i) (thenE (patchStatus k base conds) (throwE e))
      (\<lambda>ds res. list_all (\<lambda>c. \<not> creates_pod c) (cs @ ds) \<and> (\<forall>q. res = Inr q \<longrightarrow> Q q))"
    if "list_all (\<lambda>c. \<not> creates_pod c) cs" for conds e cs Q
    by (rule traces_thenE [OF emits_traces [OF emits_patchStatus [OF st quiet_classes(1)]]])
       (use that in \<open>auto intro!: traces_throwE\<close>)
  show ?thesis
    unfolding restore_step_def
    by (intro traces_if traces_bind [OF emits_traces [OF emits_validateRootfsRestoreConfig [OF quiet_classes(2)]]]
        traces_case_option traces_case_prod traces_set_object traces_returnE mark patch)
       (use stableD(3) [OF st] i in auto)
qed

lemma traces_CreateSandboxPod:
  assumes st: "stable (\<lambda>sb. identity sb = i) k"
  shows "traces (\<lambda>sb. identity sb = i) (CreateSandboxPod r k base) (\<lambda>cs _. creations_ok r k i cs)"
proof -
  have create: "traces (\<lambda>sb. identity sb = i) (create_pod_call k base p) (\<lambda>cs _. creations_ok r k i (ds @ cs))"
    if ds: "list_all (\<lambda>c. \<not> creates_pod c) ds" and p: "created_from r k i p" for p ds
  proof -
    have one: "creations_ok r k i (ds @ CreatePod p o1 # es)" if "list_all (\<lambda>c. \<not> creates_pod c) es" for o1 es
      unfolding creations_ok_append(1) [OF ds]
      using that p by (auto simp: creations_ok_def list_all_iff filter_empty_conv)
    have patch: "traces (\<lambda>sb. identity sb = i) (patchStatus k base new)
        (\<lambda>cs a. list_all (\<lambda>c. \<not> creates_pod c) cs)" for new
      by (rule emits_traces [OF emits_patchStatus [OF st quiet_classes(1)]])
    show ?thesis
      unfolding create_pod_call_def
      by (intro traces_get_object traces_bind_call traces_case_sum traces_bind_event
          traces_bind [OF patch] traces_throwE traces_weaken [OF patch])
         (simp_all add: one)
  qed
  show ?thesis
    unfolding CreateSandboxPod_def Let_def
  proof (rule traces_get_object)
    fix sb assume i: "identity sb = i"
    show "traces (\<lambda>sb. identity sb = i)
        (bindE (restore_step r k base sb (base_pod r sb)) (\<lambda>p.
           State_Monad.bind (set_object (share_template (finish_pod r sb p) sb)) (\<lambda>_.
             case kSetControllerRef k (sbMeta sb) (podMeta (finish_pod r sb p)) of
               Inl e \<Rightarrow> throwE e
             | Inr m \<Rightarrow> create_pod_call k base (finish_pod r sb p \<lparr>podMeta := m\<rparr>))))
        (\<lambda>cs _. creations_ok r k i cs)"
      by (rule traces_bindE [OF traces_restore_step [OF st i]];
          (intro traces_set_object traces_case_sum traces_throwE create)?)
         (use i stableD(3) [OF st] in \<open>auto simp: creations_ok_none created_from_def\<close>)
  qed
qed

text \<open>From the network policy to the status: the order in which a pod comes to be.\<close>

definition guarded :: "identity \<Rightarrow> call list \<Rightarrow> bool" where
  "guarded i cs \<longleftrightarrow> (\<forall>pre p o1 post. cs = pre @ CreatePod p o1 # post \<longrightarrow>
     policy_in_place i pre \<and> pod_absent i pre)"

lemma guarded_quiet: "list_all (\<lambda>c. \<not> creates_pod c) cs \<Longrightarrow> guarded i cs"
  by (auto simp: guarded_def)

lemma guarded_after:
  assumes "list_all (\<lambda>c. \<not> creates_pod c) cs" "policy_in_place i cs" "pod_absent i cs"
  shows "guarded i (cs @ ds)"
  unfolding guarded_def
proof (intro allI impI)
  fix pre p o1 post assume "cs @ ds = pre @ CreatePod p o1 # post"
  then obtain pre' where "pre = cs @ pre'" using no_create_prefix [OF assms(1)] by blast
  then show "policy_in_place i pre \<and> pod_absent i pre"
    using policy_in_place_mono [OF assms(2), of pre] pod_absent_mono [OF assms(3), of pre] by simp
qed

lemma traces_requeue_after:
  "traces I (requeue_after k timeout startup) (\<lambda>cs a. list_all (\<lambda>c. \<not> creates_pod c) cs)"
  by (rule emits_traces [OF emits_requeue_after [OF quiet_classes(2)]])

lemma traces_reconcile_running:
  assumes st: "stable (\<lambda>sb. identity sb = i) k"
  shows "traces (\<lambda>sb. identity sb = i) (reconcile_running r k base p timeout)
     (\<lambda>cs _. creations_ok r k i cs \<and> (p \<noteq> None \<longrightarrow> list_all (\<lambda>c. \<not> creates_pod c) cs))"
proof -
  have status: "traces (\<lambda>sb. identity sb = i) (thenE (reconcileSandboxStatus k base q) (returnE d))
      (\<lambda>ds a. list_all (\<lambda>c. \<not> creates_pod c) ds)" for q d
    using st by (intro emits_traces emits_intros) (simp_all add: quiet_classes)
  show ?thesis
    unfolding reconcile_running_def Let_def
    by (intro traces_get_object traces_bind [OF traces_requeue_after] traces_if
        traces_thenE [OF traces_CreateSandboxPod [OF st]] traces_weaken [OF status])
       (auto simp: creations_ok_append creations_ok_none)
qed

lemma traces_reconcile_deadlines:
  assumes st: "stable (\<lambda>sb. identity sb = i) k"
  shows "traces (\<lambda>sb. identity sb = i) (reconcile_deadlines r k base p timeout)
     (\<lambda>cs _. creations_ok r k i cs \<and> (p \<noteq> None \<longrightarrow> list_all (\<lambda>c. \<not> creates_pod c) cs))"
proof -
  have timed: "traces (\<lambda>sb. identity sb = i) (handle_timed_out k base) (\<lambda>ds a. list_all (\<lambda>c. \<not> creates_pod c) ds)"
    and startup: "traces (\<lambda>sb. identity sb = i) (handle_startup_timeout k base) (\<lambda>ds a. list_all (\<lambda>c. \<not> creates_pod c) ds)"
    using st by (intro emits_traces emits_intros; simp add: quiet_classes)+
  have clock: "traces (\<lambda>sb. identity sb = i)
      (case timeout of None \<Rightarrow> State_Monad.return False
       | Some t \<Rightarrow> State_Monad.bind (read_clock k) (\<lambda>now. State_Monad.return (time_after now t)))
      (\<lambda>cs a. list_all (\<lambda>c. \<not> creates_pod c) cs)"
    "traces (\<lambda>sb. identity sb = i)
      (if has_startup_deadline sb p
       then State_Monad.bind (read_clock k) (\<lambda>now. State_Monad.return (time_after now (startup_deadline sb p)))
       else State_Monad.return False)
      (\<lambda>cs a. list_all (\<lambda>c. \<not> creates_pod c) cs)" for sb
    by (intro traces_intros; simp)+
  show ?thesis
    unfolding reconcile_deadlines_def
    by (intro traces_bind [OF clock(1)] traces_if traces_get_object traces_bind [OF clock(2)]
        traces_weaken [OF timed] traces_weaken [OF startup]
        traces_weaken [OF traces_reconcile_running [OF st]])
       (auto simp: creations_ok_append creations_ok_none)
qed

lemma traces_reconcile_live:
  assumes st: "stable (\<lambda>sb. identity sb = i) k"
  shows "traces (\<lambda>sb. identity sb = i) (reconcile_live r k base)
     (\<lambda>cs _. creations_ok r k i cs \<and> guarded i cs)"
proof -
  have timeout: "traces (\<lambda>sb. identity sb = i) (ensureTimeout k base p)
      (\<lambda>ds a. list_all (\<lambda>c. \<not> creates_pod c) ds)" for p
    by (rule emits_traces [OF emits_ensureTimeout [OF st quiet_classes(1)]])
  show ?thesis
    unfolding reconcile_live_def
  proof (intro traces_thenE [OF traces_ensureCustomNetworkPolicy [OF st]]
      traces_bindE [OF traces_getSandboxPod] traces_bindE [OF timeout]
      traces_weaken [OF traces_reconcile_deadlines [OF st]], goal_cases)
    case (4 u cs p ds t es fs res)
    then have quiet: "list_all (\<lambda>c. \<not> creates_pod c) (cs @ ds @ es)" by simp
    have "guarded i ((cs @ ds @ es) @ fs)"
    proof (cases p)
      case None
      with 4 show ?thesis
        using quiet policy_in_place_mono [of i cs "cs @ ds @ es"] pod_absent_mono [of i ds "cs @ ds @ es"]
        by (intro guarded_after) auto
    next
      case (Some q)
      with 4 quiet show ?thesis by (intro guarded_quiet) auto
    qed
    with 4 show ?case using creations_ok_append(1) [OF quiet, of r k i fs] by simp
  qed (auto intro: creations_ok_none guarded_quiet)
qed

text \<open>The finalizer is on the server before anything is created.\<close>

definition finalizer_held :: "'w kube \<Rightarrow> call list \<Rightarrow> bool" where
  "finalizer_held k cs \<longleftrightarrow>
     (\<exists>ns name sb. GetSandbox ns name (Inr sb) \<in> set cs \<and> kContainsFinalizer k (sbMeta sb) SandboxFinalizer) \<or>
     (\<exists>sb sb'. UpdateSandbox sb (Inr sb') \<in> set cs \<and> kContainsFinalizer k (sbMeta sb) SandboxFinalizer)"

lemma finalizer_held_mono: "finalizer_held k cs \<Longrightarrow> set cs \<subseteq> set ds \<Longrightarrow> finalizer_held k ds"
  unfolding finalizer_held_def by blast

lemma traces_add_finalizer:
  assumes k: "orderly k"
  shows "traces (\<lambda>sb. identity sb = i) (add_finalizer k)
     (\<lambda>cs r. list_all (\<lambda>c. \<not> creates_pod c) cs \<and> (r = Inr () \<longrightarrow> finalizer_held k cs))"
proof (rule tracesI)
  fix s :: "'a sandbox_run" assume i: "identity (rObject s) = i"
  let ?sb = "rObject s \<lparr>sbMeta := kAddFinalizer k (sbMeta (rObject s)) SandboxFinalizer\<rparr>"
  have i': "identity ?sb = i" using stableD(4) [OF orderly_stable [OF k] i] .
  have held: "kContainsFinalizer k (sbMeta ?sb) SandboxFinalizer" using k by (simp add: orderly_def)
  obtain res w where res: "kUpdateSandbox k ?sb (rWorld s) = (res, w)" by (cases "kUpdateSandbox k ?sb (rWorld s)")
  have "res = Inr sb' \<Longrightarrow> identity sb' = i" for sb'
    using k i' res unfolding orderly_def server_keeps_def by blast
  then show "wp (add_finalizer k) (\<lambda>a t. identity (rObject t) = i \<and> (\<exists>cs. rCalls t = rCalls s @ cs \<and>
      list_all (\<lambda>c. \<not> creates_pod c) cs \<and> (a = Inr () \<longrightarrow> finalizer_held k cs))) s"
    using res i' held
    by (cases res) (auto simp: add_finalizer_def update_sandbox_def finalizer_held_def)
qed

lemma guarded_Cons: "guarded i cs \<Longrightarrow> \<not> creates_pod c \<Longrightarrow> guarded i (c # cs)"
  unfolding guarded_def
proof (intro allI impI)
  fix pre p o1 post
  assume g: "\<forall>pre p o1 post. cs = pre @ CreatePod p o1 # post \<longrightarrow> policy_in_place i pre \<and> pod_absent i pre"
    and c: "\<not> creates_pod c" and eq: "c # cs = pre @ CreatePod p o1 # post"
  then obtain pre' where "pre = c # pre'" "cs = pre' @ CreatePod p o1 # post"
    by (cases pre) auto
  then show "policy_in_place i pre \<and> pod_absent i pre"
    using g policy_in_place_mono [of i pre' pre] pod_absent_mono [of i pre' pre] by auto
qed

lemma guarded_append:
  "list_all (\<lambda>c. \<not> creates_pod c) cs \<Longrightarrow> guarded i ds \<Longrightarrow> guarded i (cs @ ds)"
  by (induction cs) (simp_all add: guarded_Cons)

text \<open>The calls of a reconcile that finds its sandbox, after the first.\<close>

definition body_ok :: "sandbox_reconciler \<Rightarrow> 'w kube \<Rightarrow> identity \<Rightarrow> bool \<Rightarrow> bool \<Rightarrow> call list \<Rightarrow> bool" where
  "body_ok r k i deleted held cs \<longleftrightarrow> creations_ok r k i cs \<and> guarded i cs \<and>
     (deleted \<longrightarrow> list_all (\<lambda>c. \<not> creates_pod c) cs) \<and>
     (\<not> held \<longrightarrow> (\<forall>pre p o1 post. cs = pre @ CreatePod p o1 # post \<longrightarrow> finalizer_held k pre))"

lemma body_ok_quiet: "list_all (\<lambda>c. \<not> creates_pod c) cs \<Longrightarrow> body_ok r k i d h cs"
  by (auto simp: body_ok_def creations_ok_none guarded_quiet)

lemma traces_reconcile_found:
  assumes k: "orderly k"
  shows "traces (\<lambda>sb. identity sb = i) (reconcile_found r k sb)
     (\<lambda>cs _. body_ok r k i (\<not> time_is_zero (metaDeleted (sbMeta sb)))
        (kContainsFinalizer k (sbMeta sb) SandboxFinalizer) cs)"
proof -
  note st = orderly_stable [OF k]
  have fin: "traces (\<lambda>sb. identity sb = i) (bindE (finalizeSandbox k sb) (\<lambda>(res, _). returnE res))
      (\<lambda>cs a. list_all (\<lambda>c. \<not> creates_pod c) cs)"
    using st by (intro emits_traces emits_intros) (simp_all add: quiet_classes)
  have live: "traces (\<lambda>sb. identity sb = i) (reconcile_live r k b)
      (\<lambda>cs a. creations_ok r k i cs \<and> guarded i cs)" for b
    by (rule traces_reconcile_live [OF st])
  show ?thesis
    unfolding reconcile_found_def Let_def
  proof (intro traces_if traces_returnE traces_weaken [OF fin] traces_weaken [OF live]
      traces_thenE [OF traces_add_finalizer [OF k]] traces_get_object, goal_cases)
    case (5 u cs sb' ds)
    have "finalizer_held k pre" if "cs @ ds = pre @ CreatePod p o1 # post" for pre p o1 post
      using no_create_prefix [OF _ that] 5 finalizer_held_mono [of k cs pre] by auto
    then show ?case
      using 5 by (auto simp: body_ok_def creations_ok_append(1) guarded_append)
  qed (auto simp: body_ok_def creations_ok_none guarded_quiet)
qed

text \<open>A run of \<open>Reconcile\<close>: only the lookup, or the lookup and what \<open>reconcile_found\<close> does.\<close>

lemma Reconcile_run:
  assumes "run_state (Reconcile r k ns name) s = (res, t)"
  obtains (failed) e where "rCalls t = rCalls s @ [GetSandbox ns name (Inl e)]"
      "res = (if IsNotFound e then Inr 0 else Inl e)"
    | (found) sb w where "kGetSandbox k ns name (rWorld s) = (Inr sb, w)"
      "run_state (reconcile_found r k sb)
         (s \<lparr>rWorld := w, rCalls := rCalls s @ [GetSandbox ns name (Inr sb)], rObject := sb\<rparr>) = (res, t)"
proof -
  obtain got w where got: "kGetSandbox k ns name (rWorld s) = (got, w)"
    by (cases "kGetSandbox k ns name (rWorld s)")
  have "wp (Reconcile r k ns name) (\<lambda>a u. a = res \<and> u = t) s"
    using assms by (simp add: wp_def)
  then have wp: "wp (case got of Inl e \<Rightarrow> if IsNotFound e then returnE 0 else throwE e
       | Inr sb \<Rightarrow> State_Monad.bind (set_object sb) (\<lambda>_. reconcile_found r k sb))
      (\<lambda>a u. a = res \<and> u = t) (s \<lparr>rWorld := w, rCalls := rCalls s @ [GetSandbox ns name got]\<rparr>)"
    by (simp add: Reconcile_def got)
  show thesis
  proof (cases got)
    case (Inl e)
    then show thesis using wp by (intro failed [of e]) (auto split: if_splits)
  next
    case (Inr sb)
    with wp have "wp (reconcile_found r k sb) (\<lambda>a u. a = res \<and> u = t)
        (s \<lparr>rWorld := w, rCalls := rCalls s @ [GetSandbox ns name (Inr sb)], rObject := sb\<rparr>)"
      by simp
    then show thesis using Inr got by (intro found [of sb w]) (auto simp: wp_def split: prod.splits)
  qed
qed

section \<open>Properties\<close>



definition example_sandbox :: sandbox where
  "example_sandbox =
     \<lparr>sbMeta = empty_meta \<lparr>metaName := ''sb'', metaNamespace := ''ns'', metaUID := ''u1''\<rparr>,
      sbSpec = \<lparr>podTemplate = \<lparr>tplLabels = Map.empty, tplAnnotations = Map.empty, tplSpec = example_spec\<rparr>,
        timeoutSeconds = Some 60, startupTimeoutSeconds = Some 90, terminationPolicy = None,
        sbNetwork = None, snapshotSources = []\<rparr>,
      sbStatus = \<lparr>sbConditions = [], timeoutAt = None, terminationDeadlineAt = None, sbPodIP = [],
        sidecarVersion = []\<rparr>\<rparr>"

definition example_world :: sim where
  "example_world = \<lparr>simSandbox = Some example_sandbox, simPod = None, simNetPol = None,
     simSnapshot = None, simJob = None, simJobPods = [], simHandler = Some ''runsc'', simNow = 1000\<rparr>"

definition start_run :: "'w \<Rightarrow> 'w sandbox_run" where
  "start_run w = \<lparr>rWorld = w, rCalls = [], rObject = example_sandbox\<rparr>"

lemmas sandbox_steps =
  Reconcile_def reconcile_found_def reconcile_live_def reconcile_deadlines_def reconcile_running_def
  requeue_after_def add_finalizer_def update_sandbox_def ensureCustomNetworkPolicy_def
  getSandboxPod_def ensureTimeout_def CreateSandboxPod_def restore_step_def create_pod_call_def
  emit_event_def read_clock_def patchStatus_def set_conditions_def reconcileSandboxStatus_def
  getTerminationRootfssnapshot_def thenE_def delete_sandbox_def finalizeSandbox_def
  ensureTerminationDeadline_def executeTerminationPolicy_def handle_timed_out_def
  handle_startup_timeout_def remove_finalizer_def snapshot_result_def
  markSandboxSucceeded_def markSandboxFailed_def patch_sandbox_status_def

lemma identity_status [simp]: "identity (sb \<lparr>sbStatus := st\<rparr>) = identity sb"
  by (simp add: identity_def)

lemma identity_share_template [simp]: "identity (share_template p sb) = identity sb"
  by (simp add: identity_def share_template_def Let_def)

lemma meta_share_template [simp]: "sbMeta (share_template p sb) = sbMeta sb"
  by (simp add: share_template_def Let_def)

lemma identity_finalizer [simp]:
  "identity (sb \<lparr>sbMeta := add_finalizer_meta (sbMeta sb) f\<rparr>) = identity sb"
  by (simp add: identity_def add_finalizer_meta_def)

lemma example_sandbox_simps [simp]:
  "metaName (sbMeta example_sandbox) = ''sb''" "metaNamespace (sbMeta example_sandbox) = ''ns''"
  "metaDeleted (sbMeta example_sandbox) = None" "metaFinalizers (sbMeta example_sandbox) = []"
  "timeoutSeconds (sbSpec example_sandbox) = Some 60" "sbNetwork (sbSpec example_sandbox) = None"
  "startupTimeoutSeconds (sbSpec example_sandbox) = Some 90"
  "snapshotSources (sbSpec example_sandbox) = []" "timeoutAt (sbStatus example_sandbox) = None"
  "terminationPolicy (sbSpec example_sandbox) = None"
  by (simp_all add: example_sandbox_def empty_meta_def)

lemma add_finalizer_meta_simps [simp]:
  "metaName (add_finalizer_meta m f) = metaName m" "metaNamespace (add_finalizer_meta m f) = metaNamespace m"
  "f \<in> set (metaFinalizers (add_finalizer_meta m f))"
  by (simp_all add: add_finalizer_meta_def)

lemmas sim_steps =
  sim_kube_def sim_lookup_def sim_update_def sim_patch_status_def sim_delete_def has_name_def
  sim_not_found_def set_owner_def

lemma example_run_creates:
  "wp (Reconcile example_reconciler sim_kube ''ns'' ''sb'')
     (\<lambda>_ t. list_ex creates_pod (rCalls t)) (start_run example_world)"
  by (simp add: sandbox_steps sim_steps start_run_def example_world_def
      time_is_zero_def BuildCustomNetworkPolicy_def Let_def
      has_startup_deadline_def mirror_pod_def)


end
