(* ===== verification/SandboxTermination.thy ===== *)
theory SandboxTermination
  imports SandboxSafety
begin

text \<open>
  The end of a sandbox: the termination policy, its deadline and its snapshot. The relations on the
  recorded calls (\<open>policy_run\<close>, \<open>settled_run\<close>, \<open>releases_ok\<close>) follow the functions from
  \<open>handleRootfsSnapshot\<close> up to \<open>Reconcile\<close>.
\<close>


section \<open>The termination policy\<close>

fun releases :: "'w kube \<Rightarrow> call \<Rightarrow> bool" where
  "releases k (UpdateSandbox sb r) = (\<not> kContainsFinalizer k (sbMeta sb) SandboxFinalizer)"
| "releases k _ = False"

fun updates :: "call \<Rightarrow> bool" where
  "updates (UpdateSandbox sb r) = True"
| "updates _ = False"

text \<open>The policy asks for a snapshot before the sandbox goes.\<close>

definition wants_snapshot :: "identity \<Rightarrow> bool" where
  "wants_snapshot i \<longleftrightarrow>
     (case i of (name, ns, nw, tp) \<Rightarrow>
        (case tp of None \<Rightarrow> False
         | Some t \<Rightarrow> tpType t = TerminationSnapshotRootfs \<and> tpSnapshotRootfs t \<noteq> None))"

text \<open>Reasons why no snapshot is to be waited for: no usable pod, no gVisor, or it is complete.\<close>

fun settles :: "identity \<Rightarrow> call \<Rightarrow> bool" where
  "settles (name, sns, nw, tp) (GetPod ns n (Inl e)) =
     (ns = sns \<and> n = GetSandboxPodName name \<and> IsNotFound e)"
| "settles (name, sns, nw, tp) (GetPod ns n (Inr p)) =
     (ns = sns \<and> n = GetSandboxPodName name \<and>
      (\<not> IsPodReady (Some p) \<or> podRuntimeClass (podSpec p) = None \<or> podRuntimeClass (podSpec p) = Some []))"
| "settles i (GetRuntimeHandler n (Inl e)) = IsNotFound e"
| "settles i (GetRuntimeHandler n (Inr h)) = (h \<noteq> ''runsc'' \<and> h \<noteq> ''gvisor'')"
| "settles (name, sns, nw, tp) (GetSnapshot ns n (Inr sn)) =
     (ns = sns \<and> n = GetTerminationSnapshotName name \<and> snCompletionTime (snStatus sn) \<noteq> None)"
| "settles i _ = False"

text \<open>A clock reading past a deadline that the status patches carry.\<close>

definition deadline_passed :: "call list \<Rightarrow> bool" where
  "deadline_passed cs \<longleftrightarrow> (\<exists>now d base sb r. ReadClock now \<in> set cs \<and> time_after now d \<and>
     PatchSandboxStatus base sb r \<in> set cs \<and> terminationDeadlineAt (sbStatus sb) = Some d)"

definition snapshot_settled :: "identity \<Rightarrow> call list \<Rightarrow> bool" where
  "snapshot_settled i cs \<longleftrightarrow> deadline_passed cs \<or> (\<exists>c \<in> set cs. settles i c)"

lemma snapshot_settled_mono: "snapshot_settled i cs \<Longrightarrow> set cs \<subseteq> set ds \<Longrightarrow> snapshot_settled i ds"
  unfolding snapshot_settled_def deadline_passed_def by blast

text \<open>What the policy has seen when it says that the sandbox may go, before the deadline is tied in.\<close>

definition policy_done :: "identity \<Rightarrow> pod option \<Rightarrow> time \<Rightarrow> call list \<Rightarrow> bool" where
  "policy_done i p d cs \<longleftrightarrow> (\<exists>now. ReadClock now \<in> set cs \<and> time_after now d) \<or>
     p = None \<or> \<not> IsPodReady p \<or>
     (\<exists>q. p = Some q \<and> (podRuntimeClass (podSpec q) = None \<or> podRuntimeClass (podSpec q) = Some [])) \<or>
     (\<exists>c \<in> set cs. settles i c)"

lemma policy_done_mono: "policy_done i p d cs \<Longrightarrow> set cs \<subseteq> set ds \<Longrightarrow> policy_done i p d ds"
  unfolding policy_done_def by blast

lemma quiet_updates: "allows_patch (\<lambda>c. \<not> updates c)" "allows_reads (\<lambda>c. \<not> updates c)"
  by (simp_all add: allows_patch_def allows_reads_def)

lemma traces_snapshot_result:
  assumes "stable I k" "\<And>cs. list_all (\<lambda>c. \<not> updates c) cs \<Longrightarrow> R cs (Inr res)"
    "\<And>cs e. list_all (\<lambda>c. \<not> updates c) cs \<Longrightarrow> R cs (Inl e)"
  shows "traces I (snapshot_result k base st reason msg res) R"
  unfolding snapshot_result_def
  by (intro traces_get_object traces_thenE [OF emits_traces [OF emits_patchStatus [OF assms(1) quiet_updates(1)]]]
      traces_returnE) (use assms in auto)

lemma traces_existing_snapshot:
  assumes st: "stable I k"
  shows "traces I (existing_snapshot k base deadline sn)
     (\<lambda>cs r. list_all (\<lambda>c. \<not> updates c) cs \<and>
        (\<forall>d. r = Inr (d, True) \<longrightarrow> snCompletionTime (snStatus sn) \<noteq> None))"
  unfolding existing_snapshot_def
  by (intro traces_Let traces_if traces_get_object traces_bind_event traces_snapshot_result [OF st]
      traces_thenE [OF emits_traces [OF emits_patchStatus [OF st quiet_updates(1)]]]
      traces_bind_clock traces_returnE) auto

lemma traces_CheckRuntimeClassSupport:
  "traces I (CheckRuntimeClassSupport k name)
     (\<lambda>cs r. list_all (\<lambda>c. \<not> updates c) cs \<and> (r = Inr False \<longrightarrow> (\<exists>c \<in> set cs. settles i c)))"
  unfolding CheckRuntimeClassSupport_def
  by (intro traces_intros) (auto split: if_splits)

lemma traces_CheckRootfsSnapshotSupport:
  "traces I (CheckRootfsSnapshotSupport k p)
     (\<lambda>cs r. list_all (\<lambda>c. \<not> updates c) cs \<and> (r = Inr False \<longrightarrow> policy_done i p d cs))"
  unfolding CheckRootfsSnapshotSupport_def
  by (intro traces_case_option traces_returnE traces_if
      traces_weaken [OF traces_CheckRuntimeClassSupport [where i = i]])
     (auto simp: policy_done_def)

lemma traces_getTerminationRootfssnapshot:
  "traces (\<lambda>sb. identity sb = i) (getTerminationRootfssnapshot k)
     (\<lambda>cs r. list_all (\<lambda>c. \<not> updates c) cs \<and>
        (\<forall>sn. r = Inr (Some sn) \<longrightarrow> (case i of (name, ns, nw, tp) \<Rightarrow>
           GetSnapshot ns (GetTerminationSnapshotName name) (Inr sn) \<in> set cs)))"
  unfolding getTerminationRootfssnapshot_def
  by (intro traces_intros) (auto simp: identity_def)

lemma traces_createTerminationSnapshot:
  assumes st: "stable I k"
  shows "traces I (createTerminationSnapshot k base cfg)
     (\<lambda>cs r. list_all (\<lambda>c. \<not> updates c) cs \<and> (\<forall>d. r \<noteq> Inr (d, True)))"
  unfolding createTerminationSnapshot_def
  by (intro traces_get_object traces_Let traces_case_sum traces_throwE traces_bind_call traces_if
      traces_returnE traces_bind_event traces_snapshot_result [OF st]) auto

lemma policy_doneI:
  "time_after t d \<Longrightarrow> ReadClock t \<in> set cs \<Longrightarrow> policy_done i p d cs"
  "policy_done i None d cs" "\<not> IsPodReady p \<Longrightarrow> policy_done i p d cs"
  by (auto simp: policy_done_def)

lemma policy_done_snapshot:
  assumes "case i of (name, ns, nw, tp) \<Rightarrow>
      GetSnapshot ns (GetTerminationSnapshotName name) (Inr sn) \<in> set cs"
    "snCompletionTime (snStatus sn) \<noteq> None" "set cs \<subseteq> set ds"
  shows "policy_done i p d ds"
proof -
  obtain name ns nw tp where i: "i = (name, ns, nw, tp)" by (cases i)
  have "settles i (GetSnapshot ns (GetTerminationSnapshotName name) (Inr sn))" using assms i by simp
  then show ?thesis using assms(1,3) i unfolding policy_done_def by fastforce
qed

lemma traces_handleRootfsSnapshot:
  assumes st: "stable (\<lambda>sb. identity sb = i) k"
  shows "traces (\<lambda>sb. identity sb = i) (handleRootfsSnapshot k base p deadline cfg)
     (\<lambda>cs r. list_all (\<lambda>c. \<not> updates c) cs \<and> (\<forall>d. r = Inr (d, True) \<longrightarrow> policy_done i p deadline cs))"
  unfolding handleRootfsSnapshot_def
proof (intro traces_bind_clock traces_if traces_snapshot_result [OF st] traces_bind_event
      traces_bindE [OF traces_CheckRootfsSnapshotSupport [where i = i and d = deadline and p = p]]
      traces_bindE [OF traces_getTerminationRootfssnapshot [where i = i]] traces_case_option
      traces_weaken [OF traces_createTerminationSnapshot [OF st]]
      traces_weaken [OF traces_existing_snapshot [OF st]], simp_all, goal_cases)
  case (4 t a cs csa)
  from 4 have "policy_done i p deadline cs" by simp
  then show ?case by (rule policy_done_mono) auto
next
  case (5 t a cs aa csa ab csb ac)
  then show ?case by (intro impI policy_done_snapshot [where i = i and sn = ab and cs = csa]) auto
qed (auto intro: policy_doneI)

lemma wants_snapshot_policy:
  "wants_snapshot (identity sb) \<longleftrightarrow> (\<exists>tp. terminationPolicy (sbSpec sb) = Some tp \<and>
     tpType tp = TerminationSnapshotRootfs \<and> tpSnapshotRootfs tp \<noteq> None)"
  by (auto simp: wants_snapshot_def identity_def split: option.splits)

lemma traces_case_termination:
  "(t = TerminationDelete \<Longrightarrow> traces I a R) \<Longrightarrow> (t = TerminationSnapshotRootfs \<Longrightarrow> traces I b R) \<Longrightarrow>
     (\<And>x. t = TerminationOther x \<Longrightarrow> traces I (c x) R) \<Longrightarrow>
     traces I (case t of TerminationDelete \<Rightarrow> a | TerminationSnapshotRootfs \<Rightarrow> b | TerminationOther x \<Rightarrow> c x) R"
  by (cases t) simp_all

definition policy_run :: "identity \<Rightarrow> pod option \<Rightarrow> time \<Rightarrow> call list \<Rightarrow> (go_error + duration \<times> bool) \<Rightarrow> bool" where
  "policy_run i p d cs r \<longleftrightarrow> list_all (\<lambda>c. \<not> updates c) cs \<and>
     (\<forall>t. r = Inr (t, True) \<longrightarrow> wants_snapshot i \<longrightarrow> policy_done i p d cs)"

lemma traces_termination_switch:
  assumes st: "stable (\<lambda>sb. identity sb = i) k"
  shows "traces (\<lambda>sb. identity sb = i) (termination_switch k base p deadline) (policy_run i p deadline)"
  unfolding termination_switch_def
  by (intro traces_get_object traces_case_option traces_throwE traces_returnE traces_case_termination
      traces_weaken [OF traces_handleRootfsSnapshot [OF st]])
     (auto simp: policy_run_def wants_snapshot_policy)

lemma traces_executeTerminationPolicy:
  assumes st: "stable (\<lambda>sb. identity sb = i) k"
  shows "traces (\<lambda>sb. identity sb = i) (executeTerminationPolicy k base p deadline) (policy_run i p deadline)"
  unfolding executeTerminationPolicy_def Let_def
  by (intro traces_get_object traces_case_option traces_returnE traces_if
      traces_thenE [OF emits_traces [OF emits_patchStatus [OF st quiet_updates(1)]]]
      traces_weaken [OF traces_termination_switch [OF st]])
     (auto simp: policy_run_def wants_snapshot_policy intro: policy_done_mono)


text \<open>The deadline that \<open>ensureTerminationDeadline\<close> hands on is in a status patch that follows.\<close>

definition deadline_sent :: "time \<Rightarrow> call list \<Rightarrow> bool" where
  "deadline_sent d cs \<longleftrightarrow> (\<exists>base sb r. PatchSandboxStatus base sb r \<in> set cs \<and>
     terminationDeadlineAt (sbStatus sb) = Some d)"

lemma deadline_sentI:
  "PatchSandboxStatus base sb r \<in> set cs \<Longrightarrow> terminationDeadlineAt (sbStatus sb) = Some d \<Longrightarrow>
     deadline_sent d cs"
  unfolding deadline_sent_def by blast

lemma deadline_sent_mono: "deadline_sent d cs \<Longrightarrow> set cs \<subseteq> set ds \<Longrightarrow> deadline_sent d ds"
  unfolding deadline_sent_def by blast

lemma wp_patchStatus_deadline:
  assumes "terminationDeadlineAt (sbStatus (rObject s)) = Some d"
    and "\<And>t cs. rCalls t = rCalls s @ cs \<Longrightarrow> deadline_sent d cs \<Longrightarrow> Q (Inr ()) t"
    and "\<And>t cs e. rCalls t = rCalls s @ cs \<Longrightarrow> deadline_sent d cs \<Longrightarrow> Q (Inl e) t"
  shows "wp (patchStatus k base new) Q s"
proof -
  let ?sb = "rObject s \<lparr>sbStatus := sbStatus (rObject s)
      \<lparr>sbConditions := foldl (kSetCondition k (rWorld s)) (sbConditions (sbStatus (rObject s))) new\<rparr>\<rparr>"
  have "deadline_sent d [PatchSandboxStatus base ?sb r]" for r
    by (rule deadline_sentI [of base ?sb r]) (simp_all add: assms(1))
  then show ?thesis
    using assms(2,3)
    by (auto simp: patchStatus_def set_conditions_def Let_def wp_patch_sandbox_status
        split: prod.splits sum.splits)
qed

lemma wp_appends:
  assumes "emits (\<lambda>_. True) (\<lambda>_. True) m"
  shows "wp m (\<lambda>a t. \<exists>cs. rCalls t = rCalls s @ cs) s"
  using tracesD [OF emits_traces [OF assms], of s] by (auto elim: wp_mono)

lemma wp_executeTerminationPolicy_deadline:
  assumes "terminationDeadlineAt (sbStatus (rObject s)) = Some d"
  shows "wp (executeTerminationPolicy k base p d')
     (\<lambda>a t. \<exists>cs. rCalls t = rCalls s @ cs \<and> deadline_sent d cs) s"
proof -
  have ap: "allows_patch (\<lambda>_. True)" "allows_reads (\<lambda>_. True)"
    by (simp_all add: allows_patch_def allows_reads_def)
  have rest: "wp m (\<lambda>a t. \<exists>cs. rCalls t = rCalls s @ cs \<and> deadline_sent d cs) t"
    if "rCalls t = rCalls s @ cs" "deadline_sent d cs" "emits (\<lambda>_. True) (\<lambda>_. True) m"
    for m :: "('a, go_error + duration \<times> bool) prog" and t cs
    by (rule wp_mono [OF wp_appends [OF that(3)]])
       (use that(1,2) deadline_sent_mono [OF that(2)] in auto)
  have then_rest: "wp (thenE (patchStatus k base new) m)
      (\<lambda>a t. \<exists>cs. rCalls t = rCalls s @ cs \<and> deadline_sent d cs) s"
    if "emits (\<lambda>_. True) (\<lambda>_. True) m"
    for new and m :: "('a, go_error + duration \<times> bool) prog"
    unfolding thenE_def wp_bindE
    by (rule wp_patchStatus_deadline [OF assms]) (use rest that in auto)
  show ?thesis
    using ap by (auto simp: executeTerminationPolicy_def Let_def split: option.splits
        intro!: then_rest emits_returnE emits_termination_switch)
qed

definition settled_run :: "identity \<Rightarrow> pod option \<Rightarrow> call list \<Rightarrow> (go_error + duration \<times> bool) \<Rightarrow> bool" where
  "settled_run i p cs r \<longleftrightarrow> list_all (\<lambda>c. \<not> updates c) cs \<and>
     (\<forall>t. r = Inr (t, True) \<longrightarrow> wants_snapshot i \<longrightarrow> (\<exists>d. deadline_sent d cs \<and> policy_done i p d cs))"

lemma settled_run_after:
  assumes "policy_run i p d ds a" "deadline_sent d cs" "list_all (\<lambda>c. \<not> updates c) cs"
  shows "settled_run i p (cs @ ds) a"
  using assms(1,3) deadline_sent_mono [OF assms(2), of "cs @ ds"] policy_done_mono [of i p d ds "cs @ ds"]
  by (auto simp: policy_run_def settled_run_def)

lemma traces_termination:
  assumes st: "stable (\<lambda>sb. identity sb = i) k"
  shows "traces (\<lambda>sb. identity sb = i)
     (bindE (ensureTerminationDeadline k base) (\<lambda>d. executeTerminationPolicy k base p d)) (settled_run i p)"
    (is "traces ?I ?m _")
proof (rule tracesI)
  fix s :: "'a sandbox_run" assume I: "?I (rObject s)"
  have run: "wp (executeTerminationPolicy k base p d)
      (\<lambda>a t. ?I (rObject t) \<and> (\<exists>cs. rCalls t = rCalls u @ cs \<and> policy_run i p d cs a)) u"
    if "?I (rObject u)" for u d
    using tracesD [OF traces_executeTerminationPolicy [OF st] that] .
  show "wp ?m (\<lambda>a t. ?I (rObject t) \<and> (\<exists>cs. rCalls t = rCalls s @ cs \<and> settled_run i p cs a)) s"
  proof (cases "terminationDeadlineAt (sbStatus (rObject s))")
    case (Some d)
    have "wp (executeTerminationPolicy k base p d)
        (\<lambda>a t. ?I (rObject t) \<and> (\<exists>cs. rCalls t = rCalls s @ cs \<and> settled_run i p cs a)) s"
      by (rule wp_mono [OF wp_conj [OF run [OF I] wp_executeTerminationPolicy_deadline [OF Some]]])
         (auto simp: policy_run_def settled_run_def)
    with Some show ?thesis by (simp add: ensureTerminationDeadline_def)
  next
    case None
    obtain now w where now: "kNow k (rWorld s) = (now, w)" by (cases "kNow k (rWorld s)")
    let ?anchor = "case metaDeleted (sbMeta (rObject s)) of None \<Rightarrow> now | Some t \<Rightarrow> t"
    define d where "d = time_add ?anchor (duration_of_seconds (getTimeoutSeconds (rObject s)))"
    define u where "u = s \<lparr>rWorld := w, rCalls := rCalls s @ [ReadClock now], rObject := set_deadline d (rObject s)\<rparr>"
    have u: "?I (rObject u)" "rCalls u = rCalls s @ [ReadClock now]"
        "terminationDeadlineAt (sbStatus (rObject u)) = Some d"
      using stableD(7) [OF st I] by (simp_all add: u_def set_deadline_def)
    let ?Q = "\<lambda>a t. ?I (rObject t) \<and> (\<exists>cs. rCalls t = rCalls s @ cs \<and> settled_run i p cs a)"
    have "wp (patchStatus k base []) (\<lambda>r t. (case r of
        Inl e \<Rightarrow> ?Q (Inl (WrapError ''failed to persist termination deadline: '' e)) t
      | Inr _ \<Rightarrow> wp (executeTerminationPolicy k base p d) ?Q t)) u"
    proof (rule wp_mono [OF wp_conj [OF tracesD [OF traces_patchStatus [OF st], of "\<lambda>cs a. list_all (\<lambda>c. \<not> updates c) cs"]
            wp_patchStatus_deadline [of u d "\<lambda>a t. \<exists>cs. rCalls t = rCalls u @ cs \<and> deadline_sent d cs", OF u(3)]]])
      fix r and t :: "'a sandbox_run"
      assume "(?I (rObject t) \<and> (\<exists>cs. rCalls t = rCalls u @ cs \<and> list_all (\<lambda>c. \<not> updates c) cs)) \<and>
        (\<exists>cs. rCalls t = rCalls u @ cs \<and> deadline_sent d cs)"
      then obtain cs where cs: "?I (rObject t)" "rCalls t = rCalls u @ cs" "list_all (\<lambda>c. \<not> updates c) cs"
          "deadline_sent d cs"
        by auto
      show "case r of Inl e \<Rightarrow> ?Q (Inl (WrapError ''failed to persist termination deadline: '' e)) t
          | Inr _ \<Rightarrow> wp (executeTerminationPolicy k base p d) ?Q t"
      proof (cases r)
        case (Inl e)
        then show ?thesis using cs u by (auto simp: settled_run_def)
      next
        case (Inr x)
        have "wp (executeTerminationPolicy k base p d) ?Q t"
          by (rule wp_mono [OF run [OF cs(1)]])
             (use cs u settled_run_after [of i p d _ _ "ReadClock now # cs"]
                deadline_sent_mono [OF cs(4), of "ReadClock now # cs"] in auto)
        with Inr show ?thesis by simp
      qed
    qed (use u in \<open>auto\<close>)
    then show ?thesis
      using None now
      by (simp add: ensureTerminationDeadline_def read_clock_def d_def u_def Let_def)
         (erule wp_mono, simp add: d_def split: sum.splits)
  qed
qed


text \<open>The pod that the policy judges is the one the lookup has answered.\<close>

definition pod_seen :: "identity \<Rightarrow> pod option \<Rightarrow> call list \<Rightarrow> bool" where
  "pod_seen i p cs \<longleftrightarrow> (case i of (name, ns, nw, tp) \<Rightarrow>
     (case p of
        None \<Rightarrow> \<exists>e. IsNotFound e \<and> GetPod ns (GetSandboxPodName name) (Inl e) \<in> set cs
      | Some q \<Rightarrow> GetPod ns (GetSandboxPodName name) (Inr q) \<in> set cs))"

lemma traces_getSandboxPod_seen:
  "traces (\<lambda>sb. identity sb = i) (getSandboxPod k)
     (\<lambda>cs r. list_all (\<lambda>c. \<not> updates c) cs \<and> (\<forall>p. r = Inr p \<longrightarrow> pod_seen i p cs))"
  unfolding getSandboxPod_def
  by (intro traces_intros) (auto simp: identity_def pod_seen_def)

lemma pod_seen_settles:
  assumes "pod_seen i p cs"
    "p = None \<or> \<not> IsPodReady p \<or> (\<exists>q. p = Some q \<and> podRuntimeClass (podSpec q) \<in> {None, Some []})"
  shows "\<exists>c \<in> set cs. settles i c"
proof -
  obtain name ns nw tp where i: "i = (name, ns, nw, tp)" by (cases i)
  show ?thesis
  proof (cases p)
    case None
    then obtain e where "IsNotFound e" "GetPod ns (GetSandboxPodName name) (Inl e) \<in> set cs"
      using assms(1) i by (auto simp: pod_seen_def)
    then show ?thesis using i by (intro bexI [of _ "GetPod ns (GetSandboxPodName name) (Inl e)"]) auto
  next
    case (Some q)
    then show ?thesis using assms i
      by (intro bexI [of _ "GetPod ns (GetSandboxPodName name) (Inr q)"]) (auto simp: pod_seen_def)
  qed
qed

lemma settledI:
  assumes seen: "pod_seen i p cs" and run: "settled_run i p ds (Inr (t, True))" and w: "wants_snapshot i"
  shows "snapshot_settled i (cs @ ds)"
proof -
  obtain d where d: "deadline_sent d ds" "policy_done i p d ds"
    using run w by (auto simp: settled_run_def)
  then consider "deadline_passed ds" | "\<exists>c \<in> set ds. settles i c" | "\<exists>c \<in> set cs. settles i c"
    using pod_seen_settles [OF seen]
    unfolding policy_done_def deadline_passed_def deadline_sent_def by blast
  then show ?thesis
  proof cases
    case 1
    then have "snapshot_settled i ds" by (simp add: snapshot_settled_def)
    then show ?thesis by (rule snapshot_settled_mono) simp
  qed (auto simp: snapshot_settled_def)
qed

text \<open>The calls of a run in which the finalizer goes only when the snapshot is settled.\<close>

definition releases_ok :: "'w kube \<Rightarrow> identity \<Rightarrow> call list \<Rightarrow> bool" where
  "releases_ok k i = before (releases k) (\<lambda>pre. wants_snapshot i \<longrightarrow> snapshot_settled i pre)"

lemma not_updates_releases: "\<not> updates c \<Longrightarrow> \<not> releases k c"
  by (cases c) auto

lemma releases_ok_quiet: "list_all (\<lambda>c. \<not> updates c) cs \<Longrightarrow> releases_ok k i cs"
  unfolding releases_ok_def by (rule before_none) (auto simp: list_all_iff not_updates_releases)

lemma releases_ok_append:
  assumes "releases_ok k i cs" "releases_ok k i ds"
  shows "releases_ok k i (cs @ ds)"
proof -
  have "snapshot_settled i pre \<Longrightarrow> snapshot_settled i (cs @ pre)" for pre
    by (erule snapshot_settled_mono) simp
  then show ?thesis
    using assms unfolding releases_ok_def by (auto intro!: before_append elim!: before_mono)
qed

lemma releases_ok_last:
  "(wants_snapshot i \<Longrightarrow> snapshot_settled i cs) \<Longrightarrow> releases_ok k i cs \<Longrightarrow> releases_ok k i (cs @ [c])"
  unfolding releases_ok_def by (rule before_append) (auto simp: before_def Cons_eq_append_conv)

lemma traces_bind_remove_finalizer:
  assumes "stable I k" and m: "traces I (f ()) R"
  shows "traces I (State_Monad.bind (remove_finalizer k) f) R"
proof (rule tracesI)
  fix s :: "'a sandbox_run" assume I: "I (rObject s)"
  have "I (rObject (s \<lparr>rObject := rObject s
      \<lparr>sbMeta := kRemoveFinalizer k (sbMeta (rObject s)) SandboxFinalizer\<rparr>\<rparr>))"
    using stableD(5) [OF assms(1) I] by simp
  from tracesD [OF m this]
  show "wp (State_Monad.bind (remove_finalizer k) f)
      (\<lambda>a t. I (rObject t) \<and> (\<exists>cs. rCalls t = rCalls s @ cs \<and> R cs a)) s"
    by (simp add: remove_finalizer_def)
qed

lemma bindE_assoc: "bindE (bindE m f) g = bindE m (\<lambda>a. bindE (f a) g)"
proof (rule state.expand)
  show "run_state (bindE (bindE m f) g) = run_state (bindE m (\<lambda>a. bindE (f a) g))"
    by (rule ext) (simp add: bindE_def throwE_def split: sum.splits prod.splits)
qed

lemma finalizeSandbox_eq:
  "finalizeSandbox k base =
     bindE (getSandboxPod k) (\<lambda>p.
     bindE (bindE (ensureTerminationDeadline k base) (\<lambda>d. executeTerminationPolicy k base p d))
       (\<lambda>(res, cleanup).
       if \<not> cleanup then returnE (res, False)
       else
         State_Monad.bind (remove_finalizer k) (\<lambda>_.
         thenE (update_sandbox k) (returnE (0, True)))))"
  by (simp add: finalizeSandbox_def bindE_assoc)

lemma traces_finalizeSandbox:
  assumes st: "stable (\<lambda>sb. identity sb = i) k"
  shows "traces (\<lambda>sb. identity sb = i) (finalizeSandbox k base) (\<lambda>cs _. releases_ok k i cs)"
proof -
  have upd: "traces (\<lambda>sb. identity sb = i) (thenE (update_sandbox k) (returnE (0, True)))
      (\<lambda>cs a. \<exists>c. cs = [c])" for a :: bool
    by (intro traces_thenE [OF traces_update_sandbox [where R = "\<lambda>cs a. \<exists>c. cs = [c]"]]
        traces_returnE) (use stableD(1) [OF st] in auto)
  show ?thesis
    unfolding finalizeSandbox_eq
  proof (intro traces_bindE [OF traces_getSandboxPod_seen] traces_bindE [OF traces_termination [OF st]]
      traces_case_prod traces_if traces_returnE traces_bind_remove_finalizer [OF st]
      traces_weaken [OF upd], goal_cases)
    case (4 p cs a ds res cleanup es r)
    then have "settled_run i p ds (Inr (res, True))" by simp
    then show ?case
      using 4 settledI [of i p cs ds] releases_ok_last [of i "cs @ ds" k] releases_ok_quiet [of "cs @ ds" k i]
      by (auto simp: settled_run_def)
  qed (auto intro!: releases_ok_quiet simp: settled_run_def)
qed


lemma traces_quiet: "emits I (\<lambda>c. \<not> updates c) m \<Longrightarrow> traces I m (\<lambda>cs _. releases_ok k i cs)"
  by (rule traces_weaken [OF emits_traces]) (assumption, erule releases_ok_quiet)

lemma traces_bind_ok:
  "traces I m (\<lambda>cs _. releases_ok k i cs) \<Longrightarrow> (\<And>a. traces I (f a) (\<lambda>cs _. releases_ok k i cs)) \<Longrightarrow>
     traces I (State_Monad.bind m f) (\<lambda>cs _. releases_ok k i cs)"
  by (rule traces_bind, assumption, rule traces_weaken, assumption, rule releases_ok_append)

lemma traces_bindE_ok:
  "traces I m (\<lambda>cs _. releases_ok k i cs) \<Longrightarrow> (\<And>a. traces I (f a) (\<lambda>cs _. releases_ok k i cs)) \<Longrightarrow>
     traces I (bindE m f) (\<lambda>cs _. releases_ok k i cs)"
  unfolding bindE_def
  by (rule traces_bind_ok, assumption)
     (auto intro: traces_quiet emits_throwE split: sum.splits)

lemma traces_thenE_ok:
  "traces I m (\<lambda>cs _. releases_ok k i cs) \<Longrightarrow> traces I n (\<lambda>cs _. releases_ok k i cs) \<Longrightarrow>
     traces I (thenE m n) (\<lambda>cs _. releases_ok k i cs)"
  unfolding thenE_def by (rule traces_bindE_ok)

lemma releases_reconcile_deadlines:
  assumes st: "stable (\<lambda>sb. identity sb = i) k"
  shows "traces (\<lambda>sb. identity sb = i) (reconcile_deadlines r k base p timeout) (\<lambda>cs _. releases_ok k i cs)"
proof -
  have timed: "traces (\<lambda>sb. identity sb = i) (handle_timed_out k base) (\<lambda>cs _. releases_ok k i cs)"
    unfolding handle_timed_out_def
    by (intro traces_thenE_ok traces_bindE_ok traces_finalizeSandbox [OF st] traces_case_prod traces_if
        traces_quiet [OF emits_delete_sandbox] traces_quiet [OF emits_returnE]
        traces_quiet [OF emits_markSandboxSucceeded [OF st quiet_updates(1)]]) simp
  show ?thesis
    unfolding reconcile_deadlines_def
    by (intro traces_bind_ok traces_if timed traces_get_object traces_quiet emits_intros st
        emits_case_option) (use quiet_updates in \<open>auto\<close>)
qed

lemma releases_reconcile_live:
  assumes st: "stable (\<lambda>sb. identity sb = i) k"
  shows "traces (\<lambda>sb. identity sb = i) (reconcile_live r k base) (\<lambda>cs _. releases_ok k i cs)"
  unfolding reconcile_live_def
  by (intro traces_thenE_ok traces_bindE_ok releases_reconcile_deadlines [OF st] traces_quiet
      emits_ensureCustomNetworkPolicy emits_getSandboxPod emits_ensureTimeout st quiet_updates) simp_all

lemma releases_add_finalizer:
  assumes k: "orderly k"
  shows "traces (\<lambda>sb. identity sb = i) (add_finalizer k) (\<lambda>cs _. releases_ok k i cs)"
proof (rule tracesI)
  fix s :: "'a sandbox_run" assume i: "identity (rObject s) = i"
  let ?sb = "rObject s \<lparr>sbMeta := kAddFinalizer k (sbMeta (rObject s)) SandboxFinalizer\<rparr>"
  have i': "identity ?sb = i" using stableD(4) [OF orderly_stable [OF k] i] .
  have held: "kContainsFinalizer k (sbMeta ?sb) SandboxFinalizer" using k by (simp add: orderly_def)
  then have ok: "releases_ok k i [UpdateSandbox ?sb res]" for res
    unfolding releases_ok_def by (intro before_none) simp
  obtain res w where res: "kUpdateSandbox k ?sb (rWorld s) = (res, w)" by (cases "kUpdateSandbox k ?sb (rWorld s)")
  have "res = Inr sb' \<Longrightarrow> identity sb' = i" for sb'
    using k i' res unfolding orderly_def server_keeps_def by blast
  then show "wp (add_finalizer k) (\<lambda>a t. identity (rObject t) = i \<and>
      (\<exists>cs. rCalls t = rCalls s @ cs \<and> releases_ok k i cs)) s"
    using res i' ok by (cases res) (auto simp: add_finalizer_def update_sandbox_def)
qed

lemma releases_reconcile_found:
  assumes k: "orderly k"
  shows "traces (\<lambda>sb. identity sb = i) (reconcile_found r k sb) (\<lambda>cs _. releases_ok k i cs)"
proof -
  note st = orderly_stable [OF k]
  show ?thesis
    unfolding reconcile_found_def Let_def
    by (intro traces_if traces_bindE_ok traces_thenE_ok traces_get_object traces_case_prod
        traces_finalizeSandbox [OF st] releases_reconcile_live [OF st] releases_add_finalizer [OF k]
        traces_quiet [OF emits_returnE])
qed

section \<open>Properties\<close>

text \<open>
  C4. A sandbox whose policy asks for a rootfs snapshot is not let go before that snapshot is
  settled, whatever the API server answers. When a reconcile writes the sandbox back without
  its cleanup finalizer, then earlier in that reconcile the termination deadline, which a status
  patch has made known to the server, had passed; or the termination snapshot was found
  complete; or the pod was found to be missing, not ready, or on a runtime class that is not gVisor.
\<close>

theorem snapshot_before_release:
  assumes k: "orderly k" and run: "run_state (Reconcile r k ns name) s = (res, t)"
    and start: "rCalls s = []" and upd: "rCalls t = pre @ UpdateSandbox sb o1 # post"
    and gone: "\<not> kContainsFinalizer k (sbMeta sb) SandboxFinalizer"
  shows "\<exists>sb0. GetSandbox ns name (Inr sb0) \<in> set pre \<and>
     (wants_snapshot (identity sb0) \<longrightarrow> snapshot_settled (identity sb0) pre)"
  using run
proof (cases rule: Reconcile_run)
  case (failed e)
  then show ?thesis using upd start by (cases pre) auto
next
  case (found sb0 w)
  obtain cs where cs: "rCalls t = GetSandbox ns name (Inr sb0) # cs" "releases_ok k (identity sb0) cs"
    using traces_run [OF releases_reconcile_found [OF k] _ found(2), of "identity sb0"] start by auto
  then obtain pre' where pre: "pre = GetSandbox ns name (Inr sb0) # pre'" "cs = pre' @ UpdateSandbox sb o1 # post"
    using upd by (cases pre) auto
  have "wants_snapshot (identity sb0) \<longrightarrow> snapshot_settled (identity sb0) pre'"
    using cs(2) pre(2) gone unfolding releases_ok_def before_def by fastforce
  then show ?thesis using pre(1) snapshot_settled_mono [of "identity sb0" pre' pre] by auto
qed

definition example_leaving :: sandbox where
  "example_leaving =
     \<lparr>sbMeta = empty_meta \<lparr>metaName := ''sb'', metaNamespace := ''ns'', metaDeleted := Some 500,
        metaFinalizers := [SandboxFinalizer]\<rparr>,
      sbSpec = \<lparr>podTemplate = \<lparr>tplLabels = Map.empty, tplAnnotations = Map.empty, tplSpec = example_spec\<rparr>,
        timeoutSeconds = None, startupTimeoutSeconds = None,
        terminationPolicy = Some \<lparr>tpType = TerminationSnapshotRootfs,
          tpSnapshotRootfs = Some \<lparr>trSnapshotName = [], trTimeoutSeconds = None\<rparr>\<rparr>,
        sbNetwork = None, snapshotSources = []\<rparr>,
      sbStatus = \<lparr>sbConditions = [], timeoutAt = None, terminationDeadlineAt = None, sbPodIP = [],
        sidecarVersion = []\<rparr>\<rparr>"

lemma example_leaving_simps [simp]:
  "metaName (sbMeta example_leaving) = ''sb''" "metaNamespace (sbMeta example_leaving) = ''ns''"
  "metaDeleted (sbMeta example_leaving) = Some 500"
  "metaFinalizers (sbMeta example_leaving) = [SandboxFinalizer]"
  "terminationDeadlineAt (sbStatus example_leaving) = None"
  "terminationPolicy (sbSpec example_leaving) = Some \<lparr>tpType = TerminationSnapshotRootfs,
     tpSnapshotRootfs = Some \<lparr>trSnapshotName = [], trTimeoutSeconds = None\<rparr>\<rparr>"
  by (simp_all add: example_leaving_def empty_meta_def)

lemma example_run_releases:
  "wp (Reconcile example_reconciler sim_kube ''ns'' ''sb'')
     (\<lambda>_ t. list_ex (releases sim_kube) (rCalls t) \<and>
        (\<forall>sb. GetSandbox ''ns'' ''sb'' (Inr sb) \<in> set (rCalls t) \<longrightarrow> sb = example_leaving))
     (start_run (example_world \<lparr>simSandbox := Some example_leaving\<rparr>))"
  by (simp add: sandbox_steps sim_steps start_run_def example_world_def
      time_is_zero_def Let_def set_deadline_def termination_switch_def handleRootfsSnapshot_def
      getTimeoutSeconds_def remove_finalizer_meta_def zero_time_def)

theorem snapshot_before_release_witness:
  "\<exists>pre sb o1 post. rCalls (snd (run_state (Reconcile example_reconciler sim_kube ''ns'' ''sb'')
       (start_run (example_world \<lparr>simSandbox := Some example_leaving\<rparr>)))) = pre @ UpdateSandbox sb o1 # post \<and>
     SandboxFinalizer \<notin> set (metaFinalizers (sbMeta sb)) \<and>
     wants_snapshot (identity example_leaving) \<and> snapshot_settled (identity example_leaving) pre"
proof -
  let ?s = "start_run (example_world \<lparr>simSandbox := Some example_leaving\<rparr>)"
  let ?run = "run_state (Reconcile example_reconciler sim_kube ''ns'' ''sb'') ?s"
  have ex: "list_ex (releases sim_kube) (rCalls (snd ?run))"
      "\<And>sb. GetSandbox ''ns'' ''sb'' (Inr sb) \<in> set (rCalls (snd ?run)) \<Longrightarrow> sb = example_leaving"
    using example_run_releases by (auto simp: wp_def split: prod.splits)
  then obtain c where c: "c \<in> set (rCalls (snd ?run))" "releases sim_kube c"
    by (auto simp: list_ex_iff)
  then obtain pre sb o1 post where eq: "rCalls (snd ?run) = pre @ UpdateSandbox sb o1 # post"
      and gone: "\<not> kContainsFinalizer sim_kube (sbMeta sb) SandboxFinalizer"
    by (metis releases.elims(2) split_list)
  have w: "wants_snapshot (identity example_leaving)" by (simp add: wants_snapshot_policy)
  obtain sb0 where "GetSandbox ''ns'' ''sb'' (Inr sb0) \<in> set pre"
      "wants_snapshot (identity sb0) \<longrightarrow> snapshot_settled (identity sb0) pre"
    using snapshot_before_release [OF sim_orderly surjective_pairing [of ?run] _ eq gone]
    by (auto simp: start_run_def)
  moreover from this have "sb0 = example_leaving" using ex(2) eq by simp
  ultimately show ?thesis using eq gone w by (auto simp: sim_kube_def)
qed

end
