(* ===== verification/SandboxStatus.thy ===== *)
theory SandboxStatus
  imports SandboxSafety
begin

text \<open>
  The status of a sandbox: which conditions a reconcile writes, and what stays; the timeout and the
  requeue delay; and the resolvers of the pod against the network policy. The lemmas on the
  conditions are proved in the locale \<open>kube_laws\<close>.
\<close>


text \<open>The locale's view of the helpers, on the steps that write the status.\<close>

lemma find_sets_Cons:
  "foldl (kSetCondition k w) cs (new @ [c]) = kSetCondition k w (foldl (kSetCondition k w) cs new) c"
  by simp

lemma run_patchStatus:
  assumes "run_state (patchStatus k base new) s = (r, t)"
  obtains res where "rCalls t = rCalls s @ [PatchSandboxStatus base
      (rObject s \<lparr>sbStatus := sbStatus (rObject s)
         \<lparr>sbConditions := foldl (kSetCondition k (rWorld s)) (sbConditions (sbStatus (rObject s))) new\<rparr>\<rparr>) res]"
proof -
  let ?sb = "rObject s \<lparr>sbStatus := sbStatus (rObject s)
         \<lparr>sbConditions := foldl (kSetCondition k (rWorld s)) (sbConditions (sbStatus (rObject s))) new\<rparr>\<rparr>"
  have "wp (patchStatus k base new) (\<lambda>r t. \<exists>res. rCalls t = rCalls s @ [PatchSandboxStatus base ?sb res]) s"
    by (simp add: patchStatus_def set_conditions_def Let_def wp_patch_sandbox_status
        split: prod.splits sum.splits)
  with assms that show thesis by (auto simp: wp_def)
qed

text \<open>What \<open>reconcileSandboxStatus\<close> writes, when the snapshot lookup answers.\<close>

definition status_conditions :: "'w kube \<Rightarrow> sandbox \<Rightarrow> pod option \<Rightarrow> rootfs_snapshot option \<Rightarrow> condition list" where
  "status_conditions k sb p snap =
     [determinePodCondition sb p, determineNetworkCondition sb, determineRootfssnapshotCondition k sb snap,
      determineReadyCondition sb p]
     @ (case determineSucceededCondition k sb p of None \<Rightarrow> [] | Some c \<Rightarrow> [c])"

lemma run_reconcileSandboxStatus:
  assumes "run_state (reconcileSandboxStatus k base p) s = (r, t)"
    and "PatchSandboxStatus b sb res \<in> set (rCalls t)" "PatchSandboxStatus b sb res \<notin> set (rCalls s)"
  obtains snap w where "sb = (let m = mirror_pod p (rObject s) in m \<lparr>sbStatus := sbStatus m
      \<lparr>sbConditions := foldl (kSetCondition k w) (sbConditions (sbStatus m)) (status_conditions k m p snap)\<rparr>\<rparr>)"
proof -
  let ?m = "mirror_pod p (rObject s)"
  let ?Q = "\<lambda>r t. \<forall>b sb res. PatchSandboxStatus b sb res \<in> set (rCalls t) - set (rCalls s) \<longrightarrow>
      (\<exists>snap w. sb = ?m \<lparr>sbStatus := sbStatus ?m
         \<lparr>sbConditions := foldl (kSetCondition k w) (sbConditions (sbStatus ?m)) (status_conditions k ?m p snap)\<rparr>\<rparr>)"
  have "wp (reconcileSandboxStatus k base p) ?Q s"
    by (auto simp: reconcileSandboxStatus_def getTerminationRootfssnapshot_def patchStatus_def
        set_conditions_def Let_def wp_patch_sandbox_status status_conditions_def
        split: prod.splits sum.splits)
  then have "?Q r t" using assms(1) by (simp add: wp_def)
  then show thesis using assms(2,3) that by (auto simp: Let_def)
qed

lemma cond_types:
  "condType (determinePodCondition sb p) = SandboxPodReadyCondition"
  "condType (determineNetworkCondition sb) = SandboxNetworkReadyCondition"
  "condType (determineRootfssnapshotCondition k sb snap) = SandboxRootfsSnapshotCondition"
  "condType (determineReadyCondition sb p) = SandboxReadyCondition"
  by (auto simp: determinePodCondition_def determineNetworkCondition_def mk_cond_def
      determineRootfssnapshotCondition_def determineReadyCondition_def Let_def split: option.splits)

lemma type_names:
  "SandboxPodReadyCondition \<noteq> SandboxReadyCondition" "SandboxPodReadyCondition \<noteq> SandboxSucceededCondition"
  "SandboxPodReadyCondition \<noteq> SandboxNetworkReadyCondition"
  "SandboxPodReadyCondition \<noteq> SandboxRootfsSnapshotCondition"
  "SandboxReadyCondition \<noteq> SandboxSucceededCondition"
  "SandboxNetworkReadyCondition \<noteq> SandboxSucceededCondition"
  "SandboxRootfsSnapshotCondition \<noteq> SandboxSucceededCondition"
  by (simp_all add: SandboxPodReadyCondition_def SandboxReadyCondition_def SandboxSucceededCondition_def
      SandboxNetworkReadyCondition_def SandboxRootfsSnapshotCondition_def)

lemmas distinct_types = type_names type_names [symmetric]

context kube_laws
begin

lemma succeeded_type: "determineSucceededCondition k sb p = Some c \<Longrightarrow> condType c = SandboxSucceededCondition"
  by (auto simp: determineSucceededCondition_def mk_cond_def dest: find_type split: option.splits if_splits)

lemma find_succeeded_kept:
  assumes "kFindCondition k cs SandboxSucceededCondition = Some c" "cs = sbConditions (sbStatus sb)"
  shows "\<exists>d. kFindCondition k (foldl (kSetCondition k w) cs (status_conditions k sb p snap))
      SandboxSucceededCondition = Some d \<and> same_condition c d"
proof -
  have "determineSucceededCondition k sb p = Some c"
    using assms by (simp add: determineSucceededCondition_def)
  moreover have "condType c = SandboxSucceededCondition" using assms(1) by (rule find_type)
  ultimately show ?thesis
    using find_after_sets_last [of "[]" c w cs
        "[determinePodCondition sb p, determineNetworkCondition sb,
          determineRootfssnapshotCondition k sb snap, determineReadyCondition sb p]"]
    by (simp add: status_conditions_def)
qed

lemma find_ready_mirrors:
  "\<exists>d. kFindCondition k (foldl (kSetCondition k w) cs (status_conditions k sb p snap))
      SandboxReadyCondition = Some d \<and> same_condition (determineReadyCondition sb p) d"
  using find_after_sets_last [of "case determineSucceededCondition k sb p of None \<Rightarrow> [] | Some c \<Rightarrow> [c]"
      "determineReadyCondition sb p" w cs
      "[determinePodCondition sb p, determineNetworkCondition sb, determineRootfssnapshotCondition k sb snap]"]
  by (cases "determineSucceededCondition k sb p")
     (auto simp: status_conditions_def cond_types distinct_types dest: succeeded_type)

lemma find_pod_mirrors:
  "\<exists>d. kFindCondition k (foldl (kSetCondition k w) cs (status_conditions k sb p snap))
      SandboxPodReadyCondition = Some d \<and> same_condition (determinePodCondition sb p) d"
  using find_after_sets_last [of "[determineNetworkCondition sb, determineRootfssnapshotCondition k sb snap,
        determineReadyCondition sb p]
        @ (case determineSucceededCondition k sb p of None \<Rightarrow> [] | Some c \<Rightarrow> [c])"
      "determinePodCondition sb p" w cs "[]"]
  by (cases "determineSucceededCondition k sb p")
     (auto simp: status_conditions_def cond_types distinct_types dest: succeeded_type)

end

lemma mirror_pod_conditions [simp]:
  "sbConditions (sbStatus (mirror_pod p sb)) = sbConditions (sbStatus sb)"
  "sbMeta (mirror_pod p sb) = sbMeta sb"
  by (simp_all add: mirror_pod_def split: option.splits)

lemma ready_condition_status:
  "condStatus (determineReadyCondition sb p) = StatusTrue \<longleftrightarrow> IsPodReady p"
  "condStatus (determinePodCondition sb p) = StatusTrue \<longleftrightarrow> IsPodReady p"
  using pod_ready_not_terminated [of p]
  by (auto simp: determineReadyCondition_def determinePodCondition_def mk_cond_def)

section \<open>Properties\<close>


definition example_done :: "sim sandbox_run" where
  "example_done = (start_run example_world) \<lparr>rObject := example_sandbox \<lparr>sbStatus := (sbStatus example_sandbox)
     \<lparr>sbConditions := [mk_cond example_sandbox SandboxSucceededCondition StatusTrue ''Timeout'' ''timed out'']\<rparr>\<rparr>\<rparr>"


text \<open>
  The status a reconcile writes mirrors the pod: the Ready condition and the PodReady condition are
  those the pod determines, both true exactly when the pod is running with a true Ready
  condition; the pod's address and sidecar version are copied, and the deadlines are untouched.
\<close>

theorem status_mirrors_pod:
  assumes laws: "kube_laws k" and run: "run_state (reconcileSandboxStatus k base p) s = (r, t)"
    and new: "PatchSandboxStatus b sb o1 \<in> set (rCalls t) - set (rCalls s)"
  shows "\<exists>c d. kFindCondition k (sbConditions (sbStatus sb)) SandboxReadyCondition = Some c \<and>
     kFindCondition k (sbConditions (sbStatus sb)) SandboxPodReadyCondition = Some d \<and>
     same_condition (determineReadyCondition (mirror_pod p (rObject s)) p) c \<and>
     same_condition (determinePodCondition (mirror_pod p (rObject s)) p) d \<and>
     (condStatus c = StatusTrue \<longleftrightarrow> IsPodReady p) \<and> (condStatus d = StatusTrue \<longleftrightarrow> IsPodReady p) \<and>
     sb \<lparr>sbStatus := sbStatus (rObject s)\<rparr> = rObject s \<and>
     timeoutAt (sbStatus sb) = timeoutAt (sbStatus (rObject s)) \<and>
     terminationDeadlineAt (sbStatus sb) = terminationDeadlineAt (sbStatus (rObject s)) \<and>
     (\<forall>q. p = Some q \<longrightarrow> sbPodIP (sbStatus sb) = podIP (podStatus q))"
proof -
  let ?m = "mirror_pod p (rObject s)"
  obtain snap w where sb: "sb = ?m \<lparr>sbStatus := sbStatus ?m
      \<lparr>sbConditions := foldl (kSetCondition k w) (sbConditions (sbStatus ?m)) (status_conditions k ?m p snap)\<rparr>\<rparr>"
    by (rule run_reconcileSandboxStatus [OF run, of b sb o1]) (use new in \<open>auto simp: Let_def\<close>)
  obtain c d where cd: "kFindCondition k (sbConditions (sbStatus sb)) SandboxReadyCondition = Some c"
      "same_condition (determineReadyCondition ?m p) c"
      "kFindCondition k (sbConditions (sbStatus sb)) SandboxPodReadyCondition = Some d"
      "same_condition (determinePodCondition ?m p) d"
    using kube_laws.find_ready_mirrors [OF laws, of w "sbConditions (sbStatus ?m)" ?m p snap]
      kube_laws.find_pod_mirrors [OF laws, of w "sbConditions (sbStatus ?m)" ?m p snap] sb by auto
  then have "condStatus c = StatusTrue \<longleftrightarrow> IsPodReady p" "condStatus d = StatusTrue \<longleftrightarrow> IsPodReady p"
    using ready_condition_status [of ?m p] by (simp_all add: same_condition_def)
  moreover have "sb \<lparr>sbStatus := sbStatus (rObject s)\<rparr> = rObject s"
      "timeoutAt (sbStatus sb) = timeoutAt (sbStatus (rObject s))"
      "terminationDeadlineAt (sbStatus sb) = terminationDeadlineAt (sbStatus (rObject s))"
      "\<forall>q. p = Some q \<longrightarrow> sbPodIP (sbStatus sb) = podIP (podStatus q)"
    by (simp_all add: sb mirror_pod_def split: option.splits)
  ultimately show ?thesis using cd by blast
qed


definition example_ready_pod :: pod where
  "example_ready_pod = example_pod \<lparr>podStatus := empty_pod_status \<lparr>podPhase := PodRunning,
     podConditions := [\<lparr>pcType = ''Ready'', pcStatus = StatusTrue\<rparr>]\<rparr>\<rparr>"

theorem status_mirrors_pod_witness:
  "\<exists>b sb o1. PatchSandboxStatus b sb o1 \<in> set (rCalls (snd (run_state
       (reconcileSandboxStatus sim_kube example_sandbox (Some example_ready_pod)) (start_run example_world)))) \<and>
     (\<exists>c. find_condition (sbConditions (sbStatus sb)) SandboxReadyCondition = Some c \<and> condStatus c = StatusTrue)"
proof -
  let ?run = "run_state (reconcileSandboxStatus sim_kube example_sandbox (Some example_ready_pod)) (start_run example_world)"
  have "wp (reconcileSandboxStatus sim_kube example_sandbox (Some example_ready_pod))
      (\<lambda>_ t. \<exists>b sb o1. PatchSandboxStatus b sb o1 \<in> set (rCalls t)) (start_run example_world)"
    by (auto simp: sandbox_steps sim_steps start_run_def example_world_def Let_def mirror_pod_def
        split: option.splits)
  then obtain b sb o1 where p: "PatchSandboxStatus b sb o1 \<in> set (rCalls (snd ?run))"
    by (auto simp: wp_def split: prod.splits)
  have "IsPodReady (Some example_ready_pod)" by code_simp
  moreover have "PatchSandboxStatus b sb o1 \<in> set (rCalls (snd ?run)) - set (rCalls (start_run example_world))"
    using p by (simp add: start_run_def)
  ultimately show ?thesis
    using status_mirrors_pod [OF sim.kube_laws_axioms surjective_pairing [of ?run], of b sb o1] p
    by (auto simp: sim_kube_def)
qed



lemma requeue_within_bounds: "0 < requeue_within d" "requeue_within d \<le> max d milli_second"
  by (auto simp: requeue_within_def milli_second_def)

text \<open>
  C10. A sandbox is looked at again in time. The delay that \<open>Reconcile\<close> asks for is none exactly when there is no
  deadline; otherwise it is positive, and at most the time left to each deadline, counted
  from a reading of the clock in this reconcile, or a millisecond when that deadline has gone by.
\<close>

theorem requeue_in_time:
  "traces I (requeue_after k timeout startup) (\<lambda>cs d.
     (d = 0 \<longleftrightarrow> timeout = None \<and> startup = None) \<and> 0 \<le> d \<and>
     (\<forall>t. timeout = Some t \<or> startup = Some t \<longrightarrow>
        (\<exists>now. ReadClock now \<in> set cs \<and> d \<le> max (time_sub t now) milli_second)))"
proof -
  have first: "traces I (case timeout of None \<Rightarrow> State_Monad.return 0
        | Some t \<Rightarrow> State_Monad.bind (read_clock k) (\<lambda>now. State_Monad.return (requeue_within (time_sub t now))))
      (\<lambda>cs d. case timeout of None \<Rightarrow> cs = [] \<and> d = 0
         | Some t \<Rightarrow> \<exists>now. cs = [ReadClock now] \<and> d = requeue_within (time_sub t now))"
    by (cases timeout) (auto intro!: traces_return traces_bind_clock)
  note pos = requeue_within_bounds(1) and le = requeue_within_bounds(2)
  show ?thesis
    unfolding requeue_after_def
  proof (intro traces_bind [OF first] traces_case_option traces_return traces_bind_clock traces_Let, goal_cases)
    case (1 d cs)
    then show ?case using pos le by (cases timeout) (auto simp: less_imp_le dest: less_imp_neq [symmetric])
  next
    case (2 d cs at now)
    let ?u = "requeue_within (time_sub at now)"
    have u: "0 < ?u" "?u \<le> max (time_sub at now) milli_second" by (rule pos, rule le)
    show ?case
    proof (cases timeout)
      case None
      with 2 u show ?thesis by auto
    next
      case (Some t)
      then obtain n where n: "cs = [ReadClock n]" "d = requeue_within (time_sub t n)" using 2 by auto
      have d: "0 < d" "d \<le> max (time_sub t n) milli_second" unfolding n(2) by (rule pos, rule le)
      show ?thesis
      proof (cases "?u < d")
        case True
        then have "?u \<le> max (time_sub t n) milli_second" using d(2) by linarith
        then show ?thesis using True Some 2 n(1) u d(1) by auto
      next
        case False
        then have "d \<le> max (time_sub at now) milli_second" using u(2) by linarith
        then show ?thesis using False Some 2 n(1) u d by auto
      qed
    qed
  qed
qed

theorem requeue_in_time_witness:
  "fst (run_state (requeue_after sim_kube (Some 2000) None) (start_run example_world)) \<noteq> 0"
proof -
  have "traces (\<lambda>_. True) (requeue_after sim_kube (Some 2000) None) (\<lambda>cs d. d \<noteq> 0)"
    by (rule traces_weaken [OF requeue_in_time]) simp
  then show ?thesis
    using traces_run [of "\<lambda>_. True" "requeue_after sim_kube (Some 2000) None" "\<lambda>cs d. d \<noteq> 0" "start_run example_world"]
    by (metis prod.collapse)
qed




end
