(* ===== verification/SnapshotController.thy ===== *)
theory SnapshotController
  imports SandboxController
begin

text \<open>
  \<open>internal/operator/controller/rootfssnapshot_controller.go\<close>: the reconciler of rootfs
  snapshots, as programs over the interface of \<open>Kube\<close> whose in-memory object is the snapshot.
  Quantities (sizes, CPU, memory) are their text; logging and metrics are left out.
\<close>

type_synonym ('w, 'a) snap_prog = "('w, rootfs_snapshot, call, 'a) program"
type_synonym ('w, 'a) snap_progE = "('w, rootfs_snapshot, call, go_error + 'a) program"

definition defaultTimeoutSecondsSnapshot :: int where "defaultTimeoutSecondsSnapshot = 300"
definition defaultTTLSecondsAfterFinished :: int where "defaultTTLSecondsAfterFinished = 300"
definition defaultRootfssnapshotSizeLimit :: string where "defaultRootfssnapshotSizeLimit = ''1Gi''"

record snapshot_reconciler =
  BucketURL :: string
  CredentialSecretName :: string
  UploaderImage :: string
  UploaderImagePullPolicy :: string
  SnapshotServiceAccount :: string
  SnapshotPullSecrets :: "string list"
  SnapshotEnabled :: bool
  GvisorRunscPath :: string
  GvisorRunscRoot :: string
  GvisorInstallDir :: string
  ContainerdStateDir :: string

definition runscLauncherPath :: string where "runscLauncherPath = ''/runsc-launcher''"
definition containerdCRINamespace :: string where "containerdCRINamespace = ''k8s.io''"
definition containerdTaskDirName :: string where
  "containerdTaskDirName = ''io.containerd.runtime.v2.task''"


section \<open>The job\<close>

definition containerdBundleRoot :: "snapshot_reconciler \<Rightarrow> string" where
  "containerdBundleRoot r = path_join [ContainerdStateDir r, containerdTaskDirName]"

definition managedGvisor :: "snapshot_reconciler \<Rightarrow> bool" where
  "managedGvisor r \<longleftrightarrow> GvisorInstallDir r \<noteq> []"

definition mount :: "string \<Rightarrow> string \<Rightarrow> bool \<Rightarrow> volume_mount" where
  "mount n p ro = \<lparr>mntName = n, mntPath = p, mntReadOnly = ro\<rparr>"

definition snapshotterMounts :: "snapshot_reconciler \<Rightarrow> string \<Rightarrow> volume_mount list" where
  "snapshotterMounts r runscRoot =
     [mount ''runsc-state'' runscRoot True, mount ''snapshot-data'' ''/snapshot'' False]
     @ (if managedGvisor r then
          [mount ''gvisor-install'' (GvisorInstallDir r) True,
           mount ''containerd-bundles'' (containerdBundleRoot r) True]
        else [])
     @ (if GvisorRunscPath r \<noteq> [] then [mount ''runsc-bin'' (GvisorRunscPath r) True] else [])"

definition snapshotterHostVolumes :: "snapshot_reconciler \<Rightarrow> volume list" where
  "snapshotterHostVolumes r =
     (if managedGvisor r then
        [\<lparr>volName = ''gvisor-install'', volSource = HostPathDirectory (GvisorInstallDir r)\<rparr>,
         \<lparr>volName = ''containerd-bundles'', volSource = HostPathDirectory (containerdBundleRoot r)\<rparr>]
      else [])
     @ (if GvisorRunscPath r \<noteq> []
        then [\<lparr>volName = ''runsc-bin'', volSource = HostPathFile (GvisorRunscPath r)\<rparr>] else [])"

definition snapshotterCommand ::
  "snapshot_reconciler \<Rightarrow> string \<Rightarrow> string \<Rightarrow> string \<times> string list \<times> string list" where
  "snapshotterCommand r containerID snapshotPath =
     (let runscArgs = [''--root='' @ GvisorRunscRoot r, ''tar'', ''rootfs-upper'', ''--file'',
                       snapshotPath, containerID] in
      if \<not> managedGvisor r then (UploaderImage r, [GvisorRunscPath r], runscArgs)
      else
        (UploaderImage r, [runscLauncherPath],
         [''--bundle-root='' @ containerdBundleRoot r,
          ''--namespace='' @ containerdCRINamespace,
          ''--container-id='' @ containerID,
          ''--install-dir='' @ GvisorInstallDir r,
          ''--fallback='' @ GvisorRunscPath r,
          ''--''] @ runscArgs))"

text \<open>The first container of that name decides; other resource limits play no part.\<close>

definition getRootfssnapshotSizeLimit :: "pod \<Rightarrow> string \<Rightarrow> string" where
  "getRootfssnapshotSizeLimit p containerName =
     (case find (\<lambda>c. ctrName c = containerName) (podContainers (podSpec p)) of
        None \<Rightarrow> defaultRootfssnapshotSizeLimit
      | Some c \<Rightarrow>
          (case Option.bind (ctrResources c) (\<lambda>r. rlEphemeral (resLimits r)) of
             None \<Rightarrow> defaultRootfssnapshotSizeLimit
           | Some l \<Rightarrow> l))"

definition env :: "string \<Rightarrow> string \<Rightarrow> env_var" where
  "env n v = \<lparr>envName = n, envVal = v\<rparr>"

definition localSnapshotPath :: string where "localSnapshotPath = ''/snapshot/rootfs.tar''"

definition snapshotter_container :: "snapshot_reconciler \<Rightarrow> string \<Rightarrow> job_container" where
  "snapshotter_container r containerID =
     (case snapshotterCommand r containerID localSnapshotPath of (img, command, args) \<Rightarrow>
        \<lparr>jcnName = ''snapshotter'', jcnImage = img, jcnPullPolicy = UploaderImagePullPolicy r,
         jcnCommand = command, jcnArgs = args, jcnEnv = [], jcnEnvFromSecrets = [],
         jcnSecurity = \<lparr>jsUser = 0, jsGroup = 0, jsNonRoot = None, jsDrop = [''ALL''],
           jsReadOnlyRoot = True, jsEscalation = False\<rparr>,
         jcnMounts = snapshotterMounts r (GvisorRunscRoot r),
         jcnRequests = (''50m'', ''64Mi'')\<rparr>)"

definition uploader_container :: "snapshot_reconciler \<Rightarrow> rootfs_snapshot \<Rightarrow> string \<Rightarrow> job_container" where
  "uploader_container r sn snapshotName =
     \<lparr>jcnName = ''snapshot-uploader'', jcnImage = UploaderImage r,
      jcnPullPolicy = UploaderImagePullPolicy r, jcnCommand = [], jcnArgs = [],
      jcnEnv = [env ''ISOLA_BUCKET_URL'' (BucketURL r), env ''SNAPSHOT_FILE'' localSnapshotPath,
                env ''SNAPSHOT_NAME'' snapshotName,
                env ''SNAPSHOT_NAMESPACE'' (metaNamespace (snMeta sn))],
      jcnEnvFromSecrets = (if CredentialSecretName r \<noteq> [] then [CredentialSecretName r] else []),
      jcnSecurity = \<lparr>jsUser = 65534, jsGroup = 65534, jsNonRoot = Some True, jsDrop = [''ALL''],
        jsReadOnlyRoot = True, jsEscalation = False\<rparr>,
      jcnMounts = [mount ''snapshot-data'' ''/snapshot'' True],
      jcnRequests = (''50m'', ''64Mi'')\<rparr>"

definition job_labels :: "rootfs_snapshot \<Rightarrow> str_map" where
  "job_labels sn =
     [''app.kubernetes.io/name'' \<mapsto> ''isola-snapshot-uploader'',
      ''app.kubernetes.io/instance'' \<mapsto> metaName (snMeta sn),
      ''app.kubernetes.io/component'' \<mapsto> ''rootfssnapshot'',
      ''app.kubernetes.io/part-of'' \<mapsto> ''isola'',
      ''app.kubernetes.io/managed-by'' \<mapsto> ''isola-operator'']"

definition snapshot_job ::
  "snapshot_reconciler \<Rightarrow> rootfs_snapshot \<Rightarrow> pod \<Rightarrow> string \<Rightarrow> string \<Rightarrow> string \<Rightarrow> job" where
  "snapshot_job r sn p containerName containerID snapshotName =
     \<lparr>jobMeta = empty_meta
        \<lparr>metaName := GetSnapshotJobName (metaName (snMeta sn)),
         metaNamespace := metaNamespace (snMeta sn), metaLabels := job_labels sn\<rparr>,
      jobSpec =
        \<lparr>jobBackoffLimit = 0,
         jobActiveDeadline = (case snTimeoutSeconds (snSpec sn) of
                                None \<Rightarrow> defaultTimeoutSecondsSnapshot | Some n \<Rightarrow> n),
         jobTemplateLabels = job_labels sn,
         jobServiceAccount = SnapshotServiceAccount r,
         jobHostPID = True,
         jobNodeSelector = [''kubernetes.io/hostname'' \<mapsto> podNodeName (podSpec p)],
         jobRestartPolicy = RestartNever,
         jobPullSecrets = SnapshotPullSecrets r,
         jobInitContainers = [snapshotter_container r containerID],
         jobContainers = [uploader_container r sn snapshotName],
         jobVolumes = snapshotterHostVolumes r
           @ [\<lparr>volName = ''runsc-state'', volSource = HostPathDirectory (GvisorRunscRoot r)\<rparr>,
              \<lparr>volName = ''snapshot-data'',
               volSource = EmptyDir (getRootfssnapshotSizeLimit p containerName)\<rparr>]\<rparr>,
      jobConditions = []\<rparr>"

definition createSnapshotJob ::
  "snapshot_reconciler \<Rightarrow> 'w kube \<Rightarrow> pod \<Rightarrow> string \<Rightarrow> string \<Rightarrow> string \<Rightarrow> ('w, unit) snap_progE" where
  "createSnapshotJob r k p containerName containerID snapshotName =
     State_Monad.bind get_object (\<lambda>sn.
       let j = snapshot_job r sn p containerName containerID snapshotName in
       case kSetControllerRef k (snMeta sn) (jobMeta j) of
         Inl e \<Rightarrow> throwE e
       | Inr m \<Rightarrow>
           State_Monad.bind
             (call_api (kCreateJob k (j \<lparr>jobMeta := m\<rparr>)) (CreateJob (j \<lparr>jobMeta := m\<rparr>))) (\<lambda>res.
             case res of
               Inl e \<Rightarrow> if IsAlreadyExists e then returnE () else throwE e
             | Inr _ \<Rightarrow> returnE ()))"

definition deleteJob :: "'w kube \<Rightarrow> job \<Rightarrow> ('w, unit) snap_progE" where
  "deleteJob k j =
     State_Monad.bind (call_api (kDeleteJob k j) (DeleteJob j)) (\<lambda>res.
       case res of
         Inl e \<Rightarrow> if IsNotFound e then returnE () else throwE e
       | Inr _ \<Rightarrow> returnE ())"

definition cleanupSnapshotJob :: "'w kube \<Rightarrow> ('w, unit) snap_progE" where
  "cleanupSnapshotJob k =
     State_Monad.bind get_object (\<lambda>sn.
       let ns = metaNamespace (snMeta sn); name = GetSnapshotJobName (metaName (snMeta sn)) in
       State_Monad.bind (call_api (kGetJob k ns name) (GetJob ns name)) (\<lambda>got.
         case got of
           Inl e \<Rightarrow> if IsNotFound e then returnE () else throwE e
         | Inr j \<Rightarrow> deleteJob k j))"


section \<open>The status\<close>

definition getTTLSeconds :: "rootfs_snapshot \<Rightarrow> duration" where
  "getTTLSeconds sn =
     duration_of_seconds
       (case snTTLSeconds (snSpec sn) of None \<Rightarrow> defaultTTLSecondsAfterFinished | Some n \<Rightarrow> n)"

text \<open>The time left, with the completion time at hand.\<close>

definition ttlLeft :: "'w kube \<Rightarrow> rootfs_snapshot \<Rightarrow> time \<Rightarrow> ('w, duration) snap_prog" where
  "ttlLeft k sn completed =
     State_Monad.bind (read_clock k) (\<lambda>now.
       State_Monad.return (time_sub (time_add completed (getTTLSeconds sn)) now))"

definition snap_set_conditions :: "'w kube \<Rightarrow> condition list \<Rightarrow> ('w, unit) snap_prog" where
  "snap_set_conditions k new = State_Monad.update (\<lambda>s.
     let sn = rObject s; st = snStatus sn in
     s \<lparr>rObject := sn \<lparr>snStatus := st
          \<lparr>snConditions := foldl (kSetCondition k (rWorld s)) (snConditions st) new\<rparr>\<rparr>\<rparr>)"

definition patch_snapshot_status :: "'w kube \<Rightarrow> rootfs_snapshot \<Rightarrow> ('w, unit) snap_progE" where
  "patch_snapshot_status k base = State_Monad.bind get_object (\<lambda>sn.
     bindE (call_api (kPatchSnapshotStatus k base sn) (PatchSnapshotStatus base sn)) (\<lambda>sn'.
       State_Monad.bind (set_object sn') (\<lambda>_. returnE ())))"

definition snap_patchStatus :: "'w kube \<Rightarrow> rootfs_snapshot \<Rightarrow> condition list \<Rightarrow> ('w, unit) snap_progE" where
  "snap_patchStatus k base new =
     State_Monad.bind (snap_set_conditions k new) (\<lambda>_. patch_snapshot_status k base)"

definition snap_cond :: "rootfs_snapshot \<Rightarrow> cond_status \<Rightarrow> string \<Rightarrow> string \<Rightarrow> condition" where
  "snap_cond sn st reason msg =
     \<lparr>condType = RootfsSnapshotSucceededCondition, condStatus = st, condReason = reason,
      condMessage = msg, condGeneration = metaGeneration (snMeta sn), condTransition = zero_time\<rparr>"

definition started :: "time \<Rightarrow> string \<Rightarrow> rootfs_snapshot \<Rightarrow> rootfs_snapshot" where
  "started now cid sn = sn \<lparr>snStatus := (snStatus sn) \<lparr>snStartTime := Some now, snContainerID := cid\<rparr>\<rparr>"

definition completed :: "time \<Rightarrow> rootfs_snapshot \<Rightarrow> rootfs_snapshot" where
  "completed now sn = sn \<lparr>snStatus := (snStatus sn) \<lparr>snCompletionTime := Some now\<rparr>\<rparr>"

definition uploaded :: "upload_result \<Rightarrow> rootfs_snapshot \<Rightarrow> rootfs_snapshot" where
  "uploaded res sn = sn \<lparr>snStatus := (snStatus sn) \<lparr>snSnapshotKey := urSnapshotKey res\<rparr>\<rparr>"

definition setInProgress :: "'w kube \<Rightarrow> rootfs_snapshot \<Rightarrow> string \<Rightarrow> ('w, duration) snap_progE" where
  "setInProgress k base containerID =
     State_Monad.bind (read_clock k) (\<lambda>now.
     State_Monad.bind get_object (\<lambda>sn.
     State_Monad.bind (set_object (started now containerID sn)) (\<lambda>_.
       thenE (snap_patchStatus k base []) (returnE 0))))"

text \<open>What the outcome is reported with, and the delay until the snapshot's time to live is over.\<close>

definition report :: "'w kube \<Rightarrow> rootfs_snapshot \<Rightarrow> condition \<Rightarrow> string \<Rightarrow> string \<Rightarrow> ('w, duration) snap_progE" where
  "report k base c kind reason =
     thenE (snap_patchStatus k base [c])
       (State_Monad.bind (emit_event k kind reason (condMessage c)) (\<lambda>_.
        State_Monad.bind get_object (\<lambda>sn. returnE (getTTLSeconds sn))))"

definition setSucceeded :: "'w kube \<Rightarrow> rootfs_snapshot \<Rightarrow> upload_result option \<Rightarrow> ('w, duration) snap_progE" where
  "setSucceeded k base res =
     State_Monad.bind (read_clock k) (\<lambda>now.
     State_Monad.bind get_object (\<lambda>sn.
       let done = (case res of None \<Rightarrow> completed now sn | Some u \<Rightarrow> uploaded u (completed now sn)) in
       State_Monad.bind (set_object done) (\<lambda>_.
         report k base
           (snap_cond done StatusTrue ReasonRootfsSnapshotSucceeded ''Snapshot completed successfully'')
           ''Normal'' ''SnapshotComplete'')))"

definition setFailed :: "'w kube \<Rightarrow> rootfs_snapshot \<Rightarrow> string \<Rightarrow> ('w, duration) snap_progE" where
  "setFailed k base message =
     State_Monad.bind (read_clock k) (\<lambda>now.
     State_Monad.bind get_object (\<lambda>sn.
     State_Monad.bind (set_object (completed now sn)) (\<lambda>_.
       report k base (snap_cond sn StatusFalse ReasonRootfsSnapshotFailed message)
         ''Warning'' ''SnapshotFailed'')))"


section \<open>The upload result\<close>

text \<open>The most recent pod: the first one, unless a later one of the list was created after it.\<close>

definition newer :: "pod \<Rightarrow> pod \<Rightarrow> pod" where
  "newer best p = (if time_after (metaCreated (podMeta p)) (metaCreated (podMeta best)) then p else best)"

definition most_recent :: "pod \<Rightarrow> pod list \<Rightarrow> pod" where
  "most_recent first all = foldl newer first all"

definition uploader_terminated :: "container_status \<Rightarrow> bool" where
  "uploader_terminated cs \<longleftrightarrow> csName cs = ''snapshot-uploader'' \<and> csTerminated cs \<noteq> None"

definition upload_result_of :: "'w kube \<Rightarrow> pod \<Rightarrow> go_error + upload_result" where
  "upload_result_of k p =
     (case find uploader_terminated (case podContainerStatuses (podStatus p) of None \<Rightarrow> [] | Some css \<Rightarrow> css) of
        None \<Rightarrow> Inl (PlainError ''snapshot-uploader container not found or not terminated'')
      | Some cs \<Rightarrow>
          (let message = the (csTerminated cs) in
           if message = [] then
             Inl (PlainError ''snapshot-uploader container has no termination message'')
           else
             (case kParseUploadResult k message of
                Inl e \<Rightarrow> Inl (WrapError ''failed to parse termination message: '' e)
              | Inr u \<Rightarrow> Inr u)))"

definition getUploadResult :: "'w kube \<Rightarrow> job \<Rightarrow> ('w, upload_result) snap_progE" where
  "getUploadResult k j =
     (let ns = metaNamespace (jobMeta j); name = metaName (jobMeta j) in
      State_Monad.bind (call_api (kListJobPods k ns name) (ListJobPods ns name)) (\<lambda>got.
        case got of
          Inl e \<Rightarrow> throwE (WrapError ''failed to list job pods: '' e)
        | Inr pods \<Rightarrow>
            (case pods of
               [] \<Rightarrow> throwE (PlainError (''no pods found for job '' @ name))
             | p # _ \<Rightarrow> State_Monad.return (upload_result_of k (most_recent p pods)))))"


section \<open>Reconcile\<close>

definition job_failure_message :: "job \<Rightarrow> string" where
  "job_failure_message j =
     (let m = GetJobConditionMessage (Some (jobConditions j)) ''Failed'' in
      if m \<noteq> [] then ''Snapshot job failed: '' @ m else ''Snapshot job failed'')"

definition start_snapshot_job ::
  "snapshot_reconciler \<Rightarrow> 'w kube \<Rightarrow> rootfs_snapshot \<Rightarrow> pod \<Rightarrow> string \<Rightarrow> string \<Rightarrow> ('w, duration) snap_progE" where
  "start_snapshot_job r k base p containerName snapshotName =
     (case ExtractContainerID (Some p) containerName of
        Inl e \<Rightarrow> setFailed k base (''Failed to extract container ID: '' @ e)
      | Inr containerID \<Rightarrow>
          thenE (createSnapshotJob r k p containerName containerID snapshotName)
            (State_Monad.bind (emit_event k ''Normal'' ''JobCreated''
                (''Created snapshot job for container '' @ containerID)) (\<lambda>_.
             setInProgress k base containerID)))"

definition finish_snapshot_job :: "'w kube \<Rightarrow> rootfs_snapshot \<Rightarrow> job \<Rightarrow> ('w, duration) snap_progE" where
  "finish_snapshot_job k base j =
     State_Monad.bind (getUploadResult k j) (\<lambda>res.
       case res of
         Inl e \<Rightarrow>
           State_Monad.bind (emit_event k ''Warning'' ''TerminationLogReadFailed'' (kErrorText k e)) (\<lambda>_.
           setFailed k base (''Failed to read upload result: '' @ kErrorText k e))
       | Inr u \<Rightarrow> setSucceeded k base (Some u))"

definition reconcileSnapshotJob ::
  "snapshot_reconciler \<Rightarrow> 'w kube \<Rightarrow> rootfs_snapshot \<Rightarrow> pod \<Rightarrow> string \<Rightarrow> string \<Rightarrow> ('w, duration) snap_progE" where
  "reconcileSnapshotJob r k base p containerName snapshotName =
     State_Monad.bind get_object (\<lambda>sn.
       let ns = metaNamespace (snMeta sn); name = GetSnapshotJobName (metaName (snMeta sn)) in
       State_Monad.bind (call_api (kGetJob k ns name) (GetJob ns name)) (\<lambda>got.
         case got of
           Inl e \<Rightarrow>
             if IsNotFound e then start_snapshot_job r k base p containerName snapshotName
             else throwE e
         | Inr j \<Rightarrow>
             if IsJobComplete (Some (jobConditions j)) then finish_snapshot_job k base j
             else if IsJobFailed (Some (jobConditions j)) then
               setFailed k base (job_failure_message j)
             else returnE 0))"

definition choose_container :: "rootfs_snapshot \<Rightarrow> pod \<Rightarrow> string + string" where
  "choose_container sn p =
     (let wanted = snContainerName (snSpec sn); ctrs = podContainers (podSpec p) in
      if wanted \<noteq> [] then
        (if list_ex (\<lambda>c. ctrName c = wanted) ctrs then Inr wanted
         else Inl (''Container '' @ quoted wanted @ '' not found in sandbox pod''))
      else
        (case ctrs of
           [] \<Rightarrow> Inl ''No containers found in sandbox pod''
         | c # _ \<Rightarrow> Inr (ctrName c)))"

definition snapshot_name :: "rootfs_snapshot \<Rightarrow> string" where
  "snapshot_name sn =
     (if snSnapshotName (snSpec sn) = [] then snSandboxName (snSpec sn) else snSnapshotName (snSpec sn))"

text \<open>A snapshot that has an outcome: clean up, and go when the time to live is over.\<close>

definition reconcile_complete :: "'w kube \<Rightarrow> time \<Rightarrow> ('w, duration) snap_progE" where
  "reconcile_complete k at =
     thenE (cleanupSnapshotJob k)
       (State_Monad.bind get_object (\<lambda>sn.
        State_Monad.bind (ttlLeft k sn at) (\<lambda>left.
          if left \<le> 0 then
            State_Monad.bind (call_api (kDeleteSnapshot k sn) (DeleteSnapshot sn)) (\<lambda>res.
              case res of
                Inl e \<Rightarrow> if IsNotFound e then returnE 0 else throwE e
              | Inr _ \<Rightarrow> returnE 0)
          else returnE left)))"

definition reconcile_with_pod ::
  "snapshot_reconciler \<Rightarrow> 'w kube \<Rightarrow> rootfs_snapshot \<Rightarrow> pod \<Rightarrow> ('w, duration) snap_progE" where
  "reconcile_with_pod r k base p =
     (if \<not> IsPodReady (Some p) then setFailed k base ''Sandbox pod is not ready''
      else
        bindE (CheckRootfsSnapshotSupport k (Some p)) (\<lambda>supported.
          if \<not> supported then setFailed k base ''Runtime does not support rootfs snapshotting''
          else
            State_Monad.bind get_object (\<lambda>sn.
              case choose_container sn p of
                Inl msg \<Rightarrow> setFailed k base msg
              | Inr containerName \<Rightarrow>
                  reconcileSnapshotJob r k base p containerName (snapshot_name sn))))"

definition reconcile_incomplete ::
  "snapshot_reconciler \<Rightarrow> 'w kube \<Rightarrow> rootfs_snapshot \<Rightarrow> ('w, duration) snap_progE" where
  "reconcile_incomplete r k base =
     (if \<not> SnapshotEnabled r then
        setFailed k base
          (''RootfsSnapshot capability is not enabled. ''
           @ ''Set operator.sandboxRuntime.rootfssnapshot.enabled=true in Helm values.'')
      else if BucketURL r = [] then
        setFailed k base
          ''RootfsSnapshot storage not configured: --rootfssnapshot-bucket-url is required''
      else
        State_Monad.bind get_object (\<lambda>sn.
          let ns = metaNamespace (snMeta sn); pod = GetSandboxPodName (snSandboxName (snSpec sn)) in
          State_Monad.bind (call_api (kGetPod k ns pod) (GetPod ns pod)) (\<lambda>got.
            case got of
              Inl e \<Rightarrow>
                if IsNotFound e then setFailed k base (''Pod '' @ quoted pod @ '' not found'')
                else throwE e
            | Inr p \<Rightarrow> reconcile_with_pod r k base p)))"

definition ReconcileSnapshot ::
  "snapshot_reconciler \<Rightarrow> 'w kube \<Rightarrow> string \<Rightarrow> string \<Rightarrow> ('w, duration) snap_progE" where
  "ReconcileSnapshot r k ns name =
     State_Monad.bind (call_api (kGetSnapshot k ns name) (GetSnapshot ns name)) (\<lambda>got.
       case got of
         Inl e \<Rightarrow> if IsNotFound e then returnE 0 else throwE e
       | Inr sn \<Rightarrow>
           State_Monad.bind (set_object sn) (\<lambda>_.
             case snCompletionTime (snStatus sn) of
               Some at \<Rightarrow> reconcile_complete k at
             | None \<Rightarrow> reconcile_incomplete r k sn))"

end
