(* ===== verification/SnapshotSafety.thy ===== *)
theory SnapshotSafety
  imports SnapshotController KubeModel
begin

text \<open>
  What the reconciler of snapshots may call: when it starts a job, which outcomes it reports, and how
  long it keeps a snapshot. \<open>ok\<close> says which calls are allowed after the calls \<open>A\<close>; the lemmas \<open>ok_f\<close>
  carry it through the functions.
\<close>

section \<open>What a reconcile of a snapshot does\<close>

text \<open>A report of an outcome: the status it patches, given the object in memory.\<close>

definition with_condition :: "'w kube \<Rightarrow> 'w \<Rightarrow> rootfs_snapshot \<Rightarrow> condition list \<Rightarrow> rootfs_snapshot" where
  "with_condition k w sn new = sn \<lparr>snStatus := snStatus sn
     \<lparr>snConditions := foldl (kSetCondition k w) (snConditions (snStatus sn)) new\<rparr>\<rparr>"

fun is_event :: "call \<Rightarrow> bool" where
  "is_event (Event a b c) = True"
| "is_event _ = False"

lemma ends_snap_patchStatus:
  "ends (\<lambda>x. x = sn) (snap_patchStatus k base new)
     (\<lambda>cs r. \<exists>w o1. cs = [PatchSnapshotStatus base (with_condition k w sn new) o1])"
  by (rule endsI) (auto simp: snap_patchStatus_def snap_set_conditions_def patch_snapshot_status_def
      with_condition_def Let_def split: prod.splits sum.splits)

lemma ends_report:
  "ends (\<lambda>x. x = sn) (report k base c kind reason)
     (\<lambda>cs r. \<exists>w o1 evs. cs = PatchSnapshotStatus base (with_condition k w sn [c]) o1 # evs \<and>
        list_all is_event evs)"
  by (rule endsI) (auto simp: report_def thenE_def snap_patchStatus_def snap_set_conditions_def
      patch_snapshot_status_def with_condition_def emit_event_def Let_def split: prod.splits sum.splits)

definition failure :: "'w kube \<Rightarrow> rootfs_snapshot \<Rightarrow> rootfs_snapshot \<Rightarrow> bool" where
  "failure k sn new \<longleftrightarrow> (\<exists>w now msg. new = with_condition k w (completed now sn)
     [snap_cond sn StatusFalse ReasonRootfsSnapshotFailed msg])"

lemma failureI:
  "failure k sn (with_condition k w (completed now sn) [snap_cond sn StatusFalse ReasonRootfsSnapshotFailed msg])"
  unfolding failure_def by blast

lemma ends_setFailed:
  "ends (\<lambda>x. x = sn) (setFailed k base msg)
     (\<lambda>cs r. \<exists>new o1 now evs. cs = ReadClock now # PatchSnapshotStatus base new o1 # evs \<and>
        failure k sn new \<and> list_all is_event evs)"
  unfolding setFailed_def
  by (intro ends_bind_clock ends_intros ends_weaken [OF ends_report])
     (auto intro: failureI)


definition success :: "'w kube \<Rightarrow> upload_result \<Rightarrow> rootfs_snapshot \<Rightarrow> rootfs_snapshot \<Rightarrow> bool" where
  "success k u sn new \<longleftrightarrow> (\<exists>w now. new = with_condition k w (uploaded u (completed now sn))
     [snap_cond (uploaded u (completed now sn)) StatusTrue ReasonRootfsSnapshotSucceeded
        ''Snapshot completed successfully''])"

lemma successI:
  "success k u sn (with_condition k w (uploaded u (completed now sn))
     [snap_cond (uploaded u (completed now sn)) StatusTrue ReasonRootfsSnapshotSucceeded
        ''Snapshot completed successfully''])"
  unfolding success_def by blast

lemma ends_setSucceeded:
  "ends (\<lambda>x. x = sn) (setSucceeded k base (Some u))
     (\<lambda>cs r. \<exists>new o1 now evs. cs = ReadClock now # PatchSnapshotStatus base new o1 # evs \<and>
        success k u sn new \<and> list_all is_event evs)"
  unfolding setSucceeded_def option.case
  by (intro ends_bind_clock ends_intros ends_weaken [OF ends_report]) (auto intro: successI)

definition in_progress :: "'w kube \<Rightarrow> string \<Rightarrow> rootfs_snapshot \<Rightarrow> rootfs_snapshot \<Rightarrow> bool" where
  "in_progress k cid sn new \<longleftrightarrow> (\<exists>now. new = started now cid sn)"

lemma with_condition_Nil [simp]: "with_condition k w sn [] = sn"
  by (simp add: with_condition_def)

lemma ends_setInProgress:
  "ends (\<lambda>x. x = sn) (setInProgress k base cid)
     (\<lambda>cs r. \<exists>new o1 now. cs = [ReadClock now, PatchSnapshotStatus base new o1] \<and> in_progress k cid sn new)"
proof -
  have patch: "ends (\<lambda>x. x = new) (thenE (snap_patchStatus k base []) (returnE 0))
      (\<lambda>cs r. \<exists>o1. cs = [PatchSnapshotStatus base new o1])" for new
    by (rule endsI) (auto simp: thenE_def snap_patchStatus_def snap_set_conditions_def
        patch_snapshot_status_def Let_def split: prod.splits sum.splits)
  show ?thesis
    unfolding setInProgress_def
    by (intro ends_bind_clock ends_intros ends_weaken [OF patch]) (auto simp: in_progress_def)
qed

text \<open>The job a reconcile may ask for, and what it may call when it has made the calls \<open>A\<close>.\<close>

definition job_requested ::
  "snapshot_reconciler \<Rightarrow> 'w kube \<Rightarrow> rootfs_snapshot \<Rightarrow> pod \<Rightarrow> string \<Rightarrow> string \<Rightarrow> job \<Rightarrow> bool" where
  "job_requested r k sn p ctr cid j \<longleftrightarrow>
     ExtractContainerID (Some p) ctr = Inr cid \<and>
     (\<exists>m. kSetControllerRef k (snMeta sn) (jobMeta (snapshot_job r sn p ctr cid (snapshot_name sn))) = Inr m \<and>
        j = snapshot_job r sn p ctr cid (snapshot_name sn) \<lparr>jobMeta := m\<rparr>)"

definition job_is_due :: "snapshot_reconciler \<Rightarrow> rootfs_snapshot \<Rightarrow> pod \<Rightarrow> string \<Rightarrow> call set \<Rightarrow> bool" where
  "job_is_due r sn p ctr A \<longleftrightarrow>
     SnapshotEnabled r \<and> BucketURL r \<noteq> [] \<and> IsPodReady (Some p) \<and> choose_container sn p = Inr ctr \<and>
     GetPod (metaNamespace (snMeta sn)) (GetSandboxPodName (snSandboxName (snSpec sn))) (Inr p) \<in> A \<and>
     (\<exists>rc h. podRuntimeClass (podSpec p) = Some rc \<and> GetRuntimeHandler rc (Inr h) \<in> A \<and>
        (h = ''runsc'' \<or> h = ''gvisor''))"

definition job_missing :: "rootfs_snapshot \<Rightarrow> call set \<Rightarrow> bool" where
  "job_missing sn A \<longleftrightarrow> (\<exists>e. IsNotFound e \<and>
     GetJob (metaNamespace (snMeta sn)) (GetSnapshotJobName (metaName (snMeta sn))) (Inl e) \<in> A)"

definition upload_seen :: "'w kube \<Rightarrow> rootfs_snapshot \<Rightarrow> upload_result \<Rightarrow> call set \<Rightarrow> bool" where
  "upload_seen k sn u A \<longleftrightarrow> (\<exists>j p pods.
     GetJob (metaNamespace (snMeta sn)) (GetSnapshotJobName (metaName (snMeta sn))) (Inr j) \<in> A \<and>
     IsJobComplete (Some (jobConditions j)) \<and>
     ListJobPods (metaNamespace (jobMeta j)) (metaName (jobMeta j)) (Inr (p # pods)) \<in> A \<and>
     upload_result_of k (most_recent p (p # pods)) = Inr u)"

fun ok :: "snapshot_reconciler \<Rightarrow> 'w kube \<Rightarrow> rootfs_snapshot \<Rightarrow> call set \<Rightarrow> call \<Rightarrow> bool" where
  "ok r k sn A (PatchSnapshotStatus base new o1) =
     (base = sn \<and> (failure k sn new \<or> (\<exists>u. upload_seen k sn u A \<and> success k u sn new) \<or>
       (\<exists>p ctr cid j o2. CreateJob j o2 \<in> A \<and> job_requested r k sn p ctr cid j \<and> in_progress k cid sn new)))"
| "ok r k sn A (CreateJob j o1) =
     (\<exists>p ctr cid. job_requested r k sn p ctr cid j \<and> job_is_due r sn p ctr A \<and> job_missing sn A)"
| "ok r k sn A (GetPod ns n o1) = True"
| "ok r k sn A (GetJob ns n o1) = True"
| "ok r k sn A (ListJobPods ns n o1) = True"
| "ok r k sn A (GetRuntimeHandler n o1) = True"
| "ok r k sn A (ReadClock t) = True"
| "ok r k sn A (Event a b c) = True"
| "ok r k sn A _ = False"

definition all_ok :: "snapshot_reconciler \<Rightarrow> 'w kube \<Rightarrow> rootfs_snapshot \<Rightarrow> call set \<Rightarrow> call list \<Rightarrow> bool" where
  "all_ok r k sn A cs \<longleftrightarrow> (\<forall>c \<in> set cs. ok r k sn (A \<union> set cs) c)"

lemma evidence_mono:
  "job_is_due r sn p ctr A \<Longrightarrow> A \<subseteq> B \<Longrightarrow> job_is_due r sn p ctr B"
  "job_missing sn A \<Longrightarrow> A \<subseteq> B \<Longrightarrow> job_missing sn B"
  "upload_seen k sn u A \<Longrightarrow> A \<subseteq> B \<Longrightarrow> upload_seen k sn u B"
  unfolding job_is_due_def job_missing_def upload_seen_def by blast+

lemma ok_mono:
  assumes "ok r k sn A c" "A \<subseteq> B"
  shows "ok r k sn B c"
proof (cases c)
  case (PatchSnapshotStatus base new o1)
  have "upload_seen k sn u A \<Longrightarrow> upload_seen k sn u B" for u
    using evidence_mono(3) assms(2) by blast
  with PatchSnapshotStatus assms show ?thesis by (simp, blast)
next
  case (CreateJob j o1)
  have "job_is_due r sn p ctr A \<Longrightarrow> job_is_due r sn p ctr B" "job_missing sn A \<Longrightarrow> job_missing sn B" for p ctr
    using evidence_mono(1,2) assms(2) by blast+
  with CreateJob assms show ?thesis by (simp, blast)
qed (use assms(1) in simp_all)

lemma all_ok_append:
  assumes "all_ok r k sn A cs" "all_ok r k sn (A \<union> set cs) ds"
  shows "all_ok r k sn A (cs @ ds)"
  using assms ok_mono [of r k sn "A \<union> set cs" _ "A \<union> (set cs \<union> set ds)"]
  unfolding all_ok_def by (auto simp: Un_assoc)

lemma all_ok_Cons:
  "ok r k sn (insert c A) c \<Longrightarrow> all_ok r k sn (insert c A) cs \<Longrightarrow> all_ok r k sn A (c # cs)"
  using all_ok_append [of r k sn A "[c]" cs] by (simp add: all_ok_def)

lemma all_ok_Nil [simp]: "all_ok r k sn A []"
  by (simp add: all_ok_def)

lemma all_ok_events: "list_all is_event evs \<Longrightarrow> all_ok r k sn A evs"
  unfolding all_ok_def by (auto simp: list_all_iff elim!: is_event.elims)


lemma ok_bind_call:
  assumes "\<And>a. ok r k sn (insert (c a) A) (c a)"
    "\<And>a. ends I (f a) (\<lambda>cs _. all_ok r k sn (insert (c a) A) cs)"
  shows "ends I (State_Monad.bind (call_api g c) f) (\<lambda>cs _. all_ok r k sn A cs)"
  by (rule ends_bind_call, rule ends_weaken [OF assms(2)]) (rule all_ok_Cons [OF assms(1)])

lemma ok_bind_event:
  assumes "ends I (f ()) (\<lambda>cs _. all_ok r k sn (insert (Event kind reason msg) A) cs)"
  shows "ends I (State_Monad.bind (emit_event k' kind reason msg) f) (\<lambda>cs _. all_ok r k sn A cs)"
  by (rule ends_bind_event, rule ends_weaken [OF assms]) (auto intro: all_ok_Cons)

lemma ok_setFailed: "ends (\<lambda>x. x = sn) (setFailed k sn msg) (\<lambda>cs _. all_ok r k sn A cs)"
  by (rule ends_weaken [OF ends_setFailed]) (auto intro!: all_ok_Cons intro: all_ok_events)

lemma ok_finish_snapshot_job:
  assumes "GetJob (metaNamespace (snMeta sn)) (GetSnapshotJobName (metaName (snMeta sn))) (Inr j) \<in> A"
    "IsJobComplete (Some (jobConditions j))"
  shows "ends (\<lambda>x. x = sn) (finish_snapshot_job k sn j) (\<lambda>cs _. all_ok r k sn A cs)"
proof -
  have seen: "upload_seen k sn u (insert (ListJobPods (metaNamespace (jobMeta j)) (metaName (jobMeta j)) (Inr (p # pods))) B)"
    if "upload_result_of k (most_recent p (p # pods)) = Inr u" "A \<subseteq> B" for u p pods B
    using that assms unfolding upload_seen_def by blast
  have list: "traces (\<lambda>x. x = sn) (getUploadResult k j)
      (\<lambda>cs res. all_ok r k sn A cs \<and> (\<forall>u. res = Inr u \<longrightarrow> upload_seen k sn u (A \<union> set cs)))"
    unfolding getUploadResult_def
    by (intro run_intros) (auto intro: seen traces_throwE traces_return simp: all_ok_def split: list.splits)
  show ?thesis
    unfolding finish_snapshot_job_def
  proof (intro ends_bind [OF list] ends_case_sum ends_bind_event ends_weaken [OF ends_setFailed]
      ends_weaken [OF ends_setSucceeded], goal_cases)
    case (1 a cs e ds c)
    then show ?case by (auto intro!: all_ok_append all_ok_Cons intro: all_ok_events)
  next
    case (2 a cs u ds c)
    then have seen: "upload_seen k sn u (A \<union> set cs)" and ok: "all_ok r k sn A cs" by simp_all
    from 2 obtain new o1 now evs where ds: "ds = ReadClock now # PatchSnapshotStatus sn new o1 # evs"
        "success k u sn new" "list_all is_event evs"
      by auto
    have "ok r k sn (insert (PatchSnapshotStatus sn new o1) (insert (ReadClock now) (A \<union> set cs)))
        (PatchSnapshotStatus sn new o1)"
      using evidence_mono(3) [OF seen, of "insert (PatchSnapshotStatus sn new o1) (insert (ReadClock now) (A \<union> set cs))"]
        ds(2) by auto
    then show ?case using ok ds(1) all_ok_events [OF ds(3)]
      by (auto intro!: all_ok_append all_ok_Cons simp del: ok.simps(1))
  qed
qed

text \<open>Creating the job: it is due and missing.\<close>

lemma traces_createSnapshotJob:
  "traces (\<lambda>x. x = sn) (createSnapshotJob r k p ctr cid (snapshot_name sn))
     (\<lambda>cs res. (cs = [] \<and> (\<exists>e. res = Inl e)) \<or>
        (\<exists>j o1. cs = [CreateJob j o1] \<and>
           (ExtractContainerID (Some p) ctr = Inr cid \<longrightarrow> job_requested r k sn p ctr cid j)))"
  unfolding createSnapshotJob_def
  by (intro run_intros) (auto simp: job_requested_def)

lemma ok_start_snapshot_job:
  assumes due: "job_is_due r sn p ctr A" "job_missing sn A"
  shows "ends (\<lambda>x. x = sn) (start_snapshot_job r k sn p ctr (snapshot_name sn)) (\<lambda>cs _. all_ok r k sn A cs)"
proof -
  have create: "ok r k sn B (CreateJob j o1)" if "job_requested r k sn p ctr cid j" "A \<subseteq> B" for j o1 cid B
    using evidence_mono(1) [OF due(1) that(2)] evidence_mono(2) [OF due(2) that(2)] that(1) by auto
  show ?thesis
    unfolding start_snapshot_job_def thenE_def
  proof (intro ends_case_sum ok_setFailed ends_bindE [OF traces_createSnapshotJob]
      ends_bind_event ends_weaken [OF ends_setInProgress], goal_cases)
    case (1 cid e cs)
    then show ?case by (auto intro!: all_ok_Cons create simp del: ok.simps(2))
  next
    case (2 cid u cs ds a)
    then obtain j o1 where j: "cs = [CreateJob j o1]" "job_requested r k sn p ctr cid j" by auto
    moreover from 2 obtain new o2 now where ds: "ds = [ReadClock now, PatchSnapshotStatus sn new o2]"
        "in_progress k cid sn new" by auto
    moreover have "ok r k sn B (PatchSnapshotStatus sn new o2)" if "CreateJob j o1 \<in> B" for B
      unfolding ok.simps(1) using that ds(2) j(2) by blast
    ultimately show ?case
      using create [OF j(2)] by (auto intro!: all_ok_Cons create [OF j(2)] simp del: ok.simps(1,2))
  qed
qed

lemma ok_reconcileSnapshotJob:
  assumes "job_is_due r sn p ctr A"
  shows "ends (\<lambda>x. x = sn) (reconcileSnapshotJob r k sn p ctr (snapshot_name sn)) (\<lambda>cs _. all_ok r k sn A cs)"
proof -
  let ?ns = "metaNamespace (snMeta sn)" and ?job = "GetSnapshotJobName (metaName (snMeta sn))"
  have due: "job_is_due r sn p ctr (insert c A)" for c by (rule evidence_mono(1) [OF assms]) blast
  have missing: "IsNotFound e \<Longrightarrow> job_missing sn (insert (GetJob ?ns ?job (Inl e)) A)" for e
    unfolding job_missing_def by blast
  have ctr: "ends (\<lambda>x. x = sn)
      (State_Monad.bind (call_api (kGetJob k ?ns ?job) (GetJob ?ns ?job)) (\<lambda>got.
         case got of
           Inl e \<Rightarrow> if IsNotFound e then start_snapshot_job r k sn p ctr (snapshot_name sn) else throwE e
         | Inr j \<Rightarrow>
             if IsJobComplete (Some (jobConditions j)) then finish_snapshot_job k sn j
             else if IsJobFailed (Some (jobConditions j)) then setFailed k sn (job_failure_message j)
             else returnE 0)) (\<lambda>cs _. all_ok r k sn A cs)"
    by (intro ok_bind_call ends_case_sum ends_if ends_throwE ends_returnE ok_setFailed
        ok_start_snapshot_job due ok_finish_snapshot_job) (auto intro: missing)
  show ?thesis
    unfolding reconcileSnapshotJob_def Let_def
    by (rule ends_get_object) (use ctr in simp)
qed

lemma traces_runtime_seen:
  "traces (\<lambda>x. x = sn) (CheckRootfsSnapshotSupport k (Some p))
     (\<lambda>cs res. all_ok r k sn A cs \<and> (res = Inr True \<longrightarrow>
        (\<exists>rc h. podRuntimeClass (podSpec p) = Some rc \<and> GetRuntimeHandler rc (Inr h) \<in> set cs \<and>
           (h = ''runsc'' \<or> h = ''gvisor''))))"
  unfolding CheckRootfsSnapshotSupport_def CheckRuntimeClassSupport_def
  by (intro run_intros) (auto simp: all_ok_def)

lemma ok_reconcile_with_pod:
  assumes "SnapshotEnabled r" "BucketURL r \<noteq> []"
    "GetPod (metaNamespace (snMeta sn)) (GetSandboxPodName (snSandboxName (snSpec sn))) (Inr p) \<in> A"
  shows "ends (\<lambda>x. x = sn) (reconcile_with_pod r k sn p) (\<lambda>cs _. all_ok r k sn A cs)"
  unfolding reconcile_with_pod_def
proof (intro ends_if ok_setFailed ends_bindE [OF traces_runtime_seen [of sn k p r A]] ends_get_object, goal_cases)
  case (2 supported cs)
  then have cs: "all_ok r k sn A cs" by simp
  from 2 show ?case
    by (intro ends_weaken [OF ok_setFailed [of sn k _ r "A \<union> set cs"]] all_ok_append [OF cs])
next
  case (3 supported cs x)
  then have cs: "all_ok r k sn A cs" and x: "x = sn" and ready: "IsPodReady (Some p)" by simp_all
  have due: "job_is_due r sn p ctr (A \<union> set cs)" if "choose_container sn p = Inr ctr" for ctr
    using 3 assms that unfolding job_is_due_def by auto
  show ?case
    unfolding x
    by (intro ends_case_sum ends_weaken [OF ok_setFailed [of sn k _ r "A \<union> set cs"]]
        ends_weaken [OF ok_reconcileSnapshotJob [OF due]] all_ok_append [OF cs])
qed simp

lemma ok_reconcile_incomplete:
  "ends (\<lambda>x. x = sn) (reconcile_incomplete r k sn) (\<lambda>cs _. all_ok r k sn A cs)"
  unfolding reconcile_incomplete_def Let_def
  by (intro ends_if ok_setFailed ends_get_object) (auto intro!: ok_bind_call ends_case_sum ends_if ends_throwE
      ok_setFailed ok_reconcile_with_pod)


text \<open>A snapshot with an outcome: only its job and, in the end, the snapshot itself go.\<close>

fun retained :: "rootfs_snapshot \<Rightarrow> time \<Rightarrow> call set \<Rightarrow> call \<Rightarrow> bool" where
  "retained sn at A (GetJob ns n o1) = True"
| "retained sn at A (DeleteJob j o1) =
     (GetJob (metaNamespace (snMeta sn)) (GetSnapshotJobName (metaName (snMeta sn))) (Inr j) \<in> A)"
| "retained sn at A (ReadClock t) = True"
| "retained sn at A (DeleteSnapshot x o1) =
     (x = sn \<and> (\<exists>now. ReadClock now \<in> A \<and> time_sub (time_add at (getTTLSeconds sn)) now \<le> 0))"
| "retained sn at A _ = False"

definition completed_run :: "rootfs_snapshot \<Rightarrow> time \<Rightarrow> call list \<Rightarrow> go_error + duration \<Rightarrow> bool" where
  "completed_run sn at cs r \<longleftrightarrow> (\<forall>c \<in> set cs. retained sn at (set cs) c) \<and>
     (\<forall>d. r = Inr d \<longrightarrow> d = 0 \<and> (\<exists>o1. DeleteSnapshot sn o1 \<in> set cs) \<or>
        0 < d \<and> (\<exists>now. ReadClock now \<in> set cs \<and> d = time_sub (time_add at (getTTLSeconds sn)) now))"

lemma traces_cleanupSnapshotJob:
  "traces (\<lambda>x. x = sn) (cleanupSnapshotJob k) (\<lambda>cs _. \<forall>c \<in> set cs. retained sn at (set cs) c)"
  unfolding cleanupSnapshotJob_def deleteJob_def by (intro run_intros) auto

lemma retained_mono: "retained sn at A c \<Longrightarrow> A \<subseteq> B \<Longrightarrow> retained sn at B c"
  by (cases c) auto

lemma ends_reconcile_complete:
  "ends (\<lambda>x. x = sn) (reconcile_complete k at) (completed_run sn at)"
  unfolding reconcile_complete_def thenE_def
proof (intro ends_bindE [OF traces_cleanupSnapshotJob [of sn k at]] ends_get_object, goal_cases)
  case (1 e cs)
  then show ?case by (auto simp: completed_run_def)
next
  case (2 u cs x)
  have keep: "\<forall>c \<in> set cs. retained sn at B c" if "set cs \<subseteq> B" for B
    using 2(1) retained_mono that by blast
  show ?case
    unfolding ttlLeft_def 2(2) read_clock_def State_Monad.bind_assoc State_Monad.bind_left_identity
    by (intro ends_intros) (auto simp: completed_run_def intro!: keep)
qed

lemma ReconcileSnapshot_calls:
  "ends (\<lambda>_. True) (ReconcileSnapshot r k ns name) (\<lambda>cs res.
     (\<exists>e. cs = [GetSnapshot ns name (Inl e)]) \<or>
     (\<exists>sn ds. cs = GetSnapshot ns name (Inr sn) # ds \<and>
        (case snCompletionTime (snStatus sn) of
           None \<Rightarrow> all_ok r k sn {} ds
         | Some at \<Rightarrow> completed_run sn at ds res)))"
  unfolding ReconcileSnapshot_def
  by (intro ends_bind_call ends_case_sum ends_if ends_throwE ends_returnE ends_set_object ends_case_option
      ends_weaken [OF ok_reconcile_incomplete [of _ r k "{}"]] ends_weaken [OF ends_reconcile_complete]) auto


section \<open>Properties\<close>

text \<open>
  C5. A snapshot job is started only where it can work, whatever the API server answers. When a
  reconcile asks for a job, then in that reconcile the snapshot was read and had no outcome, the
  capability is on and a bucket is configured, the pod of the sandbox was found ready on a
  gVisor runtime class, and there was no job yet. The job is the one built for the chosen
  container of that pod, with the container's runtime ID from its status, on the pod's node.
\<close>

theorem snapshot_job_guarded:
  assumes run: "run_state (ReconcileSnapshot r k ns name) s = (res, t)"
    and start: "rCalls s = []" and job: "CreateJob j o1 \<in> set (rCalls t)"
  shows "\<exists>sn p ctr cid. GetSnapshot ns name (Inr sn) \<in> set (rCalls t) \<and>
     snCompletionTime (snStatus sn) = None \<and> job_requested r k sn p ctr cid j \<and>
     job_is_due r sn p ctr (set (rCalls t)) \<and> job_missing sn (set (rCalls t)) \<and>
     (\<exists>c \<in> set (podContainers (podSpec p)). ctrName c = ctr)"
proof -
  obtain sn ds where ds: "rCalls t = GetSnapshot ns name (Inr sn) # ds"
      "case snCompletionTime (snStatus sn) of None \<Rightarrow> all_ok r k sn {} ds
       | Some at \<Rightarrow> completed_run sn at ds res"
    using ends_run [OF ReconcileSnapshot_calls _ run] start job by auto
  have "CreateJob j o1 \<in> set ds" using job ds(1) by simp
  moreover from this have none: "snCompletionTime (snStatus sn) = None"
    using ds(2) by (fastforce simp: completed_run_def split: option.splits)
  ultimately have "ok r k sn (set ds) (CreateJob j o1)" using ds(2) by (auto simp: all_ok_def)
  then obtain p ctr cid where "job_requested r k sn p ctr cid j" "job_is_due r sn p ctr (set ds)"
      "job_missing sn (set ds)" by auto
  moreover have "\<exists>c \<in> set (podContainers (podSpec p)). ctrName c = ctr"
    if "choose_container sn p = Inr ctr"
    using that by (auto simp: choose_container_def Let_def list_ex_iff split: if_splits list.splits)
  ultimately show ?thesis
    using ds(1) none evidence_mono(1,2) [where B = "set (rCalls t)" and A = "set ds"]
    by (fastforce simp: job_is_due_def)
qed

text \<open>
  C6. The outcome of a snapshot is sound and final. Every status that a reconcile patches is that of a
  snapshot that was read without an outcome. It either records the start of a job that was
  just asked for, without an outcome; or a completion time together with a Succeeded condition.
  That condition is true only if the job was found complete and the newest of its pods
  carries an upload result, whose key the status records.
\<close>

theorem snapshot_outcome_sound:
  assumes laws: "kube_laws k" and run: "run_state (ReconcileSnapshot r k ns name) s = (res, t)"
    and start: "rCalls s = []" and patch: "PatchSnapshotStatus base new o1 \<in> set (rCalls t)"
  shows "GetSnapshot ns name (Inr base) \<in> set (rCalls t) \<and> snCompletionTime (snStatus base) = None \<and>
     new \<lparr>snStatus := snStatus base\<rparr> = base \<and>
     (if snCompletionTime (snStatus new) = None
      then snConditions (snStatus new) = snConditions (snStatus base) \<and> (\<exists>j o2. CreateJob j o2 \<in> set (rCalls t))
      else \<exists>c. kFindCondition k (snConditions (snStatus new)) RootfsSnapshotSucceededCondition = Some c \<and>
        (condStatus c = StatusFalse \<and> snSnapshotKey (snStatus new) = snSnapshotKey (snStatus base) \<or>
         condStatus c = StatusTrue \<and> (\<exists>u. upload_seen k base u (set (rCalls t)) \<and>
           snSnapshotKey (snStatus new) = urSnapshotKey u)))"
proof -
  obtain sn ds where ds: "rCalls t = GetSnapshot ns name (Inr sn) # ds"
      "case snCompletionTime (snStatus sn) of None \<Rightarrow> all_ok r k sn {} ds
       | Some at \<Rightarrow> completed_run sn at ds res"
    using ends_run [OF ReconcileSnapshot_calls _ run] start patch by auto
  have p: "PatchSnapshotStatus base new o1 \<in> set ds" using patch ds(1) by simp
  moreover from this have none: "snCompletionTime (snStatus sn) = None"
    using ds(2) by (fastforce simp: completed_run_def split: option.splits)
  ultimately have ok: "ok r k sn (set ds) (PatchSnapshotStatus base new o1)"
    using ds(2) by (auto simp: all_ok_def simp del: ok.simps)
  then have base: "base = sn" by simp
  have found: "\<exists>c. kFindCondition k (snConditions (snStatus (with_condition k w x [snap_cond y st reason msg])))
      RootfsSnapshotSucceededCondition = Some c \<and> condStatus c = st" for w x y st reason msg
    using kube_laws.find_set_same [OF laws, of w "snConditions (snStatus x)" "snap_cond y st reason msg"]
    by (auto simp: with_condition_def snap_cond_def same_condition_def)
  from ok consider "failure k sn new" | u where "upload_seen k sn u (set ds)" "success k u sn new"
    | j o2 cid where "CreateJob j o2 \<in> set ds" "in_progress k cid sn new"
    by auto
  then have "new \<lparr>snStatus := snStatus sn\<rparr> = sn \<and>
     (if snCompletionTime (snStatus new) = None
      then snConditions (snStatus new) = snConditions (snStatus sn) \<and> (\<exists>j o2. CreateJob j o2 \<in> set ds)
      else \<exists>c. kFindCondition k (snConditions (snStatus new)) RootfsSnapshotSucceededCondition = Some c \<and>
        (condStatus c = StatusFalse \<and> snSnapshotKey (snStatus new) = snSnapshotKey (snStatus sn) \<or>
         condStatus c = StatusTrue \<and> (\<exists>u. upload_seen k sn u (set ds) \<and>
           snSnapshotKey (snStatus new) = urSnapshotKey u)))"
  proof cases
    case 1
    then obtain w now msg where "new = with_condition k w (completed now sn)
        [snap_cond sn StatusFalse ReasonRootfsSnapshotFailed msg]" by (auto simp: failure_def)
    then show ?thesis using found [of w "completed now sn" sn StatusFalse ReasonRootfsSnapshotFailed msg]
      by (auto simp: with_condition_def completed_def)
  next
    case 2
    then obtain w now where new: "new = with_condition k w (uploaded u (completed now sn))
        [snap_cond (uploaded u (completed now sn)) StatusTrue ReasonRootfsSnapshotSucceeded
          ''Snapshot completed successfully'']" by (auto simp: success_def)
    show ?thesis using found [of w "uploaded u (completed now sn)" "uploaded u (completed now sn)" StatusTrue
        ReasonRootfsSnapshotSucceeded "''Snapshot completed successfully''"] 2(1)
      unfolding new by (auto simp: with_condition_def completed_def uploaded_def)
  next
    case 3
    then show ?thesis using none by (auto simp: in_progress_def started_def)
  qed
  moreover have "upload_seen k sn u (set ds) \<Longrightarrow> upload_seen k sn u (set (rCalls t))" for u
    by (erule evidence_mono(3)) (use ds(1) in auto)
  ultimately show ?thesis
    using none ds(1) unfolding base by (auto split: if_splits)
qed

text \<open>
  C7. A snapshot with an outcome is kept for its time to live. A reconcile that reads a completed
  snapshot writes no status and starts no job; it removes the snapshot's own job, and it deletes
  the snapshot only after a clock reading at which the time to live since the completion is over.
  When it succeeds without deleting, it asks to be called again after exactly the time that is left.
\<close>

theorem snapshot_retention:
  assumes run: "run_state (ReconcileSnapshot r k ns name) s = (res, t)" and start: "rCalls s = []"
    and read: "GetSnapshot ns name (Inr sn) \<in> set (rCalls t)" "snCompletionTime (snStatus sn) = Some at"
  shows "(\<forall>x o1. DeleteSnapshot x o1 \<in> set (rCalls t) \<longrightarrow> x = sn \<and> (\<exists>now. ReadClock now \<in> set (rCalls t) \<and>
        time_sub (time_add at (getTTLSeconds sn)) now \<le> 0)) \<and>
     (\<forall>j o1. DeleteJob j o1 \<in> set (rCalls t) \<longrightarrow>
        GetJob (metaNamespace (snMeta sn)) (GetSnapshotJobName (metaName (snMeta sn))) (Inr j) \<in> set (rCalls t)) \<and>
     (\<forall>b new j o1 o2. PatchSnapshotStatus b new o1 \<notin> set (rCalls t) \<and> CreateJob j o2 \<notin> set (rCalls t)) \<and>
     (\<forall>d. res = Inr d \<and> d \<noteq> 0 \<longrightarrow> 0 < d \<and> (\<exists>now. ReadClock now \<in> set (rCalls t) \<and>
        d = time_sub (time_add at (getTTLSeconds sn)) now))"
proof -
  obtain sn' ds where ds: "rCalls t = GetSnapshot ns name (Inr sn') # ds"
      "case snCompletionTime (snStatus sn') of None \<Rightarrow> all_ok r k sn' {} ds
       | Some at \<Rightarrow> completed_run sn' at ds res"
    using ends_run [OF ReconcileSnapshot_calls _ run] start read by auto
  have "GetSnapshot ns name (Inr sn) \<notin> set ds"
    using ds(2) by (fastforce simp: completed_run_def all_ok_def split: option.splits)
  then have "sn' = sn" using read ds(1) by auto
  then have over: "completed_run sn at ds res" using ds(2) read(2) by simp
  then have "\<forall>c \<in> set ds. retained sn at (set ds) c" by (simp add: completed_run_def)
  then have "DeleteSnapshot x o1 \<in> set ds \<Longrightarrow> retained sn at (set ds) (DeleteSnapshot x o1)"
      "DeleteJob j o1 \<in> set ds \<Longrightarrow> retained sn at (set ds) (DeleteJob j o1)"
      "PatchSnapshotStatus b new o3 \<notin> set ds" "CreateJob j o2 \<notin> set ds" for x o1 o2 o3 j b new
    by fastforce+
  moreover have "res = Inr d \<Longrightarrow> d \<noteq> 0 \<Longrightarrow> 0 < d \<and> (\<exists>now. ReadClock now \<in> set ds \<and>
      d = time_sub (time_add at (getTTLSeconds sn)) now)" for d
    using over by (auto simp: completed_run_def)
  ultimately show ?thesis unfolding ds(1) by (auto simp del: ex_simps)
qed


section \<open>Concrete runs\<close>

definition example_snapshot :: rootfs_snapshot where
  "example_snapshot =
     \<lparr>snMeta = empty_meta \<lparr>metaName := ''snap'', metaNamespace := ''ns''\<rparr>,
      snSpec = \<lparr>snSandboxName = ''sb'', snSnapshotName = [], snContainerName = ''b'',
        snTimeoutSeconds = None, snTTLSeconds = None\<rparr>,
      snStatus = empty_snapshot_status\<rparr>"

definition gvisor_pod :: pod where
  "gvisor_pod =
     \<lparr>podMeta = empty_meta \<lparr>metaName := ''sb-pod'', metaNamespace := ''ns''\<rparr>,
      podSpec = example_spec \<lparr>podRuntimeClass := Some ''gvisor'', podNodeName := ''node1''\<rparr>,
      podStatus = empty_pod_status
        \<lparr>podPhase := PodRunning, podConditions := [\<lparr>pcType = ''Ready'', pcStatus = StatusTrue\<rparr>],
         podContainerStatuses := Some
           [\<lparr>csName = ''b'', csContainerID = ''containerd://c1'', csTerminated = None\<rparr>]\<rparr>\<rparr>"

definition example_snapshotter :: snapshot_reconciler where
  "example_snapshotter = \<lparr>BucketURL = ''s3://b'', CredentialSecretName = [], UploaderImage = ''up:1'',
     UploaderImagePullPolicy = [], SnapshotServiceAccount = [], SnapshotPullSecrets = [],
     SnapshotEnabled = True, GvisorRunscPath = [], GvisorRunscRoot = ''/run/runsc'',
     GvisorInstallDir = ''/opt/gvisor'', ContainerdStateDir = ''/run/containerd''\<rparr>"

definition snapshot_world :: "rootfs_snapshot \<Rightarrow> time \<Rightarrow> sim" where
  "snapshot_world sn now = \<lparr>simSandbox = None, simPod = Some gvisor_pod, simNetPol = None,
     simSnapshot = Some sn, simJob = None, simJobPods = [], simHandler = Some ''runsc'', simNow = now\<rparr>"

definition snapshot_start :: "sim \<Rightarrow> (sim, rootfs_snapshot, call) run" where
  "snapshot_start w = \<lparr>rWorld = w, rCalls = [], rObject = example_snapshot\<rparr>"

lemma snapshot_start_calls: "rCalls (snapshot_start w) = []"
  by (simp add: snapshot_start_def)

lemmas snapshot_steps =
  ReconcileSnapshot_def reconcile_incomplete_def reconcile_with_pod_def reconcileSnapshotJob_def
  start_snapshot_job_def createSnapshotJob_def setInProgress_def snap_patchStatus_def
  snap_set_conditions_def patch_snapshot_status_def CheckRootfsSnapshotSupport_def
  CheckRuntimeClassSupport_def read_clock_def emit_event_def reconcile_complete_def
  cleanupSnapshotJob_def ttlLeft_def thenE_def choose_container_def

lemmas snapshot_sim =
  sim_kube_def sim_lookup_def sim_patch_snapshot_def has_name_def sim_not_found_def set_owner_def

lemma example_values:
  "metaName (snMeta example_snapshot) = ''snap''" "metaNamespace (snMeta example_snapshot) = ''ns''"
  "snCompletionTime (snStatus example_snapshot) = None" "SnapshotEnabled example_snapshotter"
  "BucketURL example_snapshotter = ''s3://b''" "snSandboxName (snSpec example_snapshot) = ''sb''"
  "snContainerName (snSpec example_snapshot) = ''b''" "getTTLSeconds example_snapshot = 300000000000"
  "metaName (podMeta gvisor_pod) = ''sb-pod''" "metaNamespace (podMeta gvisor_pod) = ''ns''"
  "IsPodReady (Some gvisor_pod)" "podRuntimeClass (podSpec gvisor_pod) = Some ''gvisor''"
  "map ctrName (podContainers (podSpec gvisor_pod)) = [''a'', ''b'']"
  "ExtractContainerID (Some gvisor_pod) ''b'' = Inr ''c1''"
  by code_simp+

lemma example_has_container:
  "list_ex (\<lambda>c. ctrName c = ''b'') (podContainers (podSpec gvisor_pod))"
  by code_simp

lemma example_job_run:
  "wp (ReconcileSnapshot example_snapshotter sim_kube ''ns'' ''snap'')
     (\<lambda>_ t. (\<exists>j o1. CreateJob j o1 \<in> set (rCalls t)) \<and>
        (\<exists>new o1. PatchSnapshotStatus example_snapshot new o1 \<in> set (rCalls t)))
     (snapshot_start (snapshot_world example_snapshot 1000))"
  by (simp add: snapshot_steps snapshot_sim snapshot_start_def snapshot_world_def example_values
      example_has_container GetSandboxPodName_def empty_meta_def Let_def)

theorem snapshot_job_guarded_witness:
  "\<exists>j o1 sn p ctr cid. CreateJob j o1 \<in> set (rCalls (snd (run_state
       (ReconcileSnapshot example_snapshotter sim_kube ''ns'' ''snap'')
       (snapshot_start (snapshot_world example_snapshot 1000))))) \<and>
     job_requested example_snapshotter sim_kube sn p ctr cid j \<and> IsPodReady (Some p)"
proof -
  let ?run = "run_state (ReconcileSnapshot example_snapshotter sim_kube ''ns'' ''snap'')
    (snapshot_start (snapshot_world example_snapshot 1000))"
  obtain j o1 where j: "CreateJob j o1 \<in> set (rCalls (snd ?run))"
    using example_job_run by (auto simp: wp_def split: prod.splits)
  from snapshot_job_guarded [OF surjective_pairing [of ?run] snapshot_start_calls j]
  obtain sn p ctr cid where "job_requested example_snapshotter sim_kube sn p ctr cid j"
      "job_is_due example_snapshotter sn p ctr (set (rCalls (snd ?run)))"
    by blast
  then show ?thesis using j unfolding job_is_due_def by blast
qed

theorem snapshot_outcome_sound_witness:
  "\<exists>new o1. PatchSnapshotStatus example_snapshot new o1 \<in> set (rCalls (snd (run_state
       (ReconcileSnapshot example_snapshotter sim_kube ''ns'' ''snap'')
       (snapshot_start (snapshot_world example_snapshot 1000))))) \<and>
     new \<lparr>snStatus := snStatus example_snapshot\<rparr> = example_snapshot"
proof -
  let ?run = "run_state (ReconcileSnapshot example_snapshotter sim_kube ''ns'' ''snap'')
    (snapshot_start (snapshot_world example_snapshot 1000))"
  obtain new o1 where new: "PatchSnapshotStatus example_snapshot new o1 \<in> set (rCalls (snd ?run))"
    using example_job_run by (auto simp: wp_def split: prod.splits)
  show ?thesis
    using snapshot_outcome_sound [OF sim.kube_laws_axioms surjective_pairing [of ?run] snapshot_start_calls new] new
    by blast
qed

lemma getTTLSeconds_completed: "getTTLSeconds (completed t sn) = getTTLSeconds sn"
  by (simp add: getTTLSeconds_def completed_def)

lemma completed_fields:
  "snMeta (completed t sn) = snMeta sn" "snCompletionTime (snStatus (completed t sn)) = Some t"
  by (simp_all add: completed_def)

lemma example_retention_run:
  "wp (ReconcileSnapshot example_snapshotter sim_kube ''ns'' ''snap'')
     (\<lambda>_ t. (\<exists>x o1. DeleteSnapshot x o1 \<in> set (rCalls t)) \<and>
        GetSnapshot ''ns'' ''snap'' (Inr (completed 1000 example_snapshot)) \<in> set (rCalls t))
     (snapshot_start (snapshot_world (completed 1000 example_snapshot) 400000000000))"
  by (simp add: snapshot_steps snapshot_sim snapshot_start_def snapshot_world_def
      completed_fields example_values getTTLSeconds_completed time_add_def time_sub_def min_duration_def max_duration_def Let_def)

theorem snapshot_retention_witness:
  "\<exists>x o1 now. DeleteSnapshot x o1 \<in> set (rCalls (snd (run_state
       (ReconcileSnapshot example_snapshotter sim_kube ''ns'' ''snap'')
       (snapshot_start (snapshot_world (completed 1000 example_snapshot) 400000000000))))) \<and>
     x = completed 1000 example_snapshot \<and> time_sub (time_add 1000 (getTTLSeconds x)) now \<le> 0"
proof -
  let ?run = "run_state (ReconcileSnapshot example_snapshotter sim_kube ''ns'' ''snap'')
    (snapshot_start (snapshot_world (completed 1000 example_snapshot) 400000000000))"
  obtain x o1 where x: "DeleteSnapshot x o1 \<in> set (rCalls (snd ?run))"
      and read: "GetSnapshot ''ns'' ''snap'' (Inr (completed 1000 example_snapshot)) \<in> set (rCalls (snd ?run))"
    using example_retention_run by (auto simp: wp_def split: prod.splits)
  have "snCompletionTime (snStatus (completed 1000 example_snapshot)) = Some 1000"
    by (simp add: completed_def)
  from snapshot_retention [OF surjective_pairing [of ?run] snapshot_start_calls read this] x
  show ?thesis by blast
qed

end
