(* ===== verification/Guarded.thy ===== *)
theory Guarded
  imports Traced
begin

text \<open>
  A Hoare logic for the recorded programs of \<open>Traced\<close>. What the calls so far have shown is
  summarised by a value of any type, which \<open>learn\<close> updates with each call, and \<open>guard\<close> says
  which calls that knowledge permits. \<open>keeps m Q x k\<close>: started on object \<open>x\<close> with knowledge
  \<open>k\<close>, the program makes only permitted calls and ends with a result, an object and knowledge that
  satisfy \<open>Q\<close>, whatever the calls answer. The rules are syntax directed, so that \<open>intro\<close>
  generates the verification conditions.
\<close>

fun permitted :: "('k \<Rightarrow> 'c \<Rightarrow> 'k) \<Rightarrow> ('k \<Rightarrow> 'c \<Rightarrow> bool) \<Rightarrow> 'k \<Rightarrow> 'c list \<Rightarrow> bool" where
  "permitted learn guard k [] \<longleftrightarrow> True"
| "permitted learn guard k (c # cs) \<longleftrightarrow> guard k c \<and> permitted learn guard (learn k c) cs"

lemma permitted_append:
  "permitted learn guard k (cs @ ds) \<longleftrightarrow>
     permitted learn guard k cs \<and> permitted learn guard (foldl learn k cs) ds"
  by (induction cs arbitrary: k) auto

lemma permitted_at: "permitted learn guard k (pre @ c # post) \<Longrightarrow> guard (foldl learn k pre) c"
  by (simp add: permitted_append)

locale protocol =
  fixes learn :: "'k \<Rightarrow> 'c \<Rightarrow> 'k" and guard :: "'k \<Rightarrow> 'c \<Rightarrow> bool"
begin

definition keeps ::
  "('w, 'o, 'c, 'a) program \<Rightarrow> ('a \<Rightarrow> 'o \<Rightarrow> 'k \<Rightarrow> bool) \<Rightarrow> 'o \<Rightarrow> 'k \<Rightarrow> bool" where
  "keeps m Q x k \<longleftrightarrow> (\<forall>s. rObject s = x \<longrightarrow>
     wp m (\<lambda>a t. \<exists>cs. rCalls t = rCalls s @ cs \<and> permitted learn guard k cs \<and> Q a (rObject t) (foldl learn k cs)) s)"

lemma keepsI:
  "(\<And>s. rObject s = x \<Longrightarrow>
      wp m (\<lambda>a t. \<exists>cs. rCalls t = rCalls s @ cs \<and> permitted learn guard k cs \<and> Q a (rObject t) (foldl learn k cs)) s)
     \<Longrightarrow> keeps m Q x k"
  by (simp add: keeps_def)

lemma keepsD:
  "keeps m Q x k \<Longrightarrow> rObject s = x \<Longrightarrow>
     wp m (\<lambda>a t. \<exists>cs. rCalls t = rCalls s @ cs \<and> permitted learn guard k cs \<and> Q a (rObject t) (foldl learn k cs)) s"
  by (simp add: keeps_def)

lemma keeps_run:
  assumes "keeps m Q x k" "rObject s = x" "run_state m s = (a, t)"
  shows "\<exists>cs. rCalls t = rCalls s @ cs \<and> permitted learn guard k cs \<and> Q a (rObject t) (foldl learn k cs)"
  using keepsD [OF assms(1,2)] assms(3) by (simp add: wp_def)

lemma keeps_mono:
  assumes "keeps m Q x k" "\<And>a y l. Q a y l \<Longrightarrow> R a y l"
  shows "keeps m R x k"
  unfolding keeps_def using assms by (fast intro: wp_mono [OF keepsD [OF assms(1)]])

lemma keeps_return: "Q a x k \<Longrightarrow> keeps (State_Monad.return a) Q x k"
  by (rule keepsI) simp

lemma keeps_returnE: "Q (Inr a) x k \<Longrightarrow> keeps (returnE a) Q x k"
  by (rule keepsI) simp

lemma keeps_throwE: "Q (Inl e) x k \<Longrightarrow> keeps (throwE e) Q x k"
  by (rule keepsI) simp

lemma keeps_get: "Q x x k \<Longrightarrow> keeps get_object Q x k"
  by (rule keepsI) simp

lemma keeps_set: "Q () y k \<Longrightarrow> keeps (set_object y) Q x k"
  by (rule keepsI) simp

lemma keeps_call_where:
  fixes f :: "'w \<Rightarrow> 'a \<times> 'w" and x :: 'o
  assumes "\<And>w. P (fst (f w))" "\<And>a. P a \<Longrightarrow> guard k (c a) \<and> Q a x (learn k (c a))"
  shows "keeps (call_api f c) Q x k"
proof (rule keepsI)
  fix s :: "('w, 'o, 'c) run" assume x: "rObject s = x"
  have "P a" if "f (rWorld s) = (a, w)" for a w using assms(1) [of "rWorld s"] that by simp
  then show "wp (call_api f c)
      (\<lambda>a t. \<exists>cs. rCalls t = rCalls s @ cs \<and> permitted learn guard k cs \<and> Q a (rObject t) (foldl learn k cs)) s"
    using assms(2) x by (auto split: prod.splits)
qed

lemma keeps_call: "(\<And>a. guard k (c a) \<and> Q a x (learn k (c a))) \<Longrightarrow> keeps (call_api f c) Q x k"
  by (rule keeps_call_where [where P = "\<lambda>a. True"]) simp_all

lemma keeps_bind:
  fixes m :: "('w, 'o, 'c, 'a) program" and f :: "'a \<Rightarrow> ('w, 'o, 'c, 'b) program"
  assumes m: "keeps m (\<lambda>a. keeps (f a) Q) x k"
  shows "keeps (State_Monad.bind m f) Q x k"
proof (rule keepsI)
  fix s :: "('w, 'o, 'c) run" assume x: "rObject s = x"
  let ?fin = "\<lambda>b u. \<exists>cs. rCalls u = rCalls s @ cs \<and> permitted learn guard k cs \<and> Q b (rObject u) (foldl learn k cs)"
  have "wp m (\<lambda>a t. wp (f a) ?fin t) s"
  proof (rule wp_mono [OF keepsD [OF m x]])
    fix a and t :: "('w, 'o, 'c) run"
    assume "\<exists>cs. rCalls t = rCalls s @ cs \<and> permitted learn guard k cs \<and> keeps (f a) Q (rObject t) (foldl learn k cs)"
    then obtain cs where cs: "rCalls t = rCalls s @ cs" "permitted learn guard k cs"
        "keeps (f a) Q (rObject t) (foldl learn k cs)" by blast
    show "wp (f a) ?fin t"
    proof (rule wp_mono [OF keepsD [OF cs(3) refl]])
      fix b and u :: "('w, 'o, 'c) run"
      assume "\<exists>ds. rCalls u = rCalls t @ ds \<and> permitted learn guard (foldl learn k cs) ds \<and>
          Q b (rObject u) (foldl learn (foldl learn k cs) ds)"
      then obtain ds where "rCalls u = rCalls t @ ds" "permitted learn guard (foldl learn k cs) ds"
          "Q b (rObject u) (foldl learn (foldl learn k cs) ds)" by blast
      then show "?fin b u" using cs(1,2) by (intro exI [of _ "cs @ ds"]) (simp add: permitted_append)
    qed
  qed
  then show "wp (State_Monad.bind m f) ?fin s" by simp
qed

lemma keeps_bindE:
  assumes "keeps m (\<lambda>r y l. case r of Inl e \<Rightarrow> Q (Inl e) y l | Inr a \<Rightarrow> keeps (f a) Q y l) x k"
  shows "keeps (bindE m f) Q x k"
  unfolding bindE_def
  by (rule keeps_bind, rule keeps_mono [OF assms]) (auto intro: keeps_throwE split: sum.splits)

lemma keeps_if: "(b \<Longrightarrow> keeps m Q x k) \<Longrightarrow> (\<not> b \<Longrightarrow> keeps n Q x k) \<Longrightarrow> keeps (if b then m else n) Q x k"
  by simp

lemma keeps_option:
  "(z = None \<Longrightarrow> keeps m Q x k) \<Longrightarrow> (\<And>a. z = Some a \<Longrightarrow> keeps (f a) Q x k) \<Longrightarrow>
     keeps (case z of None \<Rightarrow> m | Some a \<Rightarrow> f a) Q x k"
  by (cases z) simp_all

lemma keeps_sum:
  "(\<And>a. z = Inl a \<Longrightarrow> keeps (f a) Q x k) \<Longrightarrow> (\<And>b. z = Inr b \<Longrightarrow> keeps (g b) Q x k) \<Longrightarrow>
     keeps (case z of Inl a \<Rightarrow> f a | Inr b \<Rightarrow> g b) Q x k"
  by (cases z) simp_all

lemma keeps_prod: "(\<And>a b. z = (a, b) \<Longrightarrow> keeps (f a b) Q x k) \<Longrightarrow> keeps (case z of (a, b) \<Rightarrow> f a b) Q x k"
  by (cases z) simp_all

lemma keeps_Let: "keeps (f z) Q x k \<Longrightarrow> keeps (Let z f) Q x k"
  by simp

lemma keeps_case_known: "P e \<Longrightarrow> (case Inl e of Inl e \<Rightarrow> P e | Inr a \<Rightarrow> R a)" "R a \<Longrightarrow> (case Inr a of Inl e \<Rightarrow> P e | Inr a \<Rightarrow> R a)"
  by simp_all

lemma keeps_case:
  "(\<And>e. r = Inl e \<Longrightarrow> P e) \<Longrightarrow> (\<And>a. r = Inr a \<Longrightarrow> R a) \<Longrightarrow> (case r of Inl e \<Rightarrow> P e | Inr a \<Rightarrow> R a)"
  by (cases r) simp_all

lemmas keeps_rules =
  keeps_bind keeps_bindE keeps_return keeps_returnE keeps_throwE keeps_get keeps_set
  keeps_if keeps_option keeps_sum keeps_prod keeps_Let keeps_case_known

end

end
