(* ===== verification/Containerd.thy ===== *)
theory Containerd
  imports Prelude
begin

text \<open>
  \<open>src/internal/gvisor-installer/containerd.go\<close> and the rendering of \<open>runscconfig.go\<close>: the section of
  containerd's configuration file that the gVisor installer owns, the lookups in the merged
  configuration, and the shim's configuration. Splicing and reading the section are inverse, for
  any surrounding file.
\<close>


section \<open>TOML documents\<close>

text \<open>The library's parser and encoder are parameters; a parsed document is a table.\<close>

datatype toml =
    TString string
  | TBool bool
  | TInt int
  | TArray "toml list"
  | TTable "string \<rightharpoonup> toml"

type_synonym toml_table = "string \<rightharpoonup> toml"

fun toml_lookup_from :: "toml \<Rightarrow> string list \<Rightarrow> toml option" where
  "toml_lookup_from cur [] = Some cur"
| "toml_lookup_from cur (k # ks) =
     (case cur of
        TTable m \<Rightarrow> (case m k of None \<Rightarrow> None | Some v \<Rightarrow> toml_lookup_from v ks)
      | _ \<Rightarrow> None)"

definition tomlLookup :: "toml_table \<Rightarrow> string list \<Rightarrow> toml option" where
  "tomlLookup doc keys = toml_lookup_from (TTable doc) keys"

text \<open>\<open>v, _ := x.(string)\<close> and its like: the zero value for anything else.\<close>

fun toml_string :: "toml option \<Rightarrow> string" where
  "toml_string (Some (TString s)) = s"
| "toml_string _ = []"

fun toml_table_of :: "toml option \<Rightarrow> toml_table" where
  "toml_table_of (Some (TTable m)) = m"
| "toml_table_of _ = Map.empty"

definition criPluginIDV2 :: string where "criPluginIDV2 = ''io.containerd.grpc.v1.cri''"
definition criPluginIDV3 :: string where "criPluginIDV3 = ''io.containerd.cri.v1.runtime''"
definition runscRuntimeType :: string where "runscRuntimeType = ''io.containerd.runsc.v1''"
definition runscOptionsTypeURL :: string where "runscOptionsTypeURL = runscRuntimeType @ ''.options''"
definition defaultRuntimeName :: string where "defaultRuntimeName = ''runc''"


section \<open>The configuration file\<close>

definition re_space :: "char \<Rightarrow> bool" where
  "re_space c \<longleftrightarrow> c \<in> {CHR '' '', CHR 0x09, CHR 0x0A, CHR 0x0C, CHR 0x0D}"

definition atoi_digits :: "string \<Rightarrow> int option" where
  "atoi_digits ds = (if int (digits_value ds) \<le> max_duration then Some (int (digits_value ds)) else None)"

text \<open>\<open>versionLineRe\<close>: the digits it captures.\<close>

definition version_line :: "string \<Rightarrow> string option" where
  "version_line line =
     (let a = dropWhile re_space line in
      if \<not> prefix ''version'' a then None
      else
        (case dropWhile re_space (drop 7 a) of
           c # b \<Rightarrow>
             (let ds = takeWhile is_digit (dropWhile re_space b) in
              if c = CHR ''='' \<and> ds \<noteq> [] then Some ds else None)
         | [] \<Rightarrow> None))"

fun schema_version_lines :: "string list \<Rightarrow> int" where
  "schema_version_lines [] = 0"
| "schema_version_lines (line # lines) =
     (if prefix ''['' (trim_space line) then 0
      else
        (case version_line line of
           Some ds \<Rightarrow> (case atoi_digits ds of None \<Rightarrow> 0 | Some v \<Rightarrow> v)
         | None \<Rightarrow> schema_version_lines lines))"

definition configSchemaVersion :: "string \<Rightarrow> int" where
  "configSchemaVersion data = schema_version_lines (split_char CHR 0x0A data)"

definition criPluginID :: "int \<Rightarrow> string + string" where
  "criPluginID schemaVersion =
     (if schemaVersion = 2 then Inr criPluginIDV2
      else if 3 \<le> schemaVersion then Inr criPluginIDV3
      else Inl (''containerd config declares unsupported schema version '' @ itoa schemaVersion))"

text \<open>
  The verb \<open>%q\<close>: quotes and backslashes are escaped, control characters have their escapes; bytes
  from 0x80 on are taken to be printable text and kept.
\<close>

definition hex_digit :: "nat \<Rightarrow> char" where
  "hex_digit n = (if n < 10 then char_of (48 + n) else char_of (87 + n))"

definition quote_char :: "char \<Rightarrow> string" where
  "quote_char c =
     (let n = of_char c :: nat; bs = CHR 0x5C in
      if c = CHR 0x22 \<or> c = bs then [bs, c]
      else if n = 7 then [bs, CHR ''a'']
      else if n = 8 then [bs, CHR ''b'']
      else if n = 9 then [bs, CHR ''t'']
      else if n = 10 then [bs, CHR ''n'']
      else if n = 11 then [bs, CHR ''v'']
      else if n = 12 then [bs, CHR ''f'']
      else if n = 13 then [bs, CHR ''r'']
      else if n < 32 \<or> n = 127 then [bs, CHR ''x'', hex_digit (n div 16), hex_digit (n mod 16)]
      else [c])"

definition go_quote :: "string \<Rightarrow> string" where
  "go_quote s = [CHR 0x22] @ concat (map quote_char s) @ [CHR 0x22]"

definition runtime_header :: "string \<Rightarrow> string \<Rightarrow> string \<Rightarrow> string" where
  "runtime_header pluginID handler sub =
     ''[plugins.'' @ go_quote pluginID @ ''.containerd.runtimes.'' @ go_quote handler @ sub @ '']'' @ newline"

definition renderManagedBlock :: "string \<Rightarrow> string \<Rightarrow> string \<Rightarrow> string \<Rightarrow> string" where
  "renderManagedBlock pluginID handler shimPath shimConfigPath =
     runtime_header pluginID handler []
     @ ''  runtime_type = '' @ go_quote runscRuntimeType @ newline
     @ ''  runtime_path = '' @ go_quote shimPath @ newline
     @ ''  # Allow gVisor annotations (e.g. dev.gvisor.flag.*, mount hints) to reach runsc.'' @ newline
     @ ''  pod_annotations = ['' @ go_quote ''dev.gvisor.*'' @ '']'' @ newline
     @ runtime_header pluginID handler ''.options''
     @ ''  TypeUrl = '' @ go_quote runscOptionsTypeURL @ newline
     @ ''  ConfigPath = '' @ go_quote shimConfigPath"

definition beginMarker :: string where
  "beginMarker = ''# BEGIN isola-managed gVisor runtime (managed by isola gvisor-installer; do not edit)''"

definition endMarker :: string where
  "endMarker = ''# END isola-managed gVisor runtime''"

definition marker_error :: string where
  "marker_error = ''/etc/containerd/config.toml: begin marker present but end marker missing, refusing to touch the file''"

definition trim_newlines :: "string \<Rightarrow> string" where
  "trim_newlines s = rev (dropWhile (\<lambda>c. c = CHR 0x0A) (rev (dropWhile (\<lambda>c. c = CHR 0x0A) s)))"

text \<open>The result \<open>("", false, nil)\<close> of a file without the section is \<open>None\<close>.\<close>

definition managedBlock :: "string \<Rightarrow> string + string option" where
  "managedBlock s =
     (case str_index s beginMarker of
        None \<Rightarrow> Inr None
      | Some bi \<Rightarrow>
          (let rest = drop (bi + length beginMarker) s in
           case str_index rest endMarker of
             None \<Rightarrow> Inl marker_error
           | Some ei \<Rightarrow> Inr (Some (trim_newlines (take ei rest)))))"

definition section_of :: "string \<Rightarrow> string" where
  "section_of block = beginMarker @ newline @ block @ newline @ endMarker"

definition spliceManagedBlock :: "string \<Rightarrow> string \<Rightarrow> string + string" where
  "spliceManagedBlock s block =
     (case str_index s beginMarker of
        None \<Rightarrow>
          (let s' = (if \<not> suffix newline s \<and> s \<noteq> [] then s @ newline else s) in
           Inr (s' @ newline @ section_of block @ newline))
      | Some bi \<Rightarrow>
          (let rest = drop bi s in
           case str_index rest endMarker of
             None \<Rightarrow> Inl marker_error
           | Some ei \<Rightarrow> Inr (take bi s @ section_of block @ drop (bi + ei + length endMarker) s)))"

definition removeManagedBlock :: "string \<Rightarrow> string + string" where
  "removeManagedBlock s =
     (case str_index s beginMarker of
        None \<Rightarrow> Inr s
      | Some bi \<Rightarrow>
          (let rest = drop bi s in
           case str_index rest endMarker of
             None \<Rightarrow> Inl marker_error
           | Some ei \<Rightarrow> Inr (trim_suffix (take bi s) newline @ drop (bi + ei + length endMarker) s)))"


section \<open>The merged configuration\<close>

text \<open>
  \<open>containerd config dump\<close>, parsed: a document, or none when it does not parse. The first plugin
  with a table under the handler's name counts.
\<close>

definition runtime_in :: "toml_table \<Rightarrow> string \<Rightarrow> string \<Rightarrow> toml_table option" where
  "runtime_in doc handler pluginID =
     (case tomlLookup doc [''plugins'', pluginID, ''containerd'', ''runtimes'', handler] of
        Some (TTable m) \<Rightarrow> Some m
      | _ \<Rightarrow> None)"

definition runtimeFromDump :: "toml_table option \<Rightarrow> string \<Rightarrow> toml_table option" where
  "runtimeFromDump dump handler =
     (case dump of
        None \<Rightarrow> None
      | Some doc \<Rightarrow>
          (case runtime_in doc handler criPluginIDV2 of
             Some m \<Rightarrow> Some m
           | None \<Rightarrow> runtime_in doc handler criPluginIDV3))"

record runtime_target =
  targetShim :: string
  targetConfig :: string

definition mergedEntryOverride :: "toml_table \<Rightarrow> runtime_target \<Rightarrow> (string \<times> string) option" where
  "mergedEntryOverride rt want =
     (let p = toml_string (rt ''runtime_path'');
          opts = toml_table_of (rt ''options'');
          tu = toml_string (opts ''TypeUrl'');
          cp = toml_string (opts ''ConfigPath'') in
      if p \<noteq> targetShim want then Some (''runtime_path'', p)
      else if tu \<noteq> runscOptionsTypeURL then Some (''options.TypeUrl'', tu)
      else if cp \<noteq> targetConfig want then Some (''options.ConfigPath'', cp)
      else None)"

definition defaultRuntimeFromDump :: "toml_table \<Rightarrow> string \<Rightarrow> string" where
  "defaultRuntimeFromDump doc pluginID =
     (let s = toml_string (tomlLookup doc [''plugins'', pluginID, ''containerd'', ''default_runtime_name'']) in
      if s \<noteq> [] then s else defaultRuntimeName)"

definition systemdCgroupForRuntime :: "toml_table \<Rightarrow> string \<Rightarrow> string \<Rightarrow> bool option" where
  "systemdCgroupForRuntime doc pluginID handler =
     (case tomlLookup doc [''plugins'', pluginID, ''containerd'', ''runtimes'', handler, ''options'', ''SystemdCgroup''] of
        Some (TBool b) \<Rightarrow> Some b
      | _ \<Rightarrow> None)"

definition systemdCgroupFromDump :: "toml_table option \<Rightarrow> bool" where
  "systemdCgroupFromDump dump =
     (case dump of
        None \<Rightarrow> False
      | Some doc \<Rightarrow>
          (case List.map_filter (\<lambda>(pluginID, handler). systemdCgroupForRuntime doc pluginID handler)
                  [(criPluginIDV2, defaultRuntimeFromDump doc criPluginIDV2), (criPluginIDV2, defaultRuntimeName),
                   (criPluginIDV3, defaultRuntimeFromDump doc criPluginIDV3), (criPluginIDV3, defaultRuntimeName)] of
             [] \<Rightarrow> False
           | b # _ \<Rightarrow> b))"


section \<open>The shim's configuration\<close>

definition runscShimConfigHeader :: string where
  "runscShimConfigHeader =
     ''# Managed by the isola gvisor-installer, do not edit (changes are overwritten).'' @ newline @
     ''# Source of truth: the gvisor.installer values of the isola Helm release.'' @ newline"

definition format_bool :: "bool \<Rightarrow> string" where
  "format_bool b = (if b then ''true'' else ''false'')"

text \<open>The document that is encoded behind the header.\<close>

definition shim_config_doc :: "toml_table \<Rightarrow> string \<Rightarrow> bool \<Rightarrow> toml_table" where
  "shim_config_doc doc runscPath systemdCgroup =
     (let doc = doc(''binary_name'' \<mapsto> TString runscPath);
          flags = toml_table_of (doc ''runsc_config'');
          flags = (if flags ''systemd-cgroup'' = None
                   then flags(''systemd-cgroup'' \<mapsto> TString (format_bool systemdCgroup)) else flags) in
      doc(''runsc_config'' \<mapsto> TTable flags))"

definition renderRunscShimConfig ::
  "(string \<Rightarrow> toml_table option) \<Rightarrow> (toml_table \<Rightarrow> string + string) \<Rightarrow> string \<Rightarrow> string \<Rightarrow> bool \<Rightarrow> string + string" where
  "renderRunscShimConfig parse encode baseConfig runscPath systemdCgroup =
     (case parse baseConfig of
        None \<Rightarrow> Inl ''parsing base runsc config''
      | Some doc \<Rightarrow>
          (case encode (shim_config_doc doc runscPath systemdCgroup) of
             Inl e \<Rightarrow> Inl (''encoding runsc config: '' @ e)
           | Inr body \<Rightarrow> Inr (runscShimConfigHeader @ body)))"


section \<open>Lemmas on the managed section\<close>

lemma str_index_here: "str_index (sep @ v) sep = Some 0"
  using prefixI [of "sep @ v" sep v] by (cases "sep @ v") auto

lemma str_index_intro:
  "\<forall>j < length u. \<not> prefix sep (drop j (u @ sep @ v)) \<Longrightarrow> str_index (u @ sep @ v) sep = Some (length u)"
proof (induction u)
  case (Cons c u)
  have "\<not> prefix sep (drop 0 ((c # u) @ sep @ v))" using Cons(2) by blast
  moreover have "\<forall>j < length u. \<not> prefix sep (drop j (u @ sep @ v))"
    using Cons(2) by (metis Suc_less_eq append_Cons drop_Suc_Cons length_Cons)
  ultimately show ?case using Cons(1) by simp
qed (simp add: str_index_here)

lemma str_index_same_prefix:
  assumes "str_index (u @ sep @ v) sep = Some (length u)"
  shows "str_index (u @ sep @ w) sep = Some (length u)"
proof (rule str_index_intro, intro allI impI notI)
  fix j assume j: "j < length u" "prefix sep (drop j (u @ sep @ w))"
  then have "prefix sep ((drop j u @ sep) @ w)" by simp
  moreover have "prefix (drop j u @ sep) ((drop j u @ sep) @ w)" by simp
  ultimately have "prefix sep (drop j u @ sep)" by (rule prefix_length_prefix) simp
  then have "prefix sep ((drop j u @ sep) @ v)" by (rule prefix_prefix)
  then have "prefix sep (drop j (u @ sep @ v))" using j(1) by simp
  then show False using str_index_first [OF assms j(1)] by blast
qed

lemma str_index_after:
  assumes "d \<notin> set sep" "sep \<noteq> []" "\<not> sublist sep u"
  shows "str_index (u @ d # sep @ v) sep = Some (Suc (length u))"
proof -
  have "\<not> prefix sep (drop j u @ d # sep @ v)" for j
  proof
    let ?x = "drop j u @ d # sep @ v"
    assume p: "prefix sep ?x"
    show False
    proof (cases "length sep \<le> length (drop j u)")
      case True
      have "prefix sep (drop j u)" by (rule prefix_length_prefix [OF p _ True]) simp
      then have "sublist sep (drop j u)" by (rule prefix_imp_sublist)
      then show False using assms(3) sublist_order.order.trans [OF _ sublist_drop [of j u]] by blast
    next
      case False
      have "prefix (drop j u @ [d]) sep" by (rule prefix_length_prefix [OF _ p]) (use False in auto)
      then show False using assms(1) by (auto simp: prefix_def)
    qed
  qed
  then have "\<forall>j < length (u @ [d]). \<not> prefix sep (drop j ((u @ [d]) @ sep @ v))"
    using assms by (auto simp: less_Suc_eq_le)
  then show ?thesis using str_index_intro [of "u @ [d]" sep v] by simp
qed

lemma markers: "CHR 0x0A \<notin> set beginMarker" "CHR 0x0A \<notin> set endMarker" "beginMarker \<noteq> []" "endMarker \<noteq> []"
    "newline = [CHR 0x0A]"
  by (simp_all add: beginMarker_def endMarker_def newline_def)

lemma end_not_in_begin:
  assumes "prefix endMarker (drop i (beginMarker @ x))"
  shows "length beginMarker \<le> i"
proof (rule ccontr)
  assume i: "\<not> length beginMarker \<le> i"
  obtain y where y: "drop i beginMarker @ x = endMarker @ y" using assms i by (auto simp: prefix_def)
  moreover obtain c cs where c: "drop i beginMarker = c # cs" using i by (cases "drop i beginMarker") auto
  ultimately have hash: "c = CHR ''#''" "CHR '' '' # CHR ''E'' # drop 3 endMarker @ y = cs @ x"
    by (auto simp: endMarker_def)
  show False
  proof (cases i)
    case 0
    then have "cs @ x = drop 1 beginMarker @ x" using c by (metis drop_0 drop_Suc_Cons One_nat_def)
    then show False using hash(2) by (simp add: beginMarker_def)
  next
    case (Suc k)
    then have "c \<in> set (tl beginMarker)" using c by (metis drop_Suc in_set_dropD list.set_intros(1))
    then show False using hash(1) by (simp add: beginMarker_def)
  qed
qed

text \<open>What splicing makes of a file: something, the section, something.\<close>

definition padded :: "string \<Rightarrow> string" where
  "padded s = (if \<not> suffix newline s \<and> s \<noteq> [] then s @ newline else s)"

lemma splice_shape:
  assumes "spliceManagedBlock s block = Inr t"
  obtains (add) "\<not> sublist beginMarker s"
      "\<And>b. spliceManagedBlock s b = Inr ((padded s @ newline) @ section_of b @ newline)"
    | (replace) u m v where "s = u @ beginMarker @ m @ endMarker @ v"
      "str_index s beginMarker = Some (length u)"
      "str_index (m @ endMarker @ v) endMarker = Some (length m)"
      "\<And>b. spliceManagedBlock s b = Inr (u @ section_of b @ v)"
proof (cases "str_index s beginMarker")
  case None
  then show thesis
    by (intro add) (simp_all add: spliceManagedBlock_def Let_def padded_def str_index_none [symmetric])
next
  case (Some bi)
  obtain u r where u: "s = u @ beginMarker @ r" "length u = bi"
    using str_index_Some [OF Some] by (metis add_leD1 length_take min.absorb2)
  then obtain ei where ei: "str_index (beginMarker @ r) endMarker = Some ei"
    using assms Some by (auto simp: spliceManagedBlock_def Let_def split: option.splits)
  obtain p v where p: "beginMarker @ r = p @ endMarker @ v" "length p = ei"
    using str_index_Some [OF ei] by (metis add_leD1 length_take min.absorb2)
  have "prefix endMarker (drop ei (beginMarker @ r))" using p by (metis append_eq_conv_conj prefixI)
  then have "length beginMarker \<le> ei" by (rule end_not_in_begin)
  then have pm: "p = beginMarker @ drop (length beginMarker) p"
    using p by (metis append_eq_append_conv_if append_take_drop_id)
  define m where "m = drop (length beginMarker) p"
  have m: "p = beginMarker @ m" using pm by (simp add: m_def)
  then have m: "p = beginMarker @ m" "r = m @ endMarker @ v" using p(1) by simp_all
  have "\<not> prefix endMarker (drop j (m @ endMarker @ v))" if "j < length m" for j
    using str_index_first [OF ei, of "length beginMarker + j"] that m p(2) by simp
  then have "str_index (m @ endMarker @ v) endMarker = Some (length m)"
    by (intro str_index_intro) blast
  moreover have "spliceManagedBlock s b = Inr (u @ section_of b @ v)" for b
    using Some ei u p by (simp add: spliceManagedBlock_def Let_def)
  ultimately show thesis using replace [of u m v] u m Some by simp
qed

lemma sublist_sep:
  assumes "d \<notin> set sep" "sep \<noteq> []"
  shows "sublist sep (x @ d # y) \<longleftrightarrow> sublist sep x \<or> sublist sep y"
proof
  assume "sublist sep (x @ d # y)"
  then consider "sublist sep x" | "sublist sep (d # y)"
    | p q where "sep = p @ q" "suffix p x" "prefix q (d # y)"
    unfolding sublist_append by blast
  then show "sublist sep x \<or> sublist sep y"
  proof cases
    case 2
    then show ?thesis using assms by (cases sep) (auto simp: sublist_Cons_right)
  next
    case 3
    then have "q = []" using assms(1) by (cases q) auto
    then show ?thesis using 3 suffix_imp_sublist by auto
  qed simp
next
  show "sublist sep x \<or> sublist sep y \<Longrightarrow> sublist sep (x @ d # y)"
    by (auto simp: sublist_append sublist_Cons_right)
qed

lemma str_index_padded:
  assumes "\<not> sublist beginMarker s"
  shows "str_index ((padded s @ newline) @ beginMarker @ v) beginMarker = Some (length (padded s @ newline))"
proof -
  have "\<not> sublist beginMarker (padded s)"
    using assms sublist_sep [OF markers(1,3), of s "[]"] markers(3) by (simp add: padded_def markers(5))
  then show ?thesis using str_index_after [OF markers(1,3), of "padded s" v] by (simp add: markers(5))
qed

lemma splice_begin:
  assumes "spliceManagedBlock s b = Inr t"
  obtains u v where "t = u @ section_of b @ v" "\<And>x. str_index (u @ beginMarker @ x) beginMarker = Some (length u)"
    "\<And>c. spliceManagedBlock s c = Inr (u @ section_of c @ v)"
  using assms
proof (cases rule: splice_shape)
  case add
  then show thesis using that [of "padded s @ newline" newline] str_index_padded assms by simp
next
  case (replace u m v)
  have "str_index (u @ beginMarker @ x) beginMarker = Some (length u)" for x
    using str_index_same_prefix [of u beginMarker "m @ endMarker @ v" x] replace(1,2) by simp
  then show thesis using that [of u v] replace assms by simp
qed

lemma end_after_block:
  assumes "\<not> sublist endMarker b"
  shows "str_index (newline @ b @ newline @ endMarker @ v) endMarker = Some (length (newline @ b @ newline))"
    and "str_index (beginMarker @ newline @ b @ newline @ endMarker @ v) endMarker =
      Some (length (beginMarker @ newline @ b @ newline))"
proof -
  have "\<not> sublist endMarker beginMarker"
  proof
    assume "sublist endMarker beginMarker"
    then obtain p q where pq: "beginMarker = p @ endMarker @ q" by (auto simp: sublist_def)
    then have "prefix endMarker (drop (length p) (beginMarker @ []))"
      by (metis append_Nil2 append_eq_conv_conj prefixI)
    then have "length beginMarker \<le> length p" by (rule end_not_in_begin)
    then show False using arg_cong [OF pq, of length] markers(4) by simp
  qed
  then have "\<not> sublist endMarker (newline @ b)" "\<not> sublist endMarker (beginMarker @ newline @ b)"
    using assms sublist_sep [OF markers(2,4), of "[]" b] sublist_sep [OF markers(2,4), of beginMarker b] markers(4)
    by (simp_all add: markers(5))
  from this [THEN str_index_after [OF markers(2,4)], of v]
  show "str_index (newline @ b @ newline @ endMarker @ v) endMarker = Some (length (newline @ b @ newline))"
    "str_index (beginMarker @ newline @ b @ newline @ endMarker @ v) endMarker =
      Some (length (beginMarker @ newline @ b @ newline))"
    by (simp_all add: markers(5))
qed

lemma trim_newlines_wrap: "trim_newlines (newline @ b @ newline) = trim_newlines b"
proof -
  have "dropWhile (\<lambda>c. c = CHR 0x0A) (b @ [CHR 0x0A]) =
      (let t = dropWhile (\<lambda>c. c = CHR 0x0A) b in if t = [] then [] else t @ [CHR 0x0A])"
    by (induction b) (auto simp: Let_def)
  then show ?thesis
    by (cases "dropWhile (\<lambda>c. c = CHR 0x0A) b = []")
       (simp_all add: trim_newlines_def markers(5) Let_def del: dropWhile_eq_Nil_conv)
qed

text \<open>The begin marker found, the file continues with the section.\<close>

lemma section_eq: "u @ section_of b @ v = u @ beginMarker @ newline @ b @ newline @ endMarker @ v"
  by (simp add: section_of_def)

lemma section_at:
  assumes "\<And>x. str_index (u @ beginMarker @ x) beginMarker = Some (length u)" "\<not> sublist endMarker b"
  shows "managedBlock (u @ section_of b @ v) = Inr (Some (trim_newlines b))"
    and "spliceManagedBlock (u @ section_of b @ v) c = Inr (u @ section_of c @ v)"
    and "removeManagedBlock (u @ section_of b @ v) = Inr (trim_suffix u newline @ v)"
proof -
  have bi: "str_index (u @ section_of b @ v) beginMarker = Some (length u)"
    using assms(1) by (simp add: section_eq)
  note ei = end_after_block [OF assms(2), of v]
  show "managedBlock (u @ section_of b @ v) = Inr (Some (trim_newlines b))"
    using bi ei(1) by (simp add: managedBlock_def section_eq trim_newlines_wrap)
  show "spliceManagedBlock (u @ section_of b @ v) c = Inr (u @ section_of c @ v)"
    using bi ei(2) by (simp add: spliceManagedBlock_def Let_def section_eq)
  show "removeManagedBlock (u @ section_of b @ v) = Inr (trim_suffix u newline @ v)"
    using bi ei(2) by (simp add: removeManagedBlock_def Let_def section_eq)
qed

lemma managed_block_splice:
  assumes "spliceManagedBlock s b = Inr t" "\<not> sublist endMarker b"
  shows "managedBlock t = Inr (Some (trim_newlines b))" and "spliceManagedBlock t c = spliceManagedBlock s c"
proof -
  obtain u v where t: "t = u @ section_of b @ v" "\<And>x. str_index (u @ beginMarker @ x) beginMarker = Some (length u)"
    "\<And>c. spliceManagedBlock s c = Inr (u @ section_of c @ v)"
    using splice_begin [OF assms(1)] by blast
  from section_at [OF t(2) assms(2)] t(1,3)
  show "managedBlock t = Inr (Some (trim_newlines b))" "spliceManagedBlock t c = spliceManagedBlock s c"
    by simp_all
qed

text \<open>A rendered block has one number sign, and it does not start the end marker.\<close>

lemma quote_no_hash: "CHR ''#'' \<notin> set s \<Longrightarrow> CHR ''#'' \<notin> set (go_quote s)"
proof -
  have hex: "hex_digit n \<noteq> CHR ''#''" if "n < 16" for n
  proof
    assume "hex_digit n = CHR ''#''"
    then have "(of_char (hex_digit n) :: nat) = 35" by simp
    then show False using that by (auto simp: hex_digit_def split: if_splits)
  qed
  have "CHR ''#'' \<in> set (quote_char c) \<Longrightarrow> c = CHR ''#''" for c
    using less_mult_imp_div_less [of "of_char c" 16 16] nat_of_char_less_256 [of c] hex [of "of_char c div 16"] hex [of "of_char c mod 16"]
    by (auto simp: quote_char_def Let_def split: if_splits)
  then show "CHR ''#'' \<notin> set s \<Longrightarrow> CHR ''#'' \<notin> set (go_quote s)" by (auto simp: go_quote_def)
qed

lemma rendered_no_end:
  assumes "CHR ''#'' \<notin> set p \<union> set h \<union> set sp \<union> set cp"
  shows "\<not> sublist endMarker (renderManagedBlock p h sp cp)"
proof
  have fixed: "CHR ''#'' \<notin> set (go_quote runscRuntimeType)" "CHR ''#'' \<notin> set (go_quote ''dev.gvisor.*'')"
      "CHR ''#'' \<notin> set (go_quote runscOptionsTypeURL)"
    by (auto intro!: quote_no_hash simp: runscRuntimeType_def runscOptionsTypeURL_def)
  obtain pre post where r: "renderManagedBlock p h sp cp = pre @ CHR ''#'' # '' Allow'' @ post"
    "CHR ''#'' \<notin> set pre" "CHR ''#'' \<notin> set ('' Allow'' @ post)"
  proof (rule that)
    let ?h = "runtime_header p h"
    show "renderManagedBlock p h sp cp =
      (?h [] @ ''  runtime_type = '' @ go_quote runscRuntimeType @ newline
       @ ''  runtime_path = '' @ go_quote sp @ newline @ ''  '')
      @ CHR ''#'' # '' Allow'' @ ('' gVisor annotations (e.g. dev.gvisor.flag.*, mount hints) to reach runsc.'' @ newline
       @ ''  pod_annotations = ['' @ go_quote ''dev.gvisor.*'' @ '']'' @ newline
       @ ?h ''.options'' @ ''  TypeUrl = '' @ go_quote runscOptionsTypeURL @ newline
       @ ''  ConfigPath = '' @ go_quote cp)"
      by (simp add: renderManagedBlock_def)
  qed (use assms fixed in \<open>auto simp: runtime_header_def newline_def dest: quote_no_hash\<close>)
  assume "sublist endMarker (renderManagedBlock p h sp cp)"
  then obtain a b where "renderManagedBlock p h sp cp = a @ CHR ''#'' # tl endMarker @ b"
    by (auto simp: sublist_def endMarker_def)
  then have "pre @ CHR ''#'' # ('' Allow'' @ post) = a @ CHR ''#'' # (tl endMarker @ b)" using r(1) by metis
  then have "'' Allow'' @ post = tl endMarker @ b" using append_Cons_eq_iff [OF r(2,3)] by blast
  then show False by (simp add: endMarker_def)
qed

lemma trim_newlines_id: "s \<noteq> [] \<Longrightarrow> hd s \<noteq> CHR 0x0A \<Longrightarrow> last s \<noteq> CHR 0x0A \<Longrightarrow> trim_newlines s = s"
proof -
  assume a: "s \<noteq> []" "hd s \<noteq> CHR 0x0A" "last s \<noteq> CHR 0x0A"
  have keep: "dropWhile (\<lambda>c. c = CHR 0x0A) t = t" if "t \<noteq> []" "hd t \<noteq> CHR 0x0A" for t
    using that by (cases t) simp_all
  show ?thesis using a keep [of s] keep [of "rev s"] by (simp add: trim_newlines_def hd_rev)
qed

lemma rendered_trim: "trim_newlines (renderManagedBlock p h sp cp) = renderManagedBlock p h sp cp"
  by (rule trim_newlines_id) (simp_all add: renderManagedBlock_def runtime_header_def go_quote_def)


section \<open>Properties\<close>

text \<open>
  C14. The section that is written into the configuration file is the section that is read back,
  and splicing again replaces it without a trace of the block it replaces.
\<close>

theorem managed_block_roundtrip:
  assumes "spliceManagedBlock s b = Inr t" "\<not> sublist endMarker b"
  shows "managedBlock t = Inr (Some (trim_newlines b)) \<and> spliceManagedBlock t c = spliceManagedBlock s c"
  using managed_block_splice [OF assms] by blast

theorem managed_block_roundtrip_witness:
  "managedBlock ([CHR ''a''] @ newline @ newline @ section_of ''x'' @ newline) = Inr (Some ''x'') \<and>
   spliceManagedBlock ([CHR ''a''] @ newline @ newline @ section_of ''x'' @ newline) ''y'' = spliceManagedBlock ''a'' ''y''"
proof -
  have "spliceManagedBlock ''a'' ''x'' = Inr ([CHR ''a''] @ newline @ newline @ section_of ''x'' @ newline)"
    by code_simp
  moreover have "\<not> sublist endMarker ''x''" by code_simp
  moreover have "trim_newlines ''x'' = ''x''" by code_simp
  ultimately show ?thesis using managed_block_roundtrip [of "''a''" "''x''" _ "''y''"] by metis
qed

text \<open>
  The block the installer renders is recognised, whole, in the file it is spliced into, for
  any file and for paths and handler names without a number sign.
\<close>

theorem rendered_block_recognised:
  assumes "spliceManagedBlock s (renderManagedBlock p h sp cp) = Inr t"
    and "CHR ''#'' \<notin> set p \<union> set h \<union> set sp \<union> set cp"
  shows "managedBlock t = Inr (Some (renderManagedBlock p h sp cp))"
  using managed_block_splice(1) [OF assms(1) rendered_no_end [OF assms(2)]] by (simp only: rendered_trim)

theorem rendered_block_recognised_witness:
  "managedBlock (newline @ section_of (renderManagedBlock criPluginIDV3 ''runsc'' ''/s'' ''/c'') @ newline) =
     Inr (Some (renderManagedBlock criPluginIDV3 ''runsc'' ''/s'' ''/c''))"
proof (rule rendered_block_recognised [of "[]"])
  show "spliceManagedBlock [] (renderManagedBlock criPluginIDV3 ''runsc'' ''/s'' ''/c'') =
      Inr (newline @ section_of (renderManagedBlock criPluginIDV3 ''runsc'' ''/s'' ''/c'') @ newline)"
    by (simp add: spliceManagedBlock_def beginMarker_def)
qed (simp add: criPluginIDV3_def)

text \<open>
  Splicing keeps everything outside the section byte for byte. A file that had no section is
  extended at its end, and removing the section again leaves the file with one blank line more.
\<close>

theorem splice_frame:
  assumes "spliceManagedBlock s b = Inr t" "\<not> sublist endMarker b"
  shows "if sublist beginMarker s
    then \<exists>u m v. s = u @ beginMarker @ m @ endMarker @ v \<and> t = u @ section_of b @ v
    else t = padded s @ newline @ section_of b @ newline \<and> removeManagedBlock t = Inr (padded s @ newline)"
  using assms(1)
proof (cases rule: splice_shape)
  case add
  then have t: "t = (padded s @ newline) @ section_of b @ newline" using assms(1) by simp
  have "removeManagedBlock t = Inr (trim_suffix (padded s @ newline) newline @ newline)"
    unfolding t by (rule section_at(3) [OF str_index_padded [OF add(1)] assms(2)])
  then show ?thesis using add(1) t by (simp add: trim_suffix_def suffix_def)
next
  case (replace u m v)
  then show ?thesis using assms(1) by (auto simp: sublist_def)
qed

theorem splice_frame_witness:
  "removeManagedBlock ([CHR ''a''] @ newline @ newline @ section_of ''x'' @ newline) = Inr ([CHR ''a''] @ newline @ newline)"
proof -
  have "spliceManagedBlock ''a'' ''x'' = Inr ([CHR ''a''] @ newline @ newline @ section_of ''x'' @ newline)"
    by code_simp
  moreover have "\<not> sublist endMarker ''x''" by code_simp
  moreover have "\<not> sublist beginMarker ''a''" by code_simp
  moreover have "padded ''a'' = [CHR ''a''] @ newline" by code_simp
  ultimately show ?thesis using splice_frame [of "''a''" "''x''"] by auto
qed

lemma schema_version_pre:
  "prefix ''['' (trim_space l) \<Longrightarrow> schema_version_lines (pre @ l # post) = schema_version_lines pre"
  by (induction pre) (auto split: option.splits)

text \<open>
  The schema version is that of the file's root: whatever follows the first table header, a
  \<open>version\<close> of a table among it, does not count; and the plugin's name is found exactly for
  versions from 2 on.
\<close>

theorem schema_version_root:
  assumes "prefix ''['' (trim_space l)" "CHR 0x0A \<notin> set l"
  shows "configSchemaVersion (pre @ newline @ l @ newline @ post) = configSchemaVersion pre \<and>
    (isl (criPluginID (configSchemaVersion pre)) = (configSchemaVersion pre < 2))"
proof -
  have "split_char CHR 0x0A (pre @ newline @ l @ newline @ post) = split_char CHR 0x0A pre @ l # split_char CHR 0x0A post"
    using assms(2) by (simp add: newline_def split_char_append split_char_single)
  then show ?thesis using assms(1) by (auto simp: configSchemaVersion_def schema_version_pre criPluginID_def)
qed

theorem schema_version_root_witness:
  "configSchemaVersion (''version = 3'' @ newline @ ''[plugins]'' @ newline @ ''  version = 2'') = 3"
proof -
  have "configSchemaVersion ''version = 3'' = 3" by code_simp
  moreover have "prefix ''['' (trim_space ''[plugins]'')" by code_simp
  ultimately show ?thesis using schema_version_root [of "''[plugins]''" "''version = 3''" "''  version = 2''"] by simp
qed

text \<open>
  The shim's configuration pins \<open>binary_name\<close> to the generation's binary, keeps every other
  setting of the base configuration, and sets the cgroup driver only where the base leaves it
  open.
\<close>

theorem shim_config_exact:
  "shim_config_doc doc runscPath systemd ''binary_name'' = Some (TString runscPath) \<and>
   (k \<in> {''binary_name'', ''runsc_config''} \<or> shim_config_doc doc runscPath systemd k = doc k) \<and>
   (let old = toml_table_of (doc ''runsc_config''); new = toml_table_of (shim_config_doc doc runscPath systemd ''runsc_config'') in
    (f = ''systemd-cgroup'' \<or> new f = old f) \<and>
    new ''systemd-cgroup'' =
      (if old ''systemd-cgroup'' = None then Some (TString (format_bool systemd)) else old ''systemd-cgroup''))"
  by (auto simp: shim_config_doc_def Let_def)

text \<open>
  A merged runtime entry counts as the managed one exactly when its shim, its options type
  and its configuration path are all the managed ones.
\<close>

theorem merged_entry_exact:
  "(mergedEntryOverride rt want = None) =
     (toml_string (rt ''runtime_path'') = targetShim want \<and>
      toml_string (toml_table_of (rt ''options'') ''TypeUrl'') = runscOptionsTypeURL \<and>
      toml_string (toml_table_of (rt ''options'') ''ConfigPath'') = targetConfig want)"
  by (simp add: mergedEntryOverride_def Let_def)

end
