(* ===== verification/HostOs.thy ===== *)
theory HostOs
  imports Prelude
begin

text \<open>
  The operating system the gVisor installer works on, and its files: the calls of \<open>os\<close>, \<open>net/http\<close>
  and \<open>os/exec\<close> are the fields of the record \<open>os\<close>, a parameter. \<open>writeFileAtomic\<close> and the other file
  helpers of \<open>src/internal/gvisor-installer/binaries.go\<close> are programs over it. The locale \<open>posix\<close> states
  what the atomic writes rest on; \<open>disk\<close> interprets it on a file system any of whose calls may fail.
\<close>


section \<open>Errors\<close>

text \<open>
  Errors of the operating system, errors the code makes, wrapped and joined ones, and the one
  sentinel that is compared.
\<close>

datatype fs_error =
    NotExist string
  | OsError string
  | Failed string
  | Wrapped string fs_error
  | Joined "fs_error list"
  | CommitSettled

fun err_text :: "fs_error \<Rightarrow> string" where
  "err_text (NotExist m) = m"
| "err_text (OsError m) = m"
| "err_text (Failed m) = m"
| "err_text (Wrapped m e) = m @ '': '' @ err_text e"
| "err_text (Joined es) = str_join newline (map err_text es)"
| "err_text CommitSettled = ''target is serving but the activation is not fully committed''"

text \<open>\<open>os.IsNotExist\<close> does not unwrap, \<open>errors.Is\<close> does.\<close>

fun IsNotExist :: "fs_error \<Rightarrow> bool" where
  "IsNotExist (NotExist m) = True"
| "IsNotExist _ = False"

fun is_commit_settled :: "fs_error \<Rightarrow> bool" where
  "is_commit_settled CommitSettled = True"
| "is_commit_settled (Wrapped m e) = is_commit_settled e"
| "is_commit_settled (Joined es) = list_ex is_commit_settled es"
| "is_commit_settled _ = False"

text \<open>\<open>errors.Join\<close> drops the nil errors.\<close>

fun errors_of :: "(fs_error + unit) list \<Rightarrow> fs_error list" where
  "errors_of [] = []"
| "errors_of (Inl e # rs) = e # errors_of rs"
| "errors_of (Inr u # rs) = errors_of rs"


section \<open>Paths\<close>

definition drop_last_while :: "('a \<Rightarrow> bool) \<Rightarrow> 'a list \<Rightarrow> 'a list" where
  "drop_last_while P xs = rev (dropWhile P (rev xs))"

definition path_base :: "string \<Rightarrow> string" where
  "path_base p =
     (if p = [] then ''.''
      else (let q = drop_last_while (\<lambda>c. c = CHR ''/'') p in
            if q = [] then ''/'' else rev (takeWhile (\<lambda>c. c \<noteq> CHR ''/'') (rev q))))"

definition path_dir :: "string \<Rightarrow> string" where
  "path_dir p = path_clean (drop_last_while (\<lambda>c. c \<noteq> CHR ''/'') p)"

definition path_is_abs :: "string \<Rightarrow> bool" where
  "path_is_abs p \<longleftrightarrow> p \<noteq> [] \<and> hd p = CHR ''/''"


section \<open>The operating system\<close>

text \<open>
  The calls of the packages \<open>os\<close>, \<open>net/http\<close> and \<open>os/exec\<close> that the code makes, over a world of any
  type. An open file is named by its path. A walk lists what is below a directory, in order, with
  paths relative to it.
\<close>

record file_info =
  fiDir :: bool
  fiRegular :: bool
  fiPerm :: nat
  fiSize :: int

datatype entry_kind = EntDir | EntRegular | EntOther

record http_answer =
  httpCode :: int
  httpStatus :: string
  httpBody :: string
  httpBodyError :: "fs_error option"

type_synonym ('w, 'a) io = "('w, fs_error + 'a) state"

record 'w os =
  osReadFile :: "string \<Rightarrow> ('w, string) io"
  osStat :: "string \<Rightarrow> ('w, file_info) io"
  osLstat :: "string \<Rightarrow> ('w, file_info) io"
  osRemove :: "string \<Rightarrow> ('w, unit) io"
  osRemoveAll :: "string \<Rightarrow> ('w, unit) io"
  osMkdirAll :: "string \<Rightarrow> nat \<Rightarrow> ('w, unit) io"
  osChmod :: "string \<Rightarrow> nat \<Rightarrow> ('w, unit) io"
  osRename :: "string \<Rightarrow> string \<Rightarrow> ('w, unit) io"
  osCreateTemp :: "string \<Rightarrow> string \<Rightarrow> ('w, string) io"
  osMkdirTemp :: "string \<Rightarrow> string \<Rightarrow> ('w, string) io"
  osCreate :: "string \<Rightarrow> bool \<Rightarrow> nat \<Rightarrow> ('w, unit) io"
  osOpen :: "string \<Rightarrow> ('w, unit) io"
  osWrite :: "string \<Rightarrow> string \<Rightarrow> ('w, unit) io"
  osSync :: "string \<Rightarrow> ('w, unit) io"
  osClose :: "string \<Rightarrow> ('w, unit) io"
  osGlob :: "string \<Rightarrow> ('w, string list) io"
  osWalk :: "string \<Rightarrow> ('w, (string \<times> (fs_error + entry_kind)) list) state"
  osHttpGet :: "string \<Rightarrow> ('w, http_answer) io"
  osExecVersion :: "string \<Rightarrow> ('w, (fs_error \<times> string) + string) state"

abbreviation seq :: "('w, 'a) state \<Rightarrow> ('a \<Rightarrow> ('w, 'b) state) \<Rightarrow> ('w, 'b) state" where
  "seq \<equiv> State_Monad.bind"

abbreviation skip :: "('w, 'e + unit) state" where
  "skip \<equiv> returnE ()"

text \<open>\<open>_ = m\<close>, the error ignored; and an early return with it.\<close>

definition ignoring :: "('w, 'x) state \<Rightarrow> ('w, 'a) state \<Rightarrow> ('w, 'a) state" where
  "ignoring m n = seq m (\<lambda>_. n)"

fun each :: "('a \<Rightarrow> ('w, unit) io) \<Rightarrow> 'a list \<Rightarrow> ('w, unit) io" where
  "each f [] = skip"
| "each f (x # xs) = bindE (f x) (\<lambda>_. each f xs)"

fun each_ignoring :: "('a \<Rightarrow> ('w, 'x) state) \<Rightarrow> 'a list \<Rightarrow> ('w, unit) io" where
  "each_ignoring f [] = skip"
| "each_ignoring f (x # xs) = ignoring (f x) (each_ignoring f xs)"


section \<open>What a program may return\<close>

definition results :: "('a \<Rightarrow> bool) \<Rightarrow> ('w, 'a) state \<Rightarrow> bool" where
  "results P m \<longleftrightarrow> (\<forall>w. P (fst (run_state m w)))"

lemma results_run: "results P m \<Longrightarrow> run_state m w = (r, w') \<Longrightarrow> P r"
  by (metis fst_conv results_def)

lemma results_True: "results (\<lambda>r. True) m"
  by (simp add: results_def)

lemma results_weaken: "results P m \<Longrightarrow> (\<And>r. P r \<Longrightarrow> Q r) \<Longrightarrow> results Q m"
  by (simp add: results_def)

lemma results_return: "P a \<Longrightarrow> results P (State_Monad.return a)"
  by (simp add: results_def State_Monad.return_def)

lemma results_returnE: "P (Inr a) \<Longrightarrow> results P (returnE a)"
  unfolding returnE_def by (rule results_return)

lemma results_throwE: "P (Inl e) \<Longrightarrow> results P (throwE e)"
  unfolding throwE_def by (rule results_return)

lemma results_seq: "results Q m \<Longrightarrow> (\<And>a. Q a \<Longrightarrow> results P (f a)) \<Longrightarrow> results P (seq m f)"
  by (simp add: results_def State_Monad.bind_def split: prod.splits) (metis fst_conv)

lemma results_bindE:
  assumes "results Q m" "\<And>e. Q (Inl e) \<Longrightarrow> P (Inl e)" "\<And>a. Q (Inr a) \<Longrightarrow> results P (f a)"
  shows "results P (bindE m f)"
  unfolding bindE_def
proof (rule results_seq [OF assms(1)])
  fix r assume "Q r"
  then show "results P (case r of Inl e \<Rightarrow> throwE e | Inr a \<Rightarrow> f a)"
    using assms(2,3) by (cases r) (simp_all add: results_throwE)
qed

lemma results_any_seq: "(\<And>a. results P (f a)) \<Longrightarrow> results P (seq m f)"
  by (rule results_seq [OF results_True])

lemma results_any_bindE: "(\<And>e. P (Inl e)) \<Longrightarrow> (\<And>a. results P (f a)) \<Longrightarrow> results P (bindE m f)"
  by (rule results_bindE [OF results_True])

lemma results_ignoring: "results P n \<Longrightarrow> results P (ignoring m n)"
  unfolding ignoring_def by (rule results_any_seq)

lemma results_if: "(b \<Longrightarrow> results P m) \<Longrightarrow> (\<not> b \<Longrightarrow> results P n) \<Longrightarrow> results P (if b then m else n)"
  by simp

lemma results_case_option:
  "(x = None \<Longrightarrow> results P m) \<Longrightarrow> (\<And>a. x = Some a \<Longrightarrow> results P (f a)) \<Longrightarrow>
     results P (case x of None \<Rightarrow> m | Some a \<Rightarrow> f a)"
  by (cases x) simp_all

lemma results_case_sum:
  "(\<And>a. x = Inl a \<Longrightarrow> results P (f a)) \<Longrightarrow> (\<And>b. x = Inr b \<Longrightarrow> results P (g b)) \<Longrightarrow>
     results P (case x of Inl a \<Rightarrow> f a | Inr b \<Rightarrow> g b)"
  by (cases x) simp_all

lemma results_case_prod:
  "(\<And>a b. x = (a, b) \<Longrightarrow> results P (f a b)) \<Longrightarrow> results P (case x of (a, b) \<Rightarrow> f a b)"
  by (cases x) simp_all

lemma results_Let: "results P (f x) \<Longrightarrow> results P (Let x f)"
  by simp

lemmas results_intros =
  results_returnE results_throwE results_return results_ignoring results_if
  results_case_option results_case_sum results_case_prod results_Let

lemmas results_anys = results_intros results_any_bindE results_any_seq


section \<open>Atomic files\<close>

definition tempPrefix :: string where "tempPrefix = ''.isola-tmp.''"

definition syncDir :: "'w os \<Rightarrow> string \<Rightarrow> ('w, unit) io" where
  "syncDir os dir =
     bindE (osOpen os dir) (\<lambda>_.
     seq (osSync os dir) (\<lambda>syncErr.
     seq (osClose os dir) (\<lambda>closeErr.
       State_Monad.return (if isl syncErr then syncErr else closeErr))))"

definition write_via_temp :: "'w os \<Rightarrow> string \<Rightarrow> string \<Rightarrow> nat \<Rightarrow> ('w, unit) io" where
  "write_via_temp os p data mode =
     bindE (osCreateTemp os (path_dir p) (tempPrefix @ path_base p @ ''-*'')) (\<lambda>tmp.
     seq (osWrite os tmp data) (\<lambda>writeErr.
     seq (if isl writeErr then skip else osSync os tmp) (\<lambda>syncErr.
     seq (osClose os tmp) (\<lambda>closeErr.
       if isl writeErr \<or> isl syncErr \<or> isl closeErr
       then ignoring (osRemove os tmp) (throwE (Joined (errors_of [writeErr, syncErr, closeErr])))
       else
         seq (osChmod os tmp mode) (\<lambda>r. case r of
           Inl e \<Rightarrow> ignoring (osRemove os tmp) (throwE e)
         | Inr _ \<Rightarrow>
             seq (osRename os tmp p) (\<lambda>r. case r of
               Inl e \<Rightarrow> ignoring (osRemove os tmp) (throwE e)
             | Inr _ \<Rightarrow> syncDir os (path_dir p)))))))"

definition writeFileAtomic :: "'w os \<Rightarrow> string \<Rightarrow> string \<Rightarrow> ('w, unit) io" where
  "writeFileAtomic os p data =
     seq (osStat os p) (\<lambda>st.
       write_via_temp os p data (case st of Inr fi \<Rightarrow> fiPerm fi | Inl e \<Rightarrow> 420))"

text \<open>Only files, and failures do not matter.\<close>

definition removeStaleTemps :: "'w os \<Rightarrow> string \<Rightarrow> ('w, unit) io" where
  "removeStaleTemps os dir =
     seq (osGlob os (path_join [dir, tempPrefix @ ''*''])) (\<lambda>r. case r of
       Inl e \<Rightarrow> skip
     | Inr ms \<Rightarrow> each_ignoring (\<lambda>m. seq (osLstat os m) (\<lambda>fi. case fi of
           Inl e \<Rightarrow> skip
         | Inr fi \<Rightarrow> if fiDir fi then skip else osRemove os m)) ms)"

definition sweepStaleStaging :: "'w os \<Rightarrow> string \<Rightarrow> ('w, unit) io" where
  "sweepStaleStaging os dir =
     seq (osGlob os (path_join [dir, tempPrefix @ ''*''])) (\<lambda>r. case r of
       Inl e \<Rightarrow> skip
     | Inr ms \<Rightarrow> each_ignoring (osRemoveAll os) ms)"

text \<open>The JSON codec of the value is an argument.\<close>

definition readJSONFile :: "'w os \<Rightarrow> (string \<Rightarrow> fs_error + 'a) \<Rightarrow> string \<Rightarrow> ('w, 'a) io" where
  "readJSONFile os decode p = bindE (osReadFile os p) (\<lambda>data. State_Monad.return (decode data))"

definition writeJSONFile :: "'w os \<Rightarrow> ('a \<Rightarrow> fs_error + string) \<Rightarrow> string \<Rightarrow> 'a \<Rightarrow> ('w, unit) io" where
  "writeJSONFile os encode p v =
     (case encode v of Inl e \<Rightarrow> throwE e | Inr data \<Rightarrow> writeFileAtomic os p data)"

definition fileSHA512 :: "'w os \<Rightarrow> (string \<Rightarrow> string) \<Rightarrow> string \<Rightarrow> ('w, string) io" where
  "fileSHA512 os sha p = bindE (osReadFile os p) (\<lambda>data. returnE (sha data))"


section \<open>What a file system promises\<close>

text \<open>
  The contract the atomic writes rest on. \<open>view\<close> is what a process that starts now would find,
  \<open>past\<close> every such view after a call that may have changed it: a crash leaves one of them.
\<close>

record hfile =
  fileData :: string
  fileMode :: nat

type_synonym view = "string \<rightharpoonup> hfile"

definition moves :: "('w \<Rightarrow> view) \<Rightarrow> ('w \<Rightarrow> view list) \<Rightarrow> 'w \<Rightarrow> 'w \<Rightarrow> view \<Rightarrow> bool" where
  "moves view past w w' v \<longleftrightarrow> view w' = v \<and> past w' = past w @ [v]"

text \<open>
  A view during the write of the file \<open>f\<close> at \<open>p\<close>: the old file or the whole new one, and no other
  file changed.
\<close>

definition intact :: "view \<Rightarrow> string \<Rightarrow> hfile \<Rightarrow> view \<Rightarrow> bool" where
  "intact v p f v' \<longleftrightarrow> (v' p = v p \<or> v' p = Some f) \<and> (\<forall>q. q \<noteq> p \<longrightarrow> v q \<noteq> None \<longrightarrow> v' q = v q)"

definition held :: "('w \<Rightarrow> view) \<Rightarrow> ('w \<Rightarrow> view list) \<Rightarrow> 'w \<Rightarrow> string \<Rightarrow> hfile \<Rightarrow> 'w \<Rightarrow> bool" where
  "held view past w0 p f w \<longleftrightarrow>
     intact (view w0) p f (view w) \<and> (\<exists>h. past w = past w0 @ h \<and> list_all (intact (view w0) p f) h)"

lemma held_moves:
  "held view past w0 p f w \<Longrightarrow> moves view past w w' v \<Longrightarrow> intact (view w0) p f v \<Longrightarrow> held view past w0 p f w'"
  by (auto simp: held_def moves_def)

lemma held_same: "held view past w0 p f w \<Longrightarrow> moves view past w w' (view w) \<Longrightarrow> held view past w0 p f w'"
  by (auto simp: held_def moves_def)

lemma intact_temp: "intact v p f v' \<Longrightarrow> n \<noteq> p \<Longrightarrow> v n = None \<Longrightarrow> intact v p f (v'(n := x))"
  by (auto simp: intact_def)

lemma intact_rename:
  "intact v p f v' \<Longrightarrow> n \<noteq> p \<Longrightarrow> v n = None \<Longrightarrow> v' n = Some f \<Longrightarrow> intact v p f (v'(n := None, p := v' n))"
  by (auto simp: intact_def)

lemma wpI: "(\<And>r w'. run_state m w = (r, w') \<Longrightarrow> Q r w') \<Longrightarrow> wp m Q w"
  by (simp add: wp_def split: prod.splits)

lemma wp_bindEI:
  "(\<And>e w'. run_state m w = (Inl e, w') \<Longrightarrow> Q (Inl e) w') \<Longrightarrow>
   (\<And>a w'. run_state m w = (Inr a, w') \<Longrightarrow> wp (f a) Q w') \<Longrightarrow> wp (bindE m f) Q w"
  unfolding wp_bindE by (rule wpI) (auto split: sum.splits)

lemma wp_bindI: "(\<And>r w'. run_state m w = (r, w') \<Longrightarrow> wp (f r) Q w') \<Longrightarrow> wp (State_Monad.bind m f) Q w"
  unfolding wp_bind by (rule wpI)

lemma wp_ignoring [simp]: "wp (ignoring m n) Q w = wp m (\<lambda>r. wp n Q) w"
  by (simp add: ignoring_def)

locale posix =
  fixes os :: "'w os" and view :: "'w \<Rightarrow> view" and past :: "'w \<Rightarrow> view list"
  assumes stat: "run_state (osStat os p) w = (st, w') \<Longrightarrow> view w' = view w \<and> past w' = past w"
    and stat_mode: "run_state (osStat os p) w = (Inr fi, w') \<Longrightarrow> view w p = Some f \<Longrightarrow> fiPerm fi = fileMode f"
    and create_temp: "run_state (osCreateTemp os d (pat @ ''*'')) w = (Inr n, w') \<Longrightarrow>
      view w n = None \<and> prefix pat (path_base n) \<and> moves view past w w' ((view w)(n \<mapsto> \<lparr>fileData = [], fileMode = 384\<rparr>))"
    and create_temp_fails: "run_state (osCreateTemp os d pat) w = (Inl e, w') \<Longrightarrow> moves view past w w' (view w)"
    and writes: "run_state (osWrite os n s) w = (Inr u, w') \<Longrightarrow> view w n = Some f \<Longrightarrow>
      moves view past w w' ((view w)(n \<mapsto> f \<lparr>fileData := fileData f @ s\<rparr>))"
    and write_fails: "run_state (osWrite os n s) w = (Inl e, w') \<Longrightarrow> view w n = Some f \<Longrightarrow>
      \<exists>g. moves view past w w' ((view w)(n \<mapsto> g))"
    and syncs: "run_state (osSync os n) w = (r, w') \<Longrightarrow> moves view past w w' (view w)"
    and closes: "run_state (osClose os n) w = (r, w') \<Longrightarrow> moves view past w w' (view w)"
    and opens: "run_state (osOpen os n) w = (r, w') \<Longrightarrow> moves view past w w' (view w)"
    and chmods: "run_state (osChmod os n m) w = (Inr u, w') \<Longrightarrow> view w n = Some f \<Longrightarrow>
      moves view past w w' ((view w)(n \<mapsto> f \<lparr>fileMode := m\<rparr>))"
    and chmod_fails: "run_state (osChmod os n m) w = (Inl e, w') \<Longrightarrow> moves view past w w' (view w)"
    and renames: "run_state (osRename os n p) w = (Inr u, w') \<Longrightarrow> n \<noteq> p \<Longrightarrow>
      moves view past w w' ((view w)(n := None, p := view w n))"
    and rename_fails: "run_state (osRename os n p) w = (Inl e, w') \<Longrightarrow> moves view past w w' (view w)"
    and removes: "run_state (osRemove os n) w = (Inr u, w') \<Longrightarrow> moves view past w w' ((view w)(n := None))"
    and remove_fails: "run_state (osRemove os n) w = (Inl e, w') \<Longrightarrow> moves view past w w' (view w)"
begin

lemma held_kept:
  "held view past w0 p f w \<Longrightarrow> moves view past w w' (view w) \<Longrightarrow> held view past w0 p f w' \<and> view w' = view w"
  using held_same [of view past] by (simp add: moves_def)

lemma remove_temp:
  assumes w: "held view past w0 p f w" and n: "n \<noteq> p" "view w0 n = None"
  shows "wp (ignoring (osRemove os n) (throwE e)) (\<lambda>r w'. held view past w0 p f w' \<and> r = Inl e) w"
  unfolding wp_ignoring
proof (rule wpI)
  fix r w' assume run: "run_state (osRemove os n) w = (r, w')"
  have "held view past w0 p f w'"
  proof (cases r)
    case (Inl e)
    then show ?thesis using held_kept [OF w] remove_fails run by blast
  next
    case (Inr u)
    have "intact (view w0) p f (view w)" using w by (simp add: held_def)
    then show ?thesis using held_moves [OF w] removes run Inr intact_temp n by blast
  qed
  then show "wp (throwE e) (\<lambda>r w'. held view past w0 p f w' \<and> r = Inl e) w'" by simp
qed

lemma sync_dir:
  assumes w: "held view past w0 p f w"
  shows "wp (syncDir os d) (\<lambda>r w'. held view past w0 p f w' \<and> view w' = view w) w"
  unfolding syncDir_def
proof (rule wp_bindEI)
  fix e w1 assume "run_state (osOpen os d) w = (Inl e, w1)"
  then show "held view past w0 p f w1 \<and> view w1 = view w" using held_kept [OF w] opens by blast
next
  fix u w1 assume o: "run_state (osOpen os d) w = (Inr u, w1)"
  note w1 = held_kept [OF w opens [OF o]]
  show "wp (seq (osSync os d) (\<lambda>syncErr. seq (osClose os d) (\<lambda>closeErr.
      State_Monad.return (if isl syncErr then syncErr else closeErr))))
      (\<lambda>r w'. held view past w0 p f w' \<and> view w' = view w) w1"
  proof (rule wp_bindI, rule wp_bindI)
    fix s w2 c w3 assume r: "run_state (osSync os d) w1 = (s, w2)" "run_state (osClose os d) w2 = (c, w3)"
    have "held view past w0 p f w2" "view w2 = view w"
      using held_kept [OF conjunct1 [OF w1] syncs [OF r(1)]] w1 by simp_all
    then have "held view past w0 p f w3 \<and> view w3 = view w" using held_kept closes [OF r(2)] by metis
    then show "wp (State_Monad.return (if isl s then s else c)) (\<lambda>r w'. held view past w0 p f w' \<and> view w' = view w) w3"
      by simp
  qed
qed

text \<open>From the closed temporary file on.\<close>

lemma publish:
  assumes w: "held view past w0 p \<lparr>fileData = d, fileMode = md\<rparr> w" and n: "n \<noteq> p" "view w0 n = None"
    and t: "view w n = Some \<lparr>fileData = d, fileMode = m0\<rparr>"
  shows "wp (seq (osChmod os n md) (\<lambda>r. case r of
           Inl e \<Rightarrow> ignoring (osRemove os n) (throwE e)
         | Inr _ \<Rightarrow>
             seq (osRename os n p) (\<lambda>r. case r of
               Inl e \<Rightarrow> ignoring (osRemove os n) (throwE e)
             | Inr _ \<Rightarrow> syncDir os (path_dir p))))
      (\<lambda>r w'. held view past w0 p \<lparr>fileData = d, fileMode = md\<rparr> w' \<and>
        (r = Inr () \<longrightarrow> view w' p = Some \<lparr>fileData = d, fileMode = md\<rparr>)) w"
    (is "wp _ (\<lambda>r w'. ?held w' \<and> (r = Inr () \<longrightarrow> ?new w')) w")
proof (rule wp_bindI)
  fix r w1 assume c: "run_state (osChmod os n md) w = (r, w1)"
  have gone: "wp (ignoring (osRemove os n) (throwE e)) (\<lambda>r w'. ?held w' \<and> (r = Inr () \<longrightarrow> ?new w')) w'"
    if "?held w'" for e w'
    by (rule wp_mono [OF remove_temp [OF that n]]) auto
  show "wp (case r of Inl e \<Rightarrow> ignoring (osRemove os n) (throwE e)
      | Inr _ \<Rightarrow> seq (osRename os n p) (\<lambda>r. case r of Inl e \<Rightarrow> ignoring (osRemove os n) (throwE e)
          | Inr _ \<Rightarrow> syncDir os (path_dir p))) (\<lambda>r w'. ?held w' \<and> (r = Inr () \<longrightarrow> ?new w')) w1"
  proof (cases r)
    case (Inl e)
    then have "?held w1" using held_kept [OF w] chmod_fails c by blast
    then show ?thesis using gone Inl by simp
  next
    case (Inr u)
    let ?v1 = "(view w)(n \<mapsto> \<lparr>fileData = d, fileMode = md\<rparr>)"
    have m1: "moves view past w w1 ?v1" using chmods [of n md w u w1, OF _ t] c Inr by simp
    have "intact (view w0) p \<lparr>fileData = d, fileMode = md\<rparr> ?v1"
      using w intact_temp n by (simp add: held_def)
    then have h1: "?held w1" using held_moves [OF w m1] by simp
    have v1: "view w1 n = Some \<lparr>fileData = d, fileMode = md\<rparr>" using m1 by (simp add: moves_def)
    have "wp (seq (osRename os n p) (\<lambda>r. case r of Inl e \<Rightarrow> ignoring (osRemove os n) (throwE e)
          | Inr _ \<Rightarrow> syncDir os (path_dir p))) (\<lambda>r w'. ?held w' \<and> (r = Inr () \<longrightarrow> ?new w')) w1"
    proof (rule wp_bindI)
      fix r w2 assume rn: "run_state (osRename os n p) w1 = (r, w2)"
      show "wp (case r of Inl e \<Rightarrow> ignoring (osRemove os n) (throwE e) | Inr _ \<Rightarrow> syncDir os (path_dir p))
          (\<lambda>r w'. ?held w' \<and> (r = Inr () \<longrightarrow> ?new w')) w2"
      proof (cases r)
        case (Inl e)
        then have "?held w2" using held_kept [OF h1] rename_fails rn by blast
        then show ?thesis using gone Inl by simp
      next
        case (Inr u)
        have m2: "moves view past w1 w2 ((view w1)(n := None, p := view w1 n))"
          using renames [of n p w1 u w2] rn Inr n by simp
        have "intact (view w0) p \<lparr>fileData = d, fileMode = md\<rparr> ((view w1)(n := None, p := view w1 n))"
          using h1 intact_rename n v1 by (simp add: held_def)
        then have h2: "?held w2" using held_moves [OF h1 m2] by simp
        have "?new w2" using m2 v1 by (simp add: moves_def)
        then show ?thesis using wp_mono [OF sync_dir [OF h2]] Inr by auto
      qed
    qed
    then show ?thesis using Inr by simp
  qed
qed

text \<open>From the open temporary file to the closed one.\<close>

lemma fill_temp:
  assumes w: "held view past w0 p f w" and n: "n \<noteq> p" "view w0 n = None"
    and t: "view w n = Some \<lparr>fileData = [], fileMode = m0\<rparr>"
    and "run_state (osWrite os n d) w = (we, w1)"
      "run_state (if isl we then skip else osSync os n) w1 = (se, w2)"
      "run_state (osClose os n) w2 = (ce, w3)"
  shows "held view past w0 p f w3 \<and> (\<not> isl we \<longrightarrow> view w3 n = Some \<lparr>fileData = d, fileMode = m0\<rparr>)"
proof -
  have "held view past w0 p f w1 \<and> (\<not> isl we \<longrightarrow> view w1 n = Some \<lparr>fileData = d, fileMode = m0\<rparr>)"
  proof (cases we)
    case (Inl e)
    then obtain g where m: "moves view past w w1 ((view w)(n \<mapsto> g))" using write_fails [OF _ t] assms(5) by blast
    moreover have "intact (view w0) p f ((view w)(n \<mapsto> g))" using w n intact_temp by (simp add: held_def)
    ultimately show ?thesis using held_moves [OF w m] Inl by simp
  next
    case (Inr u)
    then have m: "moves view past w w1 ((view w)(n \<mapsto> \<lparr>fileData = d, fileMode = m0\<rparr>))"
      using writes [OF _ t, of d u w1] assms(5) by simp
    moreover have "intact (view w0) p f ((view w)(n \<mapsto> \<lparr>fileData = d, fileMode = m0\<rparr>))"
      using w n intact_temp by (simp add: held_def)
    ultimately show ?thesis using held_moves [OF w m] by (simp add: moves_def)
  qed
  moreover have "held view past w0 p f w2 \<and> view w2 = view w1" if "held view past w0 p f w1"
    using held_kept [OF that] syncs assms(6) that by (auto simp: returnE_def split: if_splits)
  moreover have "held view past w0 p f w3 \<and> view w3 = view w2" if "held view past w0 p f w2"
    using held_kept [OF that] closes assms(7) by blast
  ultimately show ?thesis by simp
qed

lemma write_via_temp_held:
  assumes p: "\<not> prefix tempPrefix (path_base p)" and same: "view w = view w0" "past w = past w0"
  shows "wp (write_via_temp os p d md) (\<lambda>r w'. held view past w0 p \<lparr>fileData = d, fileMode = md\<rparr> w' \<and>
      (r = Inr () \<longrightarrow> view w' p = Some \<lparr>fileData = d, fileMode = md\<rparr>)) w"
    (is "wp _ (\<lambda>r w'. ?held w' \<and> (r = Inr () \<longrightarrow> ?new w')) w")
  unfolding write_via_temp_def
proof (rule wp_bindEI)
  have start: "?held w" using same by (simp add: held_def intact_def)
  fix e w1 assume "run_state (osCreateTemp os (path_dir p) (tempPrefix @ path_base p @ ''-*'')) w = (Inl e, w1)"
  then show "?held w1 \<and> (Inl e = Inr () \<longrightarrow> ?new w1)" using held_kept [OF start] create_temp_fails by blast
next
  have start: "?held w" using same by (simp add: held_def intact_def)
  fix n w1 assume "run_state (osCreateTemp os (path_dir p) (tempPrefix @ path_base p @ ''-*'')) w = (Inr n, w1)"
  then have n: "view w n = None" "prefix (tempPrefix @ path_base p @ ''-'') (path_base n)"
      "moves view past w w1 ((view w)(n \<mapsto> \<lparr>fileData = [], fileMode = 384\<rparr>))"
    using create_temp [of "path_dir p" "tempPrefix @ path_base p @ ''-''" w n w1] by simp_all
  then have np: "n \<noteq> p" "view w0 n = None"
    using p same prefix_order.trans [of tempPrefix "tempPrefix @ path_base p @ ''-''" "path_base n"] by auto
  have "intact (view w0) p \<lparr>fileData = d, fileMode = md\<rparr> ((view w)(n \<mapsto> \<lparr>fileData = [], fileMode = 384\<rparr>))"
    using start np intact_temp by (simp add: held_def)
  then have w1: "?held w1" using held_moves [OF start n(3)] by simp
  have t: "view w1 n = Some \<lparr>fileData = [], fileMode = 384\<rparr>" using n(3) by (simp add: moves_def)
  show "wp (seq (osWrite os n d) (\<lambda>writeErr.
     seq (if isl writeErr then skip else osSync os n) (\<lambda>syncErr.
     seq (osClose os n) (\<lambda>closeErr.
       if isl writeErr \<or> isl syncErr \<or> isl closeErr
       then ignoring (osRemove os n) (throwE (Joined (errors_of [writeErr, syncErr, closeErr])))
       else
         seq (osChmod os n md) (\<lambda>r. case r of
           Inl e \<Rightarrow> ignoring (osRemove os n) (throwE e)
         | Inr _ \<Rightarrow>
             seq (osRename os n p) (\<lambda>r. case r of
               Inl e \<Rightarrow> ignoring (osRemove os n) (throwE e)
             | Inr _ \<Rightarrow> syncDir os (path_dir p)))))))
     (\<lambda>r w'. ?held w' \<and> (r = Inr () \<longrightarrow> ?new w')) w1"
  proof (rule wp_bindI, rule wp_bindI, rule wp_bindI)
    fix we w2 se w3 ce w4
    assume "run_state (osWrite os n d) w1 = (we, w2)"
      "run_state (if isl we then skip else osSync os n) w2 = (se, w3)" "run_state (osClose os n) w3 = (ce, w4)"
    note filled = fill_temp [OF w1 np t this]
    show "wp (if isl we \<or> isl se \<or> isl ce
       then ignoring (osRemove os n) (throwE (Joined (errors_of [we, se, ce])))
       else seq (osChmod os n md) (\<lambda>r. case r of
           Inl e \<Rightarrow> ignoring (osRemove os n) (throwE e)
         | Inr _ \<Rightarrow>
             seq (osRename os n p) (\<lambda>r. case r of
               Inl e \<Rightarrow> ignoring (osRemove os n) (throwE e)
             | Inr _ \<Rightarrow> syncDir os (path_dir p))))
       (\<lambda>r w'. ?held w' \<and> (r = Inr () \<longrightarrow> ?new w')) w4"
    proof (cases "isl we \<or> isl se \<or> isl ce")
      case True
      have "wp (ignoring (osRemove os n) (throwE (Joined (errors_of [we, se, ce]))))
          (\<lambda>r w'. ?held w' \<and> (r = Inr () \<longrightarrow> ?new w')) w4"
        by (rule wp_mono [OF remove_temp [OF conjunct1 [OF filled] np]]) simp
      then show ?thesis using True by presburger
    next
      case False
      then show ?thesis using publish [OF conjunct1 [OF filled] np] filled by simp
    qed
  qed
qed

lemma writeFileAtomic_held:
  assumes p: "\<not> prefix tempPrefix (path_base p)" and run: "run_state (writeFileAtomic os p d) w0 = (r, w)"
  shows "\<exists>md. (view w0 p = None \<or> md \<in> {420, fileMode (the (view w0 p))}) \<and>
      held view past w0 p \<lparr>fileData = d, fileMode = md\<rparr> w \<and>
      (r = Inr () \<longrightarrow> view w p = Some \<lparr>fileData = d, fileMode = md\<rparr>)"
proof -
  obtain st w1 where s: "run_state (osStat os p) w0 = (st, w1)" by (cases "run_state (osStat os p) w0")
  define md where "md = (case st of Inr fi \<Rightarrow> fiPerm fi | Inl e \<Rightarrow> 420)"
  have md: "view w0 p = None \<or> md \<in> {420, fileMode (the (view w0 p))}"
    using s stat_mode by (cases "view w0 p"; cases st) (auto simp: md_def)
  have "run_state (write_via_temp os p d md) w1 = (r, w)"
    using run s by (simp add: writeFileAtomic_def State_Monad.bind_def md_def)
  from wp_run [OF write_via_temp_held [OF p, of w1 w0] this] stat [OF s] md show ?thesis by blast
qed

end


section \<open>A disk\<close>

text \<open>A file system of the model: any call may fail, as \<open>dkFaults\<close> says by the number of the call.\<close>

record disk =
  dkFiles :: view
  dkDirs :: "string \<rightharpoonup> nat"
  dkPast :: "view list"
  dkTick :: nat
  dkFaults :: "nat \<Rightarrow> bool"

definition settle :: "view \<Rightarrow> disk \<Rightarrow> disk" where
  "settle v w = w \<lparr>dkFiles := v, dkPast := dkPast w @ [v], dkTick := dkTick w + 1\<rparr>"

definition disk_call :: "(view \<Rightarrow> (fs_error + 'a) \<times> view) \<Rightarrow> (view \<Rightarrow> view) \<Rightarrow> (disk, 'a) io" where
  "disk_call f broken = State (\<lambda>w.
     if dkFaults w (dkTick w) then (Inl (OsError ''i/o error''), settle (broken (dkFiles w)) w)
     else (case f (dkFiles w) of (r, v) \<Rightarrow> (r, settle v w)))"

definition disk_stat :: "string \<Rightarrow> (disk, file_info) io" where
  "disk_stat p = State (\<lambda>w.
     if dkFaults w (dkTick w) then (Inl (OsError ''i/o error''), w \<lparr>dkTick := dkTick w + 1\<rparr>)
     else
       (case dkFiles w p of
          None \<Rightarrow>
            (case dkDirs w p of
               None \<Rightarrow> (Inl (NotExist p), w)
             | Some m \<Rightarrow> (Inr \<lparr>fiDir = True, fiRegular = False, fiPerm = m, fiSize = 0\<rparr>, w))
        | Some f \<Rightarrow> (Inr \<lparr>fiDir = False, fiRegular = True, fiPerm = fileMode f, fiSize = int (length (fileData f))\<rparr>, w)))"

definition on_file :: "string \<Rightarrow> (hfile \<Rightarrow> hfile) \<Rightarrow> view \<Rightarrow> (fs_error + unit) \<times> view" where
  "on_file p f v = (case v p of None \<Rightarrow> (Inl (NotExist p), v) | Some x \<Rightarrow> (Inr (), v(p \<mapsto> f x)))"

definition disk_temp :: "string \<Rightarrow> string \<Rightarrow> (disk, string) io" where
  "disk_temp d pattern = seq State_Monad.get (\<lambda>w. disk_call (\<lambda>v.
     let n = d @ ''/'' @ trim_suffix pattern ''*'' @ nat_digits (dkTick w) in
     if CHR ''/'' \<in> set pattern \<or> v n \<noteq> None then (Inl (OsError ''bad name''), v)
     else (Inr n, v(n \<mapsto> \<lparr>fileData = [], fileMode = 384\<rparr>))) id)"

text \<open>Directories have no part in the view.\<close>

definition disk_dir :: "string \<Rightarrow> nat \<Rightarrow> (disk, unit) io" where
  "disk_dir p m = State (\<lambda>w.
     if dkFaults w (dkTick w) then (Inl (OsError ''i/o error''), settle (dkFiles w) w)
     else (Inr (), settle (dkFiles w) w \<lparr>dkDirs := (dkDirs w)(p \<mapsto> m)\<rparr>))"

definition disk_chmod :: "string \<Rightarrow> nat \<Rightarrow> (disk, unit) io" where
  "disk_chmod p m = seq State_Monad.get (\<lambda>w.
     if dkFiles w p = None \<and> dkDirs w p \<noteq> None then disk_dir p m
     else disk_call (on_file p (\<lambda>f. f \<lparr>fileMode := m\<rparr>)) id)"

definition kept :: "(disk, unit) io" where
  "kept = disk_call (\<lambda>v. (Inr (), v)) id"

definition sim_os :: "disk os" where
  "sim_os = \<lparr>
     osReadFile = (\<lambda>p. disk_call (\<lambda>v. (case v p of None \<Rightarrow> Inl (NotExist p) | Some f \<Rightarrow> Inr (fileData f), v)) id),
     osStat = disk_stat, osLstat = disk_stat,
     osRemove = (\<lambda>p. disk_call (\<lambda>v. if v p = None then (Inl (NotExist p), v) else (Inr (), v(p := None))) id),
     osRemoveAll = (\<lambda>p. disk_call (\<lambda>v. (Inr (), v(p := None))) id),
     osMkdirAll = disk_dir, osChmod = disk_chmod,
     osRename = (\<lambda>p q. disk_call (\<lambda>v. case v p of None \<Rightarrow> (Inl (NotExist p), v)
       | Some f \<Rightarrow> (Inr (), v(p := None, q \<mapsto> f))) id),
     osCreateTemp = disk_temp, osMkdirTemp = disk_temp,
     osCreate = (\<lambda>p ex m. disk_call (\<lambda>v. if ex \<and> v p \<noteq> None then (Inl (OsError p), v)
       else (Inr (), v(p \<mapsto> \<lparr>fileData = [], fileMode = m\<rparr>))) id),
     osOpen = (\<lambda>p. kept),
     osWrite = (\<lambda>p s. disk_call (on_file p (\<lambda>f. f \<lparr>fileData := fileData f @ s\<rparr>))
       (\<lambda>v. case v p of None \<Rightarrow> v | Some f \<Rightarrow> v(p \<mapsto> f \<lparr>fileData := fileData f @ take (length s div 2) s\<rparr>))),
     osSync = (\<lambda>p. kept), osClose = (\<lambda>p. kept),
     osGlob = (\<lambda>p. returnE []), osWalk = (\<lambda>p. State_Monad.return []),
     osHttpGet = (\<lambda>u. throwE (OsError ''no network'')),
     osExecVersion = (\<lambda>p. State_Monad.return (Inl (OsError ''no such program'', [])))\<rparr>"

lemma disk_call_run:
  "run_state (disk_call f broken) w =
     (if dkFaults w (dkTick w) then (Inl (OsError ''i/o error''), settle (broken (dkFiles w)) w)
      else (case f (dkFiles w) of (r, v) \<Rightarrow> (r, settle v w)))"
  by (simp add: disk_call_def)

lemma settle_moves: "moves dkFiles dkPast w (settle v w) v" "moves dkFiles dkPast w (settle v w \<lparr>dkDirs := ds\<rparr>) v"
  by (simp_all add: moves_def settle_def)

lemma path_base_last:
  assumes "CHR ''/'' \<notin> set b" "b \<noteq> []"
  shows "path_base (d @ CHR ''/'' # b) = b"
proof -
  let ?r = "rev b @ CHR ''/'' # rev d"
  have "dropWhile (\<lambda>c. c = CHR ''/'') ?r = ?r"
    using assms by (cases "rev b") auto
  moreover have "takeWhile (\<lambda>c. c \<noteq> CHR ''/'') ?r = rev b"
    using assms by (subst takeWhile_append2) auto
  moreover have "?r \<noteq> []" by simp
  ultimately show ?thesis by (simp add: path_base_def drop_last_while_def Let_def)
qed

lemma path_base_temp:
  "CHR ''/'' \<notin> set pat \<Longrightarrow> path_base (d @ CHR ''/'' # pat @ nat_digits k) = pat @ nat_digits k"
  using nat_digits_digits [of "CHR ''/''" k] by (intro path_base_last) (auto simp: is_digit_def)

interpretation disk: posix sim_os dkFiles dkPast
proof (unfold_locales, goal_cases)
  case 1 then show ?case by (auto simp: sim_os_def disk_stat_def split: if_splits option.splits)
next
  case 2 then show ?case by (auto simp: sim_os_def disk_stat_def split: if_splits option.splits)
next
  case (3 d pat w n w')
  then show ?case
    by (auto simp: sim_os_def disk_temp_def disk_call_run State_Monad.bind_def State_Monad.get_def Let_def trim_suffix_def
        path_base_temp settle_moves split: if_splits)
next
  case 4
  then show ?case
    by (auto simp: sim_os_def disk_temp_def disk_call_run State_Monad.bind_def State_Monad.get_def Let_def
        settle_moves split: if_splits)
next
  case 6
  then show ?case
    by (auto simp: sim_os_def disk_call_run on_file_def intro!: exI settle_moves split: if_splits)
qed (auto simp: sim_os_def kept_def disk_chmod_def disk_dir_def State_Monad.bind_def State_Monad.get_def disk_call_run on_file_def settle_moves fun_upd_idem split: if_splits option.splits)




end
