(* ===== verification/Archive.thy ===== *)
theory Archive
  imports Containerd HostOs "HOL-Library.AList"
begin

text \<open>
  The pure parts of the gVisor installer's configuration, \<open>config.go\<close>, and its archives:
  \<open>src/internal/gvisor-installer/extract.go\<close> and the checksum file of \<open>binaries.go\<close>. The tar reader is the
  list of what it yields; SHA-512 is a parameter.
\<close>


section \<open>Configuration\<close>

definition containerdConfigPath :: string where "containerdConfigPath = ''/etc/containerd/config.toml''"
definition containerdConfigBackupPath :: string where
  "containerdConfigBackupPath = ''/etc/containerd/config.toml.isola-orig''"
definition stateFilePath :: string where "stateFilePath = ''/etc/containerd/isola-gvisor-state.json''"
definition minVersion :: string where "minVersion = ''20260721.0''"

record config =
  cfgNodeName :: string
  cfgVersion :: string
  cfgURLBase :: string
  cfgHandler :: string
  cfgInstallDir :: string
  cfgHostRoot :: string
  cfgRunscSrc :: string
  cfgHealthAddr :: string
  cfgReconcileInterval :: duration
  cfgRetryInterval :: duration
  cfgReconcileTimeout :: duration

definition hostPath :: "config \<Rightarrow> string \<Rightarrow> string" where
  "hostPath c p = path_join [cfgHostRoot c, p]"

definition releasesDir :: "config \<Rightarrow> string" where
  "releasesDir c = path_join [cfgInstallDir c, ''releases'']"

definition configsDir :: "config \<Rightarrow> string" where
  "configsDir c = path_join [cfgInstallDir c, ''runsc-configs'']"

text \<open>\<open>versionRe\<close>: eight digits, a dot, digits; what it captures first.\<close>

definition version_date :: "string \<Rightarrow> string option" where
  "version_date v =
     (let d = take 8 v; r = drop 8 v in
      if length d = 8 \<and> list_all is_digit d \<and> r \<noteq> [] \<and> hd r = CHR ''.'' \<and> tl r \<noteq> [] \<and> list_all is_digit (tl r)
      then Some d else None)"

definition validateVersion :: "string \<Rightarrow> fs_error + unit" where
  "validateVersion v =
     (if v = [] then Inl (Failed ''GVISOR_VERSION is required'')
      else
        (case version_date v of
           None \<Rightarrow> Inl (Failed (''GVISOR_VERSION '' @ quoted v @ '' must be a dated release of the form YYYYMMDD.PATCH''))
         | Some d \<Rightarrow>
             if digits_value d < digits_value (take 8 minVersion)
             then Inl (Failed (''GVISOR_VERSION '' @ quoted v @ '' predates '' @ minVersion))
             else Inr ()))"

text \<open>\<open>handlerRe\<close>: a lowercase DNS label.\<close>

definition handler_ok :: "string \<Rightarrow> bool" where
  "handler_ok h \<longleftrightarrow>
     (let alnum = (\<lambda>c. is_digit c \<or> char_in CHR ''a'' CHR ''z'' c) in
      h \<noteq> [] \<and> alnum (hd h) \<and> alnum (last h) \<and> list_all (\<lambda>c. alnum c \<or> c = CHR ''-'') h)"


section \<open>Archives\<close>

definition runscBinary :: string where "runscBinary = ''runsc''"
definition shimBinary :: string where "shimBinary = ''containerd-shim-runsc-v1''"
definition archiveName :: string where "archiveName = ''gvisor.tar.bz2''"
definition sidecarDirName :: string where "sidecarDirName = ''gvisor-bin''"
definition checkpointGofer :: string where "checkpointGofer = sidecarDirName @ ''/checkpointgofer''"
definition manifestFileName :: string where "manifestFileName = ''.manifest.json''"
definition maxExtractedTotalBytes :: int where "maxExtractedTotalBytes = 2 * 2 ^ 30"
definition maxArchiveEntries :: nat where "maxArchiveEntries = 256"
definition sha512HexLen :: nat where "sha512HexLen = 128"

record extracted_file =
  exSHA512 :: string
  exMode :: string

definition is_hex_digit :: "char \<Rightarrow> bool" where
  "is_hex_digit c \<longleftrightarrow> is_digit c \<or> char_in CHR ''a'' CHR ''f'' c \<or> char_in CHR ''A'' CHR ''F'' c"

definition isHex :: "string \<Rightarrow> bool" where
  "isHex s \<longleftrightarrow> even (length s) \<and> list_all is_hex_digit s"

definition normalizeEntryName :: "string \<Rightarrow> fs_error + string" where
  "normalizeEntryName raw =
     (let name = trim_suffix (trim_prefix raw ''./'') ''/'';
          unsafe = Failed (''archive entry '' @ go_quote raw @ '' has an unsafe path'');
          parts = split_char CHR ''/'' name;
          base = last parts in
      if \<not> is_local name then Inl unsafe
      else if list_ex (\<lambda>p. p = [] \<or> p = ''.'' \<or> p = ''..'') parts then Inl unsafe
      else if \<not> (length parts = 1 \<or> length parts = 2 \<and> hd parts = sidecarDirName)
      then Inl (Failed (''archive entry '' @ go_quote raw @ '' is outside the expected flat layout''))
      else if base = manifestFileName \<or> prefix tempPrefix base
      then Inl (Failed (''archive entry '' @ go_quote raw @ '' collides with an installer-reserved name''))
      else Inr name)"

definition isKnownEntry :: "string \<Rightarrow> bool" where
  "isKnownEntry name \<longleftrightarrow> name = runscBinary \<or> name = shimBinary \<or> prefix (sidecarDirName @ ''/'') name"

text \<open>Modes 0755 and 0644; of the header's mode the executable bits count.\<close>

definition mode755 :: nat where "mode755 = 493"
definition mode644 :: nat where "mode644 = 420"

definition entryMode :: "string \<Rightarrow> int \<Rightarrow> nat" where
  "entryMode name hdrMode =
     (if isKnownEntry name \<or> prefix (sidecarDirName @ ''/'') name then mode755
      else if and hdrMode 73 \<noteq> 0 then mode755
      else mode644)"

text \<open>The verb \<open>%#o\<close>.\<close>

fun octal :: "nat \<Rightarrow> string" where
  "octal n = (if n < 8 then [char_of (48 + n)] else octal (n div 8) @ [char_of (48 + n mod 8)])"

declare octal.simps [simp del]

definition mode_text :: "nat \<Rightarrow> string" where
  "mode_text m = (if m = 0 then ''0'' else CHR ''0'' # octal m)"

datatype entry_type = TypeDir | TypeReg | TypeOther nat

text \<open>An entry of a tar stream: its data, as far as it can be read, and the error after it, if any.\<close>

record tar_entry =
  teName :: string
  teType :: entry_type
  teMode :: int
  teData :: string
  teError :: "fs_error option"

definition writeEntry ::
  "'w os \<Rightarrow> (string \<Rightarrow> string) \<Rightarrow> string \<Rightarrow> string \<Rightarrow> nat \<Rightarrow> tar_entry \<Rightarrow> int \<Rightarrow> ('w, extracted_file \<times> int) io" where
  "writeEntry os sha destDir name mode e remaining =
     (let too_big = Failed (''archive exceeds '' @ itoa maxExtractedTotalBytes @ '' extracted bytes'') in
      if remaining \<le> 0 then throwE too_big
      else
        (let dest = path_join [destDir, name]; dir = path_dir dest in
         bindE (if dir \<noteq> destDir
                then bindE (osMkdirAll os dir mode755) (\<lambda>_. osChmod os dir mode755)
                else skip) (\<lambda>_.
         bindE (osCreate os dest True mode) (\<lambda>_.
         seq (osChmod os dest mode) (\<lambda>r. case r of
           Inl e \<Rightarrow> ignoring (osClose os dest) (throwE e)
         | Inr _ \<Rightarrow>
             (let chunk = take (nat remaining + 1) (teData e); n = int (length chunk) in
              seq (osWrite os dest chunk) (\<lambda>wr.
              seq (osClose os dest) (\<lambda>closeErr.
                let copyErr = (case wr of Inl x \<Rightarrow> Some x
                               | Inr _ \<Rightarrow> if int (length (teData e)) \<le> remaining then teError e else None);
                    copyErr = (if copyErr = None \<and> remaining < n then Some too_big else copyErr);
                    copyErr = (if copyErr = None \<and> n = 0 then Some (Failed ''empty file'') else copyErr) in
                case copyErr of
                  Some x \<Rightarrow> throwE x
                | None \<Rightarrow> (case closeErr of
                      Inl x \<Rightarrow> throwE x
                    | Inr _ \<Rightarrow> returnE (\<lparr>exSHA512 = sha chunk, exMode = mode_text mode\<rparr>, n))))))))))"

text \<open>The loop over the entries: how many there were, the bytes written, the files recorded.\<close>

type_synonym files = "(string \<times> extracted_file) list"

fun extract_loop ::
  "'w os \<Rightarrow> (string \<Rightarrow> string) \<Rightarrow> string \<Rightarrow> (fs_error + tar_entry) list \<Rightarrow> nat \<Rightarrow> int \<Rightarrow> files \<Rightarrow> ('w, files) io" where
  "extract_loop os sha destDir [] entries sofar files = returnE files"
| "extract_loop os sha destDir (Inl err # es) entries sofar files = throwE (Wrapped ''reading archive'' err)"
| "extract_loop os sha destDir (Inr hdr # es) entries sofar files =
     (if maxArchiveEntries < entries + 1
      then throwE (Failed (''archive has more than '' @ nat_digits maxArchiveEntries @ '' entries''))
      else
        (case normalizeEntryName (teName hdr) of
           Inl err \<Rightarrow> throwE err
         | Inr name \<Rightarrow>
             if teType hdr = TypeDir then
               (if name \<noteq> sidecarDirName
                then throwE (Failed (''archive contains unexpected directory '' @ go_quote name))
                else extract_loop os sha destDir es (entries + 1) sofar files)
             else if teType hdr \<noteq> TypeReg
             then throwE (Failed (''archive entry '' @ go_quote name @ '' is not a regular file''))
             else if name = sidecarDirName
             then throwE (Failed (''archive entry '' @ go_quote name @ '' collides with the sidecar directory''))
             else
               seq (writeEntry os sha destDir name (entryMode name (teMode hdr)) hdr (maxExtractedTotalBytes - sofar)) (\<lambda>r.
                 case r of
                   Inl err \<Rightarrow> throwE (Wrapped (''extracting '' @ go_quote name) err)
                 | Inr (rec, n) \<Rightarrow>
                     extract_loop os sha destDir es (entries + 1) (sofar + n) (AList.update name rec files))))"

definition required_files :: "string list" where
  "required_files = [runscBinary, shimBinary, checkpointGofer]"

definition missing_file :: "files \<Rightarrow> string option" where
  "missing_file files = find (\<lambda>n. map_of files n = None) required_files"

definition extractTar :: "'w os \<Rightarrow> (string \<Rightarrow> string) \<Rightarrow> (fs_error + tar_entry) list \<Rightarrow> string \<Rightarrow> ('w, files) io" where
  "extractTar os sha es destDir =
     bindE (extract_loop os sha destDir es 0 0 []) (\<lambda>files.
       case missing_file files of
         Some n \<Rightarrow> throwE (Failed (''archive is missing required entry '' @ go_quote n))
       | None \<Rightarrow> returnE files)"

text \<open>\<open>strings.Fields\<close> and the checksum file.\<close>

fun fields_from :: "string \<Rightarrow> string \<Rightarrow> string list" where
  "fields_from cur [] = (if cur = [] then [] else [cur])"
| "fields_from cur (c # s) =
     (if is_space c then (if cur = [] then fields_from [] s else cur # fields_from [] s)
      else fields_from (cur @ [c]) s)"

definition str_fields :: "string \<Rightarrow> string list" where
  "str_fields s = fields_from [] s"

definition to_lower :: "string \<Rightarrow> string" where
  "to_lower s = map (\<lambda>c. if char_in CHR ''A'' CHR ''Z'' c then char_of ((of_char c :: nat) + 32) else c) s"

definition parseSHA512File :: "string \<Rightarrow> fs_error + string" where
  "parseSHA512File body =
     (case str_fields (trim_space body) of
        [f0, f1] \<Rightarrow>
          (let sum = to_lower f0; name = trim_prefix f1 ''*'' in
           if length sum \<noteq> sha512HexLen \<or> \<not> isHex sum
           then Inl (Failed (go_quote f0 @ '' is not a sha512 hex digest''))
           else if name \<noteq> archiveName
           then Inl (Failed (''checksum is for '' @ go_quote f1 @ '', expected '' @ go_quote archiveName))
           else Inr sum)
      | _ \<Rightarrow> Inl (Failed (''expected <sha512>  '' @ archiveName)))"


text \<open>A manifest's files; the order of the map decides which complaint comes first.\<close>

fun validate_records :: "files \<Rightarrow> fs_error + unit" where
  "validate_records [] = Inr ()"
| "validate_records ((name, rec) # fs) =
     (case normalizeEntryName name of
        Inl e \<Rightarrow> Inl e
      | Inr _ \<Rightarrow>
          if length (exSHA512 rec) \<noteq> sha512HexLen \<or> \<not> isHex (exSHA512 rec)
          then Inl (Failed (''file '' @ go_quote name @ '' has a malformed digest''))
          else if exMode rec \<noteq> ''0755'' \<and> exMode rec \<noteq> ''0644''
          then Inl (Failed (''file '' @ go_quote name @ '' has unexpected mode '' @ go_quote (exMode rec)))
          else validate_records fs)"

definition validateManifestFiles :: "files \<Rightarrow> fs_error + unit" where
  "validateManifestFiles files =
     (case missing_file files of
        Some n \<Rightarrow> Inl (Failed (''missing required file '' @ go_quote n))
      | None \<Rightarrow> validate_records files)"


section \<open>Names in archives\<close>

lemma normalize_parts:
  assumes "normalizeEntryName raw = Inr name"
  shows "is_local name"
    "\<forall>p \<in> set (split_char CHR ''/'' name). p \<noteq> [] \<and> p \<noteq> ''.'' \<and> p \<noteq> ''..''"
    "length (split_char CHR ''/'' name) = 1 \<or>
      length (split_char CHR ''/'' name) = 2 \<and> hd (split_char CHR ''/'' name) = sidecarDirName"
    "last (split_char CHR ''/'' name) \<noteq> manifestFileName" "\<not> prefix tempPrefix (last (split_char CHR ''/'' name))"
  using assms by (auto simp: normalizeEntryName_def Let_def list_ex_iff split: if_splits)

lemma normalize_shape:
  assumes "normalizeEntryName raw = Inr name"
  obtains c where "name = c \<or> name = sidecarDirName @ ''/'' @ c" "CHR ''/'' \<notin> set c"
    "c \<notin> {[], ''.'', ''..'', manifestFileName}" "\<not> prefix tempPrefix c" "c = last (split_char CHR ''/'' name)"
proof -
  let ?ps = "split_char CHR ''/'' name"
  note n = normalize_parts [OF assms]
  have name: "name = str_join ''/'' ?ps" by (simp add: str_join_split_char)
  have "?ps = [last ?ps] \<or> ?ps = [sidecarDirName, last ?ps]"
  proof (cases "length ?ps = 1")
    case True
    then show ?thesis by (cases ?ps) auto
  next
    case False
    then obtain a b where "?ps = [a, b]" using n(3) by (auto simp: length_Suc_conv numeral_2_eq_2)
    then show ?thesis using n(3) by simp
  qed
  then have "name = last ?ps \<or> name = sidecarDirName @ ''/'' @ last ?ps"
    using name by (metis str_join.simps(2,3))
  moreover have "last ?ps \<in> set ?ps" by simp
  ultimately show thesis
    using that [of "last ?ps"] n split_char_pieces [of "last ?ps" "CHR ''/''" name] by blast
qed


lemma normalize_trims:
  assumes "normalizeEntryName raw = Inr name"
  shows "trim_prefix name ''./'' = name" "trim_suffix name ''/'' = name"
proof -
  note n = normalize_parts(2) [OF assms]
  have "\<not> prefix ''./'' name"
  proof
    assume "prefix ''./'' name"
    then obtain r where "name = ''.'' @ CHR ''/'' # r" by (auto simp: prefix_def)
    then have "''.'' \<in> set (split_char CHR ''/'' name)" by (simp add: split_char_append_sep)
    then show False using n by blast
  qed
  then show "trim_prefix name ''./'' = name" by (simp add: trim_prefix_def)
  have "\<not> suffix ''/'' name"
  proof
    assume "suffix ''/'' name"
    then obtain r where "name = r @ CHR ''/'' # []" by (auto simp: suffix_def)
    then have "[] \<in> set (split_char CHR ''/'' name)" by (simp add: split_char_append del: split_char.simps(2))
    then show False using n by blast
  qed
  then show "trim_suffix name ''/'' = name" by (simp add: trim_suffix_def)
qed

lemma normalize_again: "normalizeEntryName raw = Inr name \<Longrightarrow> normalizeEntryName name = Inr name"
  using normalize_parts [of raw name] normalize_trims [of raw name]
  by (simp add: normalizeEntryName_def Let_def list_ex_iff)

text \<open>What is recorded of a written entry.\<close>

definition good_record :: "string \<times> extracted_file \<Rightarrow> bool" where
  "good_record x = (case x of (name, rec) \<Rightarrow>
     normalizeEntryName name = Inr name \<and> length (exSHA512 rec) = sha512HexLen \<and> isHex (exSHA512 rec) \<and>
     (exMode rec = ''0755'' \<or> exMode rec = ''0644''))"

lemma mode_texts: "mode_text (entryMode name m) = ''0755'' \<or> mode_text (entryMode name m) = ''0644''"
proof -
  have "mode_text mode755 = ''0755''" "mode_text mode644 = ''0644''" by code_simp+
  then show ?thesis by (simp add: entryMode_def)
qed

lemma writeEntry_record:
  assumes "run_state (writeEntry os sha d name mode e remaining) w = (Inr (rec, n), w')"
  shows "exMode rec = mode_text mode \<and> (\<exists>chunk. exSHA512 rec = sha chunk) \<and> 0 < n \<and> n \<le> remaining"
proof -
  have "results (\<lambda>r. \<forall>rec n. r = Inr (rec, n) \<longrightarrow>
      exMode rec = mode_text mode \<and> (\<exists>chunk. exSHA512 rec = sha chunk) \<and> 0 < n \<and> n \<le> remaining)
      (writeEntry os sha d name mode e remaining)"
    unfolding writeEntry_def Let_def
    by (intro results_anys) (auto split: if_splits)
  from results_run [OF this assms] show ?thesis by blast
qed

lemma good_update: "list_all good_record fs \<Longrightarrow> good_record (k, v) \<Longrightarrow> list_all good_record (AList.update k v fs)"
  by (induction fs) (auto simp: good_record_def)

lemma extract_loop_good:
  assumes sha: "\<And>x. length (sha x) = sha512HexLen \<and> isHex (sha x)"
  shows "list_all good_record files \<Longrightarrow> run_state (extract_loop os sha d es n sofar files) w = (Inr fs, w') \<Longrightarrow>
    list_all good_record fs"
proof (induction es arbitrary: n sofar files w)
  case Nil
  then show ?case by (simp add: returnE_def)
next
  case (Cons x es)
  show ?case
  proof (cases x)
    case (Inl err)
    then show ?thesis using Cons by (simp add: throwE_def)
  next
    case (Inr hdr)
    obtain name where name: "normalizeEntryName (teName hdr) = Inr name"
      using Cons(3) Inr by (auto simp: throwE_def split: if_splits sum.splits)
    show ?thesis
    proof (cases "teType hdr = TypeDir")
      case True
      then show ?thesis using Cons Inr name by (auto simp: throwE_def split: if_splits)
    next
      case False
      let ?wr = "run_state (writeEntry os sha d name (entryMode name (teMode hdr)) hdr (maxExtractedTotalBytes - sofar)) w"
      obtain rec m w1 where wr: "?wr = (Inr (rec, m), w1)"
        and rest: "run_state (extract_loop os sha d es (n + 1) (sofar + m) (AList.update name rec files)) w1 = (Inr fs, w')"
        using Cons(3) Inr name False
        by (cases ?wr) (auto simp: throwE_def State_Monad.bind_def split: if_splits sum.splits)
      have "good_record (name, rec)"
        using writeEntry_record [OF wr] normalize_again [OF name] sha mode_texts [of name "teMode hdr"]
        by (auto simp: good_record_def)
      then show ?thesis using Cons(1) [OF good_update [OF Cons(2)] rest] by blast
    qed
  qed
qed

lemma validate_good: "list_all good_record fs \<Longrightarrow> validate_records fs = Inr ()"
  by (induction fs) (auto simp: good_record_def)

definition flat_name :: "string \<Rightarrow> bool" where
  "flat_name name \<longleftrightarrow> (\<exists>c. (name = c \<or> name = sidecarDirName @ ''/'' @ c) \<and> CHR ''/'' \<notin> set c \<and>
     c \<notin> {[], ''.'', ''..'', manifestFileName} \<and> \<not> prefix tempPrefix c)"

lemma normalize_flat: "normalizeEntryName raw = Inr name \<Longrightarrow> flat_name name"
  unfolding flat_name_def by (rule normalize_shape) blast+

lemma extractTar_valid:
  assumes "\<And>x. length (sha x) = sha512HexLen \<and> isHex (sha x)"
    and "run_state (extractTar os sha es destDir) w = (Inr files, w')"
  shows "validateManifestFiles files = Inr () \<and> list_all flat_name (map fst files)"
proof -
  obtain w1 where loop: "run_state (extract_loop os sha destDir es 0 0 []) w = (Inr files, w1)"
      and all: "missing_file files = None"
    using assms(2) by (cases "run_state (extract_loop os sha destDir es 0 0 []) w")
      (auto simp: extractTar_def bindE_def State_Monad.bind_def throwE_def returnE_def split: sum.splits option.splits)
  have good: "list_all good_record files" using extract_loop_good [OF assms(1) _ loop] by simp
  then have "list_all flat_name (map fst files)"
    using normalize_flat by (fastforce simp: list_all_iff good_record_def)
  then show ?thesis using validate_good [OF good] all by (simp add: validateManifestFiles_def)
qed



definition entry :: "string \<Rightarrow> string \<Rightarrow> fs_error + tar_entry" where
  "entry name data = Inr \<lparr>teName = name, teType = TypeReg, teMode = 493, teData = data, teError = None\<rparr>"


text \<open>
  A version is accepted exactly when it has the form YYYYMMDD.PATCH and is no older than the
  first release the installer can install.
\<close>

theorem version_accepted:
  "(validateVersion v = Inr ()) =
     (\<exists>d p. v = d @ CHR ''.'' # p \<and> length d = 8 \<and> list_all is_digit d \<and> p \<noteq> [] \<and> list_all is_digit p \<and>
        20260721 \<le> digits_value d)"
proof -
  have date: "version_date v = Some d \<longleftrightarrow>
      (\<exists>p. v = d @ CHR ''.'' # p \<and> length d = 8 \<and> list_all is_digit d \<and> p \<noteq> [] \<and> list_all is_digit p)" for d
  proof
    assume "version_date v = Some d"
    then have d: "d = take 8 v" "length d = 8" "list_all is_digit d" "drop 8 v \<noteq> []" "hd (drop 8 v) = CHR ''.''"
        "tl (drop 8 v) \<noteq> []" "list_all is_digit (tl (drop 8 v))"
      by (auto simp: version_date_def Let_def split: if_splits)
    then have "v = d @ CHR ''.'' # tl (drop 8 v)" by (metis append_take_drop_id list.collapse)
    then show "\<exists>p. v = d @ CHR ''.'' # p \<and> length d = 8 \<and> list_all is_digit d \<and> p \<noteq> [] \<and> list_all is_digit p"
      using d by metis
  qed (auto simp: version_date_def Let_def)
  have min: "digits_value (take 8 minVersion) = 20260721" by code_simp
  have "(validateVersion v = Inr ()) = (\<exists>d. version_date v = Some d \<and> 20260721 \<le> digits_value d)"
    by (auto simp: validateVersion_def min version_date_def Let_def split: option.splits)
  then show ?thesis unfolding date by blast
qed

lemma fields_word: "list_all (\<lambda>c. \<not> is_space c) u \<Longrightarrow> fields_from cur (u @ s) = fields_from (cur @ u) s"
  by (induction u arbitrary: cur) simp_all

lemma trim_space_id:
  assumes "s \<noteq> []" "\<not> is_space (hd s)" "\<not> is_space (last s)"
  shows "trim_space s = s"
proof -
  have keep: "dropWhile is_space t = t" if "t \<noteq> []" "\<not> is_space (hd t)" for t
    using that by (cases t) simp_all
  show ?thesis using assms keep [of s] keep [of "rev s"] by (simp add: trim_space_def hd_rev)
qed

definition lower_hex :: "char \<Rightarrow> bool" where
  "lower_hex c \<longleftrightarrow> is_digit c \<or> char_in CHR ''a'' CHR ''f'' c"

lemma lower_hex_plain: "lower_hex c \<Longrightarrow> \<not> is_space c \<and> \<not> char_in CHR ''A'' CHR ''Z'' c \<and> is_hex_digit c"
  by (auto simp: lower_hex_def is_digit_def char_in_def is_space_def is_hex_digit_def Let_def)

lemma parseSHA512File_lower:
  assumes p: "parseSHA512File body = Inr h"
  shows "list_all lower_hex h \<and> length h = 128"
proof -
  obtain f0 f1 where f: "str_fields (trim_space body) = [f0, f1]" "h = to_lower f0" "length h = sha512HexLen" "isHex h"
    using p by (auto simp: parseSHA512File_def Let_def split: list.splits if_splits)
  have upper: "\<forall>c \<in> set (to_lower f0). \<not> char_in CHR ''A'' CHR ''Z'' c"
    by (auto simp: to_lower_def char_in_def)
  have "lower_hex c" if c: "c \<in> set h" for c
  proof -
    have "is_hex_digit c" using f(4) c by (auto simp: isHex_def list_all_iff)
    moreover have "\<not> char_in CHR ''A'' CHR ''Z'' c" using upper f(2) c by blast
    ultimately show ?thesis by (auto simp: is_hex_digit_def lower_hex_def char_in_def)
  qed
  then show ?thesis using f(3) by (simp add: list_all_iff sha512HexLen_def)
qed
text \<open>
  The checksum that is read from a checksum file is a lowercase digest of the full length,
  and the line that \<open>sha512sum\<close> prints for the archive gives the digest in it.
\<close>

theorem checksum_line:
  "(\<forall>e. parseSHA512File body \<noteq> Inl e) =
     (\<exists>h. parseSHA512File body = Inr h \<and> length h = 128 \<and> list_all lower_hex h) \<and>
   (parseSHA512File (h @ ''  '' @ archiveName) = Inr h) = (length h = 128 \<and> list_all lower_hex h)"
proof -
  note lower = parseSHA512File_lower
  have line: "parseSHA512File (h @ ''  '' @ archiveName) = Inr h" if h: "length h = 128" "list_all lower_hex h"
  proof -
    have plain: "list_all (\<lambda>c. \<not> is_space c) h" "h \<noteq> []" "isHex h"
      using h lower_hex_plain by (auto simp: list_all_iff isHex_def)
    then have hd: "\<not> is_space (hd h)" by (cases h) auto
    have name: "last archiveName = CHR ''2''" "list_all (\<lambda>c. \<not> is_space c) archiveName" "archiveName \<noteq> []"
        "trim_prefix archiveName ''*'' = archiveName"
      by code_simp+
    have "trim_space (h @ ''  '' @ archiveName) = h @ ''  '' @ archiveName"
      using plain(2) hd name by (intro trim_space_id) (auto simp: is_space_def)
    moreover have "str_fields (h @ ''  '' @ archiveName) = [h, archiveName]"
      using plain name fields_word [of archiveName "[]" "[]"]
      by (simp add: str_fields_def fields_word is_space_def)
    moreover have "to_lower h = h"
      using h(2) lower_hex_plain by (auto simp: to_lower_def list_all_iff intro: map_idI)
    ultimately show ?thesis using h plain name by (simp add: parseSHA512File_def sha512HexLen_def)
  qed
  show ?thesis using lower line by (metis sum.exhaust Inl_Inr_False)
qed


end
