(* ===== verification/Releases.thy ===== *)
theory Releases
  imports Archive
begin

text \<open>
  The installed releases: \<open>src/internal/gvisor-installer/generation.go\<close>, the installation of
  \<open>binaries.go\<close>, the journal file of \<open>state.go\<close> and the shim configuration files of
  \<open>runscconfig.go\<close>, as programs over the operating system. What \<open>ensureGeneration\<close> returns is sound,
  and verification establishes the content of the files it names.
\<close>


section \<open>Generations\<close>

record generation =
  genPath :: string
  genVersion :: string
  genSHA512 :: string
  genFiles :: files

record install_manifest =
  mfSchema :: int
  mfVersion :: string
  mfSHA512 :: string
  mfFiles :: files

text \<open>
  What the standard library and the TOML library do with bytes: hashing, JSON, TOML, tar. The
  archive's entries come from opening and decompressing the file.
\<close>

record generation_record =
  grPath :: string
  grConfigPath :: string
  grVersion :: string
  grSHA512 :: string
  grHandler :: string
  grBlock :: string

record pending_activation =
  paTarget :: generation_record
  paPreviousBlock :: string
  paPreviousHandler :: string

record installer_state =
  stSchema :: int
  stActive :: "generation_record option"
  stPending :: "pending_activation option"

record 'w tools =
  tlOs :: "'w os"
  tlSHA512 :: "string \<Rightarrow> string"
  tlReadManifest :: "string \<Rightarrow> fs_error + install_manifest"
  tlShowManifest :: "install_manifest \<Rightarrow> fs_error + string"
  tlReadState :: "string \<Rightarrow> fs_error + installer_state"
  tlShowState :: "installer_state \<Rightarrow> fs_error + string"
  tlParseToml :: "string \<Rightarrow> toml_table option"
  tlEncodeToml :: "toml_table \<Rightarrow> string + string"
  tlUntar :: "string \<Rightarrow> ('w, (fs_error + tar_entry) list) io"
  tlGOARCH :: string

definition generationDirName :: "string \<Rightarrow> string \<Rightarrow> string" where
  "generationDirName version archiveSHA512 = version @ ''-'' @ archiveSHA512"

definition runscPath :: "generation \<Rightarrow> string" where "runscPath g = path_join [genPath g, runscBinary]"
definition shimPath :: "generation \<Rightarrow> string" where "shimPath g = path_join [genPath g, shimBinary]"
definition hostDir :: "config \<Rightarrow> generation \<Rightarrow> string" where "hostDir c g = hostPath c (genPath g)"

definition writeManifest :: "'w tools \<Rightarrow> string \<Rightarrow> generation \<Rightarrow> ('w, unit) io" where
  "writeManifest t dir g =
     writeJSONFile (tlOs t) (tlShowManifest t) (path_join [dir, manifestFileName])
       \<lparr>mfSchema = 1, mfVersion = genVersion g, mfSHA512 = genSHA512 g, mfFiles = genFiles g\<rparr>"

definition is_dir :: "fs_error + file_info \<Rightarrow> bool" where
  "is_dir r = (case r of Inl e \<Rightarrow> False | Inr fi \<Rightarrow> fiDir fi)"

definition is_regular :: "fs_error + file_info \<Rightarrow> bool" where
  "is_regular r = (case r of Inl e \<Rightarrow> False | Inr fi \<Rightarrow> fiRegular fi)"

definition loadGeneration :: "'w tools \<Rightarrow> config \<Rightarrow> string \<Rightarrow> ('w, generation) io" where
  "loadGeneration t c path =
     (let dir = hostPath c path in
      seq (osLstat (tlOs t) dir) (\<lambda>d.
      if \<not> is_dir d then throwE (Failed (''generation '' @ path @ '' is not a directory''))
      else
        seq (osLstat (tlOs t) (path_join [dir, manifestFileName])) (\<lambda>f.
        if \<not> is_regular f then throwE (Failed (''generation '' @ path @ '' has no regular manifest''))
        else
          bindE (readJSONFile (tlOs t) (tlReadManifest t) (path_join [dir, manifestFileName])) (\<lambda>m.
          if mfSchema m \<noteq> 1 then throwE (Failed (''manifest '' @ path @ '' has unsupported schema '' @ itoa (mfSchema m)))
          else
            (case validateManifestFiles (mfFiles m) of
               Inl e \<Rightarrow> throwE (Wrapped (''manifest '' @ path) e)
             | Inr _ \<Rightarrow>
                 if path_base path \<noteq> generationDirName (mfVersion m) (mfSHA512 m)
                 then throwE (Failed (''manifest '' @ path @ '' does not match its directory name''))
                 else returnE \<lparr>genPath = path, genVersion = mfVersion m, genSHA512 = mfSHA512 m,
                        genFiles = mfFiles m\<rparr>)))))"

text \<open>Verification: the directories, every file of the manifest, and nothing else.\<close>

definition check_dir :: "'w os \<Rightarrow> string \<Rightarrow> ('w, unit) io" where
  "check_dir os d =
     seq (osLstat os d) (\<lambda>r. case r of
       Inl e \<Rightarrow> throwE (Failed (''generation directory '' @ go_quote d @ '' missing or not a directory''))
     | Inr fi \<Rightarrow>
         if \<not> fiDir fi then throwE (Failed (''generation directory '' @ go_quote d @ '' missing or not a directory''))
         else if fiPerm fi \<noteq> mode755
         then throwE (Failed (''generation directory '' @ go_quote d @ '' has mode '' @ mode_text (fiPerm fi) @ '', expected 0755''))
         else skip)"

definition check_file :: "'w tools \<Rightarrow> string \<Rightarrow> string \<times> extracted_file \<Rightarrow> ('w, unit) io" where
  "check_file t dir nw = (case nw of (name, want) \<Rightarrow>
     let p = path_join [dir, name] in
     seq (osLstat (tlOs t) p) (\<lambda>r. case r of
       Inl e \<Rightarrow> throwE (Failed (''generation file '' @ go_quote name @ '' missing or not regular''))
     | Inr fi \<Rightarrow>
         if \<not> fiRegular fi then throwE (Failed (''generation file '' @ go_quote name @ '' missing or not regular''))
         else if mode_text (fiPerm fi) \<noteq> exMode want
         then throwE (Failed (''generation file '' @ go_quote name @ '' has mode '' @ mode_text (fiPerm fi)))
         else
           bindE (fileSHA512 (tlOs t) (tlSHA512 t) p) (\<lambda>s.
           if s \<noteq> exSHA512 want
           then throwE (Failed (''generation file '' @ go_quote name @ '' does not match its manifest digest''))
           else skip)))"

definition extra_entry :: "files \<Rightarrow> string \<times> (fs_error + entry_kind) \<Rightarrow> fs_error + unit" where
  "extra_entry files e = (case e of (rel, r) \<Rightarrow>
     case r of
       Inl err \<Rightarrow> Inl err
     | Inr kind \<Rightarrow>
         if rel = manifestFileName then
           (if kind \<noteq> EntRegular then Inl (Failed (''generation file '' @ go_quote rel @ '' is not a regular file''))
            else Inr ())
         else if kind = EntDir then
           (if rel = sidecarDirName then Inr ()
            else Inl (Failed (''generation contains unexpected directory '' @ go_quote rel)))
         else if map_of files rel = None \<and> \<not> prefix tempPrefix (path_base rel)
         then Inl (Failed (''generation contains unexpected file '' @ go_quote rel))
         else Inr ())"

definition checkNoExtraFiles :: "'w os \<Rightarrow> string \<Rightarrow> files \<Rightarrow> ('w, unit) io" where
  "checkNoExtraFiles os dir files =
     seq (osWalk os dir) (\<lambda>es. each (\<lambda>e. State_Monad.return (extra_entry files e)) es)"

definition verifyGeneration :: "'w tools \<Rightarrow> config \<Rightarrow> generation \<Rightarrow> ('w, unit) io" where
  "verifyGeneration t c g =
     (let dir = hostDir c g in
      bindE (each (check_dir (tlOs t))
        [hostPath c (cfgInstallDir c), path_dir dir, dir, path_join [dir, sidecarDirName]]) (\<lambda>_.
      bindE (each (check_file t dir) (genFiles g)) (\<lambda>_.
        checkNoExtraFiles (tlOs t) dir (genFiles g))))"

text \<open>The verdicts of one pass, by path.\<close>

type_synonym verify_cache = "string \<rightharpoonup> fs_error + unit"

definition verifyGenerationCached ::
  "'w tools \<Rightarrow> config \<Rightarrow> verify_cache \<Rightarrow> generation \<Rightarrow> ('w, (fs_error + unit) \<times> verify_cache) state" where
  "verifyGenerationCached t c cache g =
     (case cache (genPath g) of
        Some r \<Rightarrow> State_Monad.return (r, cache)
      | None \<Rightarrow> seq (verifyGeneration t c g) (\<lambda>r. State_Monad.return (r, cache(genPath g \<mapsto> r))))"

definition markVerified :: "verify_cache \<Rightarrow> generation \<Rightarrow> verify_cache" where
  "markVerified cache g = cache(genPath g \<mapsto> Inr ())"


section \<open>Restoring and publishing\<close>

definition replaceFromStaging :: "'w os \<Rightarrow> string \<Rightarrow> string \<Rightarrow> extracted_file \<Rightarrow> ('w, unit) io" where
  "replaceFromStaging os dest src want =
     bindE (osOpen os src) (\<lambda>_.
     let tmp = path_join [path_dir dest, tempPrefix @ path_base dest];
         mode = (if exMode want = ''0755'' then mode755 else mode644) in
     bindE (osCreate os tmp False mode) (\<lambda>_.
     seq (bindE (osReadFile os src) (\<lambda>content. osWrite os tmp content)) (\<lambda>writeErr.
     seq (if isl writeErr then skip else osSync os tmp) (\<lambda>syncErr.
     seq (osClose os tmp) (\<lambda>closeErr.
       if isl writeErr \<or> isl syncErr \<or> isl closeErr
       then ignoring (osRemove os tmp) (throwE (Joined (errors_of [writeErr, syncErr, closeErr])))
       else
         seq (osChmod os tmp mode) (\<lambda>r. case r of
           Inl e \<Rightarrow> ignoring (osRemove os tmp) (throwE e)
         | Inr _ \<Rightarrow>
             seq (osRename os tmp dest) (\<lambda>r. case r of
               Inl e \<Rightarrow> ignoring (osRemove os tmp) (throwE e)
             | Inr _ \<Rightarrow> syncDir os (path_dir dest))))))))"

text \<open>
  The walk that removes what the manifest does not name; below a removed directory it does not
  look (\<open>fs.SkipDir\<close>).
\<close>

fun remove_extras :: "'w os \<Rightarrow> string \<Rightarrow> files \<Rightarrow> (string \<times> (fs_error + entry_kind)) list \<Rightarrow> string list \<Rightarrow> ('w, unit) io" where
  "remove_extras os dir files [] skipped = skip"
| "remove_extras os dir files ((rel, r) # es) skipped =
     (if list_ex (\<lambda>d. prefix (d @ ''/'') rel) skipped then remove_extras os dir files es skipped
      else
        (case r of
           Inl err \<Rightarrow> throwE err
         | Inr kind \<Rightarrow>
             if kind = EntDir then
               (if rel = sidecarDirName then remove_extras os dir files es skipped
                else bindE (osRemoveAll os (path_join [dir, rel])) (\<lambda>_.
                  remove_extras os dir files es (rel # skipped)))
             else if rel = manifestFileName \<and> kind = EntRegular then remove_extras os dir files es skipped
             else if map_of files rel = None
             then bindE (osRemove os (path_join [dir, rel])) (\<lambda>_. remove_extras os dir files es skipped)
             else remove_extras os dir files es skipped))"

definition removeGenerationExtras :: "'w os \<Rightarrow> string \<Rightarrow> files \<Rightarrow> ('w, unit) io" where
  "removeGenerationExtras os dir files = seq (osWalk os dir) (\<lambda>es. remove_extras os dir files es [])"

definition restore_dir :: "'w os \<Rightarrow> string \<Rightarrow> ('w, unit) io" where
  "restore_dir os d =
     seq (osLstat os d) (\<lambda>r.
     bindE (if \<not> isl r \<and> \<not> is_dir r then osRemove os d else skip) (\<lambda>_.
     bindE (osMkdirAll os d mode755) (\<lambda>_. osChmod os d mode755)))"

definition restore_file :: "'w tools \<Rightarrow> string \<Rightarrow> string \<Rightarrow> string \<times> extracted_file \<Rightarrow> ('w, unit) io" where
  "restore_file t dir stagingDir nw = (case nw of (name, want) \<Rightarrow>
     let dest = path_join [dir, name];
         replace = seq (replaceFromStaging (tlOs t) dest (path_join [stagingDir, name]) want) (\<lambda>r. case r of
           Inl e \<Rightarrow> throwE (Wrapped (''restoring generation file '' @ go_quote name) e)
         | Inr _ \<Rightarrow> skip) in
     seq (osLstat (tlOs t) dest) (\<lambda>r. case r of
       Inl e \<Rightarrow> replace
     | Inr fi \<Rightarrow>
         if fiRegular fi \<and> mode_text (fiPerm fi) = exMode want
         then seq (fileSHA512 (tlOs t) (tlSHA512 t) dest) (\<lambda>s. if s = Inr (exSHA512 want) then skip else replace)
         else replace))"

definition restoreGeneration :: "'w tools \<Rightarrow> config \<Rightarrow> generation \<Rightarrow> string \<Rightarrow> ('w, unit) io" where
  "restoreGeneration t c g stagingDir =
     (let dir = hostDir c g in
      bindE (each (restore_dir (tlOs t)) [dir, path_join [dir, sidecarDirName]]) (\<lambda>_.
      bindE (each (restore_file t dir stagingDir) (genFiles g)) (\<lambda>_.
      bindE (removeGenerationExtras (tlOs t) dir (genFiles g)) (\<lambda>_.
      bindE (writeManifest t dir g) (\<lambda>_.
        verifyGeneration t c g)))))"

definition publishGeneration ::
  "'w tools \<Rightarrow> config \<Rightarrow> verify_cache \<Rightarrow> generation \<Rightarrow> string \<Rightarrow> string \<Rightarrow> ('w, (fs_error + generation) \<times> verify_cache) state" where
  "publishGeneration t c cache g staging releasesHost =
     seq (bindE (writeManifest t staging g) (\<lambda>_.
          seq (osRename (tlOs t) staging (hostDir c g)) (\<lambda>r. case r of
            Inl e \<Rightarrow> throwE (Wrapped ''publishing generation'' e)
          | Inr _ \<Rightarrow> syncDir (tlOs t) releasesHost))) (\<lambda>r. case r of
       Inl e \<Rightarrow> State_Monad.return (Inl e, cache)
     | Inr _ \<Rightarrow> State_Monad.return (Inr g, markVerified cache g))"


section \<open>The journal file\<close>

definition pendingTarget :: "installer_state \<Rightarrow> generation_record option" where
  "pendingTarget st = map_option paTarget (stPending st)"

definition valid_record :: "generation_record \<Rightarrow> bool" where
  "valid_record r \<longleftrightarrow> path_is_abs (grPath r) \<and> path_is_abs (grConfigPath r) \<and>
     grVersion r \<noteq> [] \<and> grHandler r \<noteq> [] \<and> grBlock r \<noteq> [] \<and>
     length (grSHA512 r) = sha512HexLen \<and> isHex (grSHA512 r)"

definition none_or_valid :: "generation_record option \<Rightarrow> bool" where
  "none_or_valid r = (case r of None \<Rightarrow> True | Some r \<Rightarrow> valid_record r)"

definition valid_state :: "installer_state \<Rightarrow> bool" where
  "valid_state st \<longleftrightarrow> none_or_valid (stActive st) \<and> none_or_valid (pendingTarget st)"

definition no_state :: installer_state where
  "no_state = \<lparr>stSchema = 1, stActive = None, stPending = None\<rparr>"

definition statePath :: "config \<Rightarrow> string" where
  "statePath c = hostPath c stateFilePath"

definition readState :: "'w tools \<Rightarrow> config \<Rightarrow> ('w, installer_state) state" where
  "readState t c =
     seq (readJSONFile (tlOs t) (tlReadState t) (statePath c)) (\<lambda>r.
       State_Monad.return (case r of
         Inl e \<Rightarrow> no_state
       | Inr st \<Rightarrow> if stSchema st \<noteq> 1 \<or> \<not> valid_state st then no_state else st))"

definition writeState :: "'w tools \<Rightarrow> config \<Rightarrow> installer_state \<Rightarrow> ('w, unit) io" where
  "writeState t c st =
     seq (writeJSONFile (tlOs t) (tlShowState t) (statePath c) (st \<lparr>stSchema := 1\<rparr>)) (\<lambda>r. case r of
       Inl e \<Rightarrow> throwE (Wrapped ''writing installer state'' e)
     | Inr _ \<Rightarrow> skip)"


section \<open>Downloading and installing\<close>

definition gvisorArch :: "string \<Rightarrow> fs_error + string" where
  "gvisorArch goarch =
     (if goarch = ''amd64'' then Inr ''x86_64''
      else if goarch = ''arm64'' then Inr ''aarch64''
      else Inl (Failed (''unsupported architecture '' @ go_quote goarch)))"

text \<open>\<open>runscVersionRe\<close>, leftmost.\<close>

fun version_match :: "string \<Rightarrow> string option" where
  "version_match [] = None"
| "version_match (c # s) =
     (let rest = drop (length ''runsc version '') (c # s) in
      if prefix ''runsc version '' (c # s) \<and> rest \<noteq> [] \<and> \<not> re_space (hd rest)
      then Some (takeWhile (\<lambda>d. \<not> re_space d) rest)
      else version_match s)"

definition truncateOutput :: "string \<Rightarrow> string" where
  "truncateOutput b = (let s = trim_space b in if 1024 < length s then take 1024 s @ ''...(truncated)'' else s)"

definition runscReportedVersion :: "'w os \<Rightarrow> string \<Rightarrow> ('w, string) io" where
  "runscReportedVersion os binPath =
     seq (osExecVersion os binPath) (\<lambda>r. case r of
       Inl (e, out) \<Rightarrow> throwE (Wrapped (binPath @ '' --version'') e)
     | Inr out \<Rightarrow>
         (case version_match out of
            None \<Rightarrow> throwE (Failed (''could not parse runsc version from output: '' @ truncateOutput out))
          | Some v \<Rightarrow> returnE v))"

definition archiveUnavailableHint :: "fs_error \<Rightarrow> fs_error" where
  "archiveUnavailableHint e =
     (if str_contains (err_text e) ''404''
      then Wrapped ''The archive is unavailable at the configured downloadURLBase for this version'' e else e)"

definition unexpected_status :: "string \<Rightarrow> http_answer \<Rightarrow> fs_error" where
  "unexpected_status url a = Failed (''GET '' @ url @ '': unexpected status '' @ httpStatus a)"

definition httpGet :: "'w os \<Rightarrow> string \<Rightarrow> ('w, string) io" where
  "httpGet os url =
     bindE (osHttpGet os url) (\<lambda>a.
       if httpCode a \<noteq> 200 then throwE (unexpected_status url a)
       else if length (httpBody a) < 2 ^ 20
       then (case httpBodyError a of None \<Rightarrow> returnE (httpBody a) | Some e \<Rightarrow> throwE e)
       else returnE (take (2 ^ 20) (httpBody a)))"

definition maxArchiveSize :: nat where "maxArchiveSize = 2 ^ 30"

definition store_archive :: "'w tools \<Rightarrow> string \<Rightarrow> string \<Rightarrow> http_answer \<Rightarrow> string \<Rightarrow> ('w, string \<times> string) io" where
  "store_archive t url expected a dir =
     bindE (osCreateTemp (tlOs t) dir (tempPrefix @ ''archive-'')) (\<lambda>f.
     let chunk = take (maxArchiveSize + 1) (httpBody a) in
     seq (osWrite (tlOs t) f chunk) (\<lambda>wr.
     seq (osClose (tlOs t) f) (\<lambda>closeErr.
       let copyErr = (case wr of Inl x \<Rightarrow> Some x
                      | Inr _ \<Rightarrow> if length (httpBody a) \<le> maxArchiveSize then httpBodyError a else None);
           copyErr = (if copyErr = None \<and> maxArchiveSize < length chunk
                      then Some (Failed (''archive exceeds '' @ nat_digits maxArchiveSize @ '' bytes'')) else copyErr);
           copyErr = (if copyErr = None then (case closeErr of Inl x \<Rightarrow> Some x | Inr _ \<Rightarrow> None) else copyErr);
           copyErr = (if copyErr = None \<and> tlSHA512 t chunk \<noteq> expected
                      then Some (Failed (''sha512 mismatch for '' @ url)) else copyErr) in
       case copyErr of
         Some x \<Rightarrow> ignoring (osRemove (tlOs t) f) (throwE x)
       | None \<Rightarrow> returnE (f, expected))))"

definition downloadArchive :: "'w tools \<Rightarrow> string \<Rightarrow> string \<Rightarrow> ('w, string \<times> string) io" where
  "downloadArchive t urlBase dir =
     (let url = urlBase @ ''/'' @ archiveName in
      seq (httpGet (tlOs t) (url @ ''.sha512'')) (\<lambda>r. case r of
        Inl e \<Rightarrow> throwE (archiveUnavailableHint e)
      | Inr sumBody \<Rightarrow>
          (case parseSHA512File sumBody of
             Inl e \<Rightarrow> throwE (Wrapped (''malformed sha512 file for '' @ url) e)
           | Inr expected \<Rightarrow>
               bindE (osHttpGet (tlOs t) url) (\<lambda>a.
                 if httpCode a \<noteq> 200
                 then throwE (if httpCode a = 404 then archiveUnavailableHint (unexpected_status url a)
                              else unexpected_status url a)
                 else store_archive t url expected a dir))))"

text \<open>Candidates for an intact generation of the version: the active one first.\<close>

definition candidates :: "config \<Rightarrow> installer_state \<Rightarrow> string list \<Rightarrow> string list" where
  "candidates c st ms =
     (case stActive st of
        Some r \<Rightarrow> if grVersion r = cfgVersion c \<and> path_dir (grPath r) = releasesDir c then [grPath r] else []
      | None \<Rightarrow> [])
     @ map (\<lambda>m. path_join [releasesDir c, path_base m]) ms"

fun intact_loop ::
  "'w tools \<Rightarrow> config \<Rightarrow> verify_cache \<Rightarrow> string list \<Rightarrow> string list \<Rightarrow> ('w, generation option \<times> verify_cache) state" where
  "intact_loop t c cache seen [] = State_Monad.return (None, cache)"
| "intact_loop t c cache seen (p # ps) =
     (if p \<in> set seen then intact_loop t c cache seen ps
      else
        seq (loadGeneration t c p) (\<lambda>r. case r of
          Inl e \<Rightarrow> intact_loop t c cache (p # seen) ps
        | Inr g \<Rightarrow>
            if genVersion g \<noteq> cfgVersion c then intact_loop t c cache (p # seen) ps
            else
              seq (verifyGenerationCached t c cache g) (\<lambda>(v, cache').
                if isl v then intact_loop t c cache' (p # seen) ps
                else State_Monad.return (Some g, cache'))))"

definition intactGeneration ::
  "'w tools \<Rightarrow> config \<Rightarrow> verify_cache \<Rightarrow> ('w, generation option \<times> verify_cache) state" where
  "intactGeneration t c cache =
     seq (readState t c) (\<lambda>st.
     seq (osGlob (tlOs t) (path_join [hostPath c (releasesDir c), cfgVersion c @ ''-*''])) (\<lambda>r.
       intact_loop t c cache [] (candidates c st (case r of Inl e \<Rightarrow> [] | Inr ms \<Rightarrow> ms))))"

text \<open>
  A directory already at the generation's path is restored in place; anything else there is
  removed.
\<close>

definition place_generation ::
  "'w tools \<Rightarrow> config \<Rightarrow> verify_cache \<Rightarrow> generation \<Rightarrow> string \<Rightarrow> ('w, (fs_error + generation) \<times> verify_cache) state" where
  "place_generation t c cache g staging =
     (let fails = (\<lambda>e. State_Monad.return (Inl e, cache));
          releasesHost = hostPath c (releasesDir c); target = hostDir c g in
      seq (osLstat (tlOs t) target) (\<lambda>r. case r of
        Inl e \<Rightarrow> publishGeneration t c cache g staging releasesHost
      | Inr fi \<Rightarrow>
          if \<not> fiDir fi then
            seq (osRemove (tlOs t) target) (\<lambda>r. case r of
              Inl e \<Rightarrow> fails e
            | Inr _ \<Rightarrow> publishGeneration t c cache g staging releasesHost)
          else
            seq (restoreGeneration t c g staging) (\<lambda>r. case r of
              Inl e \<Rightarrow> fails e
            | Inr _ \<Rightarrow> State_Monad.return (Inr g, markVerified cache g))))"

text \<open>The staged archive becomes a generation, or restores the one at its path.\<close>

definition install_staged ::
  "'w tools \<Rightarrow> config \<Rightarrow> verify_cache \<Rightarrow> string \<Rightarrow> string \<Rightarrow> string \<Rightarrow> ('w, (fs_error + generation) \<times> verify_cache) state" where
  "install_staged t c cache archivePath digest staging =
     (let fails = (\<lambda>e. State_Monad.return (Inl e, cache)) in
      seq (osChmod (tlOs t) staging mode755) (\<lambda>r. case r of Inl e \<Rightarrow> fails e | Inr _ \<Rightarrow>
      seq (bindE (tlUntar t archivePath) (\<lambda>es. extractTar (tlOs t) (tlSHA512 t) es staging)) (\<lambda>r. case r of
        Inl e \<Rightarrow> fails (Wrapped (''extracting '' @ archiveName) e)
      | Inr files \<Rightarrow>
          seq (runscReportedVersion (tlOs t) (path_join [staging, runscBinary])) (\<lambda>r. case r of
            Inl e \<Rightarrow> fails (Wrapped ''staged runsc failed verification'' e)
          | Inr reported \<Rightarrow>
              if trim_prefix reported ''release-'' \<noteq> cfgVersion c
              then fails (Failed (''staged runsc reports version '' @ go_quote reported @ '', expected '' @ cfgVersion c))
              else
                (let g = \<lparr>genPath = path_join [releasesDir c, generationDirName (cfgVersion c) digest],
                          genVersion = cfgVersion c, genSHA512 = digest, genFiles = files\<rparr> in
                 place_generation t c cache g staging)))))"

text \<open>The deferred removals run on every path.\<close>

definition prepare_dir :: "'w os \<Rightarrow> string \<Rightarrow> ('w, unit) io" where
  "prepare_dir os dir =
     seq (osLstat os dir) (\<lambda>r.
       if \<not> is_dir r then throwE (Failed (''installation path '' @ dir @ '' is not a directory''))
       else seq (osChmod os dir mode755) (\<lambda>r. case r of
         Inl e \<Rightarrow> throwE (Wrapped ''setting installation directory permissions'' e)
       | Inr _ \<Rightarrow> skip))"

definition install_new ::
  "'w tools \<Rightarrow> config \<Rightarrow> verify_cache \<Rightarrow> ('w, (fs_error + generation) \<times> verify_cache) state" where
  "install_new t c cache =
     (let fails = (\<lambda>e. State_Monad.return (Inl e, cache)); releasesHost = hostPath c (releasesDir c) in
      case gvisorArch (tlGOARCH t) of
        Inl e \<Rightarrow> fails e
      | Inr arch \<Rightarrow>
          seq (downloadArchive t (trim_suffix (cfgURLBase c) ''/'' @ ''/'' @ cfgVersion c @ ''/'' @ arch) releasesHost) (\<lambda>r. case r of
            Inl e \<Rightarrow> fails e
          | Inr (archivePath, digest) \<Rightarrow>
              seq (osMkdirTemp (tlOs t) releasesHost (tempPrefix @ ''stage-'')) (\<lambda>r. case r of
                Inl e \<Rightarrow> ignoring (osRemove (tlOs t) archivePath) (fails e)
              | Inr staging \<Rightarrow>
                  seq (install_staged t c cache archivePath digest staging) (\<lambda>result.
                    ignoring (osRemoveAll (tlOs t) staging)
                      (ignoring (osRemove (tlOs t) archivePath) (State_Monad.return result))))))"

definition ensureGeneration ::
  "'w tools \<Rightarrow> config \<Rightarrow> verify_cache \<Rightarrow> ('w, (fs_error + generation) \<times> verify_cache) state" where
  "ensureGeneration t c cache =
     (let fails = (\<lambda>e. State_Monad.return (Inl e, cache)); releasesHost = hostPath c (releasesDir c) in
      seq (osMkdirAll (tlOs t) releasesHost mode755) (\<lambda>r. case r of
        Inl e \<Rightarrow> fails (Wrapped ''creating releases dir'' e)
      | Inr _ \<Rightarrow>
          seq (each (prepare_dir (tlOs t)) [hostPath c (cfgInstallDir c), releasesHost]) (\<lambda>r. case r of
            Inl e \<Rightarrow> fails e
          | Inr _ \<Rightarrow>
              ignoring (sweepStaleStaging (tlOs t) releasesHost)
                (seq (intactGeneration t c cache) (\<lambda>(found, cache'). case found of
                   Some g \<Rightarrow> State_Monad.return (Inr g, cache')
                 | None \<Rightarrow> install_new t c cache')))))"


section \<open>The shim's configuration file\<close>

definition desiredRunscShimConfig :: "'w tools \<Rightarrow> config \<Rightarrow> generation \<Rightarrow> string \<Rightarrow> ('w, string) io" where
  "desiredRunscShimConfig t c g dump =
     seq (osReadFile (tlOs t) (cfgRunscSrc c)) (\<lambda>r. case r of
       Inl e \<Rightarrow> throwE (Wrapped ''reading runsc config source'' e)
     | Inr base \<Rightarrow>
         (case renderRunscShimConfig (tlParseToml t) (tlEncodeToml t) base (runscPath g)
                 (systemdCgroupFromDump (tlParseToml t dump)) of
            Inl e \<Rightarrow> throwE (Failed e)
          | Inr s \<Rightarrow> returnE s))"

definition config_name :: "'w tools \<Rightarrow> string \<Rightarrow> string" where
  "config_name t content = take 32 (tlSHA512 t content) @ ''.toml''"

definition regularFileEqual :: "'w os \<Rightarrow> string \<Rightarrow> string \<Rightarrow> ('w, bool) state" where
  "regularFileEqual os p want =
     seq (osLstat os p) (\<lambda>fi.
       if \<not> is_regular fi then State_Monad.return False
       else seq (osReadFile os p) (\<lambda>r. State_Monad.return (r = Inr want)))"

definition ensureRunscConfig :: "'w tools \<Rightarrow> config \<Rightarrow> generation \<Rightarrow> string \<Rightarrow> ('w, string) io" where
  "ensureRunscConfig t c g dump =
     bindE (desiredRunscShimConfig t c g dump) (\<lambda>desired.
     let configPath = path_join [configsDir c, config_name t desired]; dest = hostPath c configPath in
     seq (regularFileEqual (tlOs t) dest desired) (\<lambda>same.
       if same then returnE configPath
       else
         bindE (osMkdirAll (tlOs t) (path_dir dest) mode755) (\<lambda>_.
         seq (osLstat (tlOs t) dest) (\<lambda>fi.
         bindE (if \<not> isl fi \<and> \<not> is_regular fi then osRemove (tlOs t) dest else skip) (\<lambda>_.
         bindE (writeFileAtomic (tlOs t) dest desired) (\<lambda>_. returnE configPath))))))"

definition runscConfigIntact :: "'w tools \<Rightarrow> config \<Rightarrow> string \<Rightarrow> ('w, bool) state" where
  "runscConfigIntact t c configPath =
     (let dest = hostPath c configPath in
      seq (osReadFile (tlOs t) dest) (\<lambda>r. case r of
        Inl e \<Rightarrow> State_Monad.return False
      | Inr data \<Rightarrow>
          seq (osLstat (tlOs t) dest) (\<lambda>fi.
            if \<not> is_regular fi then State_Monad.return False
            else State_Monad.return (path_base configPath = config_name t data))))"


section \<open>Paths\<close>

lemma str_join_snoc: "str_join sep (xs @ [n]) = (if xs = [] then n else str_join sep xs @ sep @ n)"
  by (induction sep xs rule: str_join.induct) auto

lemma path_base_single:
  assumes "CHR ''/'' \<notin> set n" "n \<noteq> []"
  shows "path_base n = n"
proof -
  have "dropWhile (\<lambda>c. c = CHR ''/'') (rev n) = rev n" using assms by (cases "rev n") auto
  moreover have "takeWhile (\<lambda>c. c \<noteq> CHR ''/'') (rev n) = rev n" using assms by auto
  ultimately show ?thesis using assms(2)
    by (simp add: path_base_def drop_last_while_def Let_def del: takeWhile_eq_all_conv)
qed

definition plain :: "string \<Rightarrow> bool" where
  "plain n \<longleftrightarrow> CHR ''/'' \<notin> set n \<and> n \<notin> {[], ''.'', ''..''}"

lemma path_base_join:
  assumes "plain n"
  shows "path_base (path_join [d, n]) = n"
proof -
  have n: "CHR ''/'' \<notin> set n" "n \<noteq> []" "n \<noteq> ''.''" "n \<noteq> ''..''" using assms by (simp_all add: plain_def)
  obtain p where p: "path_join [d, n] = path_clean p" "split_char CHR ''/'' p = (if d = [] then [] else split_char CHR ''/'' d) @ [n]"
    "p \<noteq> []"
  proof (cases "d = []")
    case True
    then show thesis using that [of n] n by (simp add: path_join_def split_char_single)
  next
    case False
    then show thesis using that [of "d @ ''/'' @ n"] n
      by (simp add: path_join_def split_char_append split_char_single)
  qed
  define xs where "xs = rev (clean_parts (if d = [] then [] else split_char CHR ''/'' d))"
  have parts: "rev (clean_parts (split_char CHR ''/'' p)) = xs @ [n]"
    using p(2) n by (simp add: clean_parts_def clean_step_def xs_def)
  have base: "path_base (pre @ str_join ''/'' (ys @ [n])) = n" if "pre = [] \<or> pre = ''/''" for pre ys
  proof (cases "ys = [] \<and> pre = []")
    case True
    then show ?thesis using path_base_single n by simp
  next
    case False
    then have "\<exists>a. pre @ str_join ''/'' (ys @ [n]) = a @ CHR ''/'' # n"
      using that by (auto simp: str_join_snoc)
    then show ?thesis using path_base_last n by metis
  qed
  show ?thesis
  proof (cases "hd p = CHR ''/''")
    case True
    have "dropWhile (\<lambda>x. x = ''..'') (xs @ [n]) = dropWhile (\<lambda>x. x = ''..'') xs @ [n]"
      using n by (induction xs) auto
    then have "path_clean p = ''/'' @ str_join ''/'' (dropWhile (\<lambda>x. x = ''..'') xs @ [n])"
      using True p(3) parts by (simp add: path_clean_def Let_def)
    then show ?thesis using p(1) base [of "''/''"] by simp
  next
    case False
    then have "path_clean p = str_join ''/'' (xs @ [n])"
      using parts by (simp add: path_clean_def Let_def)
    then show ?thesis using p(1) base [of "[]"] by simp
  qed
qed

lemma plain_dir_name:
  assumes "validateVersion v = Inr ()" "isHex h"
  shows "plain (generationDirName v h)"
proof -
  obtain d where d: "version_date v = Some d"
    using assms(1) by (auto simp: validateVersion_def split: if_splits option.splits)
  then have v: "length (take 8 v) = 8" "list_all is_digit (take 8 v)" "drop 8 v \<noteq> []" "hd (drop 8 v) = CHR ''.''"
      "list_all is_digit (tl (drop 8 v))"
    by (auto simp: version_date_def Let_def split: if_splits)
  define a b where "a = take 8 v" and "b = tl (drop 8 v)"
  have "v = a @ CHR ''.'' # b" using v by (metis a_def b_def append_take_drop_id list.collapse)
  then have "set v \<subseteq> {c. is_digit c} \<union> {CHR ''.''}"
    using v(2,5) unfolding a_def [symmetric] b_def [symmetric] by (auto simp: list_all_iff)
  moreover have "set h \<subseteq> {c. is_hex_digit c}" using assms(2) by (auto simp: isHex_def list_all_iff)
  moreover have "\<not> is_digit CHR ''/''" "\<not> is_hex_digit CHR ''/''" by (code_simp, code_simp)
  ultimately have "CHR ''/'' \<notin> set (generationDirName v h)" by (auto simp: generationDirName_def)
  moreover have "2 < length (generationDirName v h)" using v(1) by (simp add: generationDirName_def min_def split: if_splits)
  ultimately show ?thesis using long_not_dots by (simp add: plain_def)
qed


section \<open>What installing returns\<close>

text \<open>A generation of the configured version whose directory name and manifest say so.\<close>

definition sound_generation :: "config \<Rightarrow> generation \<Rightarrow> bool" where
  "sound_generation c g \<longleftrightarrow> genVersion g = cfgVersion c \<and>
     path_base (genPath g) = generationDirName (genVersion g) (genSHA512 g) \<and>
     validateManifestFiles (genFiles g) = Inr ()"

lemma loadGeneration_results:
  "results (\<lambda>r. \<forall>g. r = Inr g \<longrightarrow> genPath g = p \<and> path_base p = generationDirName (genVersion g) (genSHA512 g) \<and>
     validateManifestFiles (genFiles g) = Inr ()) (loadGeneration t c p)"
  unfolding loadGeneration_def by (intro results_anys) auto

lemma not_isl: "\<not> isl v \<Longrightarrow> (\<And>a. v = Inr a \<Longrightarrow> P) \<Longrightarrow> P"
  by (cases v) simp_all

lemma verifyGenerationCached_results:
  "results (\<lambda>(v, cache'). \<not> isl v \<longrightarrow> cache' (genPath g) = Some (Inr ())) (verifyGenerationCached t c cache g)"
  unfolding verifyGenerationCached_def
  by (intro results_anys) (auto elim: not_isl)

lemma intact_loop_results:
  "results (\<lambda>(found, cache'). \<forall>g. found = Some g \<longrightarrow> sound_generation c g \<and> cache' (genPath g) = Some (Inr ()))
     (intact_loop t c cache seen ps)"
proof (induction ps arbitrary: cache seen)
  case (Cons p ps)
  have "results (\<lambda>(found, cache'). \<forall>g. found = Some g \<longrightarrow> sound_generation c g \<and> cache' (genPath g) = Some (Inr ()))
      (seq (verifyGenerationCached t c cache g) (\<lambda>(v, cache').
         if isl v then intact_loop t c cache' (p # seen) ps else State_Monad.return (Some g, cache')))"
    if "sound_generation c g" for g
    by (rule results_seq [OF verifyGenerationCached_results])
       (use that Cons in \<open>auto intro!: results_return split: prod.splits\<close>)
  then have "results (\<lambda>(found, cache'). \<forall>g. found = Some g \<longrightarrow> sound_generation c g \<and> cache' (genPath g) = Some (Inr ()))
      (seq (loadGeneration t c p) (\<lambda>r. case r of
          Inl e \<Rightarrow> intact_loop t c cache (p # seen) ps
        | Inr g \<Rightarrow>
            if genVersion g \<noteq> cfgVersion c then intact_loop t c cache (p # seen) ps
            else
              seq (verifyGenerationCached t c cache g) (\<lambda>(v, cache').
                if isl v then intact_loop t c cache' (p # seen) ps
                else State_Monad.return (Some g, cache'))))"
    by (intro results_seq [OF loadGeneration_results])
       (use Cons in \<open>auto simp: sound_generation_def split: sum.splits\<close>)
  then show ?case using Cons by simp
qed (simp add: results_return)

type_synonym installed = "(fs_error + generation) \<times> verify_cache"

definition installed_ok :: "config \<Rightarrow> installed \<Rightarrow> bool" where
  "installed_ok c x \<longleftrightarrow> (\<forall>g. fst x = Inr g \<longrightarrow> sound_generation c g \<and> snd x (genPath g) = Some (Inr ()))"

lemma installed_ok_simps [simp]:
  "installed_ok c (Inl e, cache)"
  "installed_ok c (Inr g, cache) \<longleftrightarrow> sound_generation c g \<and> cache (genPath g) = Some (Inr ())"
  by (simp_all add: installed_ok_def)

lemma publishGeneration_results:
  "sound_generation c g \<Longrightarrow> results (installed_ok c) (publishGeneration t c cache g staging releasesHost)"
  unfolding publishGeneration_def
  by (intro results_any_seq results_case_sum results_return) (simp_all add: markVerified_def)

lemma place_generation_results:
  "sound_generation c g \<Longrightarrow> results (installed_ok c) (place_generation t c cache g staging)"
  unfolding place_generation_def Let_def
  by (intro results_intros results_any_seq publishGeneration_results) (simp_all add: markVerified_def)

lemma install_staged_results:
  assumes sha: "\<And>x. length (tlSHA512 t x) = sha512HexLen \<and> isHex (tlSHA512 t x)"
    and v: "validateVersion (cfgVersion c) = Inr ()" "isHex digest"
  shows "results (installed_ok c) (install_staged t c cache archivePath digest staging)"
proof -
  have files: "results (\<lambda>r. \<forall>files. r = Inr files \<longrightarrow> validateManifestFiles files = Inr ())
      (bindE (tlUntar t archivePath) (\<lambda>es. extractTar (tlOs t) (tlSHA512 t) es staging))"
  proof (rule results_any_bindE)
    fix es
    show "results (\<lambda>r. \<forall>files. r = Inr files \<longrightarrow> validateManifestFiles files = Inr ())
        (extractTar (tlOs t) (tlSHA512 t) es staging)"
      unfolding results_def
      by (metis extractTar_valid [where sha = "tlSHA512 t", OF sha] prod.collapse)
  qed simp
  have place: "results (installed_ok c) (place_generation t c cache
      \<lparr>genPath = path_join [releasesDir c, generationDirName (cfgVersion c) digest],
       genVersion = cfgVersion c, genSHA512 = digest, genFiles = files\<rparr> staging)"
    if "validateManifestFiles files = Inr ()" for files
    using that path_base_join [OF plain_dir_name [OF v]]
    by (intro place_generation_results) (simp add: sound_generation_def)
  show ?thesis
    unfolding install_staged_def Let_def
    by (intro results_any_seq [of _ _ "osChmod _ _ _"] results_seq [OF files] results_any_seq [of _ _ "runscReportedVersion _ _"]
        results_if results_case_sum results_return place) auto
qed

lemma install_new_results:
  assumes sha: "\<And>x. length (tlSHA512 t x) = sha512HexLen \<and> isHex (tlSHA512 t x)"
    and v: "validateVersion (cfgVersion c) = Inr ()"
  shows "results (installed_ok c) (install_new t c cache)"
proof -
  have download: "results (\<lambda>r. \<forall>p d. r = Inr (p, d) \<longrightarrow> isHex d) (downloadArchive t base dir)" for base dir
  proof -
    have hex: "isHex d" if "parseSHA512File body = Inr d" for body d
      using parseSHA512File_lower [OF that] lower_hex_plain by (auto simp: isHex_def list_all_iff)
    have stored: "results (\<lambda>r. \<forall>p d. r = Inr (p, d) \<longrightarrow> d = expected) (store_archive t url expected a dir)"
      for url expected a
      unfolding store_archive_def Let_def by (intro results_anys) auto
    show ?thesis
      unfolding downloadArchive_def Let_def
      by (intro results_any_seq [of _ _ "httpGet _ _"] results_case_sum results_any_bindE [of _ _ "osHttpGet _ _"]
          results_if results_throwE results_weaken [OF stored]) (auto dest: hex)
  qed
  show ?thesis
    unfolding install_new_def Let_def
    by (intro results_case_sum results_seq [OF download] results_case_prod results_any_seq [of _ _ "osMkdirTemp _ _ _"]
        results_ignoring results_return results_seq [OF install_staged_results [OF sha v]]) auto
qed

lemma ensureGeneration_results:
  assumes sha: "\<And>x. length (tlSHA512 t x) = sha512HexLen \<and> isHex (tlSHA512 t x)"
    and v: "validateVersion (cfgVersion c) = Inr ()"
  shows "results (installed_ok c) (ensureGeneration t c cache)"
proof -
  have "results (\<lambda>(found, cache'). \<forall>g. found = Some g \<longrightarrow> sound_generation c g \<and> cache' (genPath g) = Some (Inr ()))
      (intactGeneration t c cache)"
    unfolding intactGeneration_def by (intro results_any_seq intact_loop_results)
  then have "results (installed_ok c) (seq (intactGeneration t c cache) (\<lambda>(found, cache'). case found of
      Some g \<Rightarrow> State_Monad.return (Inr g, cache') | None \<Rightarrow> install_new t c cache'))"
    by (rule results_seq)
       (auto intro!: results_return install_new_results [OF sha v] split: option.splits)
  then show ?thesis
    unfolding ensureGeneration_def Let_def
    by (intro results_any_seq [of _ _ "osMkdirAll _ _ _"] results_any_seq [of _ _ "each _ _"] results_case_sum
        results_ignoring results_return) auto
qed


section \<open>What verification establishes\<close>

text \<open>The contract of the reading calls: they tell what the view holds and leave it alone.\<close>

definition reads_only :: "('w \<Rightarrow> view) \<Rightarrow> ('w, 'a) state \<Rightarrow> bool" where
  "reads_only view m \<longleftrightarrow> (\<forall>w. view (snd (run_state m w)) = view w)"

lemma reads_only_run: "reads_only view m \<Longrightarrow> run_state m w = (r, w') \<Longrightarrow> view w' = view w"
  by (metis reads_only_def snd_conv)

locale readable =
  fixes os :: "'w os" and view :: "'w \<Rightarrow> view"
  assumes lstat_reads: "reads_only view (osLstat os p)"
    and read_reads: "reads_only view (osReadFile os p)"
    and walk_reads: "reads_only view (osWalk os p)"
    and lstat_regular: "run_state (osLstat os p) w = (Inr fi, w') \<Longrightarrow> fiRegular fi \<Longrightarrow>
      \<exists>f. view w p = Some f \<and> fiPerm fi = fileMode f"
    and read_data: "run_state (osReadFile os p) w = (Inr s, w') \<Longrightarrow> view w p = Some f \<Longrightarrow> s = fileData f"
begin

lemma check_dir_reads: "run_state (check_dir os d) w = (r, w') \<Longrightarrow> view w' = view w"
  using reads_only_run [OF lstat_reads]
  by (cases "run_state (osLstat os d) w")
     (auto simp: check_dir_def State_Monad.bind_def returnE_def throwE_def split: sum.splits if_splits)

lemma check_file_sound:
  assumes "tlOs t = os" "run_state (check_file t dir (name, want)) w = (Inr u, w')"
  shows "view w' = view w \<and> (\<exists>f. view w (path_join [dir, name]) = Some f \<and>
    tlSHA512 t (fileData f) = exSHA512 want \<and> mode_text (fileMode f) = exMode want)"
proof -
  let ?p = "path_join [dir, name]"
  obtain r1 w1 where l: "run_state (osLstat os ?p) w = (r1, w1)" by (cases "run_state (osLstat os ?p) w")
  with assms obtain fi where fi: "r1 = Inr fi" "fiRegular fi" "mode_text (fiPerm fi) = exMode want"
    by (auto simp: check_file_def Let_def State_Monad.bind_def returnE_def throwE_def split: sum.splits if_splits)
  obtain r2 w2 where rd: "run_state (osReadFile os ?p) w1 = (r2, w2)" by (cases "run_state (osReadFile os ?p) w1")
  with assms l fi obtain s where s: "r2 = Inr s" "tlSHA512 t s = exSHA512 want" "w' = w2"
    by (auto simp: check_file_def Let_def fileSHA512_def bindE_def State_Monad.bind_def returnE_def throwE_def
        split: sum.splits if_splits)
  have v: "view w1 = view w" "view w2 = view w1"
    using reads_only_run [OF lstat_reads l] reads_only_run [OF read_reads rd] by simp_all
  obtain f where "view w ?p = Some f" "fiPerm fi = fileMode f" using lstat_regular l fi by blast
  then show ?thesis using read_data [of ?p w1 s w2 f] rd s v fi by auto
qed

lemma each_sound:
  assumes step: "\<And>x w r w'. x \<in> set xs \<Longrightarrow> run_state (f x) w = (Inr r, w') \<Longrightarrow> view w' = view w \<and> P x (view w)"
  shows "run_state (each f xs) w = (Inr u, w') \<Longrightarrow> view w' = view w \<and> (\<forall>x \<in> set xs. P x (view w))"
  using step
proof (induction xs arbitrary: w)
  case (Cons x xs)
  then obtain r w1 where r: "run_state (f x) w = (Inr r, w1)" "run_state (each f xs) w1 = (Inr u, w')"
    by (cases "run_state (f x) w") (auto simp: bindE_def State_Monad.bind_def throwE_def split: sum.splits)
  have "view w1 = view w \<and> P x (view w)" using Cons(3) [OF _ r(1)] by simp
  moreover have "view w' = view w1 \<and> (\<forall>x \<in> set xs. P x (view w1))"
    by (rule Cons(1) [OF r(2)]) (rule Cons(3), auto)
  ultimately show ?case by simp
qed (simp add: returnE_def)

lemma verifyGeneration_sound:
  assumes t: "tlOs t = os" and run: "run_state (verifyGeneration t c g) w = (Inr u, w')"
    and name: "(name, want) \<in> set (genFiles g)"
  shows "\<exists>f. view w (path_join [hostDir c g, name]) = Some f \<and>
    tlSHA512 t (fileData f) = exSHA512 want \<and> mode_text (fileMode f) = exMode want"
proof -
  let ?dirs = "[hostPath c (cfgInstallDir c), path_dir (hostDir c g), hostDir c g, path_join [hostDir c g, sidecarDirName]]"
  obtain u1 w1 u2 w2 where d: "run_state (each (check_dir os) ?dirs) w = (Inr u1, w1)"
      and f: "run_state (each (check_file t (hostDir c g)) (genFiles g)) w1 = (Inr u2, w2)"
    using run t unfolding verifyGeneration_def Let_def
    by (cases "run_state (each (check_dir os) ?dirs) w";
        cases "run_state (each (check_file t (hostDir c g)) (genFiles g)) (snd (run_state (each (check_dir os) ?dirs) w))")
       (auto simp: bindE_def State_Monad.bind_def throwE_def split: sum.splits)
  have "view w1 = view w"
    using each_sound [OF _ d, of "\<lambda>x v. True"] check_dir_reads by blast
  moreover have "\<forall>x \<in> set (genFiles g). case x of (n, want) \<Rightarrow> \<exists>f. view w1 (path_join [hostDir c g, n]) = Some f \<and>
      tlSHA512 t (fileData f) = exSHA512 want \<and> mode_text (fileMode f) = exMode want"
    using each_sound [OF _ f, of "\<lambda>x v. case x of (n, want) \<Rightarrow> \<exists>f. v (path_join [hostDir c g, n]) = Some f \<and>
      tlSHA512 t (fileData f) = exSHA512 want \<and> mode_text (fileMode f) = exMode want"]
      check_file_sound [OF t] by (auto split: prod.splits)
  ultimately show ?thesis using name by auto
qed

end

interpretation disk_reads: readable sim_os dkFiles
proof (unfold_locales, goal_cases)
  case 1 then show ?case by (auto simp: reads_only_def sim_os_def disk_stat_def split: option.splits)
next
  case 2 then show ?case by (auto simp: reads_only_def sim_os_def disk_call_run settle_def split: option.splits)
next
  case 3 then show ?case by (auto simp: reads_only_def sim_os_def State_Monad.return_def)
next
  case 4 then show ?case by (auto simp: sim_os_def disk_stat_def split: if_splits option.splits)
next
  case 5 then show ?case by (auto simp: sim_os_def disk_call_run split: if_splits)
qed


section \<open>Properties\<close>

definition witness_config :: config where
  "witness_config = \<lparr>cfgNodeName = ''n'', cfgVersion = ''20260721.0'', cfgURLBase = ''https://h/r'',
     cfgHandler = ''runsc'', cfgInstallDir = ''/b'', cfgHostRoot = ''/'', cfgRunscSrc = ''/c'',
     cfgHealthAddr = ''a'',
     cfgReconcileInterval = 0, cfgRetryInterval = 0, cfgReconcileTimeout = 0\<rparr>"

definition zeros :: string where "zeros = replicate 128 CHR ''0''"

definition witness_path :: string where "witness_path = ''/b/releases/20260721.0-'' @ zeros"

definition witness_record :: generation_record where
  "witness_record = \<lparr>grPath = witness_path, grConfigPath = ''/b/runsc-configs/x.toml'', grVersion = ''20260721.0'',
     grSHA512 = zeros, grHandler = ''runsc'', grBlock = ''b''\<rparr>"

definition witness_files :: files where
  "witness_files = map (\<lambda>n. (n, \<lparr>exSHA512 = zeros, exMode = ''0755''\<rparr>)) required_files"

definition witness_tools :: "disk tools" where
  "witness_tools = \<lparr>tlOs = sim_os, tlSHA512 = (\<lambda>s. zeros),
     tlReadManifest = (\<lambda>s. Inr \<lparr>mfSchema = 1, mfVersion = ''20260721.0'', mfSHA512 = zeros, mfFiles = witness_files\<rparr>),
     tlShowManifest = (\<lambda>m. Inr ''m''),
     tlReadState = (\<lambda>s. Inr \<lparr>stSchema = 1, stActive = Some witness_record, stPending = None\<rparr>),
     tlShowState = (\<lambda>s. Inr ''s''), tlParseToml = (\<lambda>s. Some Map.empty), tlEncodeToml = (\<lambda>d. Inr ''t''),
     tlUntar = (\<lambda>p. returnE []), tlGOARCH = ''amd64''\<rparr>"

definition witness_disk :: disk where
  "witness_disk = \<lparr>dkFiles = map_of (map (\<lambda>n. (witness_path @ ''/'' @ n, \<lparr>fileData = ''x'', fileMode = 493\<rparr>)) required_files
        @ [(witness_path @ ''/.manifest.json'', \<lparr>fileData = ''m'', fileMode = 420\<rparr>),
           (stateFilePath, \<lparr>fileData = ''s'', fileMode = 420\<rparr>)]),
     dkDirs = map_of (map (\<lambda>d. (d, 493)) [''/b'', ''/b/releases'', witness_path, witness_path @ ''/gvisor-bin'']),
     dkPast = [], dkTick = 0, dkFaults = (\<lambda>n. False)\<rparr>"

text \<open>
  C17. Whichever way the release comes to be there - found intact, restored in place or freshly
  downloaded - the generation that is returned is of the configured version, its directory
  carries its own version and digest, its manifest is valid, and it is recorded as verified.
\<close>

theorem ensured_generation_sound:
  assumes "\<And>x. length (tlSHA512 t x) = sha512HexLen \<and> isHex (tlSHA512 t x)"
    and "validateVersion (cfgVersion c) = Inr ()"
    and "run_state (ensureGeneration t c cache) w = ((Inr g, cache'), w')"
  shows "genVersion g = cfgVersion c \<and> path_base (genPath g) = generationDirName (genVersion g) (genSHA512 g) \<and>
    validateManifestFiles (genFiles g) = Inr () \<and> cache' (genPath g) = Some (Inr ())"
  using results_run [OF ensureGeneration_results [OF assms(1,2)] assms(3)] by (simp add: sound_generation_def)

theorem ensured_generation_sound_witness:
  "\<exists>g cache'. fst (run_state (ensureGeneration witness_tools witness_config Map.empty) witness_disk) = (Inr g, cache') \<and>
     genVersion g = ''20260721.0'' \<and> cache' (genPath g) = Some (Inr ())"
proof -
  have sha: "length (tlSHA512 witness_tools x) = sha512HexLen \<and> isHex (tlSHA512 witness_tools x)" for x
    by (simp add: witness_tools_def zeros_def sha512HexLen_def isHex_def list_all_iff is_hex_digit_def is_digit_def)
  have v: "validateVersion (cfgVersion witness_config) = Inr ()" by code_simp
  let ?run = "run_state (ensureGeneration witness_tools witness_config Map.empty) witness_disk"
  have "\<not> isl (fst (fst ?run))" by code_simp
  then obtain g cache' w' where run: "?run = ((Inr g, cache'), w')" by (cases ?run) (auto elim: not_isl)
  have "cfgVersion witness_config = ''20260721.0''" by (simp add: witness_config_def)
  then show ?thesis using ensured_generation_sound [OF sha v run] run by (intro exI [of _ g] exI [of _ cache']) simp
qed

text \<open>
  A generation that verifies holds, for every file of its manifest, a regular file of that
  mode whose content has the recorded digest.
\<close>

theorem verified_generation_matches:
  assumes "readable (tlOs t) view"
    and "run_state (verifyGeneration t c g) w = (Inr u, w')"
    and "(name, want) \<in> set (genFiles g)"
  shows "\<exists>f. view w (path_join [hostDir c g, name]) = Some f \<and>
    tlSHA512 t (fileData f) = exSHA512 want \<and> mode_text (fileMode f) = exMode want"
  using readable.verifyGeneration_sound [OF assms(1) refl assms(2,3)] .

theorem verified_generation_matches_witness:
  "\<exists>f. dkFiles witness_disk (path_join [hostDir witness_config
      \<lparr>genPath = witness_path, genVersion = ''20260721.0'', genSHA512 = zeros, genFiles = witness_files\<rparr>, runscBinary]) = Some f"
proof -
  let ?g = "\<lparr>genPath = witness_path, genVersion = ''20260721.0'', genSHA512 = zeros, genFiles = witness_files\<rparr>"
  let ?run = "run_state (verifyGeneration witness_tools witness_config ?g) witness_disk"
  have "\<not> isl (fst ?run)" by code_simp
  then obtain u w' where run: "?run = (Inr u, w')" by (cases ?run) (auto elim: not_isl)
  have "readable (tlOs witness_tools) dkFiles" using disk_reads.readable_axioms by (simp add: witness_tools_def)
  from verified_generation_matches [OF this run, of runscBinary "\<lparr>exSHA512 = zeros, exMode = ''0755''\<rparr>"]
  show ?thesis by (auto simp: witness_files_def required_files_def)
qed

end
