(* ===== verification/Preflight.thy ===== *)
theory Preflight
  imports Releases Traced "HOL-Library.List_Lexorder" "HOL-Library.Char_ord"
begin

text \<open>
  The installer's surroundings and its gate: \<open>cri.go\<close>, \<open>node.go\<close> and \<open>preflight.go\<close> of
  \<open>internal/gvisor-installer\<close>, the fields of \<open>Installer\<close> with the restart gates, the stall watchdog
  and the backoff of \<open>installer.go\<close>. The installer's methods are programs whose calls
  (\<open>icall\<close>) are recorded with their outcomes; the calls run the operations of the earlier
  theories. A Go context is part of the world: a call whose context has ended fails. Texts of
  errors are shortened.
\<close>


section \<open>The node\<close>

text \<open>
  The CRI runtime service, host commands in the host's mount namespace, the node object, the clock
  and waiting (which the end of the context interrupts) are parameters, like the operating system.
\<close>

record cri_runtime =
  crType :: string
  crPath :: string
  crConfigPath :: string

record cri_status =
  criReady :: bool
  criHandlers :: "string list"
  criRuntimes :: "string \<rightharpoonup> cri_runtime"

type_synonym 'a res = "fs_error + 'a"

record 'w node =
  ndTools :: "'w tools"
  ndConfig :: config
  ndRun :: "string \<Rightarrow> string list \<Rightarrow> 'w \<Rightarrow> string res \<times> 'w"
  ndStatus :: "bool \<Rightarrow> 'w \<Rightarrow> cri_status res \<times> 'w"
  ndPatch :: "(string \<times> string option) list \<Rightarrow> 'w \<Rightarrow> unit res \<times> 'w"
  ndEvent :: "string \<Rightarrow> string \<Rightarrow> string \<Rightarrow> 'w \<Rightarrow> 'w"
  ndNow :: "'w \<Rightarrow> time \<times> 'w"
  ndWait :: "duration \<Rightarrow> 'w \<Rightarrow> unit res \<times> 'w"
  ndCancelled :: "'w \<Rightarrow> bool \<times> 'w"

definition LabelGVisorReady :: string where "LabelGVisorReady = ''isola.run/gvisor''"
definition LabelGVisorVersion :: string where "LabelGVisorVersion = ''isola.run/gvisor-version''"
definition LabelGVisorInstall :: string where "LabelGVisorInstall = ''isola.run/gvisor-install''"
definition VersionUnmanaged :: string where "VersionUnmanaged = ''unmanaged''"

text \<open>An empty value removes the label.\<close>

definition patch_label :: "string \<times> string \<Rightarrow> string \<times> string option" where
  "patch_label = (\<lambda>(k, v). (k, if v = [] then None else Some v))"

definition SetNodeLabels :: "'w node \<Rightarrow> (string \<times> string) list \<Rightarrow> 'w \<Rightarrow> unit res \<times> 'w" where
  "SetNodeLabels n labels w =
     (case ndPatch n (map patch_label labels) w of
        (Inl e, w') \<Rightarrow> (Inl (Wrapped ''patching node labels'' e), w')
      | (Inr _, w') \<Rightarrow> (Inr (), w'))"

definition errNoRuntimeHandlers :: fs_error where
  "errNoRuntimeHandlers = Failed ''containerd reports no runtime handlers over CRI''"

text \<open>
  \<open>statusFromRPC\<close>, over the two answers of the service: the plain one and the verbose one, whose
  plugin configuration is parsed by a parameter. Handlers taken from it come in order.
\<close>

record rpc_status =
  rpcConditions :: "(string \<times> bool) list"
  rpcHandlers :: "string list"

definition runtimesFromPluginConfig ::
  "(string \<Rightarrow> ((string \<times> cri_runtime) list) res) \<Rightarrow> string \<Rightarrow> ((string \<times> cri_runtime) list) res" where
  "runtimesFromPluginConfig parse raw =
     (if raw = [] then Inr []
      else
        (case parse raw of
           Inl e \<Rightarrow> Inl (Wrapped ''parsing the CRI plugin config reported by containerd'' e)
         | Inr rts \<Rightarrow> Inr rts))"

definition runtime_ready :: "(string \<times> bool) list \<Rightarrow> bool" where
  "runtime_ready conds = foldl (\<lambda>r (t, s). if t = ''RuntimeReady'' then s else r) False conds"

definition statusFromRPC ::
  "(string \<Rightarrow> ((string \<times> cri_runtime) list) res) \<Rightarrow>
   (bool \<Rightarrow> 'w \<Rightarrow> (rpc_status \<times> string) res \<times> 'w) \<Rightarrow> bool \<Rightarrow> 'w \<Rightarrow> cri_status res \<times> 'w" where
  "statusFromRPC parse call withHandlers w =
     (case call False w of
        (Inl e, w1) \<Rightarrow> (Inl (Wrapped ''CRI runtime status'' e), w1)
      | (Inr (resp, _), w1) \<Rightarrow>
          (let st = \<lparr>criReady = runtime_ready (rpcConditions resp), criHandlers = rpcHandlers resp,
                     criRuntimes = Map.empty\<rparr> in
           if \<not> withHandlers then (Inr st, w1)
           else
             (case call True w1 of
                (Inl e, w2) \<Rightarrow> (Inl (Wrapped ''CRI runtime status (verbose)'' e), w2)
              | (Inr (_, raw), w2) \<Rightarrow>
                  (case runtimesFromPluginConfig parse raw of
                     Inl e \<Rightarrow> (Inl e, w2)
                   | Inr rts \<Rightarrow>
                       (Inr (st \<lparr>criRuntimes := map_of rts,
                          criHandlers := (if criHandlers st = [] then sort (remdups (map fst rts)) else criHandlers st)\<rparr>), w2)))))"


section \<open>The installer\<close>

record restart_gate =
  gateSig :: string
  gateNotBefore :: time

definition gate_clear :: restart_gate where
  "gate_clear = \<lparr>gateSig = [], gateNotBefore = zero_time\<rparr>"

definition gate_blocked :: "restart_gate \<Rightarrow> time \<Rightarrow> string \<Rightarrow> bool" where
  "gate_blocked g now sig \<longleftrightarrow> gateSig g = sig \<and> time_before now (gateNotBefore g)"

definition gate_block :: "time \<Rightarrow> string \<Rightarrow> duration \<Rightarrow> restart_gate" where
  "gate_block now sig cooldown = \<lparr>gateSig = sig, gateNotBefore = time_add now cooldown\<rparr>"

text \<open>
  The fields of \<open>Installer\<close> that change, and the journal state of the pass under way, which the
  code passes around by reference.
\<close>

record installer =
  inReady :: bool
  inLastReadyLabel :: string
  inPreflightPID :: int
  inConvergeFor :: string
  inRecoveryGate :: restart_gate
  inActivationGate :: restart_gate
  inVerifyCache :: verify_cache
  inLastDone :: time
  inState :: installer_state

definition restartCooldown :: duration where "restartCooldown = 1800 * nano_second"
definition healthWait :: duration where "healthWait = 90 * nano_second"
definition healthPoll :: duration where "healthPoll = 2 * nano_second"
definition defaultReconcileTimeout :: duration where "defaultReconcileTimeout = 1800 * nano_second"
definition stallFactor :: int where "stallFactor = 2"

definition new_installer :: "time \<Rightarrow> installer" where
  "new_installer now = \<lparr>inReady = False, inLastReadyLabel = [], inPreflightPID = 0, inConvergeFor = [],
     inRecoveryGate = gate_clear, inActivationGate = gate_clear, inVerifyCache = Map.empty,
     inLastDone = now, inState = no_state\<rparr>"

definition effectiveReconcileTimeout :: "config \<Rightarrow> duration" where
  "effectiveReconcileTimeout c =
     (if cfgReconcileTimeout c \<le> 0 then defaultReconcileTimeout else cfgReconcileTimeout c)"

definition stallThreshold :: "config \<Rightarrow> duration" where
  "stallThreshold c = int64 (stallFactor * (effectiveReconcileTimeout c + cfgReconcileInterval c))"

definition Stalled :: "config \<Rightarrow> installer \<Rightarrow> time \<Rightarrow> bool \<times> duration" where
  "Stalled c i now = (let silent = time_sub now (inLastDone i) in (stallThreshold c < silent, silent))"

text \<open>The waiting time after a failure: doubled for each further failure, up to the limit.\<close>

fun backoff_loop :: "nat \<Rightarrow> duration \<Rightarrow> duration \<Rightarrow> duration" where
  "backoff_loop 0 d maxWait = (if maxWait < d then maxWait else d)"
| "backoff_loop (Suc n) d maxWait =
     (let d' = int64 (d * 2) in if maxWait \<le> d' then maxWait else backoff_loop n d' maxWait)"

definition backoffInterval :: "duration \<Rightarrow> nat \<Rightarrow> duration \<Rightarrow> duration" where
  "backoffInterval base failures maxWait = backoff_loop (failures - 1) base maxWait"

text \<open>The interval of \<open>Run\<close> after a pass, and the failures counted.\<close>

definition run_interval :: "config \<Rightarrow> nat \<Rightarrow> duration" where
  "run_interval c failures =
     (if 0 < failures then backoffInterval (cfgRetryInterval c) failures (cfgReconcileInterval c)
      else cfgReconcileInterval c)"


section \<open>Calls\<close>

datatype icall =
    ReadFile string "string res"
  | WriteConfig string "unit res"
  | ReadJournal installer_state
  | WriteJournal installer_state "unit res"
  | HostRun string "string list" "string res"
  | CriStatus bool "cri_status res"
  | SetLabels string string "unit res"
  | NodeEvent string string string
  | Clock time
  | LoadGeneration string "generation res"
  | VerifyGeneration generation "unit res"
  | EnsureGeneration "generation res"
  | ConfigIntact string bool
  | EnsureConfig generation "string res"
  | Backup "unit res"
  | SweepTemps
  | Wait "unit res"
  | Cancelled bool

type_synonym ('w, 'a) inst = "('w, installer, icall, 'a) program"
type_synonym ('w, 'a) instE = "('w, installer, icall, 'a res) program"

definition os_call :: "('w, 'a) state \<Rightarrow> ('a \<Rightarrow> icall) \<Rightarrow> ('w, 'a) inst" where
  "os_call m c = call_api (run_state m) c"

definition i_read_file :: "'w node \<Rightarrow> string \<Rightarrow> ('w, string) instE" where
  "i_read_file n p = os_call (osReadFile (tlOs (ndTools n)) p) (ReadFile p)"

definition cfg_path :: "'w node \<Rightarrow> string" where
  "cfg_path n = hostPath (ndConfig n) containerdConfigPath"

definition i_write_config :: "'w node \<Rightarrow> string \<Rightarrow> ('w, unit) instE" where
  "i_write_config n data = os_call (writeFileAtomic (tlOs (ndTools n)) (cfg_path n) data) (WriteConfig data)"

definition i_read_state :: "'w node \<Rightarrow> ('w, installer_state) inst" where
  "i_read_state n = os_call (readState (ndTools n) (ndConfig n)) ReadJournal"

definition i_write_state :: "'w node \<Rightarrow> installer_state \<Rightarrow> ('w, unit) instE" where
  "i_write_state n st = os_call (writeState (ndTools n) (ndConfig n) st) (WriteJournal st)"

definition i_run :: "'w node \<Rightarrow> string \<Rightarrow> string list \<Rightarrow> ('w, string) instE" where
  "i_run n cmd args = call_api (ndRun n cmd args) (HostRun cmd args)"

definition i_status :: "'w node \<Rightarrow> bool \<Rightarrow> ('w, cri_status) instE" where
  "i_status n b = call_api (ndStatus n b) (CriStatus b)"

definition i_now :: "'w node \<Rightarrow> ('w, time) inst" where
  "i_now n = call_api (ndNow n) Clock"

definition i_event :: "'w node \<Rightarrow> string \<Rightarrow> string \<Rightarrow> string \<Rightarrow> ('w, unit) inst" where
  "i_event n kind reason msg = call_api (\<lambda>w. ((), ndEvent n kind reason msg w)) (\<lambda>_. NodeEvent kind reason msg)"

definition i_load :: "'w node \<Rightarrow> string \<Rightarrow> ('w, generation) instE" where
  "i_load n p = os_call (loadGeneration (ndTools n) (ndConfig n) p) (LoadGeneration p)"

definition i_verify :: "'w node \<Rightarrow> generation \<Rightarrow> ('w, unit) instE" where
  "i_verify n g = os_call (verifyGeneration (ndTools n) (ndConfig n) g) (VerifyGeneration g)"

text \<open>Operations on the pass's cache of verdicts.\<close>

definition with_cache ::
  "(verify_cache \<Rightarrow> ('w, 'a \<times> verify_cache) state) \<Rightarrow> ('a \<Rightarrow> icall) \<Rightarrow> ('w, 'a) inst" where
  "with_cache f c =
     State_Monad.bind get_object (\<lambda>i.
     State_Monad.bind (os_call (f (inVerifyCache i)) (\<lambda>(a, cache). c a)) (\<lambda>(a, cache).
     State_Monad.bind (set_object (i \<lparr>inVerifyCache := cache\<rparr>)) (\<lambda>_. State_Monad.return a)))"

definition i_verify_cached :: "'w node \<Rightarrow> generation \<Rightarrow> ('w, unit) instE" where
  "i_verify_cached n g =
     with_cache (\<lambda>cache. verifyGenerationCached (ndTools n) (ndConfig n) cache g) (VerifyGeneration g)"

definition i_ensure_generation :: "'w node \<Rightarrow> ('w, generation) instE" where
  "i_ensure_generation n =
     with_cache (\<lambda>cache. ensureGeneration (ndTools n) (ndConfig n) cache) EnsureGeneration"

definition i_config_intact :: "'w node \<Rightarrow> string \<Rightarrow> ('w, bool) inst" where
  "i_config_intact n p = os_call (runscConfigIntact (ndTools n) (ndConfig n) p) (ConfigIntact p)"

definition i_ensure_config :: "'w node \<Rightarrow> generation \<Rightarrow> string \<Rightarrow> ('w, string) instE" where
  "i_ensure_config n g dump = os_call (ensureRunscConfig (ndTools n) (ndConfig n) g dump) (EnsureConfig g)"

definition set_state :: "installer_state \<Rightarrow> ('w, unit) inst" where
  "set_state st = State_Monad.bind get_object (\<lambda>i. set_object (i \<lparr>inState := st\<rparr>))"

definition get_state :: "('w, installer_state) inst" where
  "get_state = State_Monad.bind get_object (\<lambda>i. State_Monad.return (inState i))"


section \<open>Preflight\<close>

definition knownDistroMarkers :: "(string \<times> string) list" where
  "knownDistroMarkers =
     [(''k3s'', ''/var/lib/rancher/k3s/agent/etc/containerd''),
      (''RKE2'', ''/var/lib/rancher/rke2/agent/etc/containerd''),
      (''MicroK8s'', ''/var/snap/microk8s/current/args''),
      (''k0s'', ''/etc/k0s/containerd.toml'')]"

fun distro_loop :: "'w node \<Rightarrow> (string \<times> string) list \<Rightarrow> ('w, string) inst" where
  "distro_loop n [] = State_Monad.return []"
| "distro_loop n ((distro, path) # ms) =
     State_Monad.bind (i_run n ''test'' [''-e'', path]) (\<lambda>r. case r of
       Inr _ \<Rightarrow> State_Monad.return ('' (node appears to run '' @ distro @ '', which manages containerd itself: '' @ LabelGVisorInstall @ ''=disabled)'')
     | Inl e \<Rightarrow> distro_loop n ms)"

definition distroHint :: "'w node \<Rightarrow> ('w, string) inst" where
  "distroHint n = distro_loop n knownDistroMarkers"

definition add_property :: "(string \<rightharpoonup> string) \<Rightarrow> string \<Rightarrow> (string \<rightharpoonup> string)" where
  "add_property props line =
     (case str_cut (trim_space line) ''='' of (k, v, found) \<Rightarrow> if found then props(k \<mapsto> v) else props)"

definition parseProperties :: "string \<Rightarrow> (string \<rightharpoonup> string)" where
  "parseProperties out = foldl add_property Map.empty (split_char CHR 0x0A out)"

text \<open>A missing key of a Go map reads as the empty string.\<close>

definition prop_of :: "(string \<rightharpoonup> string) \<Rightarrow> string \<Rightarrow> string" where
  "prop_of props k = (case props k of None \<Rightarrow> [] | Some v \<Rightarrow> v)"

fun config_flag :: "string list \<Rightarrow> string" where
  "config_flag [] = []"
| "config_flag (a # as) =
     (if a = ''-c'' \<or> a = ''--config'' then (case as of [] \<Rightarrow> [] | b # _ \<Rightarrow> b)
      else if prefix ''--config='' a then trim_prefix a ''--config=''
      else if prefix ''-c='' a then trim_prefix a ''-c=''
      else config_flag as)"

definition configFlagFromCmdline :: "string \<Rightarrow> string" where
  "configFlagFromCmdline cmdline = config_flag (split_char CHR 0x00 cmdline)"

text \<open>Without a process: only a direct call of containerd with its standard configuration.\<close>

definition exec_suffixes :: "string list" where
  "exec_suffixes = ['''', '' --config '' @ containerdConfigPath, '' --config='' @ containerdConfigPath,
     '' -c '' @ containerdConfigPath, '' -c='' @ containerdConfigPath]"

definition plain_binary :: "string \<Rightarrow> bool" where
  "plain_binary b \<longleftrightarrow> path_is_abs b \<and> path_base b = ''containerd'' \<and>
     \<not> list_ex (\<lambda>c. c \<in> set ('' '' @ [CHR 0x09, CHR 0x0A, CHR 0x5C, CHR 0x22, CHR 0x27] @ ''$;{}'')) b"

definition validateRecoveryExecStart :: "string \<Rightarrow> unit res" where
  "validateRecoveryExecStart val =
     (case str_cut val '' ; argv[]='' of (pre, rest, ok) \<Rightarrow>
        let direct = prefix ''{ path='' pre; binary = trim_prefix pre ''{ path='' in
        (case str_cut rest '' ; '' of (argv, _, haveArgs) \<Rightarrow>
           if \<not> ok \<or> \<not> direct \<or> \<not> haveArgs \<or> \<not> plain_binary binary
           then Inl (Failed ''cannot recover stopped containerd: ExecStart must directly invoke containerd with its standard config'')
           else if list_ex (\<lambda>s. argv = binary @ s) exec_suffixes then Inr ()
           else Inl (Failed ''cannot recover stopped containerd: unsupported ExecStart arguments'')))"

definition atoi :: "string \<Rightarrow> int option" where
  "atoi s =
     (let neg = (s \<noteq> [] \<and> hd s = CHR ''-''); ds = (if s \<noteq> [] \<and> hd s \<in> {CHR ''-'', CHR ''+''} then tl s else s);
          v = (if neg then - int (digits_value ds) else int (digits_value ds)) in
      if ds = [] \<or> \<not> list_all is_digit ds \<or> v < min_duration \<or> max_duration < v then None else Some v)"

definition hinted :: "'w node \<Rightarrow> (string \<Rightarrow> fs_error) \<Rightarrow> ('w, unit) instE" where
  "hinted n err = State_Monad.bind (distroHint n) (\<lambda>hint. throwE (err hint))"

text \<open>What preflight checks of the live process.\<close>

definition preflight_process :: "'w node \<Rightarrow> int \<Rightarrow> bool \<Rightarrow> ('w, unit) instE" where
  "preflight_process n pid recovering =
     State_Monad.bind (i_read_file n (path_join [''/proc'', itoa pid, ''cmdline''])) (\<lambda>r. case r of
       Inl e \<Rightarrow> throwE (Wrapped ''reading the containerd process cmdline'' e)
     | Inr cmdline \<Rightarrow>
         (let cfg = configFlagFromCmdline cmdline in
          if cfg \<noteq> [] \<and> cfg \<noteq> containerdConfigPath
          then hinted n (\<lambda>hint. Failed (''containerd runs with a non-standard config (--config '' @ cfg @ '')'' @ hint))
          else if recovering then returnE ()
          else
            State_Monad.bind (i_status n True) (\<lambda>r. case r of
              Inl e \<Rightarrow> throwE (Wrapped ''querying containerd CRI status'' e)
            | Inr st \<Rightarrow>
                if criHandlers st = [] then throwE errNoRuntimeHandlers
                else
                  State_Monad.bind get_object (\<lambda>i.
                  State_Monad.bind (set_object (i \<lparr>inPreflightPID := pid\<rparr>)) (\<lambda>_. returnE ())))))"

definition preflight :: "'w node \<Rightarrow> bool \<Rightarrow> ('w, unit) instE" where
  "preflight n recovering =
     State_Monad.bind (i_run n ''systemctl''
         [''show'', ''containerd'', ''--property=LoadState,ActiveState,MainPID,ExecStart'']) (\<lambda>r. case r of
       Inl e \<Rightarrow> hinted n (\<lambda>hint. Wrapped (''querying the containerd systemd unit'' @ hint) e)
     | Inr out \<Rightarrow>
         (let props = parseProperties out in
          if prop_of props ''LoadState'' \<noteq> ''loaded''
          then hinted n (\<lambda>hint. Failed (''no containerd systemd unit on this node (LoadState=''
                 @ prop_of props ''LoadState'' @ '')'' @ hint))
          else if prop_of props ''ActiveState'' \<noteq> ''active'' \<and> \<not> recovering
          then throwE (Failed (''containerd systemd unit is not active (ActiveState='' @ prop_of props ''ActiveState'' @ '')''))
          else
            (let no_pid = (if recovering then State_Monad.return (validateRecoveryExecStart (prop_of props ''ExecStart''))
                  else throwE (Failed (''containerd systemd unit reports no main PID (MainPID='' @ prop_of props ''MainPID'' @ '')''))) in
             case atoi (prop_of props ''MainPID'') of
               None \<Rightarrow> no_pid
             | Some pid \<Rightarrow>
                 if pid \<le> 0 then no_pid
                 else
                   State_Monad.bind get_object (\<lambda>i.
                     if inPreflightPID i = pid then returnE ()
                     else preflight_process n pid recovering))))"


section \<open>Properties\<close>

lemma backoff_loop_min:
  assumes "0 \<le> d" "d < 2 ^ 62" "0 \<le> m" "m \<le> 2 ^ 62"
  shows "backoff_loop n d m = min m (d * 2 ^ n)"
  using assms
proof (induction n arbitrary: d)
  case (Suc n)
  have wrap: "int64 (d * 2) = d * 2"
    by (rule int64_eq) (use Suc(2,3) in \<open>simp_all add: min_duration_def max_duration_def\<close>)
  show ?case
  proof (cases "m \<le> d * 2")
    case True
    have "d * 2 * 1 \<le> d * 2 * 2 ^ n" by (rule mult_left_mono) (use Suc(2) in simp_all)
    then have "m \<le> d * 2 * 2 ^ n" using True by linarith
    then show ?thesis using True by (simp add: wrap Let_def mult.assoc min_def)
  next
    case False
    then have "d * 2 < 2 ^ 62" using Suc(5) by linarith
    from Suc(1) [OF _ this Suc(4,5)] False Suc(2) show ?thesis
      by (simp add: wrap Let_def mult.assoc)
  qed
qed (simp add: min_def)

text \<open>
  The retry interval after a number of failures in a row is the base interval doubled for each
  failure after the first, up to the limit: nothing wraps around while the base is below and the
  limit at most \<open>2^62\<close> nanoseconds (146 years).
\<close>

theorem backoff_doubles:
  assumes "0 \<le> base" "base < 2 ^ 62" "0 \<le> maxWait" "maxWait \<le> 2 ^ 62"
  shows "backoffInterval base failures maxWait = min maxWait (base * 2 ^ (failures - 1))"
  using backoff_loop_min [OF assms] by (simp add: backoffInterval_def)

theorem backoff_doubles_witness:
  "backoffInterval (60 * nano_second) 3 (300 * nano_second) = 240 * nano_second \<and>
   backoffInterval (60 * nano_second) 9 (300 * nano_second) = 300 * nano_second"
  using backoff_doubles [of "60 * nano_second" "300 * nano_second" 3]
    backoff_doubles [of "60 * nano_second" "300 * nano_second" 9]
  by (simp add: nano_second_def)

lemma str_cut_found:
  "str_cut s sep = (pre, rest, True) \<Longrightarrow> s = pre @ sep @ rest"
  unfolding str_cut_def by (auto split: option.splits dest!: str_index_Some simp: append_eq_conv_conj)

lemma str_cut_semicolon:
  assumes "CHR '';'' \<notin> set u" "\<exists>r. sep = CHR '' '' # CHR '';'' # r"
  shows "str_cut (u @ sep @ v) sep = (u, v, True)"
proof -
  obtain r where r: "sep = CHR '' '' # CHR '';'' # r" using assms(2) by blast
  have "\<not> prefix sep (drop j (u @ sep @ v))" if j: "j < length u" for j
  proof (cases "Suc j < length u")
    case True
    then have "(u @ sep @ v) ! Suc j \<in> set u" by (simp add: nth_append)
    then have "(u @ sep @ v) ! Suc j \<noteq> CHR '';''" using assms(1) by metis
    moreover have "(u @ sep @ v) ! Suc j = CHR '';''" if "prefix sep (drop j (u @ sep @ v))"
    proof -
      from that obtain w where "drop j (u @ sep @ v) = sep @ w" by (auto simp: prefix_def)
      then have "drop j (u @ sep @ v) ! 1 = CHR '';''" by (simp add: r)
      moreover have "drop j (u @ sep @ v) ! 1 = (u @ sep @ v) ! Suc j"
        using j by (subst nth_drop) simp_all
      ultimately show ?thesis by (simp only:)
    qed
    ultimately show ?thesis by blast
  next
    case False
    then have j': "length u = Suc j" using j by simp
    then have "drop j (u @ sep @ v) = u ! j # sep @ v"
      using j by (simp add: Cons_nth_drop_Suc [symmetric])
    then show ?thesis by (simp add: r)
  qed
  then have "str_index (u @ sep @ v) sep = Some (length u)" by (intro str_index_intro) blast
  then show ?thesis by (simp add: str_cut_def)
qed

lemma exec_suffixes_plain: "s \<in> set exec_suffixes \<Longrightarrow> CHR '';'' \<notin> set s"
  by (auto simp: exec_suffixes_def containerdConfigPath_def)

text \<open>
  A stopped containerd is only recovered when systemd would start the binary \<open>containerd\<close>, given by an
  absolute path without quoting, directly and with its standard configuration: exactly these
  values of \<open>ExecStart\<close> are accepted.
\<close>

theorem exec_start_accepted:
  "validateRecoveryExecStart v = Inr () \<longleftrightarrow>
     (\<exists>b s rest. v = ''{ path='' @ b @ '' ; argv[]='' @ b @ s @ '' ; '' @ rest \<and> plain_binary b \<and> s \<in> set exec_suffixes)"
    (is "?L \<longleftrightarrow> ?R")
proof
  assume ?L
  obtain pre rest ok where cut: "str_cut v '' ; argv[]='' = (pre, rest, ok)" by (metis prod_cases3)
  obtain argv tail ha where cut2: "str_cut rest '' ; '' = (argv, tail, ha)" by (metis prod_cases3)
  let ?b = "trim_prefix pre ''{ path=''"
  have conds: "ok" "ha" "prefix ''{ path='' pre" "plain_binary ?b" "list_ex (\<lambda>s. argv = ?b @ s) exec_suffixes"
    using \<open>?L\<close> unfolding validateRecoveryExecStart_def cut
    by (auto simp: Let_def cut2 split: if_splits)
  have "v = pre @ '' ; argv[]='' @ rest" "rest = argv @ '' ; '' @ tail"
    using str_cut_found [of v "'' ; argv[]=''" pre rest] str_cut_found [of rest "'' ; ''" argv tail] cut cut2 conds(1,2)
    by simp_all
  moreover have "pre = ''{ path='' @ ?b" using conds(3) by (auto simp: trim_prefix_def prefix_def)
  moreover obtain s where "s \<in> set exec_suffixes" "argv = ?b @ s" using conds(5) by (auto simp: list_ex_iff)
  ultimately show ?R using conds(4) by (intro exI [of _ ?b] exI [of _ s] exI [of _ tail]) simp
next
  assume ?R
  then obtain b s rest where v: "v = ''{ path='' @ b @ '' ; argv[]='' @ b @ s @ '' ; '' @ rest"
    and b: "plain_binary b" and s: "s \<in> set exec_suffixes" by blast
  have semi: "CHR '';'' \<notin> set b" using b by (auto simp: plain_binary_def list_ex_iff)
  have "str_cut (''{ path='' @ b @ '' ; argv[]='' @ b @ s @ '' ; '' @ rest) '' ; argv[]='' =
      (''{ path='' @ b, b @ s @ '' ; '' @ rest, True)"
    using str_cut_semicolon [of "''{ path='' @ b" "'' ; argv[]=''" "b @ s @ '' ; '' @ rest"] semi by simp
  moreover have "str_cut ((b @ s) @ '' ; '' @ rest) '' ; '' = (b @ s, rest, True)"
    by (rule str_cut_semicolon) (use semi exec_suffixes_plain [OF s] in simp_all)
  moreover have "trim_prefix (''{ path='' @ b) ''{ path='' = b" by (simp add: trim_prefix_def)
  ultimately show ?L
    using b s unfolding v validateRecoveryExecStart_def by (auto simp: Let_def list_ex_iff)
qed

end
