(* ===== verification/Installer.thy ===== *)
theory Installer
  imports Preflight
begin

text \<open>
  The reconcile loop of the gVisor installer: \<open>installer.go\<close> of \<open>internal/gvisor-installer\<close>, one
  program per method, over the node and the recorded calls of \<open>Preflight\<close>. The journal state that
  the code passes by reference is the field \<open>inState\<close> of the installer. Errors that wrap two
  others are \<open>Joined\<close>, texts of errors are shortened.
\<close>

definition as_res :: "string + 'a \<Rightarrow> 'a res" where
  "as_res r = map_sum Failed id r"

definition lift_res :: "'a res \<Rightarrow> ('w, 'a) instE" where
  "lift_res r = State_Monad.return r"

definition modify_installer :: "(installer \<Rightarrow> installer) \<Rightarrow> ('w, unit) inst" where
  "modify_installer f = seq get_object (\<lambda>i. set_object (f i))"


section \<open>What containerd serves\<close>

definition serving_error :: "cri_status \<Rightarrow> string \<Rightarrow> runtime_target option \<Rightarrow> unit res" where
  "serving_error st handler want =
     (if \<not> criReady st then Inl (Failed ''containerd RuntimeReady condition is false'')
      else if criHandlers st = [] then Inl errNoRuntimeHandlers
      else if handler \<notin> set (criHandlers st) then Inl (Failed (''runtime handler '' @ quoted handler @ '' not served by containerd''))
      else
        (case criRuntimes st handler of
           None \<Rightarrow> Inl (Failed (''containerd did not report a loaded config for runtime handler '' @ quoted handler))
         | Some loaded \<Rightarrow>
             if crType loaded \<noteq> runscRuntimeType
             then Inl (Failed (''containerd serves handler '' @ quoted handler @ '' with runtime_type '' @ quoted (crType loaded)))
             else
               (case want of
                  None \<Rightarrow> Inr ()
                | Some w \<Rightarrow>
                    if crPath loaded \<noteq> targetShim w
                    then Inl (Failed (''containerd serves handler '' @ quoted handler @ '' from shim '' @ quoted (crPath loaded)))
                    else if crConfigPath loaded \<noteq> targetConfig w
                    then Inl (Failed (''containerd serves handler '' @ quoted handler @ '' with ConfigPath '' @ quoted (crConfigPath loaded)))
                    else Inr ())))"

definition verifyServing :: "'w node \<Rightarrow> string \<Rightarrow> runtime_target option \<Rightarrow> ('w, unit) instE" where
  "verifyServing n handler want = bindE (i_status n True) (\<lambda>st. lift_res (serving_error st handler want))"

text \<open>
  The polling loop, on fuel: \<open>await_fuel\<close> rounds are enough because every round waits for
  \<open>healthPoll\<close>, and \<open>healthWait\<close> is the time allowed.
\<close>

definition not_ready :: "fs_error option \<Rightarrow> fs_error" where
  "not_ready lastErr =
     (case lastErr of
        None \<Rightarrow> Failed ''containerd not ready within 1m30s''
      | Some e \<Rightarrow> Wrapped ''containerd not ready within 1m30s'' e)"

definition ready_answer :: "cri_status res \<Rightarrow> bool" where
  "ready_answer r = (case r of Inl e \<Rightarrow> False | Inr st \<Rightarrow> criReady st)"

definition i_wait :: "'w node \<Rightarrow> duration \<Rightarrow> ('w, unit) instE" where
  "i_wait n d = call_api (ndWait n d) Wait"

fun await_loop :: "'w node \<Rightarrow> time \<Rightarrow> fs_error option \<Rightarrow> nat \<Rightarrow> ('w, unit) instE" where
  "await_loop n deadline lastErr 0 = throwE (not_ready lastErr)"
| "await_loop n deadline lastErr (Suc fuel) =
     seq (i_now n) (\<lambda>now.
       if \<not> time_before now deadline then throwE (not_ready lastErr)
       else
         seq (i_status n False) (\<lambda>r.
           if ready_answer r then returnE ()
           else
             (let err = (case r of Inl e \<Rightarrow> e | Inr _ \<Rightarrow> Failed ''RuntimeReady condition is false'') in
              bindE (i_wait n healthPoll) (\<lambda>_. await_loop n deadline (Some err) fuel))))"

definition await_fuel :: nat where
  "await_fuel = nat (healthWait div healthPoll) + 2"

definition awaitRuntimeReady :: "'w node \<Rightarrow> ('w, unit) instE" where
  "awaitRuntimeReady n =
     seq (i_now n) (\<lambda>now. await_loop n (time_add now healthWait) None await_fuel)"

definition restartAndAwaitHealthy :: "'w node \<Rightarrow> ('w, unit) instE" where
  "restartAndAwaitHealthy n =
     bindE (i_run n ''systemctl'' [''restart'', ''containerd'']) (\<lambda>_. awaitRuntimeReady n)"


section \<open>Classifying the configuration\<close>

definition dump_config :: "'w node \<Rightarrow> ('w, string) instE" where
  "dump_config n = i_run n ''containerd'' [''config'', ''dump'']"

definition runtime_of_dump :: "'w node \<Rightarrow> string \<Rightarrow> string \<Rightarrow> toml_table option" where
  "runtime_of_dump n dump handler = runtimeFromDump (tlParseToml (ndTools n) dump) handler"

definition mergedEntryConflict :: "config \<Rightarrow> toml_table \<Rightarrow> runtime_target option \<Rightarrow> unit res" where
  "mergedEntryConflict c rt pin =
     (if toml_string (rt ''runtime_type'') \<noteq> runscRuntimeType
      then Inl (Failed (''containerd has a runtime handler '' @ quoted (cfgHandler c) @ '' with a different runtime_type''))
      else
        (case pin of
           None \<Rightarrow> Inr ()
         | Some p \<Rightarrow>
             (case mergedEntryOverride rt p of
                None \<Rightarrow> Inr ()
              | Some (field, got) \<Rightarrow>
                  Inl (Failed (''a containerd import overrides the managed runtime handler '' @ quoted (cfgHandler c)
                    @ '' ('' @ field @ '' is '' @ quoted got @ '')'')))))"

definition pinnedTarget :: "'w node \<Rightarrow> installer_state \<Rightarrow> bool \<Rightarrow> ('w, runtime_target option) inst" where
  "pinnedTarget n st activeCurrent =
     (case (activeCurrent, stActive st) of
        (True, Some a) \<Rightarrow>
          seq (i_load n (grPath a)) (\<lambda>r. State_Monad.return (case r of
            Inl e \<Rightarrow> None
          | Inr g \<Rightarrow> Some \<lparr>targetShim = shimPath g, targetConfig = grConfigPath a\<rparr>))
      | _ \<Rightarrow> State_Monad.return None)"

definition setNodeLabels :: "'w node \<Rightarrow> string \<Rightarrow> string \<Rightarrow> ('w, unit) instE" where
  "setNodeLabels n ready version =
     call_api (SetNodeLabels n [(LabelGVisorReady, ready), (LabelGVisorVersion, version)]) (SetLabels ready version)"

definition verifiedActiveGeneration :: "'w node \<Rightarrow> installer_state \<Rightarrow> ('w, unit) instE" where
  "verifiedActiveGeneration n st =
     (case stActive st of
        None \<Rightarrow> throwE (Failed ''no active generation'')
      | Some a \<Rightarrow>
          bindE (i_load n (grPath a)) (\<lambda>g.
            if genVersion g \<noteq> grVersion a \<or> genSHA512 g \<noteq> grSHA512 a
            then throwE (Failed (''generation '' @ grPath a @ '' does not match the active record''))
            else i_verify_cached n g))"

definition maintainActive :: "'w node \<Rightarrow> installer_state \<Rightarrow> ('w, unit) inst" where
  "maintainActive n st =
     (case stActive st of
        None \<Rightarrow> State_Monad.return ()
      | Some a \<Rightarrow>
          if grHandler a \<noteq> cfgHandler (ndConfig n) then State_Monad.return ()
          else
            seq (verifiedActiveGeneration n st) (\<lambda>r.
            seq (case r of Inl e \<Rightarrow> State_Monad.return False | Inr _ \<Rightarrow> i_config_intact n (grConfigPath a)) (\<lambda>good.
              if good then State_Monad.return ()
              else seq (setNodeLabels n ''false'' []) (\<lambda>_. State_Monad.return ()))))"

definition desiredManagedBlock :: "config \<Rightarrow> string \<Rightarrow> runtime_target \<Rightarrow> string res" where
  "desiredManagedBlock c raw want =
     (case criPluginID (configSchemaVersion raw) of
        Inl e \<Rightarrow> Inl (Failed e)
      | Inr pluginID \<Rightarrow> Inr (renderManagedBlock pluginID (cfgHandler c) (targetShim want) (targetConfig want)))"


section \<open>The journal\<close>

text \<open>\<open>st.Pending = p; i.writeState( *st)\<close>\<close>

definition write_pending :: "'w node \<Rightarrow> pending_activation option \<Rightarrow> ('w, unit) instE" where
  "write_pending n p =
     seq get_state (\<lambda>st.
     seq (set_state (st \<lparr>stPending := p\<rparr>)) (\<lambda>_. i_write_state n (st \<lparr>stPending := p\<rparr>)))"

definition abandonPending :: "'w node \<Rightarrow> fs_error \<Rightarrow> ('w, 'a) instE" where
  "abandonPending n cause = seq (write_pending n None) (\<lambda>_. throwE cause)"

definition previousConfig :: "string \<Rightarrow> pending_activation option \<Rightarrow> string res" where
  "previousConfig raw p =
     as_res (case p of
        None \<Rightarrow> removeManagedBlock raw
      | Some p \<Rightarrow>
          if paPreviousBlock p = [] then removeManagedBlock raw
          else spliceManagedBlock raw (paPreviousBlock p))"

definition recoverySig :: "pending_activation \<Rightarrow> string \<Rightarrow> string" where
  "recoverySig p direction =
     grPath (paTarget p) @ [CHR 0x00] @ grConfigPath (paTarget p) @ [CHR 0x00]
     @ grBlock (paTarget p) @ [CHR 0x00] @ direction"

definition recoveryRestart :: "'w node \<Rightarrow> pending_activation \<Rightarrow> string \<Rightarrow> ('w, unit) instE" where
  "recoveryRestart n p direction =
     (let sig = recoverySig p direction in
      seq (i_now n) (\<lambda>now.
      seq get_object (\<lambda>i.
        if gate_blocked (inRecoveryGate i) now sig
        then throwE (Failed (''containerd was restarted recently to '' @ direction @ '' this interrupted activation''))
        else
          seq (i_now n) (\<lambda>now2.
          seq (set_object (i \<lparr>inRecoveryGate := gate_block now2 sig restartCooldown\<rparr>)) (\<lambda>_.
            restartAndAwaitHealthy n)))))"

definition rollback :: "'w node \<Rightarrow> string \<Rightarrow> ('w, unit) instE" where
  "rollback n previous =
     seq (i_write_config n previous) (\<lambda>r. case r of
       Inl e \<Rightarrow> throwE (Wrapped ''restoring previous config'' e)
     | Inr _ \<Rightarrow> restartAndAwaitHealthy n)"

definition writePristineBackup :: "'w os \<Rightarrow> string \<Rightarrow> string \<Rightarrow> string \<Rightarrow> ('w, unit) io" where
  "writePristineBackup os backupPath srcPath raw =
     seq (osStat os srcPath) (\<lambda>src.
     seq (osStat os backupPath) (\<lambda>backup.
       let mode = (case src of Inl e \<Rightarrow> 384 | Inr fi \<Rightarrow> fiPerm fi);
           kept = (case backup of Inl e \<Rightarrow> False | Inr fi \<Rightarrow> 0 < fiSize fi) in
       if kept then returnE ()
       else
         seq (osRemove os backupPath) (\<lambda>r.
           if (case r of Inl e \<Rightarrow> \<not> IsNotExist e | Inr _ \<Rightarrow> False) then State_Monad.return r
           else
             bindE (osCreate os backupPath True mode) (\<lambda>_.
             bindE (osClose os backupPath) (\<lambda>_.
             bindE (osChmod os backupPath mode) (\<lambda>_.
               writeFileAtomic os backupPath raw))))))"

definition i_backup :: "'w node \<Rightarrow> string \<Rightarrow> ('w, unit) instE" where
  "i_backup n raw =
     os_call (writePristineBackup (tlOs (ndTools n)) (hostPath (ndConfig n) containerdConfigBackupPath) (cfg_path n) raw) Backup"


section \<open>Recovering an interrupted activation\<close>

definition rollback_settle :: "'w node \<Rightarrow> pending_activation \<Rightarrow> ('w, unit) instE" where
  "rollback_settle n p =
     seq (recoveryRestart n p ''roll back'') (\<lambda>r. case r of
       Inl e \<Rightarrow> throwE (Wrapped ''restarting containerd onto the previous config'' e)
     | Inr _ \<Rightarrow>
         seq (if paPreviousHandler p \<noteq> [] then verifyServing n (paPreviousHandler p) None else returnE ()) (\<lambda>_.
           write_pending n None))"

definition rollbackPending :: "'w node \<Rightarrow> pending_activation \<Rightarrow> string \<Rightarrow> ('w, unit) instE" where
  "rollbackPending n p raw =
     bindE (lift_res (previousConfig raw (Some p))) (\<lambda>next.
     bindE (if next \<noteq> raw
            then seq (i_write_config n next) (\<lambda>r. case r of
                   Inl e \<Rightarrow> throwE (Wrapped ''restoring previous managed block'' e) | Inr _ \<Rightarrow> returnE ())
            else returnE ()) (\<lambda>_.
     seq (dump_config n) (\<lambda>r. case r of
       Inl e \<Rightarrow> throwE (Wrapped ''restored containerd config failed validation, leaving recovery pending'' e)
     | Inr _ \<Rightarrow> rollback_settle n p)))"

definition target_of :: "generation_record \<Rightarrow> runtime_target" where
  "target_of r = \<lparr>targetShim = path_join [grPath r, shimBinary], targetConfig = grConfigPath r\<rparr>"

definition commit_journal :: "'w node \<Rightarrow> generation_record \<Rightarrow> ('w, unit) instE" where
  "commit_journal n r =
     seq (i_write_state n (no_state \<lparr>stActive := Some r\<rparr>)) (\<lambda>w. case w of
       Inl e \<Rightarrow> throwE (Joined [CommitSettled, e])
     | Inr _ \<Rightarrow>
         seq get_state (\<lambda>st.
         seq (set_state (st \<lparr>stActive := Some r, stPending := None\<rparr>)) (\<lambda>_.
         seq (modify_installer (inRecoveryGate_update (\<lambda>_. gate_clear))) (\<lambda>_. returnE ()))))"

definition commit_config :: "'w node \<Rightarrow> generation \<Rightarrow> string \<Rightarrow> string \<Rightarrow> ('w, unit) instE" where
  "commit_config n g dump recorded =
     seq (i_config_intact n recorded) (\<lambda>good.
       if good then returnE ()
       else
         bindE (i_ensure_config n g dump) (\<lambda>configPath.
           if configPath \<noteq> recorded
           then throwE (Failed (''shim config '' @ recorded @ '' recorded by the pending activation can no longer be reproduced''))
           else returnE ()))"

definition commit_serving :: "'w node \<Rightarrow> pending_activation \<Rightarrow> runtime_target \<Rightarrow> ('w, unit) instE" where
  "commit_serving n p want =
     seq (verifyServing n (grHandler (paTarget p)) (Some want)) (\<lambda>r. case r of
       Inl e \<Rightarrow> bindE (recoveryRestart n p ''commit'') (\<lambda>_. verifyServing n (grHandler (paTarget p)) (Some want))
     | Inr _ \<Rightarrow> returnE ())"

definition commitTarget :: "'w node \<Rightarrow> pending_activation \<Rightarrow> ('w, unit) instE" where
  "commitTarget n p =
     (let target = paTarget p in
      bindE (i_load n (grPath target)) (\<lambda>g.
        if genVersion g \<noteq> grVersion target \<or> genSHA512 g \<noteq> grSHA512 target
        then throwE (Failed (''generation '' @ grPath target @ '' does not match the pending record''))
        else
          bindE (i_verify n g) (\<lambda>_.
          seq (dump_config n) (\<lambda>r. case r of
            Inl e \<Rightarrow> throwE (Wrapped ''target config failed validation'' e)
          | Inr dump \<Rightarrow>
              bindE (commit_config n g dump (grConfigPath target)) (\<lambda>_.
                (let want = \<lparr>targetShim = shimPath g, targetConfig = grConfigPath target\<rparr> in
                 bindE (lift_res (case runtime_of_dump n dump (grHandler target) of
                          None \<Rightarrow> Inr () | Some rt \<Rightarrow> mergedEntryConflict (ndConfig n) rt (Some want))) (\<lambda>_.
                 bindE (commit_serving n p want) (\<lambda>_. commit_journal n target))))))))"

definition recoverPending :: "'w node \<Rightarrow> pending_activation \<Rightarrow> ('w, unit) instE" where
  "recoverPending n p =
     bindE (i_read_file n (cfg_path n)) (\<lambda>raw.
     bindE (lift_res (as_res (managedBlock raw))) (\<lambda>block.
       if block = Some (grBlock (paTarget p))
       then
         seq (commitTarget n p) (\<lambda>r. case r of
           Inr _ \<Rightarrow> returnE ()
         | Inl e \<Rightarrow>
             if is_commit_settled e \<or> paPreviousBlock p = grBlock (paTarget p) then throwE e
             else rollbackPending n p raw)
       else rollbackPending n p raw))"


section \<open>Activating a generation\<close>

text \<open>What follows a restart that left containerd without the new runtime.\<close>

definition roll_back_to :: "'w node \<Rightarrow> string \<Rightarrow> string \<Rightarrow> string \<Rightarrow> fs_error \<Rightarrow> ('w, unit) instE" where
  "roll_back_to n raw desired msg e =
     seq get_state (\<lambda>st.
     seq (bindE (lift_res (previousConfig raw (stPending st))) (rollback n)) (\<lambda>r. case r of
       Inl rbErr \<Rightarrow> throwE (Wrapped (msg @ '' AND rollback failed'') (Joined [e, rbErr]))
     | Inr _ \<Rightarrow>
         seq (i_now n) (\<lambda>now.
         seq (modify_installer (inActivationGate_update (\<lambda>_. gate_block now desired restartCooldown))) (\<lambda>_.
           abandonPending n (Wrapped (msg @ '', previous config rolled back'') e)))))"

definition bring_up :: "'w node \<Rightarrow> string \<Rightarrow> string \<Rightarrow> runtime_target \<Rightarrow> ('w, unit) instE" where
  "bring_up n raw desired want =
     seq (restartAndAwaitHealthy n) (\<lambda>r. case r of
       Inl e \<Rightarrow> roll_back_to n raw desired ''containerd unhealthy after config change'' e
     | Inr _ \<Rightarrow>
         seq (verifyServing n (cfgHandler (ndConfig n)) (Some want)) (\<lambda>r. case r of
           Inl e \<Rightarrow> roll_back_to n raw desired ''the new config does not serve the runtime handler'' e
         | Inr _ \<Rightarrow>
             seq (modify_installer (inActivationGate_update (\<lambda>_. gate_clear))) (\<lambda>_.
             seq (i_event n ''Normal'' ''GVisorRuntimeConfigured''
                 (''Registered containerd runtime handler '' @ quoted (cfgHandler (ndConfig n))
                    @ '' (gVisor '' @ cfgVersion (ndConfig n) @ '')'')) (\<lambda>_. returnE ()))))"

definition check_new_config :: "'w node \<Rightarrow> string \<Rightarrow> string \<Rightarrow> runtime_target \<Rightarrow> ('w, unit) instE" where
  "check_new_config n raw desired want =
     seq (dump_config n) (\<lambda>r. case r of
       Inr _ \<Rightarrow> bring_up n raw desired want
     | Inl e \<Rightarrow>
         seq (i_write_config n raw) (\<lambda>r. case r of
           Inl restoreErr \<Rightarrow>
             throwE (Wrapped ''new containerd config failed validation AND restoring the previous config failed''
               (Joined [e, restoreErr]))
         | Inr _ \<Rightarrow>
             abandonPending n (Wrapped ''new containerd config failed validation, previous config restored'' e)))"

definition install_config :: "'w node \<Rightarrow> string \<Rightarrow> string \<Rightarrow> string \<Rightarrow> runtime_target \<Rightarrow> ('w, unit) instE" where
  "install_config n raw next desired want =
     seq (i_backup n raw) (\<lambda>r. case r of
       Inl e \<Rightarrow> abandonPending n (Wrapped ''writing pristine config backup'' e)
     | Inr _ \<Rightarrow>
         seq (i_write_config n next) (\<lambda>r. case r of
           Inl e \<Rightarrow> abandonPending n (Wrapped ''writing containerd config'' e)
         | Inr _ \<Rightarrow> check_new_config n raw desired want))"

definition applyConfigChange :: "'w node \<Rightarrow> string \<Rightarrow> string \<Rightarrow> runtime_target \<Rightarrow> ('w, unit) instE" where
  "applyConfigChange n raw desired want =
     seq (i_read_file n (cfg_path n)) (\<lambda>r. case r of
       Inl e \<Rightarrow> abandonPending n (Wrapped ''re-reading containerd config before writing it'' e)
     | Inr fresh \<Rightarrow>
         if fresh \<noteq> raw
         then abandonPending n (Failed (containerdConfigPath @ '' changed while this reconcile was running''))
         else
           (case as_res (spliceManagedBlock raw desired) of
              Inl e \<Rightarrow> abandonPending n e
            | Inr next \<Rightarrow> install_config n raw next desired want))"

definition activation_record :: "config \<Rightarrow> generation \<Rightarrow> runtime_target \<Rightarrow> string \<Rightarrow> generation_record" where
  "activation_record c g want desired =
     \<lparr>grPath = genPath g, grConfigPath = targetConfig want, grVersion = genVersion g,
      grSHA512 = genSHA512 g, grHandler = cfgHandler c, grBlock = desired\<rparr>"

text \<open>The rollback predecessor: the recognised block, its handler.\<close>

definition predecessor :: "installer_state \<Rightarrow> string \<Rightarrow> (string \<times> string) res" where
  "predecessor st raw =
     (case stActive st of
        Some a \<Rightarrow> Inr (grBlock a, grHandler a)
      | None \<Rightarrow>
          (case managedBlock raw of
             Inl e \<Rightarrow> Inl (Failed e)
           | Inr None \<Rightarrow> Inr ([], [])
           | Inr (Some current) \<Rightarrow> Inr (current, [])))"

definition activate :: "'w node \<Rightarrow> string \<Rightarrow> string \<Rightarrow> generation \<Rightarrow> runtime_target \<Rightarrow> ('w, unit) instE" where
  "activate n raw desired g want =
     seq (i_now n) (\<lambda>now.
     seq get_object (\<lambda>i.
       if gate_blocked (inActivationGate i) now desired
       then throwE (Failed ''this managed block failed to activate recently and containerd was rolled back, waiting before restarting it again'')
       else
         bindE (lift_res (predecessor (inState i) raw)) (\<lambda>(block, handler).
           (let target = activation_record (ndConfig n) g want desired in
            bindE (write_pending n (Some \<lparr>paTarget = target, paPreviousBlock = block, paPreviousHandler = handler\<rparr>)) (\<lambda>_.
            bindE (applyConfigChange n raw desired want) (\<lambda>_.
            seq get_state (\<lambda>st.
            seq (set_state (st \<lparr>stActive := Some target\<rparr>)) (\<lambda>_.
              write_pending n None))))))))"

section \<open>Converging\<close>

text \<open>
  The configuration is on disk, containerd does not use it: one restart per block, under a pending
  record whose target and predecessor are the active record.
\<close>

definition converge :: "'w node \<Rightarrow> generation_record \<Rightarrow> string \<Rightarrow> runtime_target \<Rightarrow> fs_error \<Rightarrow> ('w, unit) instE" where
  "converge n a desired want servingErr =
     seq get_object (\<lambda>i.
       if inConvergeFor i = desired
       then throwE (Wrapped ''runtime handler still not served after a convergence restart'' servingErr)
       else
         (let p = \<lparr>paTarget = a, paPreviousBlock = grBlock a, paPreviousHandler = grHandler a\<rparr> in
          bindE (write_pending n (Some p)) (\<lambda>_.
          seq (modify_installer (inConvergeFor_update (\<lambda>_. desired))) (\<lambda>_.
          bindE (recoveryRestart n p ''commit'') (\<lambda>_.
          bindE (write_pending n None) (\<lambda>_.
          seq (modify_installer (inRecoveryGate_update (\<lambda>_. gate_clear))) (\<lambda>_.
            verifyServing n (cfgHandler (ndConfig n)) (Some want))))))))"

text \<open>The result says whether the file was rewritten.\<close>

definition settle_config :: "'w node \<Rightarrow> string \<Rightarrow> generation \<Rightarrow> runtime_target \<Rightarrow> ('w, bool) instE" where
  "settle_config n raw g want =
     bindE (lift_res (desiredManagedBlock (ndConfig n) raw want)) (\<lambda>desired.
     bindE (lift_res (as_res (managedBlock raw))) (\<lambda>current.
     seq get_state (\<lambda>st.
       case stActive st of
         None \<Rightarrow> bindE (activate n raw desired g want) (\<lambda>_. returnE True)
       | Some a \<Rightarrow>
           if current = Some desired \<and> grBlock a = desired
           then
             seq (verifyServing n (cfgHandler (ndConfig n)) (Some want)) (\<lambda>r. case r of
               Inr _ \<Rightarrow> returnE False
             | Inl e \<Rightarrow> bindE (converge n a desired want e) (\<lambda>_. returnE False))
           else bindE (activate n raw desired g want) (\<lambda>_. returnE True))))"

definition ensureContainerdConfig :: "'w node \<Rightarrow> string \<Rightarrow> generation \<Rightarrow> runtime_target \<Rightarrow> ('w, bool) instE" where
  "ensureContainerdConfig n raw g want =
     bindE (settle_config n raw g want) (\<lambda>changed.
     seq (modify_installer (inConvergeFor_update (\<lambda>_. []))) (\<lambda>_. returnE changed))"


section \<open>One pass\<close>

record outcome =
  outForeignOK :: bool
  outConflict :: bool

definition no_outcome :: outcome where
  "no_outcome = \<lparr>outForeignOK = False, outConflict = False\<rparr>"

definition conflict_outcome :: outcome where
  "conflict_outcome = no_outcome \<lparr>outConflict := True\<rparr>"

definition foreign_outcome :: outcome where
  "foreign_outcome = no_outcome \<lparr>outForeignOK := True\<rparr>"

text \<open>\<open>out, err\<close>: continue with the value, or return the outcome so far and the error.\<close>

definition or_fail :: "('w, 'a) instE \<Rightarrow> ('a \<Rightarrow> ('w, outcome \<times> unit res) inst) \<Rightarrow> ('w, outcome \<times> unit res) inst" where
  "or_fail m f =
     seq m (\<lambda>r. case r of Inl e \<Rightarrow> State_Monad.return (no_outcome, Inl e) | Inr a \<Rightarrow> f a)"

definition recheck_merged :: "'w node \<Rightarrow> runtime_target \<Rightarrow> ('w, outcome \<times> unit res) inst" where
  "recheck_merged n target =
     seq (dump_config n) (\<lambda>r. case r of
       Inl e \<Rightarrow> State_Monad.return (no_outcome,
         Inl (Wrapped ''containerd configuration failed to load after the managed block update'' e))
     | Inr dump \<Rightarrow>
         State_Monad.return
           (case runtime_of_dump n dump (cfgHandler (ndConfig n)) of
              None \<Rightarrow> (no_outcome, Inr ())
            | Some rt \<Rightarrow>
                (case mergedEntryConflict (ndConfig n) rt (Some target) of
                   Inl e \<Rightarrow> (conflict_outcome, Inl e)
                 | Inr _ \<Rightarrow> (no_outcome, Inr ()))))"

definition reconcile_managed :: "'w node \<Rightarrow> string \<Rightarrow> string \<Rightarrow> ('w, outcome \<times> unit res) inst" where
  "reconcile_managed n raw dump =
     seq get_state (\<lambda>st.
     seq (maintainActive n st) (\<lambda>_.
     or_fail (i_ensure_generation n) (\<lambda>g.
     or_fail (i_ensure_config n g dump) (\<lambda>configPath.
       (let target = \<lparr>targetShim = shimPath g, targetConfig = configPath\<rparr> in
        or_fail (ensureContainerdConfig n raw g target) (\<lambda>changed.
          if changed then recheck_merged n target
          else State_Monad.return (no_outcome, Inr ())))))))"

definition serve_foreign :: "'w node \<Rightarrow> ('w, outcome \<times> unit res) inst" where
  "serve_foreign n =
     seq (verifyServing n (cfgHandler (ndConfig n)) None) (\<lambda>r. State_Monad.return (foreign_outcome, r))"

definition active_current :: "installer_state \<Rightarrow> string option \<Rightarrow> bool" where
  "active_current st block =
     (case (block, stActive st) of (Some b, Some a) \<Rightarrow> b = grBlock a | _ \<Rightarrow> False)"

definition classify :: "'w node \<Rightarrow> string \<Rightarrow> string \<Rightarrow> string option \<Rightarrow> ('w, outcome \<times> unit res) inst" where
  "classify n raw dump block =
     (case runtime_of_dump n dump (cfgHandler (ndConfig n)) of
        None \<Rightarrow> reconcile_managed n raw dump
      | Some rt \<Rightarrow>
          seq get_state (\<lambda>st.
          seq (pinnedTarget n st (active_current st block)) (\<lambda>pin.
            case mergedEntryConflict (ndConfig n) rt pin of
              Inl e \<Rightarrow> State_Monad.return (conflict_outcome, Inl e)
            | Inr _ \<Rightarrow> if block = None then serve_foreign n else reconcile_managed n raw dump)))"

definition i_sweep :: "'w node \<Rightarrow> ('w, unit) inst" where
  "i_sweep n =
     seq (os_call (removeStaleTemps (tlOs (ndTools n)) (path_dir (cfg_path n))) (\<lambda>_. SweepTemps))
       (\<lambda>_. State_Monad.return ())"

definition reconcile_settled :: "'w node \<Rightarrow> ('w, outcome \<times> unit res) inst" where
  "reconcile_settled n =
     seq (i_read_file n (cfg_path n)) (\<lambda>r. case r of
       Inl e \<Rightarrow> State_Monad.return (no_outcome, Inl (Wrapped ''reading containerd config'' e))
     | Inr raw \<Rightarrow>
         seq (i_sweep n) (\<lambda>_.
         seq (dump_config n) (\<lambda>r. case r of
           Inl e \<Rightarrow> State_Monad.return (no_outcome,
             Inl (Wrapped ''the current configuration of containerd failed to load, refusing to modify anything'' e))
         | Inr dump \<Rightarrow> or_fail (lift_res (as_res (managedBlock raw))) (classify n raw dump))))"

definition reconcile :: "'w node \<Rightarrow> ('w, outcome \<times> unit res) inst" where
  "reconcile n =
     seq (i_read_state n) (\<lambda>st.
     seq (set_state st) (\<lambda>_.
     or_fail (preflight n (stPending st \<noteq> None)) (\<lambda>_.
       case stPending st of
         None \<Rightarrow> reconcile_settled n
       | Some p \<Rightarrow>
           seq (recoverPending n p) (\<lambda>r. case r of
             Inl e \<Rightarrow> State_Monad.return (no_outcome, Inl (Wrapped ''recovering interrupted activation'' e))
           | Inr _ \<Rightarrow> reconcile_settled n))))"


section \<open>Publishing the status\<close>

definition verifiedActiveState :: "'w node \<Rightarrow> ('w, generation_record option) inst" where
  "verifiedActiveState n =
     seq (i_read_state n) (\<lambda>st.
       case (stPending st, stActive st) of
         (None, Some a) \<Rightarrow>
           if grHandler a \<noteq> cfgHandler (ndConfig n) then State_Monad.return None
           else
             seq (i_read_file n (cfg_path n)) (\<lambda>r. case r of
               Inl e \<Rightarrow> State_Monad.return None
             | Inr raw \<Rightarrow>
                 if managedBlock raw \<noteq> Inr (Some (grBlock a)) then State_Monad.return None
                 else
                   seq (verifiedActiveGeneration n st) (\<lambda>r. case r of
                     Inl e \<Rightarrow> State_Monad.return None
                   | Inr _ \<Rightarrow>
                       seq (i_config_intact n (grConfigPath a)) (\<lambda>good.
                         State_Monad.return (if good then Some a else None))))
       | _ \<Rightarrow> State_Monad.return None)"

text \<open>The identity of what the node runs: its version label and the paths to pin.\<close>

definition node_identity :: "'w node \<Rightarrow> outcome \<Rightarrow> ('w, (string \<times> runtime_target option) option) inst" where
  "node_identity n out =
     (if outConflict out then State_Monad.return None
      else if outForeignOK out then State_Monad.return (Some (VersionUnmanaged, None))
      else
        seq (verifiedActiveState n) (\<lambda>r. State_Monad.return
          (map_option (\<lambda>a. (grVersion a, Some (target_of a))) r)))"

definition ready_label :: "'w node \<Rightarrow> outcome \<Rightarrow> ('w, string \<times> string) inst" where
  "ready_label n out =
     seq (node_identity n out) (\<lambda>r. case r of
       None \<Rightarrow> State_Monad.return (''false'', [])
     | Some (version, want) \<Rightarrow>
         seq (verifyServing n (cfgHandler (ndConfig n)) want) (\<lambda>r.
           State_Monad.return (case r of Inl e \<Rightarrow> (''false'', []) | Inr _ \<Rightarrow> (''true'', version))))"

definition transition_event :: "'w node \<Rightarrow> string \<Rightarrow> string \<Rightarrow> ('w, unit) inst" where
  "transition_event n ready version =
     seq get_object (\<lambda>i.
       if ready = inLastReadyLabel i then State_Monad.return ()
       else
         seq (if ready = ''true''
              then i_event n ''Normal'' ''GVisorReady'' (''gVisor runtime handler '' @ quoted (cfgHandler (ndConfig n))
                     @ '' is available on this node (version: '' @ version @ '')'')
              else if inLastReadyLabel i = ''true''
              then i_event n ''Warning'' ''GVisorUnready'' (''gVisor runtime handler '' @ quoted (cfgHandler (ndConfig n))
                     @ '' is no longer verified healthy on this node'')
              else State_Monad.return ()) (\<lambda>_.
           modify_installer (inLastReadyLabel_update (\<lambda>_. ready))))"

definition publishStatus :: "'w node \<Rightarrow> outcome \<Rightarrow> unit res \<Rightarrow> ('w, unit) inst" where
  "publishStatus n out err =
     seq (ready_label n out) (\<lambda>(ready, version).
     seq (setNodeLabels n ready version) (\<lambda>patched.
     seq (case err of
            Inl e \<Rightarrow> i_event n ''Warning'' ''GVisorInstallFailed'' (truncateOutput (err_text e))
          | Inr _ \<Rightarrow> State_Monad.return ()) (\<lambda>_.
     seq (transition_event n ready version) (\<lambda>_.
       modify_installer (inReady_update (\<lambda>_. \<not> isl err \<and> ready = ''true'' \<and> \<not> isl patched))))))"

definition ReconcileNode :: "'w node \<Rightarrow> ('w, unit) instE" where
  "ReconcileNode n =
     seq (modify_installer (inVerifyCache_update (\<lambda>_. Map.empty))) (\<lambda>_.
     seq (reconcile n) (\<lambda>(out, err).
     seq (publishStatus n out err) (\<lambda>_.
     seq (i_now n) (\<lambda>now.
     seq (modify_installer (inLastDone_update (\<lambda>_. now))) (\<lambda>_. State_Monad.return err)))))"

text \<open>The first \<open>passes\<close> rounds of the endless loop \<open>Run\<close>; a wait that fails is the end of the context.\<close>

fun run_loop :: "'w node \<Rightarrow> nat \<Rightarrow> nat \<Rightarrow> ('w, unit) inst" where
  "run_loop n failures 0 = State_Monad.return ()"
| "run_loop n failures (Suc passes) =
     seq (ReconcileNode n) (\<lambda>r.
     seq (if isl r then call_api (ndCancelled n) Cancelled else State_Monad.return False) (\<lambda>stop.
       if stop then State_Monad.return ()
       else
         (let failures' = (if isl r then failures + 1 else 0) in
          seq (i_wait n (run_interval (ndConfig n) failures')) (\<lambda>w.
            if isl w then State_Monad.return () else run_loop n failures' passes))))"

end
