(* ===== verification/InstallerSafety.thy ===== *)
theory InstallerSafety
  imports Guarded Installer
begin

text \<open>
  Which calls a pass of the installer may make, as a protocol over what the calls so far have shown:
  the journal last read or durably written, the configuration last read, the merged view and the
  runtime status last seen. \<open>guard\<close> is the protocol; every pass of \<open>ReconcileNode\<close> follows it, whatever
  the node, the mirror and the API server answer.
\<close>


section \<open>What the calls of a pass show\<close>

record known =
  kJournal :: "installer_state option"
  kRaw :: "string option"
  kDump :: "string option"
  kStatus :: "cri_status option"
  kLoaded :: "(string \<times> generation) option"
  kVerified :: "generation option"
  kIntact :: "(string \<times> bool) option"
  kLabel :: "(string \<times> string \<times> bool) option"
  kRestarts :: nat

definition unknown :: known where
  "unknown = \<lparr>kJournal = None, kRaw = None, kDump = None, kStatus = None, kLoaded = None,
     kVerified = None, kIntact = None, kLabel = None, kRestarts = 0\<rparr>"

fun answer :: "'a res \<Rightarrow> 'a option" where
  "answer (Inr a) = Some a"
| "answer (Inl e) = None"

definition is_restart :: "string \<Rightarrow> string list \<Rightarrow> bool" where
  "is_restart cmd args \<longleftrightarrow> cmd = ''systemctl'' \<and> args = [''restart'', ''containerd'']"

definition is_dump :: "string \<Rightarrow> string list \<Rightarrow> bool" where
  "is_dump cmd args \<longleftrightarrow> cmd = ''containerd'' \<and> args = [''config'', ''dump'']"

fun learn :: "'w node \<Rightarrow> known \<Rightarrow> icall \<Rightarrow> known" where
  "learn n k (ReadFile p r) = (if p = cfg_path n then k \<lparr>kRaw := answer r\<rparr> else k)"
| "learn n k (WriteConfig data r) = k \<lparr>kStatus := None, kDump := None\<rparr>"
| "learn n k (ReadJournal st) = k \<lparr>kJournal := Some st\<rparr>"
| "learn n k (WriteJournal st r) = k \<lparr>kJournal := map_option (\<lambda>_. st) (answer r)\<rparr>"
| "learn n k (HostRun cmd args r) =
     (if is_restart cmd args then k \<lparr>kStatus := None, kRestarts := Suc (kRestarts k)\<rparr>
      else if is_dump cmd args then k \<lparr>kDump := answer r\<rparr> else k)"
| "learn n k (CriStatus verbose r) = (if verbose then k \<lparr>kStatus := answer r\<rparr> else k)"
| "learn n k (LoadGeneration p r) = k \<lparr>kLoaded := map_option (Pair p) (answer r)\<rparr>"
| "learn n k (VerifyGeneration g r) = k \<lparr>kVerified := map_option (\<lambda>_. g) (answer r)\<rparr>"
| "learn n k (ConfigIntact p b) = k \<lparr>kIntact := Some (p, b)\<rparr>"
| "learn n k (SetLabels ready version r) = k \<lparr>kLabel := Some (ready, version, \<not> isl r)\<rparr>"
| "learn n k c = k"


section \<open>Which calls are permitted\<close>

definition pending_of :: "known \<Rightarrow> pending_activation option" where
  "pending_of k = Option.bind (kJournal k) stPending"

definition allowed_write :: "string \<Rightarrow> pending_activation \<Rightarrow> string \<Rightarrow> bool" where
  "allowed_write raw p data \<longleftrightarrow>
     data = raw \<or> spliceManagedBlock raw (grBlock (paTarget p)) = Inr data \<or> previousConfig raw (Some p) = Inr data"

definition serves :: "known \<Rightarrow> string \<Rightarrow> runtime_target option \<Rightarrow> bool" where
  "serves k handler want \<longleftrightarrow> (\<exists>st. kStatus k = Some st \<and> serving_error st handler want = Inr ())"

definition may_settle :: "known \<Rightarrow> generation_record option \<Rightarrow> bool" where
  "may_settle k act \<longleftrightarrow> (\<exists>old. kJournal k = Some old \<and>
     (act = stActive old \<or>
      (\<exists>p. stPending old = Some p \<and> act = Some (paTarget p) \<and>
         serves k (grHandler (paTarget p)) (Some (target_of (paTarget p))))))"

definition foreign :: "'w node \<Rightarrow> string \<Rightarrow> string \<Rightarrow> bool" where
  "foreign n raw dump \<longleftrightarrow> managedBlock raw = Inr None \<and> runtime_of_dump n dump (cfgHandler (ndConfig n)) \<noteq> None"

definition block_in_place :: "installer_state \<Rightarrow> string \<Rightarrow> string \<Rightarrow> bool" where
  "block_in_place st raw block \<longleftrightarrow>
     managedBlock raw = Inr (Some block) \<and> map_option grBlock (stActive st) = Some block"

definition may_arm :: "'w node \<Rightarrow> known \<Rightarrow> installer_state \<Rightarrow> pending_activation \<Rightarrow> bool" where
  "may_arm n k st p \<longleftrightarrow> (\<exists>old raw dump want. kJournal k = Some old \<and> stPending old = None \<and> stActive st = stActive old \<and>
     kRaw k = Some raw \<and> kDump k = Some dump \<and> \<not> foreign n raw dump \<and>
     predecessor old raw = Inr (paPreviousBlock p, paPreviousHandler p) \<and>
     desiredManagedBlock (ndConfig n) raw want = Inr (grBlock (paTarget p)) \<and>
     (if block_in_place old raw (grBlock (paTarget p))
      then stActive old = Some (paTarget p) \<and> \<not> serves k (cfgHandler (ndConfig n)) (Some want)
      else grHandler (paTarget p) = cfgHandler (ndConfig n) \<and> target_of (paTarget p) = want))"

definition may_label :: "'w node \<Rightarrow> known \<Rightarrow> string \<Rightarrow> bool" where
  "may_label n k version \<longleftrightarrow>
     version = VersionUnmanaged \<and> serves k (cfgHandler (ndConfig n)) None \<or>
     (\<exists>st a g raw. kJournal k = Some st \<and> stPending st = None \<and> stActive st = Some a \<and>
        version = grVersion a \<and> grHandler a = cfgHandler (ndConfig n) \<and>
        kRaw k = Some raw \<and> managedBlock raw = Inr (Some (grBlock a)) \<and>
        kLoaded k = Some (grPath a, g) \<and> genVersion g = grVersion a \<and> genSHA512 g = grSHA512 a \<and>
        kVerified k = Some g \<and> kIntact k = Some (grConfigPath a, True) \<and>
        serves k (cfgHandler (ndConfig n)) (Some (target_of a)))"

fun guard :: "'w node \<Rightarrow> known \<Rightarrow> icall \<Rightarrow> bool" where
  "guard n k (WriteConfig data r) \<longleftrightarrow>
     (\<exists>p raw. pending_of k = Some p \<and> kRaw k = Some raw \<and> allowed_write raw p data)"
| "guard n k (HostRun cmd args r) \<longleftrightarrow> (is_restart cmd args \<longrightarrow> pending_of k \<noteq> None)"
| "guard n k (WriteJournal st r) \<longleftrightarrow>
     (case stPending st of None \<Rightarrow> may_settle k (stActive st) | Some p \<Rightarrow> may_arm n k st p)"
| "guard n k (SetLabels ready version r) \<longleftrightarrow> (ready = ''true'' \<longrightarrow> may_label n k version)"
| "guard n k c \<longleftrightarrow> True"


interpretation pass: protocol "learn n" "guard n" for n :: "'w node" .

abbreviation along where "along n \<equiv> protocol.keeps (learn n) (guard n)"

section \<open>What the parts of a pass do\<close>

definition settled :: "installer \<Rightarrow> known \<Rightarrow> bool" where
  "settled i k \<longleftrightarrow> (\<exists>st. kJournal k = Some st \<and> stPending st = None \<and>
     stActive st = stActive (inState i) \<and> stPending (inState i) = None)"

definition armed :: "installer \<Rightarrow> known \<Rightarrow> pending_activation \<Rightarrow> bool" where
  "armed i k p \<longleftrightarrow> (\<exists>st. kJournal k = Some st \<and> stPending st = Some p \<and>
     stActive st = stActive (inState i) \<and> stPending (inState i) = Some p)"

lemma pending_of_armed: "armed i k p \<Longrightarrow> pending_of k = Some p"
  by (auto simp: armed_def pending_of_def)

lemma not_restart [simp]:
  "\<not> is_restart ''containerd'' args" "\<not> is_restart ''test'' args" "is_restart ''systemctl'' [''restart'', ''containerd'']"
  "\<not> is_restart ''systemctl'' [''show'', ''containerd'', v]"
  "is_dump ''containerd'' [''config'', ''dump'']" "\<not> is_dump ''systemctl'' args" "\<not> is_dump ''test'' args"
  by (simp_all add: is_restart_def is_dump_def)

lemma answer_Some [simp]: "answer r = Some a \<longleftrightarrow> r = Inr a"
  by (cases r) auto

lemma answer_None [simp]: "answer r = None \<longleftrightarrow> isl r"
  by (cases r) auto

lemma keeps_wait_loop: "(\<And>r. Q r x k) \<Longrightarrow> along n (await_loop n d e fuel) Q x k"
  by (induction fuel arbitrary: e)
     (auto simp: i_now_def i_status_def i_wait_def Let_def
        intro!: pass.keeps_rules pass.keeps_call split: sum.splits)

lemma keeps_restart:
  "pending_of k \<noteq> None \<Longrightarrow> (\<And>r. Q r x (k \<lparr>kStatus := None, kRestarts := Suc (kRestarts k)\<rparr>)) \<Longrightarrow>
     along n (restartAndAwaitHealthy n) Q x k"
  unfolding restartAndAwaitHealthy_def awaitRuntimeReady_def i_run_def i_now_def
  by (auto intro!: pass.keeps_rules pass.keeps_call keeps_wait_loop split: sum.splits)

lemma keeps_verifyServing:
  assumes "\<And>r s. (r = Inr () \<longleftrightarrow> serves (k \<lparr>kStatus := s\<rparr>) h want) \<Longrightarrow> Q r x (k \<lparr>kStatus := s\<rparr>)"
  shows "along n (verifyServing n h want) Q x k"
  unfolding verifyServing_def i_status_def lift_res_def
proof (intro pass.keeps_rules pass.keeps_call conjI)
  fix a :: "cri_status res"
  show "case a of Inl e \<Rightarrow> Q (Inl e) x (learn n k (CriStatus True a))
      | Inr st \<Rightarrow> along n (State_Monad.return (serving_error st h want)) Q x (learn n k (CriStatus True a))"
    by (rule pass.keeps_case) (auto simp: serves_def intro!: pass.keeps_return assms)
qed simp


lemma learn_more [simp]: "kJournal (k \<lparr>kStatus := s, kRestarts := m\<rparr>) = kJournal k"
  by simp

lemma armed_cong:
  "armed i k p \<Longrightarrow> kJournal l = kJournal k \<Longrightarrow> inState j = inState i \<Longrightarrow> armed j l p"
  by (simp add: armed_def)

lemma settled_cong:
  "settled i k \<Longrightarrow> kJournal l = kJournal k \<Longrightarrow> inState j = inState i \<Longrightarrow> settled j l"
  by (simp add: settled_def)

lemma keeps_recoveryRestart:
  assumes "pending_of k \<noteq> None"
    and "\<And>r y s m. inState y = inState x \<Longrightarrow> kRestarts k \<le> m \<Longrightarrow> m \<le> Suc (kRestarts k) \<Longrightarrow>
       Q r y (k \<lparr>kStatus := s, kRestarts := m\<rparr>)"
  shows "along n (recoveryRestart n p d) Q x k"
proof -
  have same: "Q r x k" for r using assms(2) [of x "kRestarts k" r "kStatus k"] by simp
  show ?thesis
    unfolding recoveryRestart_def i_now_def
    by (intro pass.keeps_rules pass.keeps_call keeps_restart conjI)
      (use assms same in auto)
qed

lemma keeps_write_pending:
  assumes "\<And>r. guard n k (WriteJournal (inState x \<lparr>stPending := p\<rparr>) r)"
    and "\<And>r. Q r (x \<lparr>inState := inState x \<lparr>stPending := p\<rparr>\<rparr>)
       (k \<lparr>kJournal := map_option (\<lambda>_. inState x \<lparr>stPending := p\<rparr>) (answer r)\<rparr>)"
  shows "along n (write_pending n p) Q x k"
  unfolding write_pending_def get_state_def set_state_def i_write_state_def os_call_def
  by (intro pass.keeps_rules pass.keeps_call conjI) (use assms in auto)

lemma may_settle_same:
  "armed i k p \<Longrightarrow> kJournal l = kJournal k \<Longrightarrow> inState j = inState i \<Longrightarrow> may_settle l (stActive (inState j))"
  "settled i k \<Longrightarrow> kJournal l = kJournal k \<Longrightarrow> inState j = inState i \<Longrightarrow> may_settle l (stActive (inState j))"
  by (auto simp: may_settle_def armed_def settled_def)

lemma pending_same: "armed i k p \<Longrightarrow> kJournal l = kJournal k \<Longrightarrow> pending_of l = Some p"
  by (auto simp: armed_def pending_of_def)

lemma keeps_close:
  assumes "may_settle k (stActive (inState x))"
    and "\<And>r y l. inState y = inState x \<lparr>stPending := None\<rparr> \<Longrightarrow> (r = Inr () \<longrightarrow> settled y l) \<Longrightarrow>
       kRestarts l = kRestarts k \<Longrightarrow> kStatus l = kStatus k \<Longrightarrow> Q r y l"
  shows "along n (write_pending n None) Q x k"
  by (rule keeps_write_pending) (auto simp: assms(1) settled_def intro!: assms(2))

lemma keeps_abandon:
  assumes "may_settle k (stActive (inState x))"
    and "\<And>y l. kRestarts l = kRestarts k \<Longrightarrow> Q (Inl e) y l"
  shows "along n (abandonPending n e) Q x k"
  unfolding abandonPending_def
  by (intro pass.keeps_rules keeps_close) (use assms in auto)

lemma keeps_rollback_settle:
  assumes "armed x k p"
    and "\<And>r y l. (r = Inr () \<longrightarrow> settled y l) \<Longrightarrow> kRestarts l \<le> Suc (kRestarts k) \<Longrightarrow> Q r y l"
  shows "along n (rollback_settle n p) Q x k"
  unfolding rollback_settle_def
  apply (intro pass.keeps_rules keeps_recoveryRestart keeps_verifyServing keeps_close)
      apply (simp_all add: pending_same [OF assms(1)] may_settle_same(1) [OF assms(1)] assms(2))
  done

lemma keeps_write_config:
  assumes "armed x k p" "kRaw k = Some raw" "allowed_write raw p data"
    and "\<And>r. Q r x (k \<lparr>kStatus := None, kDump := None\<rparr>)"
  shows "along n (i_write_config n data) Q x k"
  unfolding i_write_config_def os_call_def
  by (rule pass.keeps_call) (use assms pending_of_armed in fastforce)

lemma keeps_dump:
  assumes "\<And>r. Q r x (k \<lparr>kDump := answer r\<rparr>)"
  shows "along n (dump_config n) Q x k"
  unfolding dump_config_def i_run_def by (rule pass.keeps_call) (use assms in simp)

lemma keeps_rollbackPending:
  assumes "armed x k p" "kRaw k = Some raw"
    and "\<And>r y l. (r = Inr () \<longrightarrow> settled y l) \<Longrightarrow> kRestarts l \<le> Suc (kRestarts k) \<Longrightarrow> Q r y l"
  shows "along n (rollbackPending n p raw) Q x k"
  unfolding rollbackPending_def lift_res_def
  by (intro pass.keeps_rules pass.keeps_case keeps_write_config [OF assms(1,2)] keeps_dump keeps_rollback_settle)
    (auto simp: armed_cong [OF assms(1)] allowed_write_def intro!: assms(3))

text \<open>A load or a verdict changes nothing else, and what is loaded carries its path.\<close>

lemma keeps_load:
  assumes "\<And>r. (\<forall>g. r = Inr g \<longrightarrow> genPath g = q) \<Longrightarrow> Q r x (k \<lparr>kLoaded := map_option (Pair q) (answer r)\<rparr>)"
  shows "along n (i_load n q) Q x k"
  unfolding i_load_def os_call_def
  by (rule pass.keeps_call_where [where P = "\<lambda>r. \<forall>g. r = Inr g \<longrightarrow> genPath g = q"])
     (use assms loadGeneration_results [of q "ndTools n" "ndConfig n"] in \<open>auto simp: results_def\<close>)

lemma keeps_modify: "Q () (f x) k \<Longrightarrow> along n (modify_installer f) Q x k"
  unfolding modify_installer_def by (intro pass.keeps_rules)

lemma keeps_commit_journal:
  assumes "may_settle k (Some r)"
    and "\<And>e. Q (Inl (Joined [CommitSettled, e])) x (k \<lparr>kJournal := None\<rparr>)"
    and "\<And>y l. settled y l \<Longrightarrow> kRestarts l = kRestarts k \<Longrightarrow> Q (Inr ()) y l"
  shows "along n (commit_journal n r) Q x k"
  unfolding commit_journal_def i_write_state_def os_call_def get_state_def set_state_def
  apply (intro pass.keeps_rules pass.keeps_call keeps_modify conjI)
  apply (auto simp: assms(1,2) no_state_def settled_def intro!: assms(3))
  done

lemma keeps_commit_config:
  assumes "\<And>e l. kJournal l = kJournal k \<Longrightarrow> kRaw l = kRaw k \<Longrightarrow> kRestarts l = kRestarts k \<Longrightarrow> Q (Inl (Failed e)) x l"
    and "\<And>e l. kJournal l = kJournal k \<Longrightarrow> kRaw l = kRaw k \<Longrightarrow> kRestarts l = kRestarts k \<Longrightarrow> Q (Inl e) x l"
    and "\<And>l. kJournal l = kJournal k \<Longrightarrow> kRaw l = kRaw k \<Longrightarrow> kRestarts l = kRestarts k \<Longrightarrow> Q (Inr ()) x l"
  shows "along n (commit_config n g dump c) Q x k"
  unfolding commit_config_def i_config_intact_def i_ensure_config_def os_call_def
  apply (intro pass.keeps_rules pass.keeps_case pass.keeps_call conjI)
  apply (auto intro!: assms)
  done

lemma keeps_commit_serving:
  assumes "armed x k p"
    and "\<And>r y l. inState y = inState x \<Longrightarrow> kJournal l = kJournal k \<Longrightarrow> kRaw l = kRaw k \<Longrightarrow>
       kRestarts l \<le> Suc (kRestarts k) \<Longrightarrow>
       (r = Inr () \<longrightarrow> serves l (grHandler (paTarget p)) (Some want)) \<Longrightarrow> Q r y l"
  shows "along n (commit_serving n p want) Q x k"
  unfolding commit_serving_def
  apply (intro pass.keeps_rules pass.keeps_case keeps_verifyServing keeps_recoveryRestart)
  apply (auto simp: pending_same [OF assms(1)] intro!: assms(2))
  done


lemma target_paths: "genPath g = grPath r \<Longrightarrow>
    \<lparr>targetShim = shimPath g, targetConfig = grConfigPath r\<rparr> = target_of r"
  by (simp add: target_of_def shimPath_def)

definition commit_post :: "installer \<Rightarrow> known \<Rightarrow> pending_activation \<Rightarrow> unit res \<Rightarrow> installer \<Rightarrow> known \<Rightarrow> bool" where
  "commit_post x k p r y l \<longleftrightarrow> kRestarts l \<le> Suc (kRestarts k) \<and>
     (case r of Inr _ \<Rightarrow> settled y l
      | Inl e \<Rightarrow> is_commit_settled e \<or> armed y l p \<and> kRaw l = kRaw k)"

lemma keeps_i_verify: "(\<And>r. Q r x (k \<lparr>kVerified := map_option (\<lambda>_. g) (answer r)\<rparr>)) \<Longrightarrow> along n (i_verify n g) Q x k"
  unfolding i_verify_def os_call_def by (rule pass.keeps_call) simp

lemma commit_postI:
  assumes "armed x k p"
  shows "inState y = inState x \<Longrightarrow> kJournal l = kJournal k \<Longrightarrow> kRaw l = kRaw k \<Longrightarrow> kRestarts l \<le> Suc (kRestarts k) \<Longrightarrow>
      commit_post x k p (Inl e) y l"
    "kRestarts l \<le> Suc (kRestarts k) \<Longrightarrow> commit_post x k p (Inl (Joined [CommitSettled, e])) y l"
    "settled y l \<Longrightarrow> kRestarts l \<le> Suc (kRestarts k) \<Longrightarrow> commit_post x k p (Inr ()) y l"
  using armed_cong [OF assms] by (simp_all add: commit_post_def)

lemma may_settle_target:
  "armed x k p \<Longrightarrow> kJournal l = kJournal k \<Longrightarrow>
     serves l (grHandler (paTarget p)) (Some (target_of (paTarget p))) \<Longrightarrow> may_settle l (Some (paTarget p))"
  by (auto simp: armed_def may_settle_def)

lemma keeps_commitTarget:
  assumes a: "armed x k p"
  shows "along n (commitTarget n p) (commit_post x k p) x k"
  unfolding commitTarget_def lift_res_def Let_def
  apply (intro pass.keeps_rules pass.keeps_case keeps_load keeps_i_verify keeps_dump keeps_commit_config
     keeps_commit_serving [OF armed_cong [OF a]] keeps_commit_journal)
  apply (simp_all add: commit_postI [OF a] target_paths may_settle_target [OF a])
  done

lemma keeps_read_config:
  assumes "\<And>r. Q r x (k \<lparr>kRaw := answer r\<rparr>)"
  shows "along n (i_read_file n (cfg_path n)) Q x k"
  unfolding i_read_file_def os_call_def by (rule pass.keeps_call) (use assms in simp)

lemma keeps_recoverPending:
  assumes a: "armed x k p"
    and Q: "\<And>r y l. (r = Inr () \<longrightarrow> settled y l) \<Longrightarrow> kRestarts l \<le> kRestarts k + 2 \<Longrightarrow> Q r y l"
  shows "along n (recoverPending n p) Q x k"
proof -
  have roll: "along n (rollbackPending n p raw) Q y l"
    if "armed y l p" "kRaw l = Some raw" "kRestarts l \<le> Suc (kRestarts k)" for y l raw
    by (rule keeps_rollbackPending [OF that(1,2)], rule Q) (use that(3) in simp_all)
  have go: "along n (commitTarget n p) (\<lambda>r y l. R r y l) x l" if "kJournal l = kJournal k" "kRestarts l = kRestarts k"
      and "\<And>r y m. commit_post x l p r y m \<Longrightarrow> R r y m" for R l
    by (rule pass.keeps_mono [OF keeps_commitTarget [OF armed_cong [OF a that(1) refl]] that(3)])
  show ?thesis
    unfolding recoverPending_def lift_res_def
    apply (intro pass.keeps_rules pass.keeps_case keeps_read_config go)
    apply (simp_all add: Q commit_post_def)
    apply (auto intro!: roll armed_cong [OF a] Q simp: commit_post_def)
    done
qed

lemma keeps_rollback:
  assumes "armed x k p" "kRaw k = Some raw" "allowed_write raw p data"
    and "\<And>r l. kJournal l = kJournal k \<Longrightarrow> kRestarts l \<le> Suc (kRestarts k) \<Longrightarrow> Q r x l"
  shows "along n (rollback n data) Q x k"
  unfolding rollback_def
  by (intro pass.keeps_rules keeps_write_config [OF assms(1-3)] keeps_restart)
     (auto simp: pending_same [OF assms(1)] intro!: assms(4))

lemma keeps_roll_back_to:
  assumes a: "armed x k p" "kRaw k = Some raw"
    and Q: "\<And>e y l. kRestarts l \<le> Suc (kRestarts k) \<Longrightarrow> Q (Inl e) y l"
  shows "along n (roll_back_to n raw desired msg e) Q x k"
proof -
  have p: "stPending (inState x) = Some p" using a(1) by (auto simp: armed_def)
  show ?thesis
    unfolding roll_back_to_def lift_res_def get_state_def i_now_def
    by (intro pass.keeps_rules pass.keeps_case pass.keeps_call keeps_modify keeps_abandon keeps_rollback [OF a] conjI)
       (auto simp: p Q allowed_write_def intro!: may_settle_same(1) [OF a(1)])
qed


lemma serves_cong: "kStatus l = kStatus k \<Longrightarrow> serves l = serves k"
  by (simp add: serves_def fun_eq_iff)

lemma keeps_bring_up:
  assumes a: "armed x k p" "kRaw k = Some raw"
    and bad: "\<And>e y l. kRestarts l \<le> kRestarts k + 2 \<Longrightarrow> Q (Inl e) y l"
    and good: "\<And>y l. armed y l p \<Longrightarrow> inState y = inState x \<Longrightarrow> kRestarts l \<le> Suc (kRestarts k) \<Longrightarrow>
       serves l (cfgHandler (ndConfig n)) (Some want) \<Longrightarrow> Q (Inr ()) y l"
  shows "along n (bring_up n raw desired want) Q x k"
  unfolding bring_up_def i_event_def
  by (intro pass.keeps_rules keeps_restart keeps_verifyServing pass.keeps_call keeps_modify
        keeps_roll_back_to [OF armed_cong [OF a(1)]] conjI)
     (auto simp: pending_same [OF a(1)] a(2) armed_cong [OF a(1)] serves_def intro!: good bad)

lemma as_res_Inr [simp]: "as_res r = Inr a \<longleftrightarrow> r = Inr a"
  by (cases r) (auto simp: as_res_def)

lemma keeps_applyConfigChange:
  assumes a: "armed x k p" "grBlock (paTarget p) = desired"
    and bad: "\<And>e y l. kRestarts l \<le> kRestarts k + 2 \<Longrightarrow> Q (Inl e) y l"
    and good: "\<And>y l. armed y l p \<Longrightarrow> inState y = inState x \<Longrightarrow> kRestarts l \<le> kRestarts k + 2 \<Longrightarrow>
       serves l (cfgHandler (ndConfig n)) (Some want) \<Longrightarrow> Q (Inr ()) y l"
  shows "along n (applyConfigChange n raw desired want) Q x k"
proof -
  have s: "may_settle l (stActive (inState x))" if "kJournal l = kJournal k" for l
    by (rule may_settle_same(1) [OF a(1) that refl])
  show ?thesis
    unfolding applyConfigChange_def install_config_def check_new_config_def i_backup_def os_call_def
    apply (intro pass.keeps_rules keeps_read_config pass.keeps_call keeps_write_config [OF armed_cong [OF a(1)]]
        keeps_bring_up [OF armed_cong [OF a(1)]] keeps_abandon keeps_dump s conjI)
    apply (simp_all add: bad)
    apply (auto simp: a(2) allowed_write_def intro!: good bad)
    done
qed

lemma settled_journal: "settled x k \<Longrightarrow> \<exists>st. kJournal k = Some st \<and> stPending st = None \<and>
    stActive st = stActive (inState x) \<and> stPending (inState x) = None"
  by (simp add: settled_def)

text \<open>Writing a pending record arms the journal, or loses it.\<close>

lemma keeps_arm:
  assumes "may_arm n k (inState x \<lparr>stPending := Some p\<rparr>) p"
    and bad: "\<And>e y l. kRestarts l = kRestarts k \<Longrightarrow> Q (Inl e) y l"
    and good: "\<And>y l. armed y l p \<Longrightarrow> inState y = inState x \<lparr>stPending := Some p\<rparr> \<Longrightarrow> kRestarts l = kRestarts k \<Longrightarrow>
       kStatus l = kStatus k \<Longrightarrow> Q (Inr ()) y l"
  shows "along n (write_pending n (Some p)) Q x k"
proof (rule keeps_write_pending)
  fix r :: "unit res"
  show "guard n k (WriteJournal (inState x\<lparr>stPending := Some p\<rparr>) r)" using assms(1) by simp
  show "Q r (x\<lparr>inState := inState x\<lparr>stPending := Some p\<rparr>\<rparr>)
      (k\<lparr>kJournal := map_option (\<lambda>_. inState x\<lparr>stPending := Some p\<rparr>) (answer r)\<rparr>)"
    by (cases r) (auto simp: armed_def intro!: good bad)
qed

definition brought_up :: "'w node \<Rightarrow> string \<Rightarrow> runtime_target \<Rightarrow> installer \<Rightarrow> known \<Rightarrow> bool" where
  "brought_up n raw want y l \<longleftrightarrow> settled y l \<and> serves l (cfgHandler (ndConfig n)) (Some want) \<and>
     (\<exists>a. stActive (inState y) = Some a \<and> desiredManagedBlock (ndConfig n) raw want = Inr (grBlock a))"

lemma predecessor_same: "stActive st = stActive st' \<Longrightarrow> predecessor st raw = predecessor st' raw"
  by (simp add: predecessor_def)

lemma keeps_activate:
  assumes k: "settled x k" "kRaw k = Some raw" "kDump k = Some dump" "\<not> foreign n raw dump"
    and d: "desiredManagedBlock (ndConfig n) raw want = Inr desired"
    and nb: "\<not> block_in_place (inState x) raw desired"
    and g: "targetShim want = shimPath g"
    and bad: "\<And>e y l. kRestarts l \<le> kRestarts k + 2 \<Longrightarrow> Q (Inl e) y l"
    and good: "\<And>y l. brought_up n raw want y l \<Longrightarrow> kRestarts l \<le> kRestarts k + 2 \<Longrightarrow> Q (Inr ()) y l"
  shows "along n (activate n raw desired g want) Q x k"
proof -
  let ?t = "activation_record (ndConfig n) g want desired"
  have t: "grBlock ?t = desired" "grHandler ?t = cfgHandler (ndConfig n)" "target_of ?t = want"
    using g by (simp_all add: activation_record_def target_of_def shimPath_def)
  have arm: "may_arm n l (inState x \<lparr>stPending := Some p\<rparr>) p"
    if "kJournal l = kJournal k" "kRaw l = kRaw k" "kDump l = kDump k"
      "predecessor (inState x) raw = Inr (paPreviousBlock p, paPreviousHandler p)" "paTarget p = ?t" for l p
  proof -
    obtain old where old: "kJournal k = Some old" "stPending old = None" "stActive old = stActive (inState x)"
      using settled_journal [OF k(1)] by blast
    have "predecessor old raw = predecessor (inState x) raw" "block_in_place old raw desired = block_in_place (inState x) raw desired"
      using old(3) by (simp_all add: predecessor_def block_in_place_def)
    then show ?thesis
      unfolding may_arm_def using old k that t d nb
      by (intro exI [of _ old] exI [of _ raw] exI [of _ dump] exI [of _ want]) simp
  qed
  have close: "along n (write_pending n None) Q y l"
    if "armed y' l p" "stActive (inState y) = Some (paTarget p)" "paTarget p = ?t"
      "serves l (cfgHandler (ndConfig n)) (Some want)" "kRestarts l \<le> kRestarts k + 2" for y y' l p
  proof (rule keeps_close)
    show "may_settle l (stActive (inState y))"
      using may_settle_target [OF that(1) refl] that t by simp
    fix r :: "unit res" and z m
    assume z: "inState z = inState y \<lparr>stPending := None\<rparr>" "r = Inr () \<longrightarrow> settled z m" "kRestarts m = kRestarts l"
      "kStatus m = kStatus l"
    show "Q r z m"
    proof (cases r)
      case (Inl e)
      then show ?thesis using bad z that by simp
    next
      case (Inr u)
      have "brought_up n raw want z m"
        unfolding brought_up_def using z Inr that t d serves_cong [of m l] by simp
      then show ?thesis using good z that Inr by simp
    qed
  qed
  show ?thesis
    unfolding activate_def i_now_def lift_res_def Let_def get_state_def set_state_def
    apply (intro pass.keeps_rules pass.keeps_case pass.keeps_call keeps_arm keeps_applyConfigChange conjI)
    apply (auto simp: bad t intro: bad arm close)
    done
qed


lemma keeps_converge:
  assumes k: "settled x k" "kRaw k = Some raw" "kDump k = Some dump" "\<not> foreign n raw dump"
    and a: "stActive (inState x) = Some a" "grBlock a = desired"
    and b: "managedBlock raw = Inr (Some desired)"
    and d: "desiredManagedBlock (ndConfig n) raw want = Inr desired"
    and e: "\<not> serves k (cfgHandler (ndConfig n)) (Some want)"
    and bad: "\<And>e y l. kRestarts l \<le> kRestarts k + 2 \<Longrightarrow> Q (Inl e) y l"
    and good: "\<And>y l. brought_up n raw want y l \<Longrightarrow> kRestarts l \<le> kRestarts k + 2 \<Longrightarrow> Q (Inr ()) y l"
  shows "along n (converge n a desired want err) Q x k"
proof -
  have arm: "may_arm n k (inState x \<lparr>stPending := Some p\<rparr>) p"
    if "p = \<lparr>paTarget = a, paPreviousBlock = grBlock a, paPreviousHandler = grHandler a\<rparr>" for p
  proof -
    obtain old where old: "kJournal k = Some old" "stPending old = None" "stActive old = stActive (inState x)"
      using settled_journal [OF k(1)] by blast
    have "predecessor old raw = Inr (grBlock a, grHandler a)" "block_in_place old raw desired"
      using old(3) a b by (simp_all add: predecessor_def block_in_place_def)
    then show ?thesis
      unfolding may_arm_def using old k that a d e
      by (intro exI [of _ old] exI [of _ raw] exI [of _ dump] exI [of _ want]) simp
  qed
  have close: "along n (write_pending n None) R y l"
    if "armed y l p" "inState y = inState x \<lparr>stPending := Some p\<rparr>" "kRestarts l \<le> kRestarts k + 1"
      and R: "\<And>r z m. (r = Inr () \<longrightarrow> settled z m) \<Longrightarrow> stActive (inState z) = Some a \<Longrightarrow> kRestarts m \<le> kRestarts k + 1 \<Longrightarrow> R r z m"
    for R :: "unit res \<Rightarrow> _" and y l p
    using that(1-3) a may_settle_same(1) [OF that(1) refl refl]
    by (intro keeps_close R) auto
  have up: "brought_up n raw want y l"
    if "settled y' l'" "stActive (inState y') = Some a" "kJournal l = kJournal l'" "inState y = inState y'"
      "serves l (cfgHandler (ndConfig n)) (Some want)" for y y' l l'
    unfolding brought_up_def using settled_cong [OF that(1,3,4)] that a d by simp
  show ?thesis
    unfolding converge_def Let_def
    apply (intro pass.keeps_rules pass.keeps_case keeps_arm keeps_recoveryRestart keeps_modify close keeps_verifyServing)
    apply (simp_all add: bad arm)
    subgoal using pending_of_armed by fastforce
    subgoal by (erule armed_cong) simp_all
    subgoal for y l r ya m ra z ma rb sa
      by (cases rb) (auto intro!: bad good intro: up)
    done
qed

lemma keeps_settle_config:
  assumes k: "settled x k" "kRaw k = Some raw" "kDump k = Some dump" "\<not> foreign n raw dump"
    and g: "targetShim want = shimPath g"
    and bad: "\<And>e y l. kRestarts l \<le> kRestarts k + 2 \<Longrightarrow> Q (Inl e) y l"
    and good: "\<And>b y l. brought_up n raw want y l \<Longrightarrow> kRestarts l \<le> kRestarts k + 2 \<Longrightarrow> Q (Inr b) y l"
  shows "along n (settle_config n raw g want) Q x k"
proof -
  have act: "along n (activate n raw desired g want) R x k"
    if "desiredManagedBlock (ndConfig n) raw want = Inr desired" "\<not> block_in_place (inState x) raw desired"
      and "\<And>e y l. kRestarts l \<le> kRestarts k + 2 \<Longrightarrow> R (Inl e) y l"
      and "\<And>y l. brought_up n raw want y l \<Longrightarrow> kRestarts l \<le> kRestarts k + 2 \<Longrightarrow> R (Inr ()) y l"
    for desired R by (rule keeps_activate [OF k that(1,2) g that(3,4)])
  have conv: "along n (converge n a desired want err) R x (k \<lparr>kStatus := s\<rparr>)"
    if "stActive (inState x) = Some a" "grBlock a = desired" "managedBlock raw = Inr (Some desired)"
      "desiredManagedBlock (ndConfig n) raw want = Inr desired"
      "\<not> serves (k \<lparr>kStatus := s\<rparr>) (cfgHandler (ndConfig n)) (Some want)"
      and "\<And>e y l. kRestarts l \<le> kRestarts k + 2 \<Longrightarrow> R (Inl e) y l"
      and "\<And>y l. brought_up n raw want y l \<Longrightarrow> kRestarts l \<le> kRestarts k + 2 \<Longrightarrow> R (Inr ()) y l"
    for a desired R s err
    by (rule keeps_converge [OF settled_cong [OF k(1)] _ _ k(4) that(1-5)]) (use k that(6,7) in auto)
  have up: "brought_up n raw want x (k \<lparr>kStatus := s\<rparr>)"
    if "serves (k \<lparr>kStatus := s\<rparr>) (cfgHandler (ndConfig n)) (Some want)"
      "stActive (inState x) = Some a" "desiredManagedBlock (ndConfig n) raw want = Inr (grBlock a)" for a s
    unfolding brought_up_def using that settled_cong [OF k(1)] by simp
  show ?thesis
    unfolding settle_config_def lift_res_def get_state_def
    apply (intro pass.keeps_rules pass.keeps_case keeps_verifyServing act conv)
    apply (simp_all add: bad good up block_in_place_def)
    done
qed

lemma keeps_ensureContainerdConfig:
  assumes k: "settled x k" "kRaw k = Some raw" "kDump k = Some dump" "\<not> foreign n raw dump"
    and g: "targetShim want = shimPath g"
    and bad: "\<And>e y l. kRestarts l \<le> kRestarts k + 2 \<Longrightarrow> Q (Inl e) y l"
    and good: "\<And>b y l. brought_up n raw want y l \<Longrightarrow> kRestarts l \<le> kRestarts k + 2 \<Longrightarrow> Q (Inr b) y l"
  shows "along n (ensureContainerdConfig n raw g want) Q x k"
  unfolding ensureContainerdConfig_def
  by (intro pass.keeps_rules pass.keeps_case keeps_settle_config [OF k g] keeps_modify bad good)
     (simp_all add: brought_up_def settled_def)

text \<open>The parts of a pass that only look.\<close>

definition looks :: "installer \<Rightarrow> known \<Rightarrow> installer \<Rightarrow> known \<Rightarrow> bool" where
  "looks x k y l \<longleftrightarrow> inState y = inState x \<and> kJournal l = kJournal k \<and> kRestarts l = kRestarts k"

lemma keeps_distro:
  assumes "\<And>r. Q r x k"
  shows "along n (distro_loop n ms) Q x k"
  by (induction ms rule: distro_loop.induct [of _ n])
     (auto simp: i_run_def intro!: pass.keeps_rules pass.keeps_call assms split: sum.splits)

lemma keeps_hinted: "(\<And>e. Q (Inl e) x k) \<Longrightarrow> along n (hinted n err) Q x k"
  unfolding hinted_def distroHint_def by (intro pass.keeps_rules keeps_distro)

lemma keeps_preflight:
  assumes "\<And>r y l. looks x k y l \<Longrightarrow> Q r y l"
  shows "along n (preflight n recovering) Q x k"
  unfolding preflight_def preflight_process_def Let_def i_run_def i_read_file_def i_status_def os_call_def
  apply (intro pass.keeps_rules pass.keeps_case pass.keeps_call keeps_hinted conjI)
  apply (auto simp: looks_def intro!: assms)
  done

lemma keeps_verified_generation:
  assumes "\<And>r y l. looks x k y l \<Longrightarrow> kRaw l = kRaw k \<Longrightarrow> kDump l = kDump k \<Longrightarrow>
      (\<forall>a. r = Inr () \<longrightarrow> stActive st = Some a \<longrightarrow>
         (\<exists>g. kLoaded l = Some (grPath a, g) \<and> genVersion g = grVersion a \<and> genSHA512 g = grSHA512 a \<and> kVerified l = Some g))
      \<Longrightarrow> Q r y l"
  shows "along n (verifiedActiveGeneration n st) Q x k"
  unfolding verifiedActiveGeneration_def i_load_def i_verify_cached_def with_cache_def os_call_def
  apply (intro pass.keeps_rules pass.keeps_case pass.keeps_call conjI)
  apply (auto simp: looks_def intro!: assms)
  done

lemma keeps_maintainActive:
  assumes "\<And>y l. looks x k y l \<Longrightarrow> kRaw l = kRaw k \<Longrightarrow> kDump l = kDump k \<Longrightarrow> Q () y l"
  shows "along n (maintainActive n st) Q x k"
  unfolding maintainActive_def i_config_intact_def setNodeLabels_def os_call_def
  apply (intro pass.keeps_rules pass.keeps_case pass.keeps_call keeps_verified_generation conjI)
  apply (auto simp: looks_def intro!: assms)
  done


lemma looks_settled: "looks x k y l \<Longrightarrow> settled x k \<Longrightarrow> settled y l"
  by (auto simp: looks_def intro: settled_cong)

definition pass_result :: "'w node \<Rightarrow> outcome \<times> unit res \<Rightarrow> installer \<Rightarrow> known \<Rightarrow> bool" where
  "pass_result n r y l \<longleftrightarrow> (snd r = Inr () \<longrightarrow>
     (if outForeignOK (fst r) then serves l (cfgHandler (ndConfig n)) None
      else \<exists>raw want. brought_up n raw want y l))"

lemma keeps_or_fail:
  assumes "along n m (\<lambda>r y l. case r of Inl e \<Rightarrow> Q (no_outcome, Inl e) y l | Inr a \<Rightarrow> along n (f a) Q y l) x k"
  shows "along n (or_fail m f) Q x k"
  unfolding or_fail_def
  by (rule pass.keeps_bind, rule pass.keeps_mono [OF assms]) (auto intro!: pass.keeps_rules split: sum.splits)

lemma keeps_recheck:
  assumes up: "brought_up n raw want x k"
    and Q: "\<And>r l. pass_result n r x l \<Longrightarrow> kRestarts l = kRestarts k \<Longrightarrow> Q r x l"
  shows "along n (recheck_merged n want) Q x k"
proof -
  have up': "brought_up n raw want x (k \<lparr>kDump := d\<rparr>)" for d
    using up by (simp add: brought_up_def settled_def serves_def)
  show ?thesis
    unfolding recheck_merged_def
    apply (intro pass.keeps_rules keeps_dump)
    apply (auto simp: pass_result_def no_outcome_def conflict_outcome_def intro!: Q split: option.splits sum.splits)
    apply (use up' in blast)+
    done
qed

lemma keeps_ensure_generation: "(\<And>r y. inState y = inState x \<Longrightarrow> Q r y k) \<Longrightarrow> along n (i_ensure_generation n) Q x k"
  unfolding i_ensure_generation_def with_cache_def os_call_def
  by (intro pass.keeps_rules pass.keeps_call conjI) (auto split: prod.splits)

lemma keeps_ensure_config: "(\<And>r. Q r x k) \<Longrightarrow> along n (i_ensure_config n g dump) Q x k"
  unfolding i_ensure_config_def os_call_def by (intro pass.keeps_call) auto

lemma pass_result_err: "pass_result n (out, Inl e) y l"
  by (simp add: pass_result_def)

lemma pass_result_up: "brought_up n raw want y l \<Longrightarrow> pass_result n (no_outcome, Inr ()) y l"
  by (auto simp: pass_result_def no_outcome_def)

lemma keeps_reconcile_managed:
  assumes k: "settled x k" "kRaw k = Some raw" "kDump k = Some dump" "\<not> foreign n raw dump"
    and Q: "\<And>r y l. pass_result n r y l \<Longrightarrow> kRestarts l \<le> kRestarts k + 2 \<Longrightarrow> Q r y l"
  shows "along n (reconcile_managed n raw dump) Q x k"
  unfolding reconcile_managed_def Let_def get_state_def
  apply (intro pass.keeps_rules pass.keeps_case keeps_maintainActive keeps_or_fail keeps_ensure_generation
      keeps_ensure_config keeps_ensureContainerdConfig [OF settled_cong [OF k(1)]] keeps_recheck)
  apply (simp_all add: k(1-3) looks_def)
  apply (auto simp: k(4) intro!: Q intro: pass_result_err pass_result_up)
  done

lemma keeps_pinned:
  assumes "\<And>r l. kJournal l = kJournal k \<Longrightarrow> kRaw l = kRaw k \<Longrightarrow> kDump l = kDump k \<Longrightarrow> kRestarts l = kRestarts k \<Longrightarrow> Q r x l"
  shows "along n (pinnedTarget n st cur) Q x k"
  unfolding pinnedTarget_def
  by (cases cur; cases "stActive st") (auto intro!: pass.keeps_rules keeps_load assms)

lemma pass_result_foreign: "serves l (cfgHandler (ndConfig n)) None \<Longrightarrow> pass_result n (foreign_outcome, Inr ()) y l"
  by (simp add: pass_result_def foreign_outcome_def no_outcome_def)

lemma keeps_classify:
  assumes k: "settled x k" "kRaw k = Some raw" "kDump k = Some dump" "managedBlock raw = Inr block"
    and Q: "\<And>r y l. pass_result n r y l \<Longrightarrow> kRestarts l \<le> kRestarts k + 2 \<Longrightarrow> Q r y l"
  shows "along n (classify n raw dump block) Q x k"
proof -
  have go: "along n (reconcile_managed n raw dump) Q x l"
    if "kJournal l = kJournal k" "kRaw l = kRaw k" "kDump l = kDump k" "kRestarts l = kRestarts k"
      "\<not> foreign n raw dump" for l
    by (rule keeps_reconcile_managed [OF settled_cong [OF k(1)]]) (use k that Q in auto)
  have serve: "along n (serve_foreign n) Q x l" if "kRestarts l = kRestarts k" for l
  proof -
    have "Q (foreign_outcome, r) x (l \<lparr>kStatus := s\<rparr>)"
      if "(r = Inr ()) = serves (l \<lparr>kStatus := s\<rparr>) (cfgHandler (ndConfig n)) None" for r s
      by (rule Q) (use that \<open>kRestarts l = kRestarts k\<close> in \<open>cases r; simp add: pass_result_err pass_result_foreign\<close>)+
    then show ?thesis unfolding serve_foreign_def by (intro pass.keeps_rules keeps_verifyServing)
  qed
  show ?thesis
    unfolding classify_def get_state_def
    apply (intro pass.keeps_rules pass.keeps_case keeps_pinned go serve)
    apply (auto simp: foreign_def k(4) intro!: Q pass_result_err)
    done
qed

lemma keeps_reconcile_settled:
  assumes k: "settled x k"
    and Q: "\<And>r y l. pass_result n r y l \<Longrightarrow> kRestarts l \<le> kRestarts k + 2 \<Longrightarrow> Q r y l"
  shows "along n (reconcile_settled n) Q x k"
  unfolding reconcile_settled_def i_sweep_def os_call_def lift_res_def
  apply (intro pass.keeps_rules pass.keeps_case pass.keeps_call keeps_read_config keeps_dump keeps_or_fail
      keeps_classify [OF settled_cong [OF k]] conjI)
  apply (auto intro!: Q pass_result_err)
  done

lemma keeps_reconcile:
  assumes Q: "\<And>r y l. pass_result n r y l \<Longrightarrow> kRestarts l \<le> kRestarts k + 4 \<Longrightarrow> Q r y l"
  shows "along n (reconcile n) Q x k"
  unfolding reconcile_def i_read_state_def os_call_def set_state_def
  apply (intro pass.keeps_rules pass.keeps_case pass.keeps_call keeps_or_fail keeps_preflight keeps_recoverPending
     keeps_reconcile_settled conjI)
  apply (auto simp: looks_def settled_def armed_def intro!: Q pass_result_err)
  done


section \<open>Publishing\<close>

definition active_verified :: "'w node \<Rightarrow> known \<Rightarrow> generation_record \<Rightarrow> bool" where
  "active_verified n k a \<longleftrightarrow> (\<exists>st g raw. kJournal k = Some st \<and> stPending st = None \<and> stActive st = Some a \<and>
     grHandler a = cfgHandler (ndConfig n) \<and>
     kRaw k = Some raw \<and> managedBlock raw = Inr (Some (grBlock a)) \<and>
     kLoaded k = Some (grPath a, g) \<and> genVersion g = grVersion a \<and> genSHA512 g = grSHA512 a \<and>
     kVerified k = Some g \<and> kIntact k = Some (grConfigPath a, True))"

lemma may_label_iff: "may_label n k v \<longleftrightarrow> v = VersionUnmanaged \<and> serves k (cfgHandler (ndConfig n)) None \<or>
    (\<exists>a. active_verified n k a \<and> v = grVersion a \<and> serves k (cfgHandler (ndConfig n)) (Some (target_of a)))"
  unfolding may_label_def active_verified_def by blast

lemma keeps_verifiedActiveState:
  assumes "\<And>r y l. kRestarts l = kRestarts k \<Longrightarrow> (\<forall>a. r = Some a \<longrightarrow> active_verified n l a) \<Longrightarrow> Q r y l"
  shows "along n (verifiedActiveState n) Q x k"
  unfolding verifiedActiveState_def i_read_state_def i_config_intact_def os_call_def
  apply (intro pass.keeps_rules pass.keeps_case pass.keeps_call keeps_read_config keeps_verified_generation conjI)
  apply (auto simp: looks_def active_verified_def intro!: assms)
  done

lemma active_verified_status: "active_verified n (k \<lparr>kStatus := s\<rparr>) = active_verified n k"
  by (simp add: active_verified_def fun_eq_iff)

lemma keeps_ready_label:
  assumes "\<And>ready v y l. kRestarts l = kRestarts k \<Longrightarrow> (ready = ''true'' \<longrightarrow> may_label n l v) \<Longrightarrow> Q (ready, v) y l"
  shows "along n (ready_label n out) Q x k"
  unfolding ready_label_def node_identity_def
  apply (intro pass.keeps_rules pass.keeps_case keeps_verifyServing keeps_verifiedActiveState)
  apply (auto simp: may_label_iff active_verified_status split: sum.splits intro!: assms)
  done

definition ready_honest :: "unit res \<Rightarrow> installer \<Rightarrow> known \<Rightarrow> bool" where
  "ready_honest err y l \<longleftrightarrow> inReady y = (\<not> isl err \<and> (\<exists>v. kLabel l = Some (''true'', v, True)))"

lemma keeps_publishStatus:
  assumes "\<And>y l. kRestarts l = kRestarts k \<Longrightarrow> ready_honest err y l \<Longrightarrow> Q () y l"
  shows "along n (publishStatus n out err) Q x k"
  unfolding publishStatus_def transition_event_def setNodeLabels_def i_event_def
  apply (intro pass.keeps_rules pass.keeps_case pass.keeps_call keeps_ready_label keeps_modify conjI)
  apply (auto simp: ready_honest_def intro!: assms)
  done

lemma keeps_Reconcile:
  "along n (ReconcileNode n) (\<lambda>r y l. kRestarts l \<le> kRestarts k + 4 \<and> ready_honest r y l) x k"
  unfolding ReconcileNode_def i_now_def
  apply (intro pass.keeps_rules pass.keeps_call keeps_modify keeps_reconcile keeps_publishStatus conjI)
  apply (auto simp: ready_honest_def)
  done

lemma Reconcile_permitted:
  assumes "run_state (ReconcileNode n) s = (r, t)" "rCalls s = []"
  shows "permitted (learn n) (guard n) unknown (rCalls t) \<and>
    kRestarts (foldl (learn n) unknown (rCalls t)) \<le> 4 \<and> ready_honest r (rObject t) (foldl (learn n) unknown (rCalls t))"
  using pass.keeps_run [OF keeps_Reconcile [of n unknown "rObject s"] refl assms(1)] assms(2)
  by (auto simp: unknown_def)

end
