(* ===== verification/InstallerRun.thy ===== *)
theory InstallerRun
  imports InstallerSafety
begin

text \<open>
  Passes of the installer on a node: the protocol of \<open>InstallerSafety\<close> read off their calls, the
  journal as an abstract machine that every pass refines, two whole passes evaluated on a host that
  does not change (the witnesses), and the end of the polling loop after a restart.
\<close>


definition seen :: "'w node \<Rightarrow> icall list \<Rightarrow> known" where
  "seen n cs = foldl (learn n) unknown cs"

lemma guarded_call:
  assumes "run_state (ReconcileNode n) s = (r, t)" "rCalls s = []" "rCalls t = pre @ c # post"
  shows "guard n (seen n pre) c"
  using Reconcile_permitted [OF assms(1,2)] permitted_at [of "learn n" "guard n" unknown pre c post] assms(3)
  by (simp add: seen_def)


section \<open>A node\<close>

text \<open>
  The passes that the witnesses run: on a host that does not change, the generation, its shim
  configuration and a configuration file are there, and containerd serves the handler from them.
\<close>

definition still_info :: "string \<Rightarrow> file_info" where
  "still_info p = (let r = (list_ex (\<lambda>f. path_base f = path_base p) required_files \<or> suffix ''.json'' p \<or> suffix ''.toml'' p) in
     \<lparr>fiDir = \<not> r, fiRegular = r, fiPerm = 493, fiSize = 1\<rparr>)"

definition still_os :: "string \<Rightarrow> unit os" where
  "still_os raw = \<lparr>
     osReadFile = (\<lambda>p. returnE (if p = containerdConfigPath then raw else ''t'')),
     osStat = (\<lambda>p. returnE (still_info p)), osLstat = (\<lambda>p. returnE (still_info p)),
     osRemove = (\<lambda>p. returnE ()), osRemoveAll = (\<lambda>p. returnE ()), osMkdirAll = (\<lambda>p m. returnE ()),
     osChmod = (\<lambda>p m. returnE ()), osRename = (\<lambda>p q. returnE ()), osCreateTemp = (\<lambda>d s. returnE ''/tmp''),
     osMkdirTemp = (\<lambda>d s. returnE ''/tmp''), osCreate = (\<lambda>p x m. returnE ()), osOpen = (\<lambda>p. returnE ()),
     osWrite = (\<lambda>p s. returnE ()), osSync = (\<lambda>p. returnE ()), osClose = (\<lambda>p. returnE ()),
     osGlob = (\<lambda>p. returnE [witness_path]), osWalk = (\<lambda>p. State_Monad.return []),
     osHttpGet = (\<lambda>u. throwE (OsError ''no network'')),
     osExecVersion = (\<lambda>p. State_Monad.return (Inl (OsError ''no such program'', [])))\<rparr>"

definition still_tools :: "installer_state \<Rightarrow> string \<Rightarrow> toml_table \<Rightarrow> unit tools" where
  "still_tools st raw doc = \<lparr>tlOs = still_os raw, tlSHA512 = (\<lambda>s. zeros),
     tlReadManifest = (\<lambda>s. Inr \<lparr>mfSchema = 1, mfVersion = ''20260721.0'', mfSHA512 = zeros, mfFiles = witness_files\<rparr>),
     tlShowManifest = (\<lambda>m. Inr ''m''), tlReadState = (\<lambda>s. Inr st), tlShowState = (\<lambda>s. Inr ''s''),
     tlParseToml = (\<lambda>s. Some doc), tlEncodeToml = (\<lambda>d. Inr ''t''), tlUntar = (\<lambda>p. returnE []), tlGOARCH = ''amd64''\<rparr>"

definition still_config_path :: string where
  "still_config_path = ''/b/runsc-configs/'' @ replicate 32 CHR ''0'' @ ''.toml''"

definition still_generation :: generation where
  "still_generation = \<lparr>genPath = witness_path, genVersion = ''20260721.0'', genSHA512 = zeros, genFiles = witness_files\<rparr>"

definition still_target :: runtime_target where
  "still_target = \<lparr>targetShim = shimPath still_generation, targetConfig = still_config_path\<rparr>"

definition still_status :: cri_status where
  "still_status = \<lparr>criReady = True, criHandlers = [''runsc''],
     criRuntimes = [''runsc'' \<mapsto> \<lparr>crType = runscRuntimeType, crPath = targetShim still_target,
       crConfigPath = targetConfig still_target\<rparr>]\<rparr>"

definition still_run :: "string \<Rightarrow> string" where
  "still_run cmd = (if cmd = ''systemctl''
     then ''LoadState=loaded'' @ newline @ ''ActiveState=active'' @ newline @ ''MainPID=7'' else [])"

definition still_node :: "installer_state \<Rightarrow> string \<Rightarrow> toml_table \<Rightarrow> unit node" where
  "still_node st raw doc = \<lparr>ndTools = still_tools st raw doc, ndConfig = witness_config,
     ndRun = (\<lambda>cmd args w. (Inr (still_run cmd), w)),
     ndStatus = (\<lambda>b w. (Inr still_status, w)), ndPatch = (\<lambda>ls w. (Inr (), w)), ndEvent = (\<lambda>k r m w. w),
     ndNow = (\<lambda>w. (0, w)), ndWait = (\<lambda>d w. (Inr (), w)), ndCancelled = (\<lambda>w. (False, w))\<rparr>"

definition still_start :: "(unit, installer, icall) run" where
  "still_start = \<lparr>rWorld = (), rCalls = [], rObject = new_installer 0\<rparr>"

definition still_block :: string where
  "still_block = renderManagedBlock criPluginIDV2 ''runsc'' (targetShim still_target) still_config_path"

definition fresh_raw :: string where "fresh_raw = ''version = 2'' @ newline"

definition still_raw :: string where
  "still_raw = fresh_raw @ newline @ section_of still_block @ newline"

definition still_record :: generation_record where
  "still_record = \<lparr>grPath = witness_path, grConfigPath = still_config_path, grVersion = ''20260721.0'',
     grSHA512 = zeros, grHandler = ''runsc'', grBlock = still_block\<rparr>"

definition still_journal :: installer_state where
  "still_journal = \<lparr>stSchema = 1, stActive = Some still_record, stPending = None\<rparr>"



lemma unit_run: "run_state m () = (fst (run_state m ()), ())"
  by (cases "run_state m ()") simp


lemma run_bindE: "run_state (bindE m f) s = (case run_state m s of (r, s') \<Rightarrow>
    (case r of Inl e \<Rightarrow> (Inl e, s') | Inr a \<Rightarrow> run_state (f a) s'))"
  by (simp add: bindE_def throwE_def split: prod.splits sum.splits)

lemma run_returnE: "run_state (returnE a) s = (Inr a, s)" "run_state (throwE e) s = (Inl e, s)"
  by (simp_all add: returnE_def throwE_def)

lemma run_call_api: "run_state (call_api f c) s = (case f (rWorld s) of (a, w) \<Rightarrow> (a, s \<lparr>rWorld := w, rCalls := rCalls s @ [c a]\<rparr>))"
  by (simp add: call_api_def)

lemma run_get_object: "run_state get_object s = (rObject s, s)"
  by (simp add: get_object_def State_Monad.get_def)

lemma run_set_object: "run_state (set_object x) s = ((), s \<lparr>rObject := x\<rparr>)"
  by (simp add: set_object_def State_Monad.update_def State_Monad.get_def State_Monad.set_def)

lemmas runs = run_bindE run_returnE run_call_api run_get_object run_set_object

definition still_cache :: "installer_state \<Rightarrow> string \<Rightarrow> toml_table \<Rightarrow> verify_cache \<Rightarrow> verify_cache" where
  "still_cache st raw doc cache = snd (fst (run_state (ensureGeneration (still_tools st raw doc) witness_config cache) ()))"

lemma still_ensure:
  "run_state (ensureGeneration (still_tools no_state raw doc) witness_config Map.empty) () =
     ((Inr still_generation, still_cache no_state raw doc Map.empty), ())"
proof -
  have "fst (fst (run_state (ensureGeneration (still_tools no_state raw doc) witness_config Map.empty) ())) = Inr still_generation"
    by code_simp
  then show ?thesis unfolding still_cache_def by (subst unit_run) (metis prod.collapse)
qed

lemma still_ensure_active:
  "run_state (ensureGeneration (still_tools still_journal raw doc) witness_config [witness_path \<mapsto> Inr ()]) () =
     ((Inr still_generation, still_cache still_journal raw doc [witness_path \<mapsto> Inr ()]), ())"
proof -
  have "fst (fst (run_state (ensureGeneration (still_tools still_journal raw doc) witness_config [witness_path \<mapsto> Inr ()]) ())) = Inr still_generation"
    by code_simp
  then show ?thesis unfolding still_cache_def by (subst unit_run) (metis prod.collapse)
qed

lemma still_cache_hit: "still_cache still_journal raw doc [witness_path \<mapsto> Inr ()] witness_path = Some (Inr ())"
  by code_simp

lemma still_config:
  "run_state (ensureRunscConfig (still_tools st raw doc) witness_config still_generation dump) () = (Inr still_config_path, ())"
proof -
  have "fst (run_state (ensureRunscConfig (still_tools st raw doc) witness_config still_generation dump) ()) = Inr still_config_path"
    by code_simp
  then show ?thesis by (subst unit_run) simp
qed

lemma still_splice: "spliceManagedBlock fresh_raw still_block = Inr still_raw"
proof -
  have "str_index fresh_raw beginMarker = None" "suffix newline fresh_raw" by code_simp+
  then show ?thesis by (simp add: spliceManagedBlock_def still_raw_def)
qed

lemma still_backup: "run_state (writePristineBackup (tlOs (still_tools st raw doc)) b s d) () = (Inr (), ())"
  by code_simp
lemma still_write_journal: "run_state (writeState (still_tools st raw doc) c d) () = (Inr (), ())"
  by code_simp
lemma still_write: "run_state (writeFileAtomic (tlOs (still_tools st raw doc)) p d) () = (Inr (), ())"
  by code_simp
lemma still_read_journal: "valid_state st \<Longrightarrow> stSchema st = 1 \<Longrightarrow> run_state (readState (still_tools st raw doc) c) () = (st, ())"
  by (auto simp: readState_def readJSONFile_def still_tools_def still_os_def runs)
lemma still_load: "run_state (loadGeneration (still_tools st raw doc) witness_config witness_path) () = (Inr still_generation, ())"
  by code_simp
lemma still_verify: "run_state (verifyGeneration (still_tools st raw doc) witness_config still_generation) () = (Inr (), ())"
  by code_simp
lemma still_intact: "run_state (runscConfigIntact (still_tools st raw doc) witness_config still_config_path) () = (True, ())"
  by code_simp
lemma still_block_raw: "managedBlock still_raw = Inr (Some still_block)" "managedBlock fresh_raw = Inr None"
proof -
  have "CHR ''#'' \<notin> set criPluginIDV2 \<union> set ''runsc'' \<union> set (targetShim still_target) \<union> set still_config_path"
    by code_simp
  then have "\<not> sublist endMarker still_block" unfolding still_block_def by (rule rendered_no_end)
  from managed_block_splice(1) [OF still_splice this] show "managedBlock still_raw = Inr (Some still_block)"
    unfolding still_block_def by (simp only: rendered_trim)
  show "managedBlock fresh_raw = Inr None" by code_simp
qed
lemma still_desired_raw: "desiredManagedBlock witness_config still_raw still_target = Inr still_block"
  by code_simp
lemma still_valid: "valid_state still_journal" "valid_state no_state"
  by code_simp+
lemma still_desired: "desiredManagedBlock witness_config fresh_raw still_target = Inr still_block"
  by code_simp
lemma still_serving: "serving_error still_status ''runsc'' (Some still_target) = Inr ()"
  by code_simp


fun is_write :: "icall \<Rightarrow> bool" where "is_write (WriteConfig d r) = True" | "is_write c = False"
fun is_restart_call :: "icall \<Rightarrow> bool" where "is_restart_call (HostRun cmd args r) = is_restart cmd args" | "is_restart_call c = False"
fun is_settling :: "icall \<Rightarrow> bool" where "is_settling (WriteJournal st r) \<longleftrightarrow> stPending st = None" | "is_settling c = False"
fun is_arming :: "icall \<Rightarrow> bool" where "is_arming (WriteJournal st r) \<longleftrightarrow> stPending st \<noteq> None" | "is_arming c = False"
fun is_ready :: "icall \<Rightarrow> bool" where "is_ready (SetLabels l v r) \<longleftrightarrow> l = ''true''" | "is_ready c = False"

lemma still_properties:
  "prop_of (parseProperties (still_run ''systemctl'')) ''LoadState'' = ''loaded''"
  "prop_of (parseProperties (still_run ''systemctl'')) ''ActiveState'' = ''active''"
  "atoi (prop_of (parseProperties (still_run ''systemctl'')) ''MainPID'') = Some 7"
  by code_simp+

lemma still_paths: "path_join [''/proc'', itoa 7, ''cmdline''] \<noteq> containerdConfigPath"
  "cfg_path (still_node st raw doc) = containerdConfigPath" "configFlagFromCmdline ''t'' = []"
  by (code_simp; simp)+

lemma still_sels [simp]:
  "ndConfig (still_node st raw doc) = witness_config" "ndTools (still_node st raw doc) = still_tools st raw doc"
  "ndRun (still_node st raw doc) cmd args w = (Inr (still_run cmd), w)"
  "ndStatus (still_node st raw doc) b w = (Inr still_status, w)"
  "ndNow (still_node st raw doc) w = (0, w)"
  "ndPatch (still_node st raw doc) ls w = (Inr (), w)"
  "ndEvent (still_node st raw doc) k r m w = w"
  by (simp_all add: still_node_def)

lemma still_read: "run_state (osReadFile (tlOs (still_tools st raw doc)) p) w = (Inr (if p = containerdConfigPath then raw else ''t''), w)"
  by (simp add: still_tools_def still_os_def runs)

definition still_look :: "icall list" where
  "still_look = [HostRun ''systemctl'' [''show'', ''containerd'', ''--property=LoadState,ActiveState,MainPID,ExecStart''] (Inr (still_run ''systemctl'')),
     ReadFile (path_join [''/proc'', itoa 7, ''cmdline'']) (Inr ''t''), CriStatus True (Inr still_status)]"

lemma still_preflight:
  "inPreflightPID (rObject s) = 0 \<Longrightarrow> run_state (preflight (still_node st raw doc) False) s =
     (Inr (), s \<lparr>rCalls := rCalls s @ still_look, rObject := rObject s \<lparr>inPreflightPID := 7\<rparr>\<rparr>)"
  unfolding preflight_def preflight_process_def i_run_def i_read_file_def i_status_def os_call_def
  by (simp add: runs Let_def still_properties still_paths still_read still_look_def still_status_def)

lemma still_sweep: "run_state (removeStaleTemps (tlOs (still_tools st raw doc)) p) () = (Inr (), ())"
  by (subst unit_run) (simp, code_simp)


lemma still_dump: "runtimeFromDump (Some Map.empty) h = None"
  by (simp add: runtimeFromDump_def runtime_in_def tomlLookup_def)

lemma still_doc: "tlParseToml (still_tools st raw doc) x = Some doc" by (simp add: still_tools_def)

lemma still_ready: "criReady still_status" by (simp add: still_status_def)

text \<open>The runs of the parts; \<open>noted cs s\<close> is \<open>s\<close> after the calls \<open>cs\<close>.\<close>

definition noted :: "icall list \<Rightarrow> (unit, installer, icall) run \<Rightarrow> (unit, installer, icall) run" where
  "noted cs s = s \<lparr>rCalls := rCalls s @ cs\<rparr>"

lemma noted_sels [simp]: "rCalls (noted cs s) = rCalls s @ cs" "rObject (noted cs s) = rObject s" "noted ds (noted cs s) = noted (cs @ ds) s"
  by (simp_all add: noted_def)

lemma noted_call: "rWorld s = () \<Longrightarrow> s \<lparr>rWorld := (), rCalls := rCalls s @ cs\<rparr> = noted cs s"
  by (simp add: noted_def)

lemma run_call: "run_state (call_api f c) s = (fst (f ()), noted [c (fst (f ()))] s)"
  by (simp add: run_call_api noted_def split: prod.splits)

lemma run_modify: "run_state (modify_installer f) s = ((), s \<lparr>rObject := f (rObject s)\<rparr>)"
  by (simp add: modify_installer_def runs)

lemma run_await: "run_state (awaitRuntimeReady (still_node st raw doc)) s =
    (Inr (), noted [Clock 0, Clock 0, CriStatus False (Inr still_status)] s)"
proof -
  obtain m where m: "await_fuel = Suc m" by (simp add: await_fuel_def)
  have "time_before 0 (time_add 0 healthWait)" by code_simp
  then show ?thesis unfolding awaitRuntimeReady_def m
    by (simp add: i_now_def i_status_def run_call run_returnE ready_answer_def still_ready)
qed

definition still_restart :: "icall list" where
  "still_restart = [HostRun ''systemctl'' [''restart'', ''containerd''] (Inr (still_run ''systemctl'')),
     Clock 0, Clock 0, CriStatus False (Inr still_status)]"

lemma run_restart: "run_state (restartAndAwaitHealthy (still_node st raw doc)) s = (Inr (), noted still_restart s)"
  by (simp add: restartAndAwaitHealthy_def i_run_def run_call run_bindE run_await still_restart_def)

lemma run_verify: "run_state (verifyServing (still_node st raw doc) ''runsc'' (Some still_target)) s =
    (Inr (), noted [CriStatus True (Inr still_status)] s)"
  by (simp add: verifyServing_def i_status_def run_call run_bindE lift_res_def still_serving)

lemma run_write_pending: "run_state (write_pending (still_node st raw doc) p) s =
    (Inr (), noted [WriteJournal (inState (rObject s) \<lparr>stPending := p\<rparr>) (Inr ())]
       (s \<lparr>rObject := rObject s \<lparr>inState := inState (rObject s) \<lparr>stPending := p\<rparr>\<rparr>\<rparr>))"
  by (simp add: write_pending_def get_state_def set_state_def i_write_state_def os_call_def run_call run_get_object
      run_set_object still_write_journal)

lemma still_handler: "cfgHandler witness_config = ''runsc''" by (simp add: witness_config_def)

lemma noted_object [simp]: "(noted cs s) \<lparr>rObject := x\<rparr> = noted cs (s \<lparr>rObject := x\<rparr>)"
  by (simp add: noted_def)

lemma run_event: "run_state (i_event (still_node st raw doc) k r m) s = ((), noted [NodeEvent k r m] s)"
  by (simp add: i_event_def run_call)

definition still_message :: string where
  "still_message = ''Registered containerd runtime handler '' @ quoted ''runsc'' @ '' (gVisor '' @ cfgVersion witness_config @ '')''"

definition still_done :: "icall list" where
  "still_done = [CriStatus True (Inr still_status), NodeEvent ''Normal'' ''GVisorRuntimeConfigured'' still_message]"

lemma run_bring_up: "run_state (bring_up (still_node st raw doc) r d still_target) s =
    (Inr (), noted (still_restart @ still_done) (s \<lparr>rObject := rObject s \<lparr>inActivationGate := gate_clear\<rparr>\<rparr>))"
  by (simp add: bring_up_def run_restart run_verify run_modify run_event still_handler run_returnE still_done_def still_message_def)

definition still_swap :: "icall list" where
  "still_swap = [ReadFile containerdConfigPath (Inr fresh_raw), Backup (Inr ()), WriteConfig still_raw (Inr ()),
     HostRun ''containerd'' [''config'', ''dump''] (Inr (still_run ''containerd''))] @ still_restart @ still_done"

lemma run_apply: "run_state (applyConfigChange (still_node st fresh_raw doc) fresh_raw still_block still_target) s =
    (Inr (), noted still_swap (s \<lparr>rObject := rObject s \<lparr>inActivationGate := gate_clear\<rparr>\<rparr>))"
  by (simp add: applyConfigChange_def install_config_def check_new_config_def i_read_file_def os_call_def run_call still_paths
      still_read still_splice as_res_def i_backup_def still_backup i_write_config_def still_write dump_config_def i_run_def
      run_bring_up still_swap_def)

lemma still_desired': "desiredManagedBlock witness_config fresh_raw \<lparr>targetShim = shimPath still_generation, targetConfig = still_config_path\<rparr> = Inr still_block"
  using still_desired by (simp add: still_target_def)

definition still_armed :: installer_state where
  "still_armed = no_state \<lparr>stPending := Some \<lparr>paTarget = still_record, paPreviousBlock = [], paPreviousHandler = []\<rparr>\<rparr>"

lemma still_activation: "activation_record witness_config still_generation still_target still_block = still_record"
  by (simp add: activation_record_def still_record_def still_generation_def still_target_def witness_config_def)

definition still_activate :: "icall list" where
  "still_activate = Clock 0 # WriteJournal still_armed (Inr ()) # still_swap @ [WriteJournal still_journal (Inr ())]"

lemma run_activate:
  assumes "inState (rObject s) = no_state" "\<not> gate_blocked (inActivationGate (rObject s)) 0 still_block"
  shows "run_state (activate (still_node st fresh_raw doc) fresh_raw still_block still_generation still_target) s =
    (Inr (), noted still_activate (s \<lparr>rObject := rObject s \<lparr>inActivationGate := gate_clear, inState := still_journal\<rparr>\<rparr>))"
proof -
  have a: "predecessor no_state fresh_raw = Inr ([], [])"
    by (simp add: predecessor_def no_state_def still_block_raw)
  have b: "no_state \<lparr>stActive := Some r, stPending := p\<rparr> = \<lparr>stSchema = 1, stActive = Some r, stPending = p\<rparr>" for r p
    by (simp add: no_state_def)
  show ?thesis
    using assms
    by (simp add: b activate_def i_now_def run_call run_get_object run_bindE lift_res_def a still_activation Let_def
        run_write_pending get_state_def set_state_def run_set_object run_apply still_activate_def still_armed_def
        still_journal_def)
qed

lemma run_settle:
  assumes "inState (rObject s) = no_state" "\<not> gate_blocked (inActivationGate (rObject s)) 0 still_block"
  shows "run_state (ensureContainerdConfig (still_node st fresh_raw doc) fresh_raw still_generation still_target) s =
    (Inr True, noted still_activate (s \<lparr>rObject := rObject s \<lparr>inActivationGate := gate_clear, inState := still_journal, inConvergeFor := []\<rparr>\<rparr>))"
  using assms
  by (simp add: ensureContainerdConfig_def settle_config_def run_bindE lift_res_def still_desired still_block_raw as_res_def
     get_state_def run_get_object no_state_def run_activate [unfolded no_state_def] run_returnE run_modify)

lemma no_state_sels: "stPending no_state = None" "stActive no_state = None" "stSchema no_state = 1"
  by (simp_all add: no_state_def)

lemma run_prefix:
  assumes "managedBlock raw = Inr b" "stPending st = None" "valid_state st" "stSchema st = 1"
  shows "run_state (reconcile (still_node st raw doc)) (still_start \<lparr>rObject := new_installer 0 \<rparr>) =
     run_state (classify (still_node st raw doc) raw [] b)
       (noted (ReadJournal st # still_look @ [ReadFile containerdConfigPath (Inr raw), SweepTemps,
          HostRun ''containerd'' [''config'', ''dump''] (Inr [])])
        (still_start \<lparr>rObject := (new_installer 0) \<lparr>inState := st, inPreflightPID := 7\<rparr>\<rparr>))"
proof -
  have "still_run ''containerd'' = []" by (simp add: still_run_def)
  then show ?thesis
    using assms
    by (simp add: reconcile_def i_read_state_def os_call_def run_call still_read_journal set_state_def run_get_object run_set_object
      or_fail_def still_preflight new_installer_def reconcile_settled_def i_read_file_def still_paths still_read i_sweep_def still_sweep
      dump_config_def i_run_def lift_res_def as_res_def noted_def still_look_def)
qed

lemma run_first_managed:
  assumes "inState (rObject s) = no_state" "inVerifyCache (rObject s) = Map.empty" "\<not> gate_blocked (inActivationGate (rObject s)) 0 still_block"
  shows "\<exists>x. run_state (reconcile_managed (still_node no_state fresh_raw Map.empty) fresh_raw []) s =
    ((no_outcome, Inr ()), noted ([EnsureGeneration (Inr still_generation), EnsureConfig still_generation (Inr still_config_path)]
       @ still_activate @ [HostRun ''containerd'' [''config'', ''dump''] (Inr [])]) (s \<lparr>rObject := x\<rparr>))"
proof -
  have "still_run ''containerd'' = []" by (simp add: still_run_def)
  moreover have t: "\<lparr>targetShim = shimPath still_generation, targetConfig = still_config_path\<rparr> = still_target"
    by (simp add: still_target_def)
  ultimately show ?thesis
    using assms
    by (simp add: reconcile_managed_def get_state_def run_get_object maintainActive_def no_state_sels or_fail_def i_ensure_generation_def
      with_cache_def os_call_def run_call still_ensure run_set_object i_ensure_config_def still_config Let_def t run_settle recheck_merged_def
      dump_config_def i_run_def runtime_of_dump_def still_doc still_dump) (rule exI, rule refl)
qed

text \<open>A program only adds to the record of calls.\<close>

lemma publish_appends: "\<exists>cs. rCalls (snd (run_state (publishStatus n out err) s)) = rCalls s @ cs"
proof -
  obtain a t where run: "run_state (publishStatus n out err) s = (a, t)" by (cases "run_state (publishStatus n out err) s")
  have "along n (publishStatus n out err) (\<lambda>a y l. True) (rObject s) unknown" by (rule keeps_publishStatus) simp
  from pass.keeps_run [OF this refl run] show ?thesis using run by auto
qed

lemma Reconcile_appends:
  assumes "run_state (reconcile n) (s \<lparr>rObject := (rObject s) \<lparr>inVerifyCache := Map.empty\<rparr>\<rparr>) = ((out, err), t)"
  shows "\<exists>cs. rCalls (snd (run_state (ReconcileNode n) s)) = rCalls t @ cs"
proof -
  obtain cs where "rCalls (snd (run_state (publishStatus n out err) t)) = rCalls t @ cs"
    using publish_appends by blast
  moreover obtain u where "run_state (publishStatus n out err) t = ((), u)"
    by (cases "run_state (publishStatus n out err) t") simp
  ultimately show ?thesis using assms
    by (simp add: ReconcileNode_def run_modify i_now_def run_call_api split: prod.splits)
qed

lemma start_cache: "still_start \<lparr>rObject := (rObject still_start) \<lparr>inVerifyCache := Map.empty\<rparr>\<rparr> = still_start \<lparr>rObject := new_installer 0\<rparr>"
  by (simp add: still_start_def new_installer_def)

text \<open>The pass that activates, on a node without a journal.\<close>

lemma first_pass:
  "\<exists>pre post. rCalls (snd (run_state (ReconcileNode (still_node no_state fresh_raw Map.empty)) still_start)) =
     pre @ still_activate @ post"
proof -
  let ?n = "still_node no_state fresh_raw Map.empty"
  let ?s = "noted (ReadJournal no_state # still_look @ [ReadFile containerdConfigPath (Inr fresh_raw), SweepTemps,
          HostRun ''containerd'' [''config'', ''dump''] (Inr [])])
        (still_start \<lparr>rObject := (new_installer 0) \<lparr>inState := no_state, inPreflightPID := 7\<rparr>\<rparr>)"
  have start: "inState (rObject ?s) = no_state" "inVerifyCache (rObject ?s) = Map.empty"
      "\<not> gate_blocked (inActivationGate (rObject ?s)) 0 still_block"
    by (simp_all add: new_installer_def gate_blocked_def gate_clear_def time_before_def zero_time_def)
  obtain x where m: "run_state (reconcile_managed ?n fresh_raw []) ?s =
    ((no_outcome, Inr ()), noted ([EnsureGeneration (Inr still_generation), EnsureConfig still_generation (Inr still_config_path)]
       @ still_activate @ [HostRun ''containerd'' [''config'', ''dump''] (Inr [])]) (?s \<lparr>rObject := x\<rparr>))"
    using run_first_managed [OF start] by blast
  have "run_state (reconcile ?n) (still_start \<lparr>rObject := (rObject still_start) \<lparr>inVerifyCache := Map.empty\<rparr>\<rparr>) =
      run_state (classify ?n fresh_raw [] None) ?s"
    unfolding start_cache by (rule run_prefix) (simp_all add: still_block_raw still_valid no_state_sels)
  also have "\<dots> = run_state (reconcile_managed ?n fresh_raw []) ?s"
    by (simp add: classify_def runtime_of_dump_def still_doc still_dump)
  finally have r: "run_state (reconcile ?n) (still_start \<lparr>rObject := (rObject still_start) \<lparr>inVerifyCache := Map.empty\<rparr>\<rparr>) =
      run_state (reconcile_managed ?n fresh_raw []) ?s" .
  obtain cs where cs: "rCalls (snd (run_state (ReconcileNode ?n) still_start)) =
      rCalls (noted ([EnsureGeneration (Inr still_generation), EnsureConfig still_generation (Inr still_config_path)]
       @ still_activate @ [HostRun ''containerd'' [''config'', ''dump''] (Inr [])]) (?s \<lparr>rObject := x\<rparr>)) @ cs"
    using Reconcile_appends [OF r [unfolded m]] by blast
  have assoc: "\<exists>pre post. c @ ([a, b] @ d @ [e]) @ f = pre @ d @ post" for c d f :: "icall list" and a b e
    by (rule exI [of _ "c @ [a, b]"], rule exI [of _ "e # f"]) simp
  have "rCalls (snd (run_state (ReconcileNode ?n) still_start)) = rCalls ?s @
      ([EnsureGeneration (Inr still_generation), EnsureConfig still_generation (Inr still_config_path)]
       @ still_activate @ [HostRun ''containerd'' [''config'', ''dump''] (Inr [])]) @ cs"
    unfolding cs by (simp add: noted_def)
  then show ?thesis by (simp only: assoc)
qed


lemma run_active_managed:
  assumes "inState (rObject s) = still_journal" "inVerifyCache (rObject s) = Map.empty"
  shows "\<exists>x cs. run_state (reconcile_managed (still_node still_journal still_raw Map.empty) still_raw []) s =
    ((no_outcome, Inr ()), noted cs (s \<lparr>rObject := x\<rparr>)) \<and> inVerifyCache x witness_path = Some (Inr ())"
proof -
  have t: "\<lparr>targetShim = shimPath still_generation, targetConfig = still_config_path\<rparr> = still_target"
    by (simp add: still_target_def)
  have g: "genPath still_generation = witness_path" "genVersion still_generation = grVersion still_record" "genSHA512 still_generation = grSHA512 still_record"
      "grHandler still_record = ''runsc''" "grPath still_record = witness_path" "grConfigPath still_record = still_config_path" "grBlock still_record = still_block"
    by (simp_all add: still_generation_def still_record_def)
  have a: "stActive still_journal = Some still_record" by (simp add: still_journal_def)
  show ?thesis
    using assms
    apply (simp add: reconcile_managed_def get_state_def run_get_object maintainActive_def a g still_handler verifiedActiveGeneration_def
      run_bindE i_load_def os_call_def run_call still_load i_verify_cached_def with_cache_def verifyGenerationCached_def still_verify
      run_set_object run_returnE i_config_intact_def still_intact or_fail_def i_ensure_generation_def
      still_ensure_active i_ensure_config_def still_config Let_def t ensureContainerdConfig_def settle_config_def lift_res_def
      still_desired_raw still_block_raw as_res_def run_verify run_modify)
    by (rule exI, rule conjI, rule exI, rule refl, simp add: still_cache_hit)
qed

lemma run_publish:
  assumes "inVerifyCache (rObject s) witness_path = Some (Inr ())"
  shows "\<exists>cs ds. rCalls (snd (run_state (publishStatus (still_node still_journal still_raw Map.empty) no_outcome (Inr ())) s)) =
     rCalls s @ cs @ SetLabels ''true'' ''20260721.0'' (Inr ()) # ds"
proof -
  have g: "genPath still_generation = witness_path" "genVersion still_generation = grVersion still_record" "genSHA512 still_generation = grSHA512 still_record"
      "grHandler still_record = ''runsc''" "grPath still_record = witness_path" "grConfigPath still_record = still_config_path" "grBlock still_record = still_block"
      "target_of still_record = still_target" "grVersion still_record = ''20260721.0''"
    by (simp_all add: still_generation_def still_record_def target_of_def still_target_def shimPath_def)
  have a: "stActive still_journal = Some still_record" "stPending still_journal = None" "stSchema still_journal = 1"
    by (simp_all add: still_journal_def)
  have o: "outConflict no_outcome = False" "outForeignOK no_outcome = False" by (simp_all add: no_outcome_def)
  have l: "SetNodeLabels (still_node st raw doc) ls w = (Inr (), w)" for st raw doc ls w
    by (simp add: SetNodeLabels_def)
  let ?look = "[ReadJournal still_journal, ReadFile containerdConfigPath (Inr still_raw), LoadGeneration witness_path (Inr still_generation),
        VerifyGeneration still_generation (Inr ()), ConfigIntact still_config_path True, CriStatus True (Inr still_status)]"
  have r: "run_state (ready_label (still_node still_journal still_raw Map.empty) no_outcome) s = ((''true'', ''20260721.0''),
      noted ?look (s \<lparr>rObject := rObject s \<lparr>inVerifyCache := inVerifyCache (rObject s)\<rparr>\<rparr>))"
    using assms
    by (simp add: ready_label_def node_identity_def o verifiedActiveState_def i_read_state_def os_call_def run_call still_read_journal
      still_valid a g still_handler i_read_file_def still_paths still_read still_block_raw verifiedActiveGeneration_def run_bindE
      i_load_def still_load i_verify_cached_def with_cache_def run_get_object verifyGenerationCached_def run_set_object run_returnE
      i_config_intact_def still_intact run_verify)
  show ?thesis
    by (cases "inLastReadyLabel (rObject s) = ''true''")
      (simp_all add: publishStatus_def r setNodeLabels_def run_call l transition_event_def run_get_object run_event run_modify,
       (rule exI [of _ ?look], simp)+)
qed

text \<open>The pass that finds everything in place.\<close>

lemma second_reconcile:
  "\<exists>t. run_state (reconcile (still_node still_journal still_raw Map.empty))
      (still_start \<lparr>rObject := (rObject still_start) \<lparr>inVerifyCache := Map.empty\<rparr>\<rparr>) = ((no_outcome, Inr ()), t) \<and>
     inVerifyCache (rObject t) witness_path = Some (Inr ())"
proof -
  let ?n = "still_node still_journal still_raw Map.empty"
  let ?s = "noted (ReadJournal still_journal # still_look @ [ReadFile containerdConfigPath (Inr still_raw), SweepTemps,
          HostRun ''containerd'' [''config'', ''dump''] (Inr [])])
        (still_start \<lparr>rObject := (new_installer 0) \<lparr>inState := still_journal, inPreflightPID := 7\<rparr>\<rparr>)"
  have start: "inState (rObject ?s) = still_journal" "inVerifyCache (rObject ?s) = Map.empty"
    by (simp_all add: new_installer_def)
  obtain x cs where m: "run_state (reconcile_managed ?n still_raw []) ?s = ((no_outcome, Inr ()), noted cs (?s \<lparr>rObject := x\<rparr>))"
    and x: "inVerifyCache x witness_path = Some (Inr ())"
    using run_active_managed [OF start] by blast
  have "run_state (reconcile ?n) (still_start \<lparr>rObject := (rObject still_start) \<lparr>inVerifyCache := Map.empty\<rparr>\<rparr>) =
      run_state (classify ?n still_raw [] (Some still_block)) ?s"
    unfolding start_cache by (rule run_prefix) (simp_all add: still_block_raw still_valid, simp_all add: still_journal_def)
  also have "\<dots> = run_state (reconcile_managed ?n still_raw []) ?s"
    by (simp add: classify_def runtime_of_dump_def still_doc still_dump)
  finally show ?thesis unfolding m using x by (intro exI [of _ "noted cs (?s \<lparr>rObject := x\<rparr>)"]) simp
qed

lemma second_pass:
  "\<exists>pre post. rCalls (snd (run_state (ReconcileNode (still_node still_journal still_raw Map.empty)) still_start)) =
     pre @ SetLabels ''true'' ''20260721.0'' (Inr ()) # post"
proof -
  let ?n = "still_node still_journal still_raw Map.empty"
  obtain t where r: "run_state (reconcile ?n) (still_start \<lparr>rObject := (rObject still_start) \<lparr>inVerifyCache := Map.empty\<rparr>\<rparr>) =
      ((no_outcome, Inr ()), t)" and x: "inVerifyCache (rObject t) witness_path = Some (Inr ())"
    using second_reconcile by blast
  from run_publish [OF x] obtain ds es where
    p: "rCalls (snd (run_state (publishStatus ?n no_outcome (Inr ())) t)) = rCalls t @ ds @ SetLabels ''true'' ''20260721.0'' (Inr ()) # es"
    by blast
  obtain u where u: "run_state (publishStatus ?n no_outcome (Inr ())) t = ((), u)"
    by (cases "run_state (publishStatus ?n no_outcome (Inr ())) t") simp
  have "rCalls (snd (run_state (ReconcileNode ?n) still_start)) = rCalls u @ [Clock 0]"
    using r u by (simp add: ReconcileNode_def run_modify i_now_def run_call_api)
  then show ?thesis using p u by (intro exI [of _ "rCalls t @ ds"] exI [of _ "es @ [Clock 0]"]) simp
qed


section \<open>The journal protocol\<close>

text \<open>
  The abstract protocol: what the durable journal can be relied on to say, and which calls move
  it. A write of the journal that failed leaves it unknown until it is read again.
\<close>

datatype journal = Unsure | Idle "generation_record option" | Armed "generation_record option" pending_activation

definition journal_of_state :: "installer_state \<Rightarrow> journal" where
  "journal_of_state st = (case stPending st of None \<Rightarrow> Idle (stActive st) | Some p \<Rightarrow> Armed (stActive st) p)"

definition journal_of :: "known \<Rightarrow> journal" where
  "journal_of k = (case kJournal k of None \<Rightarrow> Unsure | Some st \<Rightarrow> journal_of_state st)"

fun journal_call :: "icall \<Rightarrow> bool" where
  "journal_call (ReadJournal st) = True" | "journal_call (WriteJournal st r) = True" | "journal_call c = False"

definition mutating :: "icall \<Rightarrow> bool" where
  "mutating c \<longleftrightarrow> is_write c \<or> is_restart_call c"

inductive journal_step :: "journal \<Rightarrow> icall \<Rightarrow> journal \<Rightarrow> bool" where
  looking: "\<not> journal_call c \<Longrightarrow> \<not> mutating c \<Longrightarrow> journal_step j c j"
| reading: "journal_step j (ReadJournal st) (journal_of_state st)"
| arming: "stPending st = Some p \<Longrightarrow> stActive st = a \<Longrightarrow> journal_step (Idle a) (WriteJournal st (Inr ())) (Armed a p)"
| mutation: "mutating c \<Longrightarrow> journal_step (Armed a p) c (Armed a p)"
| committing: "stPending st = None \<Longrightarrow> stActive st = Some (paTarget p) \<Longrightarrow> journal_step (Armed a p) (WriteJournal st (Inr ())) (Idle (stActive st))"
| abandoning: "stPending st = None \<Longrightarrow> stActive st = a \<Longrightarrow> journal_step (Armed a p) (WriteJournal st (Inr ())) (Idle a)"
| rewriting: "stPending st = None \<Longrightarrow> stActive st = a \<Longrightarrow> journal_step (Idle a) (WriteJournal st (Inr ())) (Idle a)"
| losing: "j \<noteq> Unsure \<Longrightarrow> journal_step j (WriteJournal st (Inl e)) Unsure"

inductive journal_path :: "journal \<Rightarrow> icall list \<Rightarrow> journal \<Rightarrow> bool" where
  path_nil: "journal_path j [] j"
| path_cons: "journal_step j c j' \<Longrightarrow> journal_path j' cs j'' \<Longrightarrow> journal_path j (c # cs) j''"

inductive_cases mutation_from: "journal_step j c j'"
inductive_cases path_consE: "journal_path j (c # cs) j''"
inductive_simps path_nil_iff: "journal_path j [] j'"

lemma guard_step: "guard n k c \<Longrightarrow> journal_step (journal_of k) c (journal_of (learn n k c))"
proof (cases c)
  case (WriteConfig d r)
  assume "guard n k c"
  then show ?thesis using WriteConfig
    by (auto simp: journal_of_def journal_of_state_def pending_of_def mutating_def intro!: journal_step.mutation split: option.splits)
next
  case (HostRun cmd args r)
  assume "guard n k c"
  then show ?thesis using HostRun
    by (cases "is_restart cmd args")
      (auto simp: journal_of_def journal_of_state_def pending_of_def mutating_def
        intro: journal_step.mutation journal_step.looking split: option.splits)
next
  case (ReadJournal st)
  then show ?thesis by (simp add: journal_of_def journal_step.reading)
next
  case (WriteJournal st r)
  assume g: "guard n k c"
  have known: "kJournal k \<noteq> None" using g WriteJournal by (auto simp: may_settle_def may_arm_def split: option.splits)
  show ?thesis
  proof (cases r)
    case (Inl e)
    have "journal_of k \<noteq> Unsure" using known by (auto simp: journal_of_def journal_of_state_def split: option.splits)
    then show ?thesis using Inl WriteJournal by (simp add: journal_of_def journal_step.losing)
  next
    case (Inr u)
    then show ?thesis using g WriteJournal
      by (auto simp: journal_of_def journal_of_state_def may_settle_def may_arm_def split: option.splits
          intro: journal_step.arming journal_step.committing journal_step.abandoning journal_step.rewriting)
  qed
qed (auto simp: journal_of_def mutating_def intro: journal_step.looking)

lemma permitted_path: "permitted (learn n) (guard n) k cs \<Longrightarrow> journal_path (journal_of k) cs (journal_of (foldl (learn n) k cs))"
  by (induction cs arbitrary: k) (auto intro: journal_path.intros guard_step)

lemma armed_stays:
  "journal_path j cs j' \<Longrightarrow> j = Armed a p \<Longrightarrow> list_all (\<lambda>c. \<not> journal_call c) cs \<Longrightarrow> j' = j"
proof (induction arbitrary: rule: journal_path.induct)
  case (path_cons j c j' cs j'')
  from path_cons(1) have "j' = j" by (rule mutation_from) (use path_cons(4,5) in auto)
  then show ?case using path_cons by simp
qed simp

lemma path_append: "journal_path j (cs @ ds) l \<Longrightarrow> \<exists>k. journal_path j cs k \<and> journal_path k ds l"
proof (induction cs arbitrary: j)
  case (Cons c cs)
  then obtain j' where "journal_step j c j'" "journal_path j' (cs @ ds) l" by (auto elim: path_consE)
  with Cons(1) show ?case by (blast intro: path_cons)
qed (auto intro: path_nil)

lemma mutation_armed: "journal_step j c l \<Longrightarrow> mutating c \<Longrightarrow> \<exists>a p. j = Armed a p \<and> l = Armed a p"
  by (erule journal_step.cases) (auto simp: mutating_def)


section \<open>Properties\<close>

lemma first_pass_split:
  assumes "still_activate = xs @ c # ys"
  shows "\<exists>r t pre post. run_state (ReconcileNode (still_node no_state fresh_raw Map.empty)) still_start = (r, t) \<and>
     rCalls t = pre @ c # post"
proof -
  obtain pre post where "rCalls (snd (run_state (ReconcileNode (still_node no_state fresh_raw Map.empty)) still_start)) =
      pre @ still_activate @ post"
    using first_pass by blast
  then have "rCalls (snd (run_state (ReconcileNode (still_node no_state fresh_raw Map.empty)) still_start)) =
      (pre @ xs) @ c # (ys @ post)"
    using assms by simp
  then show ?thesis by (metis prod.collapse)
qed

lemma start_calls: "rCalls still_start = []"
  by (simp add: still_start_def)

text \<open>
  C18. The configuration of containerd is only written while the journal durably names the pending
  activation, and what is written is the file as last read, or that file with the section of the
  target or of the predecessor in it.
\<close>

theorem config_write_guarded:
  assumes "run_state (ReconcileNode n) s = (r, t)" "rCalls s = []" "rCalls t = pre @ WriteConfig data w # post"
  shows "\<exists>st p raw. kJournal (seen n pre) = Some st \<and> stPending st = Some p \<and> kRaw (seen n pre) = Some raw \<and>
     (data = raw \<or> spliceManagedBlock raw (grBlock (paTarget p)) = Inr data \<or> previousConfig raw (Some p) = Inr data)"
  using guarded_call [OF assms] by (auto simp: pending_of_def allowed_write_def bind_eq_Some_conv)

theorem config_write_guarded_witness:
  "\<exists>pre st. kJournal (seen (still_node no_state fresh_raw Map.empty) pre) = Some st \<and> stPending st \<noteq> None"
proof -
  have "still_activate = [Clock 0, WriteJournal still_armed (Inr ()), ReadFile containerdConfigPath (Inr fresh_raw), Backup (Inr ())]
      @ WriteConfig still_raw (Inr ()) # (drop 3 still_swap @ [WriteJournal still_journal (Inr ())])"
    by (simp add: still_activate_def still_swap_def)
  from first_pass_split [OF this] obtain r t pre post where
    run: "run_state (ReconcileNode (still_node no_state fresh_raw Map.empty)) still_start = (r, t)" "rCalls t = pre @ WriteConfig still_raw (Inr ()) # post"
    by blast
  have "rCalls still_start = []" by (simp add: still_start_def)
  from config_write_guarded [OF run(1) this run(2)] show ?thesis by blast
qed




text \<open>
  C20. The journal protocol is refined: the calls of a pass, from the moment the journal is first
  read, are a path of the abstract machine, whatever the calls answer.
\<close>

theorem pass_refines_journal:
  "journal_path Unsure (rCalls (snd (run_state (ReconcileNode n) (s \<lparr>rCalls := []\<rparr>))))
     (journal_of (seen n (rCalls (snd (run_state (ReconcileNode n) (s \<lparr>rCalls := []\<rparr>))))))"
proof -
  obtain r t where run: "run_state (ReconcileNode n) (s \<lparr>rCalls := []\<rparr>) = (r, t)" by (cases "run_state (ReconcileNode n) (s \<lparr>rCalls := []\<rparr>)")
  have "permitted (learn n) (guard n) unknown (rCalls t)" using Reconcile_permitted [OF run] by simp
  from permitted_path [OF this] show ?thesis unfolding run by (simp add: seen_def journal_of_def unknown_def)
qed

text \<open>
  C21. The journal is only settled on the record that was active before, or on the pending target
  when containerd was just seen serving its handler from the target's own shim and configuration.
\<close>

theorem settled_when_serving:
  assumes "run_state (ReconcileNode n) s = (r, t)" "rCalls s = []" "rCalls t = pre @ WriteJournal st w # post"
    and "stPending st = None"
  shows "\<exists>old. kJournal (seen n pre) = Some old \<and> (stActive st = stActive old \<or>
     (\<exists>p status. stPending old = Some p \<and> stActive st = Some (paTarget p) \<and> kStatus (seen n pre) = Some status \<and>
        serving_error status (grHandler (paTarget p)) (Some (target_of (paTarget p))) = Inr ()))"
  using guarded_call [OF assms(1-3)] assms(4) by (auto simp: may_settle_def serves_def)

theorem settled_when_serving_witness:
  "\<exists>pre old. kJournal (seen (still_node no_state fresh_raw Map.empty) pre) = Some old"
proof -
  have "still_activate = (Clock 0 # WriteJournal still_armed (Inr ()) # still_swap) @ WriteJournal still_journal (Inr ()) # []"
    by (simp add: still_activate_def)
  from first_pass_split [OF this] obtain r t pre post where
    run: "run_state (ReconcileNode (still_node no_state fresh_raw Map.empty)) still_start = (r, t)"
      "rCalls t = pre @ WriteJournal still_journal (Inr ()) # post"
    by blast
  from settled_when_serving [OF run(1) start_calls run(2)] show ?thesis by (auto simp: still_journal_def)
qed

text \<open>
  C22. An activation is only begun from a settled journal, with the rollback predecessor of that
  journal, on a node whose runtime handler is not someone else's, and only when the desired block
  is not in place or containerd was seen not to serve it.
\<close>

theorem activation_begun:
  assumes "run_state (ReconcileNode n) s = (r, t)" "rCalls s = []" "rCalls t = pre @ WriteJournal st w # post"
    and "stPending st = Some p"
  shows "\<exists>old raw dump want. kJournal (seen n pre) = Some old \<and> stPending old = None \<and> stActive st = stActive old \<and>
     kRaw (seen n pre) = Some raw \<and> kDump (seen n pre) = Some dump \<and>
     (managedBlock raw \<noteq> Inr None \<or> runtime_of_dump n dump (cfgHandler (ndConfig n)) = None) \<and>
     predecessor old raw = Inr (paPreviousBlock p, paPreviousHandler p) \<and>
     desiredManagedBlock (ndConfig n) raw want = Inr (grBlock (paTarget p)) \<and>
     (block_in_place old raw (grBlock (paTarget p)) \<longrightarrow>
        stActive old = Some (paTarget p) \<and> \<not> serves (seen n pre) (cfgHandler (ndConfig n)) (Some want))"
  using guarded_call [OF assms(1-3)] assms(4) unfolding guard.simps may_arm_def foreign_def
  by (auto split: if_splits)

theorem activation_begun_witness:
  "\<exists>pre old. kJournal (seen (still_node no_state fresh_raw Map.empty) pre) = Some old \<and> stPending old = None"
proof -
  have "still_activate = [Clock 0] @ WriteJournal still_armed (Inr ()) # (still_swap @ [WriteJournal still_journal (Inr ())])"
    by (simp add: still_activate_def)
  from first_pass_split [OF this] obtain r t pre post where
    run: "run_state (ReconcileNode (still_node no_state fresh_raw Map.empty)) still_start = (r, t)"
      "rCalls t = pre @ WriteJournal still_armed (Inr ()) # post"
    by blast
  have "stPending still_armed = Some \<lparr>paTarget = still_record, paPreviousBlock = [], paPreviousHandler = []\<rparr>"
    by (simp add: still_armed_def)
  from activation_begun [OF run(1) start_calls run(2) this] show ?thesis by blast
qed



lemma count_restarts: "kRestarts (foldl (learn n) k cs) = kRestarts k + length (filter is_restart_call cs)"
  by (induction cs arbitrary: k rule: rev_induct) (auto split: icall.splits elim: is_restart_call.elims)

text \<open>
  One pass restarts containerd at most four times.
\<close>

theorem restarts_bounded:
  "length (filter is_restart_call (rCalls (snd (run_state (ReconcileNode n) (s \<lparr>rCalls := []\<rparr>))))) \<le> 4"
proof -
  obtain r t where run: "run_state (ReconcileNode n) (s \<lparr>rCalls := []\<rparr>) = (r, t)" by (cases "run_state (ReconcileNode n) (s \<lparr>rCalls := []\<rparr>)")
  have "kRestarts (foldl (learn n) unknown (rCalls t)) \<le> 4" using Reconcile_permitted [OF run] by simp
  then show ?thesis unfolding run count_restarts by (simp add: unknown_def)
qed

text \<open>
  The readiness flag after a pass is the truth: the pass returned no error, and the last
  labels it patched onto the node, successfully, were those of a ready node.
\<close>

theorem ready_flag_honest:
  "let (r, t) = run_state (ReconcileNode n) (s \<lparr>rCalls := []\<rparr>) in
     inReady (rObject t) = (\<not> isl r \<and> (\<exists>version. kLabel (seen n (rCalls t)) = Some (''true'', version, True)))"
proof -
  obtain r t where run: "run_state (ReconcileNode n) (s \<lparr>rCalls := []\<rparr>) = (r, t)" by (cases "run_state (ReconcileNode n) (s \<lparr>rCalls := []\<rparr>)")
  have "ready_honest r (rObject t) (seen n (rCalls t))" using Reconcile_permitted [OF run] by (simp add: seen_def)
  then show ?thesis unfolding run by (simp add: ready_honest_def)
qed





section \<open>Waiting for containerd\<close>

lemma await_fuel_enough:
  fixes n :: "'w node"
  assumes now: "\<And>w. fst (ndNow n w) = clock w \<and> clock w \<le> clock (snd (ndNow n w))"
    and status: "\<And>w b. clock w \<le> clock (snd (ndStatus n b w))"
    and waited: "\<And>w d w'. ndWait n d w = (Inr (), w') \<Longrightarrow> clock w + d \<le> clock w'"
    and d: "deadline \<le> clock (rWorld s) + int fuel * healthPoll"
  shows "run_state (await_loop n deadline e (Suc fuel + k)) s = run_state (await_loop n deadline e (Suc fuel)) s"
  using d
proof (induction fuel arbitrary: e s)
  case 0
  then have "\<not> time_before (clock (rWorld s)) deadline" by (simp add: time_before_def)
  moreover obtain w where "ndNow n (rWorld s) = (clock (rWorld s), w)"
    using now [of "rWorld s"] by (cases "ndNow n (rWorld s)") auto
  ultimately show ?case by (simp add: i_now_def run_call_api)
next
  case (Suc f)
  obtain w1 where w1: "ndNow n (rWorld s) = (clock (rWorld s), w1)" "clock (rWorld s) \<le> clock w1"
    using now [of "rWorld s"] by (cases "ndNow n (rWorld s)") auto
  obtain r w2 where w2: "ndStatus n False w1 = (r, w2)" "clock w1 \<le> clock w2"
    using status [of w1 False] by (cases "ndStatus n False w1") auto
  obtain q w3 where w3: "ndWait n healthPoll w2 = (q, w3)" by (cases "ndWait n healthPoll w2") auto
  let ?t = "s \<lparr>rWorld := w3, rCalls := ((rCalls s @ [Clock (clock (rWorld s))]) @ [CriStatus False r]) @ [Wait q]\<rparr>"
  have "run_state (await_loop n deadline e' (Suc f + k)) ?t = run_state (await_loop n deadline e' (Suc f)) ?t" if "q = Inr ()" for e'
  proof (rule Suc(1))
    have "clock w2 + healthPoll \<le> clock w3" using waited w3 that by simp
    then show "deadline \<le> clock (rWorld ?t) + int f * healthPoll"
      using Suc(2) w1(2) w2(2) by (simp add: algebra_simps)
  qed
  then show ?case
    by (cases q) (simp_all add: i_now_def i_status_def i_wait_def run_call_api run_bindE w1 w2 w3 run_returnE Let_def)
qed

text \<open>
  C25. Waiting for containerd ends: on a clock that advances by the time waited, the polling loop of
  a restart returns within its fuel, and more fuel would change nothing.
\<close>

theorem await_terminates:
  assumes "\<And>w. fst (ndNow n w) = clock w \<and> clock w \<le> clock (snd (ndNow n w))"
    and "\<And>w b. clock w \<le> clock (snd (ndStatus n b w))"
    and "\<And>w d w'. ndWait n d w = (Inr (), w') \<Longrightarrow> clock w + d \<le> clock w'"
  shows "run_state (seq (i_now n) (\<lambda>now. await_loop n (time_add now healthWait) None (await_fuel + k))) s =
    run_state (awaitRuntimeReady n) s"
proof -
  have f: "await_fuel = Suc 46" by (simp add: await_fuel_def healthWait_def healthPoll_def nano_second_def)
  obtain w where w: "ndNow n (rWorld s) = (clock (rWorld s), w)" "clock (rWorld s) \<le> clock w"
    using assms(1) [of "rWorld s"] by (cases "ndNow n (rWorld s)") auto
  let ?t = "s \<lparr>rWorld := w, rCalls := rCalls s @ [Clock (clock (rWorld s))]\<rparr>"
  have "time_add (clock (rWorld s)) healthWait \<le> clock (rWorld ?t) + int 46 * healthPoll"
    using w(2) by (simp add: time_add_def healthWait_def healthPoll_def nano_second_def)
  from await_fuel_enough [OF assms this, of None k]
  show ?thesis unfolding awaitRuntimeReady_def f by (simp add: i_now_def run_call_api w)
qed

definition ticking_node :: "disk node" where
  "ticking_node = \<lparr>ndTools = witness_tools, ndConfig = witness_config, ndRun = (\<lambda>cmd args w. (Inr [], w)),
     ndStatus = (\<lambda>b w. (Inl (OsError ''connection refused''), w)), ndPatch = (\<lambda>ls w. (Inr (), w)), ndEvent = (\<lambda>k r m w. w),
     ndNow = (\<lambda>w. (int (dkTick w), w)), ndWait = (\<lambda>d w. (Inr (), w \<lparr>dkTick := dkTick w + nat d\<rparr>)), ndCancelled = (\<lambda>w. (False, w))\<rparr>"

theorem await_terminates_witness:
  "run_state (seq (i_now ticking_node) (\<lambda>now. await_loop ticking_node (time_add now healthWait) None (await_fuel + 5)))
     \<lparr>rWorld = witness_disk, rCalls = [], rObject = new_installer 0\<rparr> =
   run_state (awaitRuntimeReady ticking_node) \<lparr>rWorld = witness_disk, rCalls = [], rObject = new_installer 0\<rparr>"
  by (rule await_terminates [where clock = "\<lambda>w. int (dkTick w)"]) (auto simp: ticking_node_def)

end
