(* ===== verification/Paths.thy ===== *)
theory Paths
  imports HostOs
begin

text \<open>
  Lemmas on \<open>filepath.Clean\<close>, \<open>Join\<close> and \<open>Dir\<close> for absolute paths: what cleaning leaves, that joining
  a clean path to a directory stays below it, and that \<open>Dir\<close> shortens.
\<close>


section \<open>Clean absolute paths\<close>

definition ordinary :: "string \<Rightarrow> bool" where
  "ordinary c \<longleftrightarrow> c \<noteq> [] \<and> c \<noteq> ''.'' \<and> c \<noteq> ''..'' \<and> CHR ''/'' \<notin> set c"

definition abs_path :: "string list \<Rightarrow> string" where
  "abs_path cs = ''/'' @ str_join ''/'' cs"

lemma clean_step_shape:
  assumes "st = os @ replicate n ''..''" "list_all ordinary os" "CHR ''/'' \<notin> set p"
  shows "\<exists>os' n'. clean_step st p = os' @ replicate n' ''..'' \<and> list_all ordinary os'"
proof -
  consider "p = [] \<or> p = ''.''" | "p = ''..''" "os = []" | o' os' where "p = ''..''" "os = o' # os'"
    | "p \<noteq> []" "p \<noteq> ''.''" "p \<noteq> ''..''" by (cases os) auto
  then show ?thesis
  proof cases
    case 1
    then show ?thesis using assms by (auto simp: clean_step_def)
  next
    case 2
    then have "clean_step st p = [] @ replicate (Suc n) ''..''"
      using assms(1) by (cases n) (simp_all add: clean_step_def)
    then show ?thesis by (intro exI [of _ "[]"] exI [of _ "Suc n"]) simp
  next
    case (3 o' os')
    then have "clean_step st p = os' @ replicate n ''..''"
      using assms(1,2) by (simp add: clean_step_def ordinary_def)
    then show ?thesis using 3 assms(2) by auto
  next
    case 4
    then have "clean_step st p = (p # os) @ replicate n ''..''" using assms(1) by (simp add: clean_step_def)
    then show ?thesis using 4 assms(2,3) by (intro exI [of _ "p # os"] exI [of _ n]) (simp add: ordinary_def)
  qed
qed

lemma clean_fold_shape:
  "list_all (\<lambda>p. CHR ''/'' \<notin> set p) ps \<Longrightarrow> list_all ordinary os \<Longrightarrow>
     \<exists>os' n'. foldl clean_step (os @ replicate n ''..'') ps = os' @ replicate n' ''..'' \<and> list_all ordinary os'"
proof (induction ps arbitrary: os n)
  case Nil
  then show ?case by auto
next
  case (Cons p ps)
  obtain os' n' where "clean_step (os @ replicate n ''..'') p = os' @ replicate n' ''..''" "list_all ordinary os'"
    using clean_step_shape [OF refl Cons.prems(2), of p n] Cons.prems(1) by fastforce
  then show ?case using Cons.IH [of os' n'] Cons.prems(1) by simp
qed

lemma clean_fold_ordinary: "list_all ordinary cs \<Longrightarrow> foldl clean_step st cs = rev cs @ st"
  by (induction cs arbitrary: st) (simp_all add: clean_step_def ordinary_def)

lemma path_clean_abs: "path_is_abs p \<Longrightarrow> \<exists>cs. list_all ordinary cs \<and> path_clean p = abs_path cs"
proof -
  assume p: "path_is_abs p"
  have "list_all (\<lambda>q. CHR ''/'' \<notin> set q) (split_char CHR ''/'' p)"
    using split_char_pieces by (auto simp: list_all_iff)
  from clean_fold_shape [OF this, of "[]" 0] obtain os n where
    o: "clean_parts (split_char CHR ''/'' p) = os @ replicate n ''..''" "list_all ordinary os"
    by (auto simp: clean_parts_def)
  let ?dots = "\<lambda>x. x = ''..''"
  have "dropWhile ?dots (replicate n ''..'' @ rev os) = dropWhile ?dots (rev os)"
    by (rule dropWhile_append2) simp
  also have "\<dots> = rev os"
    using o(2) by (simp add: dropWhile_eq_self_iff) (metis hd_in_set list_all_iff ordinary_def rev_is_Nil_conv set_rev)
  finally have d: "dropWhile ?dots (replicate n ''..'' @ rev os) = rev os" .
  have "path_clean p = abs_path (dropWhile ?dots (replicate n ''..'' @ rev os))"
    using o(1) p by (simp only: path_clean_def path_is_abs_def abs_path_def Let_def rev_append rev_replicate if_True simp_thms)
  then show ?thesis unfolding d using o(2) by (intro exI [of _ "rev os"]) (simp add: list_all_iff)
qed

lemma split_abs_path:
  assumes "list_all ordinary cs"
  shows "split_char CHR ''/'' (abs_path cs) = [] # (if cs = [] then [[]] else cs)"
proof -
  have "split_char CHR ''/'' (str_join ''/'' cs) = (if cs = [] then [[]] else cs)"
    using assms split_char_str_join [of cs "CHR ''/''"] by (auto simp: list_all_iff ordinary_def)
  then show ?thesis by (simp add: abs_path_def)
qed

lemma split_abs_append:
  "split_char CHR ''/'' (abs_path cs @ ''/'' @ v) = split_char CHR ''/'' (abs_path cs) @ split_char CHR ''/'' v"
  using split_char_append [of "CHR ''/''" "abs_path cs" v] by simp

lemma no_leading_dots: "list_all ordinary cs \<Longrightarrow> dropWhile (\<lambda>x. x = ''..'') cs = cs"
  by (cases cs) (simp_all add: ordinary_def)

lemma path_clean_id:
  assumes "list_all ordinary cs"
  shows "path_clean (abs_path cs) = abs_path cs"
proof -
  have "foldl clean_step [] (split_char CHR ''/'' (abs_path cs)) = rev cs"
    unfolding split_abs_path [OF assms] using assms by (auto simp: clean_fold_ordinary clean_step_def)
  moreover have "abs_path cs \<noteq> [] \<and> hd (abs_path cs) = CHR ''/''" by (simp add: abs_path_def)
  ultimately have "path_clean (abs_path cs) = ''/'' @ str_join ''/'' cs" using no_leading_dots [OF assms]
    by (simp only: path_clean_def clean_parts_def Let_def rev_rev_ident if_True simp_thms)
  then show ?thesis by (simp only: abs_path_def)
qed

text \<open>Joining a clean path to a clean directory concatenates their components.\<close>

lemma path_join_abs:
  assumes "list_all ordinary cs" "list_all ordinary ds"
  shows "path_join [abs_path cs, abs_path ds] = abs_path (cs @ ds)"
proof -
  let ?p = "abs_path cs @ ''/'' @ abs_path ds"
  have "path_join [abs_path cs, abs_path ds] = path_clean ?p" by (simp add: path_join_def abs_path_def)
  moreover have "foldl clean_step [] (split_char CHR ''/'' ?p) = rev (cs @ ds)"
    unfolding split_abs_append split_abs_path [OF assms(1)] split_abs_path [OF assms(2)]
    using assms by (auto simp: clean_fold_ordinary clean_step_def)
  moreover have "dropWhile (\<lambda>x. x = ''..'') (cs @ ds) = cs @ ds" using assms by (intro no_leading_dots) simp
  moreover have "?p \<noteq> [] \<and> hd ?p = CHR ''/''" by (simp add: abs_path_def)
  ultimately show ?thesis
    by (simp only: path_clean_def clean_parts_def abs_path_def [of "cs @ ds"] Let_def rev_rev_ident if_True simp_thms)
qed

definition inside :: "string \<Rightarrow> string \<Rightarrow> bool" where
  "inside dir p \<longleftrightarrow> (p = dir \<or> prefix (dir @ ''/'') p) \<and> ''..'' \<notin> set (split_char CHR ''/'' p)"

lemma str_join_append: "cs \<noteq> [] \<Longrightarrow> ds \<noteq> [] \<Longrightarrow> str_join s (cs @ ds) = str_join s cs @ s @ str_join s ds"
  by (induction s cs rule: str_join.induct) (auto simp: neq_Nil_conv)

lemma path_join_names:
  assumes "cs \<noteq> []" "list_all ordinary (cs @ ds)"
  shows "path_join (abs_path cs # ds) = abs_path (cs @ ds)"
proof -
  have f: "filter (\<lambda>e. e \<noteq> []) (abs_path cs # ds) = abs_path cs # ds"
    using assms(2) by (simp add: abs_path_def list_all_iff ordinary_def filter_id_conv)
  have "str_join ''/'' (abs_path cs # ds) = abs_path (cs @ ds)"
  proof (cases ds)
    case (Cons d ds')
    then show ?thesis using assms(1) str_join_append [of cs ds "''/''"] by (simp add: abs_path_def)
  qed simp
  then show ?thesis using path_clean_id [OF assms(2)] f by (simp only: path_join_def Let_def) simp
qed

lemma inside_abs_path:
  assumes "list_all ordinary (cs @ ds)" "cs \<noteq> []"
  shows "inside (abs_path cs) (abs_path (cs @ ds))"
proof -
  have "''..'' \<notin> set (split_char CHR ''/'' (abs_path (cs @ ds)))"
    using assms by (auto simp: split_abs_path list_all_iff ordinary_def)
  then show ?thesis
    using assms(2) by (cases "ds = []") (simp_all add: inside_def abs_path_def str_join_append)
qed


section \<open>Dir shortens\<close>

definition weight :: "string list \<Rightarrow> nat" where
  "weight ps = sum_list (map (\<lambda>p. length p + 1) ps)"

lemma weight_split: "weight (split_char d s) = length s + 1"
proof (induction s)
  case (Cons c s)
  then show ?case by (cases "split_char d s") (auto simp: weight_def)
qed (simp add: weight_def)

lemma weight_clean_step: "weight (clean_step st p) \<le> weight st + (if p = [] then 0 else length p + 1)"
  by (auto simp: clean_step_def weight_def split: list.splits)

lemma weight_clean: "weight (foldl clean_step st ps) \<le> weight st + weight (filter (\<lambda>p. p \<noteq> []) ps)"
proof (induction ps arbitrary: st)
  case (Cons p ps)
  have "weight (foldl clean_step st (p # ps)) \<le> weight (clean_step st p) + weight (filter (\<lambda>p. p \<noteq> []) ps)"
    using Cons by simp
  also have "\<dots> \<le> weight st + weight (filter (\<lambda>p. p \<noteq> []) (p # ps))"
    using weight_clean_step [of st p] by (auto simp: weight_def)
  finally show ?case .
qed (simp add: weight_def)

lemma length_str_join: "ps \<noteq> [] \<Longrightarrow> length (str_join ''/'' ps) + 1 = weight ps"
  by (induction "''/''" ps rule: str_join.induct) (auto simp: weight_def)

lemma weight_dropWhile: "weight (dropWhile P ps) \<le> weight ps"
  by (induction ps) (auto simp: weight_def)

lemma weight_rev: "weight (rev ps) = weight ps"
  by (simp add: weight_def rev_map [symmetric] sum_list_rev)

lemma weight_filter: "weight (filter (\<lambda>p. p \<noteq> []) ps) + length (filter (\<lambda>p. p = []) ps) = weight ps"
  by (induction ps) (auto simp: weight_def)

lemma join_short: "length (str_join ''/'' ps) \<le> weight ps - 1"
  using length_str_join [of ps] by (cases "ps = []") auto

text \<open>A path that ends in a slash.\<close>

lemma path_clean_short:
  assumes "q = r @ ''/''" "q \<noteq> ''/''"
  shows "length (path_clean q) < length q"
proof -
  let ?ps = "split_char CHR ''/'' q"
  let ?b = "length (filter (\<lambda>p. p = []) ?ps)"
  have ps: "?ps = split_char CHR ''/'' r @ [[]]" using split_char_append [of "CHR ''/''" r "[]"] assms(1) by simp
  have w: "weight (clean_parts ?ps) + ?b \<le> length q + 1"
    using weight_clean [of "[]" ?ps] weight_filter [of ?ps] weight_split [of "CHR ''/''" q]
    by (simp add: clean_parts_def weight_def)
  have r: "r \<noteq> []" using assms by auto
  show ?thesis
  proof (cases "hd q = CHR ''/''")
    case True
    then have "hd r = CHR ''/''" using assms(1) r by simp
    then have "split_char CHR ''/'' r = [] # split_char CHR ''/'' (tl r)" using r by (cases r) auto
    then have b: "2 \<le> ?b" unfolding ps by simp
    let ?d = "dropWhile (\<lambda>x. x = ''..'') (rev (clean_parts ?ps))"
    have "length (path_clean q) = 1 + length (str_join ''/'' ?d)" using True assms by (simp add: path_clean_def)
    also have "\<dots> \<le> 1 + (weight ?d - 1)" using join_short by simp
    also have "\<dots> \<le> 1 + (length q + 1 - 2 - 1)"
      using w b weight_dropWhile [of "\<lambda>x. x = ''..''" "rev (clean_parts ?ps)"] by (simp add: weight_rev)
    finally show ?thesis using r assms(1) by (cases r) auto
  next
    case False
    have b: "1 \<le> ?b" unfolding ps by simp
    have q: "2 \<le> length q" using r assms(1) by (cases r) auto
    have "length (str_join ''/'' (rev (clean_parts ?ps))) \<le> length q + 1 - 1 - 1"
      using w b join_short [of "rev (clean_parts ?ps)"] by (simp add: weight_rev)
    then show ?thesis using False q assms by (auto simp: path_clean_def Let_def)
  qed
qed

lemma path_dir_shorter: "path_dir p = p \<or> path_dir p = ''.'' \<or> length (path_dir p) < length p"
proof -
  let ?q = "drop_last_while (\<lambda>c. c \<noteq> CHR ''/'') p"
  have pq: "prefix ?q p" unfolding drop_last_while_def
    by (metis prefix_def rev_append rev_rev_ident takeWhile_dropWhile_id)
  consider "?q = []" | "?q = ''/''" | r where "?q = r @ ''/''" "?q \<noteq> ''/''"
  proof -
    have "?q = [] \<or> last ?q = CHR ''/''"
      unfolding drop_last_while_def using hd_dropWhile [of "\<lambda>c. c \<noteq> CHR ''/''" "rev p"]
      by (cases "dropWhile (\<lambda>c. c \<noteq> CHR ''/'') (rev p)") auto
    then show ?thesis using that by (metis append_butlast_last_id)
  qed
  then show ?thesis
  proof cases
    case 1
    then show ?thesis by (simp add: path_dir_def path_clean_def clean_parts_def clean_step_def)
  next
    case 2
    then have "path_dir p = ''/''" by (simp add: path_dir_def path_clean_def clean_parts_def clean_step_def)
    moreover have "p = ''/'' \<or> 1 < length p" using 2 pq by (cases p rule: rev_cases) (auto simp: prefix_def)
    ultimately show ?thesis by auto
  next
    case 3
    then show ?thesis using path_clean_short [OF 3] prefix_length_le [OF pq] by (simp add: path_dir_def)
  qed
qed

end
