(* ===== verification/Sse.thy ===== *)
theory Sse
  imports Prelude
begin

text \<open>
  The writer of Server-Sent Events, \<open>src/internal/sseutil/writer.go\<close>: raw bytes go in, in pieces;
  events whose ids are byte positions come out, through a buffer of the bytes whose meaning is
  still open. The specification is the client: what the events decode to, whatever the pieces, and
  what a client that resumes at an id reads.
\<close>


section \<open>UTF-8\<close>

text \<open>
  The package \<open>unicode/utf8\<close>: for a first byte that starts a multi-byte sequence, its size and
  the range of the second byte; bytes that start nothing have none.
\<close>

definition byte_of :: "char \<Rightarrow> nat" where
  "byte_of c = of_char c"

definition first_byte :: "nat \<Rightarrow> (nat \<times> nat \<times> nat) option" where
  "first_byte b =
     (if 0xC2 \<le> b \<and> b \<le> 0xDF then Some (2, 0x80, 0xBF)
      else if b = 0xE0 then Some (3, 0xA0, 0xBF)
      else if b = 0xED then Some (3, 0x80, 0x9F)
      else if 0xE1 \<le> b \<and> b \<le> 0xEF then Some (3, 0x80, 0xBF)
      else if b = 0xF0 then Some (4, 0x90, 0xBF)
      else if 0xF1 \<le> b \<and> b \<le> 0xF3 then Some (4, 0x80, 0xBF)
      else if b = 0xF4 then Some (4, 0x80, 0x8F)
      else None)"

definition RuneStart :: "char \<Rightarrow> bool" where
  "RuneStart c \<longleftrightarrow> \<not> (0x80 \<le> byte_of c \<and> byte_of c < 0xC0)"

definition in_range :: "nat \<Rightarrow> nat \<Rightarrow> char \<Rightarrow> bool" where
  "in_range lo hi c \<longleftrightarrow> lo \<le> byte_of c \<and> byte_of c \<le> hi"

definition trailing :: "nat \<Rightarrow> nat \<Rightarrow> string \<Rightarrow> bool" where
  "trailing lo hi cs \<longleftrightarrow> (case cs of [] \<Rightarrow> True | d # ds \<Rightarrow> in_range lo hi d \<and> list_all (in_range 0x80 0xBF) ds)"

text \<open>\<open>DecodeRune\<close>: the size of the valid encoding at the start, or none.\<close>

fun rune_len :: "string \<Rightarrow> nat option" where
  "rune_len [] = None"
| "rune_len (c # cs) =
     (if byte_of c < 0x80 then Some 1
      else
        (case first_byte (byte_of c) of
           None \<Rightarrow> None
         | Some (n, lo, hi) \<Rightarrow>
             if length cs < n - 1 then None
             else if trailing lo hi (take (n - 1) cs) then Some n
             else None))"

text \<open>\<open>FullRune\<close>: the start is a whole encoding, or wrong already.\<close>

fun FullRune :: "string \<Rightarrow> bool" where
  "FullRune [] = False"
| "FullRune (c # cs) =
     (if byte_of c < 0x80 then True
      else
        (case first_byte (byte_of c) of
           None \<Rightarrow> True
         | Some (n, lo, hi) \<Rightarrow> n - 1 \<le> length cs \<or> \<not> trailing lo hi cs))"

function utf8_valid :: "string \<Rightarrow> bool" where
  "utf8_valid s =
     (if s = [] then True
      else case rune_len s of None \<Rightarrow> False | Some n \<Rightarrow> utf8_valid (drop n s))"
  by pat_completeness auto

lemma first_byte_size: "first_byte b = Some (n, lo, hi) \<Longrightarrow> 2 \<le> n \<and> n \<le> 4 \<and> 0x80 \<le> lo \<and> hi \<le> 0xBF \<and> 0xC2 \<le> b"
  by (auto simp: first_byte_def split: if_splits)

lemma rune_len_bounds: "rune_len s = Some n \<Longrightarrow> 1 \<le> n \<and> n \<le> 4 \<and> n \<le> length s"
  by (cases s) (auto split: if_splits option.splits dest: first_byte_size)

termination utf8_valid
  by (relation "measure length") (auto dest: rune_len_bounds)

declare utf8_valid.simps [simp del]

definition replacement :: string where
  "replacement = [CHR 0xEF, CHR 0xBF, CHR 0xBD]"

function sanitize_loop :: "string \<Rightarrow> string" where
  "sanitize_loop s =
     (if s = [] then []
      else case rune_len s of
             None \<Rightarrow> replacement @ sanitize_loop (drop 1 s)
           | Some n \<Rightarrow> take n s @ sanitize_loop (drop n s))"
  by pat_completeness auto

termination sanitize_loop
  by (relation "measure length") (auto dest: rune_len_bounds)

declare sanitize_loop.simps [simp del]

definition sanitizeUTF8 :: "string \<Rightarrow> string" where
  "sanitizeUTF8 data = (if utf8_valid data then data else sanitize_loop data)"

text \<open>The loop from the last byte down, over at most three bytes.\<close>

definition incompleteUTF8Tail :: "string \<Rightarrow> nat" where
  "incompleteUTF8Tail data =
     (let tails = filter (\<lambda>k. k \<le> length data \<and> RuneStart (data ! (length data - k))) [1, 2, 3] in
      case tails of
        [] \<Rightarrow> 0
      | k # _ \<Rightarrow> if FullRune (drop (length data - k) data) then 0 else k)"

definition safePrefixLen :: "string \<Rightarrow> nat" where
  "safePrefixLen data =
     (let n = length data - incompleteUTF8Tail data in
      if 0 < n \<and> data ! (n - 1) = CHR 0x0D then n - 1 else n)"


section \<open>Lines and events\<close>

fun nextChunk :: "string \<Rightarrow> string \<times> string \<times> bool" where
  "nextChunk [] = ([], [], False)"
| "nextChunk (c # s) =
     (if c = CHR 0x0A then ([], s, True)
      else if c = CHR 0x0D then
        (case s of d # s' \<Rightarrow> if d = CHR 0x0A then ([], s', True) else ([], s, True)
         | [] \<Rightarrow> ([], s, True))
      else (case nextChunk s of (line, rest, found) \<Rightarrow> (c # line, rest, found)))"

lemma nextChunk_shorter: "nextChunk s = (line, rest, True) \<Longrightarrow> length rest < length s"
  by (induction s arbitrary: line rest rule: nextChunk.induct)
     (fastforce split: if_splits list.splits prod.splits)+

definition writeDataLine :: "string \<Rightarrow> string" where
  "writeDataLine line = ''data: '' @ line @ newline"

definition writeID :: "int \<Rightarrow> string" where
  "writeID off = ''id: '' @ itoa off @ newline @ newline"

function writeDataLines :: "string \<Rightarrow> string" where
  "writeDataLines s =
     (case nextChunk s of (line, rest, found) \<Rightarrow>
        if \<not> found then writeDataLine line else writeDataLine line @ writeDataLines rest)"
  by pat_completeness auto

termination writeDataLines
  by (relation "measure length") (metis in_measure nextChunk_shorter wf_measure)+

declare writeDataLines.simps [simp del]

definition keepalive :: string where
  "keepalive = '': keepalive'' @ newline @ newline"


section \<open>The writer\<close>

text \<open>
  The underlying \<open>io.Writer\<close> is a parameter: it takes the bytes and says whether it failed. A call
  returns its error, if any.
\<close>

record sse_writer =
  sseOffset :: int
  ssePending :: string

type_synonym ('e, 'w) io_writer = "string \<Rightarrow> 'w \<Rightarrow> 'e option \<times> 'w"

definition NewWriterAtOffset :: "int \<Rightarrow> sse_writer" where
  "NewWriterAtOffset off = \<lparr>sseOffset = off, ssePending = []\<rparr>"

definition WriteData :: "('e, 'w) io_writer \<Rightarrow> string \<Rightarrow> sse_writer \<times> 'w \<Rightarrow> 'e option \<times> sse_writer \<times> 'w" where
  "WriteData io data st =
     (case st of (w, out) \<Rightarrow>
        if data = [] then (None, w, out)
        else
          (let off = int64 (sseOffset w + int (length data));
               combined = ssePending w @ data;
               safe = safePrefixLen combined;
               pending = drop safe combined;
               w' = \<lparr>sseOffset = off, ssePending = pending\<rparr> in
           if safe = 0 then (None, w', out)
           else
             (let sanitized = sanitizeUTF8 (take safe combined);
                  event = writeDataLines sanitized @ writeID (int64 (off - int (length pending))) in
              case io event out of (err, out') \<Rightarrow> (err, w', out'))))"

definition Finish :: "('e, 'w) io_writer \<Rightarrow> sse_writer \<times> 'w \<Rightarrow> 'e option \<times> sse_writer \<times> 'w" where
  "Finish io st =
     (case st of (w, out) \<Rightarrow>
        if ssePending w = [] then (None, w, out)
        else
          (let tail = incompleteUTF8Tail (ssePending w);
               head = sanitizeUTF8 (take (length (ssePending w) - tail) (ssePending w));
               sanitized = (if 0 < tail then head @ replacement else head);
               event = writeDataLines sanitized @ writeID (sseOffset w) in
           case io event out of (err, out') \<Rightarrow> (err, w \<lparr>ssePending := []\<rparr>, out')))"

definition WriteKeepalive :: "('e, 'w) io_writer \<Rightarrow> sse_writer \<times> 'w \<Rightarrow> 'e option \<times> sse_writer \<times> 'w" where
  "WriteKeepalive io st = (case st of (w, out) \<Rightarrow> case io keepalive out of (err, out') \<Rightarrow> (err, w, out'))"


section \<open>Lemmas on UTF-8\<close>

lemma utf8_valid_Nil [simp]: "utf8_valid []" "sanitize_loop [] = []"
  by (simp_all add: utf8_valid.simps sanitize_loop.simps)

lemma sanitize_loop_valid: "utf8_valid s \<Longrightarrow> sanitize_loop s = s"
proof (induction s rule: utf8_valid.induct)
  case (1 s)
  show ?case
  proof (cases "s = []")
    case False
    with 1 obtain n where "rune_len s = Some n" "utf8_valid (drop n s)"
      by (subst (asm) (2) utf8_valid.simps) (auto split: option.splits)
    with 1 False show ?thesis by (subst sanitize_loop.simps) simp
  qed simp
qed

lemma sanitizeUTF8_eq: "sanitizeUTF8 s = sanitize_loop s"
  by (simp add: sanitizeUTF8_def sanitize_loop_valid)

lemma sanitize_none: "s \<noteq> [] \<Longrightarrow> rune_len s = None \<Longrightarrow> sanitize_loop s = replacement @ sanitize_loop (drop 1 s)"
  by (subst sanitize_loop.simps) simp

lemma sanitize_some: "rune_len s = Some n \<Longrightarrow> sanitize_loop s = take n s @ sanitize_loop (drop n s)"
  by (subst sanitize_loop.simps) auto

text \<open>The encoding at the start only looks at its own bytes.\<close>

lemma rune_len_append: "rune_len s = Some n \<Longrightarrow> rune_len (s @ x) = Some n"
  by (cases s) (auto split: if_splits option.splits)

lemma rune_len_take: "rune_len (s @ x) = Some n \<Longrightarrow> n \<le> length s \<Longrightarrow> rune_len s = Some n"
  using rune_len_bounds [of "s @ x" n] by (cases s) (auto split: if_splits option.splits)

lemma rune_len_inner:
  assumes "rune_len s = Some n" "0 < i" "i < n"
  shows "\<not> RuneStart (s ! i)"
proof -
  obtain c cs where s: "s = c # cs" using assms by (cases s) auto
  with assms obtain lo hi where fb: "first_byte (byte_of c) = Some (n, lo, hi)" "n - 1 \<le> length cs"
      "trailing lo hi (take (n - 1) cs)"
    by (auto split: if_splits option.splits)
  let ?t = "take (n - 1) cs"
  have i: "i - 1 < length ?t" "s ! i = ?t ! (i - 1)" using assms s fb(2) by (auto simp: nth_Cons')
  have "in_range 0x80 0xBF (?t ! (i - 1))"
  proof (cases ?t)
    case Nil
    show ?thesis using i(1) unfolding Nil by simp
  next
    case (Cons d ds)
    then have "in_range lo hi d" "list_all (in_range 0x80 0xBF) ds" using fb(3) by (simp_all add: trailing_def)
    moreover from this have "in_range 0x80 0xBF d" using first_byte_size [OF fb(1)] by (auto simp: in_range_def)
    ultimately show ?thesis using Cons i(1) by (cases "i - 1") (auto simp: list_all_length)
  qed
  then show ?thesis using i(2) by (simp add: in_range_def RuneStart_def)
qed

lemma trailing_append: "trailing lo hi (cs @ ds) \<Longrightarrow> trailing lo hi cs"
  by (cases cs) (simp_all add: trailing_def)

lemma FullRune_not_split:
  assumes "FullRune s" "rune_len (s @ x) = Some n"
  shows "n \<le> length s"
proof -
  obtain c cs where s: "s = c # cs" using assms by (cases s) auto
  show ?thesis
  proof (cases "byte_of c < 0x80")
    case True
    then show ?thesis using assms s by simp
  next
    case False
    then obtain lo hi where fb: "first_byte (byte_of c) = Some (n, lo, hi)"
        "trailing lo hi (take (n - 1) (cs @ x))"
      using assms s by (auto split: if_splits option.splits)
    have "trailing lo hi cs" if "length cs < n - 1"
      using fb(2) that trailing_append [of lo hi cs] by simp
    then show ?thesis using assms(1) s False fb(1) by (cases "length cs < n - 1") auto
  qed
qed

text \<open>No encoding lies across the border of \<open>u\<close> and \<open>v\<close>.\<close>

definition cuts :: "string \<Rightarrow> string \<Rightarrow> bool" where
  "cuts u v \<longleftrightarrow> (\<forall>k n. k < length u \<longrightarrow> rune_len (drop k u @ v) = Some n \<longrightarrow> n \<le> length u - k)"

lemma cuts_drop: "cuts u v \<Longrightarrow> cuts (drop j u) v"
  unfolding cuts_def
proof (intro allI impI)
  fix k n
  assume c: "\<forall>k n. k < length u \<longrightarrow> rune_len (drop k u @ v) = Some n \<longrightarrow> n \<le> length u - k"
    and k: "k < length (drop j u)" and r: "rune_len (drop k (drop j u) @ v) = Some n"
  then show "n \<le> length (drop j u) - k" using c [rule_format, of "k + j" n] by (auto simp: add.commute)
qed

lemma sanitize_append: "cuts u v \<Longrightarrow> sanitize_loop (u @ v) = sanitize_loop u @ sanitize_loop v"
proof (induction u rule: length_induct)
  case (1 u)
  show ?case
  proof (cases "u = []")
    case False
    show ?thesis
    proof (cases "rune_len (u @ v)")
      case None
      then have "rune_len u = None" using rune_len_append [of u _ v] by (cases "rune_len u") auto
      then show ?thesis
        using None False 1 cuts_drop [of u v 1] sanitize_none [of u] sanitize_none [of "u @ v"]
        by (cases u) simp_all
    next
      case (Some n)
      then have n: "1 \<le> n" "n \<le> length u"
        using rune_len_bounds [OF Some] 1(2) False unfolding cuts_def by (auto dest: spec [of _ 0])
      then have "rune_len u = Some n" using rune_len_take [OF Some] by simp
      then show ?thesis
        using Some n False 1 cuts_drop [of u v n] sanitize_some [of u n] sanitize_some [of "u @ v" n] by simp
    qed
  qed simp
qed

lemma cuts_RuneStart:
  assumes "v \<noteq> []" "RuneStart (hd v)"
  shows "cuts u v"
  unfolding cuts_def
proof (intro allI impI, rule ccontr)
  fix k n assume k: "k < length u" "rune_len (drop k u @ v) = Some n" "\<not> n \<le> length u - k"
  then have "\<not> RuneStart ((drop k u @ v) ! (length u - k))"
    by (intro rune_len_inner [OF k(2)]) auto
  then show False using assms k(1) by (simp add: nth_append hd_conv_nth)
qed


lemma rune_len_starts: "rune_len s = Some n \<Longrightarrow> RuneStart (hd s)"
  by (cases s) (auto simp: RuneStart_def split: if_splits option.splits dest: first_byte_size)

lemma tail_cases:
  obtains (whole) "incompleteUTF8Tail d = 0"
      "\<And>k. 1 \<le> k \<Longrightarrow> k \<le> 3 \<Longrightarrow> k \<le> length d \<Longrightarrow> RuneStart (d ! (length d - k)) \<Longrightarrow>
         (\<And>j. 1 \<le> j \<Longrightarrow> j < k \<Longrightarrow> \<not> RuneStart (d ! (length d - j))) \<Longrightarrow> FullRune (drop (length d - k) d)"
    | (part) t where "incompleteUTF8Tail d = t" "1 \<le> t" "t \<le> 3" "t \<le> length d"
      "RuneStart (d ! (length d - t))" "\<not> FullRune (drop (length d - t) d)"
proof -
  let ?P = "\<lambda>k. k \<le> length d \<and> RuneStart (d ! (length d - k))"
  show thesis
  proof (cases "?P 1")
    case True
    then show thesis
      by (cases "FullRune (drop (length d - 1) d)")
         (rule whole part [of 1]; auto simp: incompleteUTF8Tail_def Let_def le_Suc_eq numeral_3_eq_3)+
  next
    case 1: False
    show thesis
    proof (cases "?P 2")
      case True
      then show thesis using 1
        by (cases "FullRune (drop (length d - 2) d)")
           (rule whole part [of 2]; auto simp: incompleteUTF8Tail_def Let_def le_Suc_eq numeral_3_eq_3 numeral_2_eq_2)+
    next
      case 2: False
      show thesis
      proof (cases "?P 3")
        case True
        then show thesis using 1 2
          by (cases "FullRune (drop (length d - 3) d)")
             (rule whole part [of 3]; auto simp: incompleteUTF8Tail_def Let_def le_Suc_eq numeral_3_eq_3 numeral_2_eq_2)+
      next
        case False
        then show thesis using 1 2
          by (intro whole) (auto simp: incompleteUTF8Tail_def Let_def le_Suc_eq numeral_3_eq_3 numeral_2_eq_2)
      qed
    qed
  qed
qed

lemma cuts_whole:
  assumes "incompleteUTF8Tail d = 0"
  shows "cuts d v"
  unfolding cuts_def
proof (intro allI impI, rule ccontr)
  fix k n assume k: "k < length d" "rune_len (drop k d @ v) = Some n" "\<not> n \<le> length d - k"
  let ?r = "length d - k"
  have r: "1 \<le> ?r" "?r \<le> 3" "length d - ?r = k" using k rune_len_bounds [OF k(2)] by auto
  have start: "RuneStart (d ! k)"
    using rune_len_starts [OF k(2)] k(1) by (simp add: hd_append hd_drop_conv_nth)
  have inner: "\<not> RuneStart (d ! (length d - j))" if "1 \<le> j" "j < ?r" for j
  proof -
    have "\<not> RuneStart ((drop k d @ v) ! (?r - j))"
      using rune_len_inner [OF k(2), of "?r - j"] that k by auto
    moreover have "(drop k d @ v) ! (?r - j) = d ! (length d - j)"
      using that k(1) by (auto simp: nth_append)
    ultimately show ?thesis by simp
  qed
  have "FullRune (drop k d)"
  proof (cases d rule: tail_cases)
    case whole
    show ?thesis using whole(2) [of ?r] r start inner by simp
  next
    case (part t)
    then show ?thesis using assms by simp
  qed
  then show False using FullRune_not_split [OF _ k(2)] k(1,3) by simp
qed

text \<open>The safe prefix of the data, and what is withheld.\<close>

lemma safe_prefix:
  fixes d :: string
  defines "u \<equiv> take (safePrefixLen d) d" and "v \<equiv> drop (safePrefixLen d) d"
  shows "safePrefixLen d \<le> length d" "length v \<le> 4" "cuts u (v @ x)"
    "u \<noteq> [] \<Longrightarrow> last u \<noteq> CHR 0x0D \<or> (v \<noteq> [] \<and> hd v = CHR 0x0D)"
proof -
  let ?t = "incompleteUTF8Tail d"
  let ?n = "length d - ?t"
  have t: "?t \<le> 3" by (cases d rule: tail_cases) auto
  then show "safePrefixLen d \<le> length d" "length v \<le> 4"
    by (auto simp: safePrefixLen_def Let_def v_def)
  have hd_v: "v \<noteq> [] \<and> hd v = CHR 0x0D" if "0 < ?n" "d ! (?n - 1) = CHR 0x0D"
    using that by (auto simp: v_def safePrefixLen_def Let_def hd_drop_conv_nth)
  show "cuts u (v @ x)"
  proof (cases "0 < ?n \<and> d ! (?n - 1) = CHR 0x0D")
    case True
    then show ?thesis using hd_v by (intro cuts_RuneStart) (auto simp: RuneStart_def byte_of_def)
  next
    case False
    then have n: "safePrefixLen d = ?n" by (auto simp: safePrefixLen_def Let_def)
    show ?thesis
    proof (cases d rule: tail_cases)
      case whole
      then show ?thesis using cuts_whole [OF whole(1)] n by (simp add: u_def v_def)
    next
      case (part t)
      then show ?thesis using n
        by (intro cuts_RuneStart) (auto simp: v_def hd_append hd_drop_conv_nth)
    qed
  qed
  show "last u \<noteq> CHR 0x0D \<or> (v \<noteq> [] \<and> hd v = CHR 0x0D)" if "u \<noteq> []"
  proof (cases "0 < ?n \<and> d ! (?n - 1) = CHR 0x0D")
    case True
    then show ?thesis using hd_v by simp
  next
    case False
    then have "u = take ?n d" by (auto simp: u_def safePrefixLen_def Let_def)
    then have "length u = ?n" "last u = d ! (?n - 1)" using that by (auto simp: last_conv_nth)
    then show ?thesis using False that by auto
  qed
qed


section \<open>What a client reads\<close>

text \<open>Line ends as Server-Sent Events has them: each of the three becomes one newline.\<close>

fun norm_lines :: "string \<Rightarrow> string" where
  "norm_lines [] = []"
| "norm_lines (c # s) =
     (if c = CHR 0x0D then
        (if s \<noteq> [] \<and> hd s = CHR 0x0A then CHR 0x0A # norm_lines (tl s) else CHR 0x0A # norm_lines s)
      else c # norm_lines s)"

definition joins :: "string \<Rightarrow> string \<Rightarrow> bool" where
  "joins u v \<longleftrightarrow> u = [] \<or> v = [] \<or> last u \<noteq> CHR 0x0D \<or> hd v \<noteq> CHR 0x0A"

lemma joins_tl: "joins (c # s) v \<Longrightarrow> joins s v" "joins s v \<Longrightarrow> joins (tl s) v"
  by (cases s; auto simp: joins_def)+

lemma norm_lines_append: "joins u v \<Longrightarrow> norm_lines (u @ v) = norm_lines u @ norm_lines v"
proof (induction u rule: norm_lines.induct)
  case (2 c s)
  then have s: "joins s v" "joins (tl s) v" using joins_tl by blast+
  consider "c \<noteq> CHR 0x0D" | "c = CHR 0x0D" "s = []" | "c = CHR 0x0D" "s \<noteq> []" "hd s = CHR 0x0A"
    | "c = CHR 0x0D" "s \<noteq> []" "hd s \<noteq> CHR 0x0A" by blast
  then show ?case
  proof cases
    case 1
    then show ?thesis using 2(3) s by simp
  next
    case 2
    then show ?thesis using \<open>joins (c # s) v\<close> by (cases v) (simp_all add: joins_def)
  next
    case 3
    then show ?thesis using 2(1) s by (simp add: hd_append tl_append2)
  next
    case 4
    then show ?thesis using 2(2) s by (simp add: hd_append)
  qed
qed simp

text \<open>
  The client of the specification: the stream's lines, without an unfinished last one; a blank
  line dispatches the collected data, joined by newlines, with the last id; comments and other
  fields are skipped; one space after the colon is dropped.
\<close>

definition field :: "string \<Rightarrow> string \<times> string" where
  "field l = (case str_cut l '':'' of (name, val, found) \<Rightarrow>
     (name, if val \<noteq> [] \<and> hd val = CHR '' '' then tl val else val))"

fun client_lines :: "string list \<Rightarrow> string list \<Rightarrow> string \<Rightarrow> (string \<times> string) list" where
  "client_lines acc [] eid = []"
| "client_lines acc (l # ls) eid =
     (if l = [] then
        (if acc = [] then client_lines [] ls eid else (str_join newline acc, eid) # client_lines [] ls eid)
      else if hd l = CHR '':'' then client_lines acc ls eid
      else (case field l of (name, val) \<Rightarrow>
        if name = ''data'' then client_lines (acc @ [val]) ls eid
        else if name = ''id'' then client_lines acc ls val
        else client_lines acc ls eid))"

definition sse_client :: "string \<Rightarrow> (string \<times> string) list" where
  "sse_client out = client_lines [] (butlast (split_char CHR 0x0A (norm_lines out))) []"

text \<open>The text of a byte stream: what remains undecoded at its end counts once.\<close>

function stream_text :: "string \<Rightarrow> string" where
  "stream_text s =
     (if s = [] then []
      else case rune_len s of
             Some n \<Rightarrow> take n s @ stream_text (drop n s)
           | None \<Rightarrow> if FullRune s then replacement @ stream_text (drop 1 s) else replacement)"
  by pat_completeness auto

termination stream_text
  by (relation "measure length") (auto dest: rune_len_bounds)

declare stream_text.simps [simp del]

lemma stream_text_Nil [simp]: "stream_text [] = []"
  by (simp add: stream_text.simps)


section \<open>Cutting a stream\<close>

lemma trailing_extend:
  "cs \<noteq> [] \<Longrightarrow> trailing lo hi cs \<Longrightarrow> trailing lo hi (cs @ replicate m (char_of (0x80 :: nat)))"
  by (cases cs) (auto simp: trailing_def list_all_iff in_range_def byte_of_def)

lemma completable:
  assumes "s \<noteq> []" "\<not> FullRune s"
  shows "\<exists>x n. rune_len (s @ x) = Some n \<and> length s < n"
proof -
  obtain c cs where s: "s = c # cs" using assms by (cases s) auto
  with assms obtain n lo hi where fb: "\<not> byte_of c < 0x80" "first_byte (byte_of c) = Some (n, lo, hi)"
      "length cs < n - 1" "trailing lo hi cs"
    by (auto split: if_splits option.splits)
  note size = first_byte_size [OF fb(2)]
  define x where "x = (if cs = [] then char_of lo # replicate (n - 2) (char_of (0x80 :: nat))
    else replicate (n - 1 - length cs) (char_of (0x80 :: nat)))"
  have lo: "lo \<le> hi" using fb(2) by (auto simp: first_byte_def split: if_splits)
  have len: "length (cs @ x) = n - 1" using fb(3) size by (auto simp: x_def)
  have "trailing lo hi (cs @ x)"
    using fb(4) trailing_extend [of cs lo hi] size lo
    by (auto simp: x_def trailing_def list_all_iff in_range_def byte_of_def)
  then have "rune_len (s @ x) = Some n" using s fb len by simp
  moreover have "length s < n" using fb(3) s by simp
  ultimately show ?thesis by blast
qed

lemma FullRune_whole: "rune_len s = Some n \<Longrightarrow> FullRune s"
  by (cases s) (auto split: if_splits option.splits)

lemma stream_text_append:
  "(\<And>x. cuts u (v @ x)) \<Longrightarrow> stream_text (u @ v) = sanitize_loop u @ stream_text v"
proof (induction u rule: length_induct)
  case (1 u)
  show ?case
  proof (cases "u = []")
    case False
    have drops: "cuts (drop j u) (v @ x)" for j x using 1(2) by (rule cuts_drop)
    have full: "FullRune (u @ v)"
    proof (rule ccontr)
      assume "\<not> FullRune (u @ v)"
      then obtain x n where "rune_len (u @ v @ x) = Some n" "length (u @ v) < n"
        using completable [of "u @ v"] False by auto
      then show False using 1(2) [of x] False unfolding cuts_def by (auto dest: spec [of _ 0])
    qed
    have uv: "cuts u v" using 1(2) [of "[]"] by simp
    show ?thesis
    proof (cases "rune_len (u @ v)")
      case None
      then have "rune_len u = None" using rune_len_append [of u _ v] by (cases "rune_len u") auto
      moreover have "stream_text (u @ v) = replacement @ stream_text (drop 1 u @ v)"
        using None full False by (subst stream_text.simps) (cases u, simp_all)
      ultimately show ?thesis using False 1(1) drops sanitize_none [of u] by simp
    next
      case (Some n)
      then have n: "1 \<le> n" "n \<le> length u"
        using rune_len_bounds [OF Some] uv False unfolding cuts_def by (auto dest: spec [of _ 0])
      moreover have "rune_len u = Some n" using rune_len_take [OF Some n(2)] .
      moreover have "stream_text (u @ v) = take n u @ stream_text (drop n u @ v)"
        using Some False n by (subst stream_text.simps) simp
      ultimately show ?thesis using 1(1) drops False sanitize_some [of u n] by simp
    qed
  qed simp
qed

lemma stream_text_finish:
  "stream_text p = sanitize_loop (take (length p - incompleteUTF8Tail p) p) @
     (if 0 < incompleteUTF8Tail p then replacement else [])"
proof (cases p rule: tail_cases)
  case whole
  then show ?thesis using stream_text_append [of p "[]"] cuts_whole by simp
next
  case (part t)
  let ?A = "take (length p - t) p" and ?B = "drop (length p - t) p"
  have B: "?B \<noteq> []" "RuneStart (hd ?B)" using part by (auto simp: hd_drop_conv_nth)
  then have "cuts ?A (?B @ x)" for x by (intro cuts_RuneStart) (auto simp: hd_append)
  then have "stream_text (?A @ ?B) = sanitize_loop ?A @ stream_text ?B" by (rule stream_text_append)
  moreover have "stream_text ?B = replacement"
    using B(1) part(6) FullRune_whole [of ?B] by (subst stream_text.simps) (auto split: option.splits)
  ultimately show ?thesis using part by simp
qed

lemma ascii_take_first: "rune_len v = Some n \<Longrightarrow> take n v \<noteq> [] \<and> hd (take n v) = hd v"
  using rune_len_bounds [of v n] by (cases v; cases n) auto

lemma stream_text_hd:
  "v \<noteq> [] \<Longrightarrow> stream_text v \<noteq> [] \<and> (hd (stream_text v) = CHR 0x0A \<longrightarrow> hd v = CHR 0x0A)"
  using ascii_take_first [of v] by (subst (1 2) stream_text.simps) (auto simp: replacement_def hd_append split: option.splits)

lemma sanitize_hd:
  "v \<noteq> [] \<Longrightarrow> sanitize_loop v \<noteq> [] \<and> (hd (sanitize_loop v) = CHR 0x0A \<longrightarrow> hd v = CHR 0x0A)"
  using ascii_take_first [of v] by (subst (1 2) sanitize_loop.simps) (auto simp: replacement_def hd_append split: option.splits)

lemma sanitize_last: "u \<noteq> [] \<Longrightarrow> last (sanitize_loop u) = CHR 0x0D \<Longrightarrow> last u = CHR 0x0D"
proof (induction u rule: sanitize_loop.induct)
  case (1 s)
  show ?case
  proof (cases "rune_len s")
    case None
    show ?thesis
    proof (cases "drop 1 s = []")
      case True
      then show ?thesis using 1(4) None sanitize_none [OF 1(3) None] by (simp add: replacement_def)
    next
      case False
      then have "last (sanitize_loop s) = last (sanitize_loop (drop 1 s))"
        using sanitize_none [OF 1(3) None] sanitize_hd [of "drop 1 s"] by simp
      then show ?thesis using 1 None False by (metis last_drop drop_eq_Nil linorder_not_le)
    qed
  next
    case (Some n)
    note n = rune_len_bounds [OF Some]
    show ?thesis
    proof (cases "drop n s = []")
      case True
      then show ?thesis using 1(4) sanitize_some [OF Some] by simp
    next
      case False
      then have "last (sanitize_loop s) = last (sanitize_loop (drop n s))"
        using sanitize_some [OF Some] sanitize_hd [of "drop n s"] by simp
      then show ?thesis using 1 Some False by (metis last_drop drop_eq_Nil linorder_not_le)
    qed
  qed
qed

lemma joins_sanitize: "joins u v \<Longrightarrow> joins (sanitize_loop u) (sanitize_loop v)"
  and joins_stream: "joins u v \<Longrightarrow> joins (sanitize_loop u) (stream_text v)"
  using sanitize_last [of u] sanitize_hd [of v] stream_text_hd [of v]
  unfolding joins_def by (cases "u = []"; cases "v = []"; auto)+


section \<open>Events\<close>

lemma nextChunk_norm:
  "nextChunk s = (line, rest, found) \<Longrightarrow>
     norm_lines s = (if found then line @ CHR 0x0A # norm_lines rest else line) \<and> CHR 0x0A \<notin> set line"
proof (induction s arbitrary: line rest found)
  case (Cons c s)
  show ?case
  proof (cases "c = CHR 0x0A \<or> c = CHR 0x0D")
    case True
    then show ?thesis using Cons(2) by (cases s) (auto split: if_splits)
  next
    case False
    obtain l r f where n: "nextChunk s = (l, r, f)" by (cases "nextChunk s")
    then show ?thesis using Cons(1) [OF n] Cons(2) False by auto
  qed
qed simp

definition text_lines :: "string \<Rightarrow> string list" where
  "text_lines s = split_char CHR 0x0A (norm_lines s)"

lemma writeDataLines_eq: "writeDataLines s = concat (map writeDataLine (text_lines s))"
proof (induction s rule: writeDataLines.induct)
  case (1 s)
  obtain line rest found where n: "nextChunk s = (line, rest, found)" by (cases "nextChunk s")
  note norm = nextChunk_norm [OF n]
  show ?case
    using norm 1 [OF n [symmetric] refl] n
    by (subst writeDataLines.simps) (auto simp: text_lines_def split_char_single split_char_append_sep)
qed

lemma norm_lines_no_cr: "CHR 0x0D \<notin> set (norm_lines s)"
  by (induction s rule: norm_lines.induct) auto

lemma norm_lines_id: "CHR 0x0D \<notin> set s \<Longrightarrow> norm_lines s = s"
  by (induction s) auto

lemma text_lines_pieces: "l \<in> set (text_lines s) \<Longrightarrow> CHR 0x0A \<notin> set l \<and> CHR 0x0D \<notin> set l"
proof -
  have sub: "set l \<subseteq> set t" if "l \<in> set (split_char d t)" for l t and d :: char
    using that by (induction t arbitrary: l) (fastforce split: if_splits list.splits)+
  assume "l \<in> set (text_lines s)"
  then show ?thesis
    using split_char_pieces [of l] sub [of l _ "norm_lines s"] norm_lines_no_cr [of s]
    unfolding text_lines_def by blast
qed

lemma itoa_chars: "c \<in> set (itoa k) \<Longrightarrow> is_digit c \<or> c = CHR ''-''"
  by (auto simp: itoa_def dest: nat_digits_digits split: if_splits)

lemma itoa_no_newline: "CHR 0x0A \<notin> set (itoa k)" "CHR 0x0D \<notin> set (itoa k)" "itoa k \<noteq> [] \<and> hd (itoa k) \<noteq> CHR '' ''"
proof -
  show "CHR 0x0A \<notin> set (itoa k)" "CHR 0x0D \<notin> set (itoa k)"
    using itoa_chars [of "CHR 0x0A" k] itoa_chars [of "CHR 0x0D" k] by (auto simp: is_digit_def)
  have ne: "itoa k \<noteq> []" by (simp add: itoa_def)
  then have "hd (itoa k) \<in> set (itoa k)" by simp
  then show "itoa k \<noteq> [] \<and> hd (itoa k) \<noteq> CHR '' ''"
    using itoa_chars [of "hd (itoa k)" k] ne by (auto simp: is_digit_def)
qed

text \<open>What the writer emits: events and keepalives.\<close>

datatype sse_item = Ev string int | Keep

fun item_lines :: "sse_item \<Rightarrow> string list" where
  "item_lines (Ev t k) = map (\<lambda>l. ''data: '' @ l) (text_lines t) @ [''id: '' @ itoa k, []]"
| "item_lines Keep = ['': keepalive'', []]"

fun item_event :: "sse_item \<Rightarrow> (string \<times> string) list" where
  "item_event (Ev t k) = [(norm_lines t, itoa k)]"
| "item_event Keep = []"

definition render :: "sse_item list \<Rightarrow> string" where
  "render items = concat (map (\<lambda>l. l @ newline) (concat (map item_lines items)))"

lemma render_append: "render (a @ b) = render a @ render b"
  by (simp add: render_def)

lemma render_Keep: "render [Keep] = keepalive"
  by (simp add: render_def keepalive_def newline_def)

lemma render_Ev: "render [Ev t k] = writeDataLines t @ writeID k"
  by (simp add: render_def writeDataLines_eq writeID_def writeDataLine_def [abs_def] comp_def newline_def)

lemma item_lines_clean: "l \<in> set (item_lines i) \<Longrightarrow> CHR 0x0A \<notin> set l \<and> CHR 0x0D \<notin> set l"
  by (cases i) (auto simp: itoa_no_newline dest: text_lines_pieces)

lemma split_lines:
  "\<forall>l \<in> set ls. CHR 0x0A \<notin> set l \<Longrightarrow>
     split_char CHR 0x0A (concat (map (\<lambda>l. l @ newline) ls)) = ls @ [[]]"
  by (induction ls) (simp_all add: newline_def split_char_append_sep)

lemma render_lines: "butlast (split_char CHR 0x0A (norm_lines (render items))) = concat (map item_lines items)"
proof -
  let ?ls = "concat (map item_lines items)"
  have clean: "\<forall>l \<in> set ?ls. CHR 0x0A \<notin> set l \<and> CHR 0x0D \<notin> set l" using item_lines_clean by auto
  then have "CHR 0x0D \<notin> set (render items)" by (auto simp: render_def newline_def)
  then have "norm_lines (render items) = render items" by (rule norm_lines_id)
  then show ?thesis using split_lines [of ?ls] clean by (simp add: render_def butlast_append)
qed

lemma client_data:
  "client_lines acc (map (\<lambda>l. ''data: '' @ l) ls @ rest) eid = client_lines (acc @ ls) rest eid"
proof (induction ls arbitrary: acc)
  case (Cons l ls)
  have "field (''data: '' @ l) = (''data'', l)"
    by (simp add: field_def str_cut_def)
  then show ?case using Cons by simp
qed simp

lemma client_items:
  "client_lines [] (concat (map item_lines items)) eid = concat (map item_event items)"
proof (induction items arbitrary: eid)
  case (Cons i items)
  show ?case
  proof (cases i)
    case (Ev t k)
    have id: "field (''id: '' @ itoa k) = (''id'', itoa k)"
      using itoa_no_newline(3) [of k] by (simp add: field_def str_cut_def)
    have "text_lines t \<noteq> []" "str_join newline (text_lines t) = norm_lines t"
      by (simp_all add: text_lines_def newline_def str_join_split_char)
    then show ?thesis using Cons Ev id by (simp add: client_data)
  next
    case Keep
    then show ?thesis using Cons by simp
  qed
qed simp

lemma sse_client_render: "sse_client (render items) = concat (map item_event items)"
  by (simp add: sse_client_def render_lines client_items)


section \<open>Streams\<close>

datatype sse_op = SseData string | SseKeepalive

definition to_buffer :: "(string, string) io_writer" where
  "to_buffer s out = (None, out @ s)"

definition sse_step :: "sse_writer \<times> string \<Rightarrow> sse_op \<Rightarrow> sse_writer \<times> string" where
  "sse_step st op = (case op of SseData d \<Rightarrow> snd (WriteData to_buffer d st)
     | SseKeepalive \<Rightarrow> snd (WriteKeepalive to_buffer st))"

definition sse_run :: "int \<Rightarrow> sse_op list \<Rightarrow> sse_writer \<times> string" where
  "sse_run off ops = foldl sse_step (NewWriterAtOffset off, []) ops"

fun op_bytes :: "sse_op \<Rightarrow> string" where
  "op_bytes (SseData d) = d"
| "op_bytes SseKeepalive = []"

definition input_of :: "sse_op list \<Rightarrow> string" where
  "input_of ops = concat (map op_bytes ops)"

definition text_of :: "(string \<times> string) list \<Rightarrow> string" where
  "text_of evs = concat (map fst evs)"

text \<open>
  What holds of the writer after the input \<open>D\<close>: the bytes \<open>E\<close> have been emitted, as \<open>items\<close>, and
  the bytes \<open>P\<close> are withheld.
\<close>

definition sse_inv :: "int \<Rightarrow> string \<Rightarrow> string \<Rightarrow> string \<Rightarrow> sse_item list \<Rightarrow> sse_writer \<times> string \<Rightarrow> bool" where
  "sse_inv off D E P items st \<longleftrightarrow>
     st = (\<lparr>sseOffset = off + int (length D), ssePending = P\<rparr>, render items) \<and> D = E @ P \<and> length P \<le> 4 \<and>
     (\<forall>x. cuts E (P @ x)) \<and> (\<forall>x. joins E (P @ x)) \<and>
     text_of (concat (map item_event items)) = norm_lines (sanitize_loop E) \<and>
     (\<forall>ev evs. concat (map item_event items) = evs @ [ev] \<longrightarrow> snd ev = itoa (off + int (length E))) \<and>
     (concat (map item_event items) = [] \<longrightarrow> E = [])"

lemma cuts_weaken: "cuts u (v @ x) \<Longrightarrow> cuts u v"
  unfolding cuts_def using rune_len_append by fastforce

lemma cuts_append:
  assumes "cuts u (v @ w)" "cuts v w"
  shows "cuts (u @ v) w"
  unfolding cuts_def
proof (intro allI impI)
  fix k n assume k: "k < length (u @ v)" "rune_len (drop k (u @ v) @ w) = Some n"
  show "n \<le> length (u @ v) - k"
  proof (cases "k < length u")
    case True
    then show ?thesis using assms(1) k unfolding cuts_def by fastforce
  next
    case False
    then have "k - length u < length v" "rune_len (drop (k - length u) v @ w) = Some n" using k by simp_all
    then have "n \<le> length v - (k - length u)" using assms(2) unfolding cuts_def by blast
    then show ?thesis using False k(1) by simp
  qed
qed

lemma joins_append: "joins u (v @ w) \<Longrightarrow> joins v w \<Longrightarrow> joins (u @ v) w"
  by (cases v) (auto simp: joins_def)

lemma joins_weaken: "joins u (v @ x) \<Longrightarrow> joins u v"
  by (cases v) (auto simp: joins_def)

text \<open>Emitting the next bytes \<open>u\<close> of a stream of which \<open>E\<close> has been emitted.\<close>

lemma emit_text:
  assumes "cuts E (u @ x)" "joins E (u @ x)"
  shows "norm_lines (sanitize_loop (E @ u)) = norm_lines (sanitize_loop E) @ norm_lines (sanitize_loop u)"
  using sanitize_append [OF cuts_weaken [OF assms(1)]]
    norm_lines_append [OF joins_sanitize [OF joins_weaken [OF assms(2)]]] by simp

lemma sse_inv_start: "sse_inv off [] [] [] [] (NewWriterAtOffset off, [])"
  by (simp add: sse_inv_def NewWriterAtOffset_def render_def text_of_def cuts_def joins_def)

lemma sse_inv_keep:
  "sse_inv off D E P items st \<Longrightarrow>
     sse_inv off D E P (items @ [Keep]) (sse_step st SseKeepalive)"
  by (simp add: sse_inv_def sse_step_def WriteKeepalive_def to_buffer_def render_append render_Keep)

lemma sse_inv_data:
  assumes inv: "sse_inv off D E P items st"
    and size: "0 \<le> off" "off + int (length (D @ d)) \<le> max_duration"
  shows "\<exists>E' P' items'. sse_inv off (D @ d) E' P' items' (sse_step st (SseData d))"
proof (cases "d = []")
  case True
  then show ?thesis using inv by (cases st) (auto simp: sse_step_def WriteData_def)
next
  case False
  define n where "n = safePrefixLen (P @ d)"
  define u where "u = take n (P @ d)"
  define v where "v = drop n (P @ d)"
  note st = inv [unfolded sse_inv_def]
  have uv: "take n (P @ d) = u" "drop n (P @ d) = v" by (simp_all add: u_def v_def)
  have C: "P @ d = u @ v" by (simp add: u_def v_def del: take_append drop_append)
  then have D: "D @ d = E @ u @ v" using st by simp
  have len: "length D + length d = length E + length u + length v"
    using arg_cong [OF D, of length] by simp
  have lenP: "int (length P) + int (length d) = int (length u) + int (length v)"
    using arg_cong [OF C, of length] by simp
  note safe = safe_prefix [of "P @ d", folded n_def, folded u_def v_def]
  have off: "int64 (off + int (length D) + int (length d)) = off + int (length D) + int (length d)"
      "int64 (off + int (length D) + int (length d) - int (length v)) = off + int (length E) + int (length u)"
    using size len by (auto intro!: trans [OF int64_eq] simp: min_duration_def max_duration_def)
  have EC: "cuts E (u @ v @ x)" "joins E (u @ v @ x)" for x
    using st C by (metis append.assoc)+
  have cut: "\<forall>x. cuts (E @ u) (v @ x)" using EC safe(3) by (auto intro: cuts_append)
  have "joins u (v @ x)" for x
    using safe(4) by (cases "u = []") (auto simp: joins_def hd_append)
  then have join: "\<forall>x. joins (E @ u) (v @ x)" using EC by (auto intro: joins_append)
  show ?thesis
  proof (cases "n = 0")
    case True
    then have "u = []" by (simp add: u_def)
    then have "sse_inv off (D @ d) E v items (sse_step st (SseData d))"
      using st off False cut join safe(2) D True n_def C
      by (auto simp: sse_inv_def sse_step_def WriteData_def Let_def add.assoc)
    then show ?thesis by blast
  next
    case n: False
    let ?k = "off + int (length E) + int (length u)"
    have emit: "norm_lines (sanitize_loop (E @ u)) = norm_lines (sanitize_loop E) @ norm_lines (sanitize_loop u)"
      using EC by (rule emit_text)
    have "sse_step st (SseData d) = (\<lparr>sseOffset = off + int (length D) + int (length d), ssePending = v\<rparr>,
        render (items @ [Ev (sanitize_loop u) ?k]))"
      using st off False n uv
      by (simp add: sse_step_def WriteData_def Let_def to_buffer_def render_append render_Ev
          sanitizeUTF8_eq n_def [symmetric] del: take_append drop_append length_drop)
    then have "sse_inv off (D @ d) (E @ u) v (items @ [Ev (sanitize_loop u) ?k]) (sse_step st (SseData d))"
      using st C lenP cut join emit safe(2) by (auto simp: sse_inv_def text_of_def add.assoc)
    then show ?thesis by blast
  qed
qed

lemma sse_run_inv:
  "0 \<le> off \<Longrightarrow> off + int (length (input_of ops)) \<le> max_duration \<Longrightarrow>
     \<exists>E P items. sse_inv off (input_of ops) E P items (sse_run off ops)"
proof (induction ops rule: rev_induct)
  case Nil
  show ?case using sse_inv_start [of off] by (auto simp: sse_run_def input_of_def)
next
  case (snoc op ops)
  then obtain E P items where inv: "sse_inv off (input_of ops) E P items (sse_run off ops)"
    by (auto simp: input_of_def)
  show ?case
  proof (cases op)
    case (SseData d)
    then show ?thesis using sse_inv_data [OF inv snoc(2), of d] snoc(3) by (simp add: sse_run_def input_of_def)
  next
    case SseKeepalive
    then show ?thesis using sse_inv_keep [OF inv] by (auto simp: sse_run_def input_of_def)
  qed
qed


definition finished :: "sse_writer \<times> string \<Rightarrow> string" where
  "finished st = snd (snd (Finish to_buffer st))"

text \<open>\<open>Finish\<close> emits what is withheld; the client has then read the whole text.\<close>

lemma sse_inv_finished:
  assumes inv: "sse_inv off D E P items st"
    and size: "0 \<le> off" "off + int (length D) \<le> max_duration"
  shows "text_of (sse_client (finished st)) = norm_lines (stream_text D)"
proof -
  note st = inv [unfolded sse_inv_def]
  have "stream_text D = sanitize_loop E @ stream_text P"
    using st stream_text_append [of E P] by simp
  moreover have "joins (sanitize_loop E) (stream_text P)"
    using st joins_stream joins_weaken by blast
  ultimately have whole: "norm_lines (stream_text D) = norm_lines (sanitize_loop E) @ norm_lines (stream_text P)"
    by (simp add: norm_lines_append)
  show ?thesis
  proof (cases "P = []")
    case True
    then have "finished st = render items" using st by (auto simp: finished_def Finish_def)
    then show ?thesis using whole st True by (simp add: sse_client_render)
  next
    case False
    then have "finished st = render (items @ [Ev (stream_text P) (off + int (length D))])"
      using st stream_text_finish [of P]
      by (auto simp: finished_def Finish_def to_buffer_def Let_def sanitizeUTF8_eq render_append render_Ev)
    then show ?thesis using whole st by (simp add: sse_client_render text_of_def)
  qed
qed

text \<open>
  C13. However the input is cut into writes and wherever keepalives fall, the client that reads
  the stream to its end gets the input's text: decoded as UTF-8 with U+FFFD for what is not, an
  unfinished end counting once, and each line end one newline.
\<close>

theorem sse_text_any_chunking:
  assumes "0 \<le> off" "off + int (length (input_of ops)) \<le> max_duration"
  shows "text_of (sse_client (finished (sse_run off ops))) = norm_lines (stream_text (input_of ops))"
  using sse_run_inv [OF assms] sse_inv_finished [OF _ assms] by blast

theorem sse_text_any_chunking_witness:
  "text_of (sse_client (finished (sse_run 7
     [SseData [CHR ''a'', CHR 0xC3], SseKeepalive, SseData [CHR 0xA9, CHR 0x0D], SseData [CHR 0x0A]]))) =
     norm_lines (stream_text [CHR ''a'', CHR 0xC3, CHR 0xA9, CHR 0x0D, CHR 0x0A])"
  using sse_text_any_chunking [of 7
      "[SseData [CHR ''a'', CHR 0xC3], SseKeepalive, SseData [CHR 0xA9, CHR 0x0D], SseData [CHR 0x0A]]"]
  by (simp add: input_of_def max_duration_def)

text \<open>
  A client that loses the connection and resumes at the last id it saw misses nothing and
  reads nothing twice: the id is a position \<open>k\<close> of the input, and what was read before it,
  followed by what a writer started at \<open>k\<close> sends for the bytes from \<open>k\<close> on, however cut, is the
  text of the whole input.
\<close>

theorem sse_resume:
  assumes "0 \<le> off" "off + int (length (input_of ops @ later)) \<le> max_duration"
    and "sse_client (snd (sse_run off ops)) = evs @ [ev]"
  shows "\<exists>k. off \<le> k \<and> k \<le> off + int (length (input_of ops)) \<and> snd ev = itoa k \<and>
    (\<forall>ops'. input_of ops' = drop (nat (k - off)) (input_of ops) @ later \<longrightarrow>
       text_of (evs @ [ev]) @ text_of (sse_client (finished (sse_run k ops'))) =
       norm_lines (stream_text (input_of ops @ later)))"
proof -
  obtain E P items where inv: "sse_inv off (input_of ops) E P items (sse_run off ops)"
    using sse_run_inv [OF assms(1)] assms(2) by fastforce
  note st = inv [unfolded sse_inv_def]
  let ?k = "off + int (length E)"
  have evs: "concat (map item_event items) = evs @ [ev]"
    using assms(3) st by (simp add: sse_client_render)
  have read: "text_of (evs @ [ev]) = norm_lines (sanitize_loop E)" using st evs by simp
  have "stream_text (input_of ops @ later) = sanitize_loop E @ stream_text (P @ later)"
    using st stream_text_append [of E "P @ later"] by (simp add: append.assoc)
  moreover have "joins (sanitize_loop E) (stream_text (P @ later))" using st joins_stream by blast
  ultimately have whole: "norm_lines (stream_text (input_of ops @ later)) =
      norm_lines (sanitize_loop E) @ norm_lines (stream_text (P @ later))"
    by (simp add: norm_lines_append)
  have "text_of (sse_client (finished (sse_run ?k ops'))) = norm_lines (stream_text (P @ later))"
    if "input_of ops' = P @ later" for ops'
  proof -
    have "0 \<le> ?k" "?k + int (length (input_of ops')) \<le> max_duration"
      using assms st that by simp_all
    then show ?thesis using sse_run_inv [of ?k ops'] sse_inv_finished [of ?k "input_of ops'"] that by metis
  qed
  then show ?thesis using st evs read whole by (intro exI [of _ ?k]) auto
qed

theorem sse_resume_witness:
  "\<exists>k. 0 \<le> k \<and> k \<le> 2 \<and> ''1'' = itoa k \<and>
    (\<forall>ops'. input_of ops' = drop (nat k) [CHR ''a'', CHR 0xC3] @ [CHR 0xA9] \<longrightarrow>
       ''a'' @ text_of (sse_client (finished (sse_run k ops'))) = [CHR ''a'', CHR 0xC3, CHR 0xA9])"
proof -
  let ?ops = "[SseData [CHR ''a'', CHR 0xC3]]"
  have e: "sse_client (snd (sse_run 0 ?ops)) = [] @ [(''a'', ''1'')]" by code_simp
  have t: "norm_lines (stream_text ([CHR ''a'', CHR 0xC3] @ [CHR 0xA9])) = ''a'' @ [CHR 0xC3, CHR 0xA9]"
    by code_simp
  have i: "input_of ?ops = [CHR ''a'', CHR 0xC3]" by (simp add: input_of_def)
  have x: "text_of ([] @ [(''a'', ''1'')]) = ''a''" by (simp add: text_of_def)
  have s: "0 \<le> (0 :: int)" "0 + int (length (input_of ?ops @ [CHR 0xA9])) \<le> max_duration"
    by (simp_all add: i max_duration_def)
  show ?thesis using sse_resume [OF s e] unfolding t x i by simp
qed

lemma sse_pending_step:
  assumes "D = E @ ssePending (fst st)" "length (ssePending (fst st)) \<le> 4"
  shows "\<exists>E'. D @ op_bytes op = E' @ ssePending (fst (sse_step st op))" (is ?rest)
    and "length (ssePending (fst (sse_step st op))) \<le> 4" (is ?few)
proof -
  obtain w out where st: "st = (w, out)" by (cases st)
  have "ssePending (fst (sse_step st op)) =
      (if op_bytes op = [] then ssePending w
       else drop (safePrefixLen (ssePending w @ op_bytes op)) (ssePending w @ op_bytes op))"
    by (cases op) (simp_all add: st sse_step_def WriteData_def WriteKeepalive_def to_buffer_def Let_def)
  moreover have "length (drop n (ssePending w @ op_bytes op)) \<le> 4" if "n = safePrefixLen (ssePending w @ op_bytes op)" for n
    unfolding that by (rule safe_prefix(2))
  moreover have "\<exists>E'. D @ op_bytes op = E' @ drop n (ssePending w @ op_bytes op)" for n
    using assms st append_take_drop_id [of n "ssePending w @ op_bytes op"] by (metis append.assoc fst_conv)
  ultimately show ?rest ?few using assms st by (simp_all del: drop_append length_drop)
qed

text \<open>
  The writer withholds at most four bytes, and they are the last bytes of the input.
\<close>

theorem sse_pending_bounded:
  "length (ssePending (fst (sse_run off ops))) \<le> 4 \<and>
   (\<exists>E. input_of ops = E @ ssePending (fst (sse_run off ops)))"
proof (induction ops rule: rev_induct)
  case Nil
  show ?case by (simp add: sse_run_def NewWriterAtOffset_def input_of_def)
next
  case (snoc op ops)
  then obtain E where "input_of ops = E @ ssePending (fst (sse_run off ops))" by blast
  with snoc sse_pending_step [of "input_of ops" E "sse_run off ops" op] show ?case
    by (simp add: sse_run_def input_of_def)
qed

lemma utf8_valid_sanitize: "utf8_valid (sanitize_loop s)"
proof (induction s rule: sanitize_loop.induct)
  case (1 s)
  show ?case
  proof (cases "rune_len s")
    case None
    have r: "rune_len (replacement @ x) = Some 3" "replacement @ x \<noteq> []" "drop 3 (replacement @ x) = x" for x
      by (simp_all add: replacement_def byte_of_def first_byte_def trailing_def in_range_def)
    show ?thesis
    proof (cases "s = []")
      case False
      then show ?thesis
        using 1(1) None sanitize_none [of s] r by (simp add: utf8_valid.simps [of "replacement @ _"])
    qed simp
  next
    case (Some n)
    note n = rune_len_bounds [OF Some]
    have "rune_len (take n s @ x) = Some n" for x
      using rune_len_append [OF rune_len_take [of "take n s" "drop n s" n]] Some n by simp
    moreover have "s \<noteq> []" using Some by auto
    ultimately show ?thesis
      using 1(2) [OF _ Some] n sanitize_some [OF Some] by (simp add: utf8_valid.simps [of "take n s @ _"])
  qed
qed

text \<open>
  What is sent is always valid UTF-8, and valid input is sent as it is.
\<close>

theorem sanitize_valid: "utf8_valid (sanitizeUTF8 s) \<and> (sanitizeUTF8 s = s) = utf8_valid s"
  using utf8_valid_sanitize [of s] sanitize_loop_valid [of s] by (auto simp: sanitizeUTF8_eq)

end
