(* ===== verification/HttpUtil.thy ===== *)
theory HttpUtil
  imports Sse
begin

text \<open>
  What the HTTP servers share: the errors their handlers answer with, the errors of a connection,
  and the two stream helpers of \<open>src/internal/httputil\<close>, the deadlines set before each read and
  write and the writer that flushes at most an interval after a write. The \<open>net/http\<close> connection
  is a parameter.
\<close>


section \<open>Errors\<close>

text \<open>
  An error of a handler: the status code of the answer, its detail and, for errors of the
  Kubernetes API that suggest a delay, the \<open>Retry-After\<close> header.
\<close>

record http_error =
  heStatus :: int
  heDetail :: string
  heRetryAfter :: "int option"

definition huma_NewError :: "int \<Rightarrow> string \<Rightarrow> http_error" where
  "huma_NewError code detail = \<lparr>heStatus = code, heDetail = detail, heRetryAfter = None\<rparr>"

abbreviation "Error400BadRequest \<equiv> huma_NewError 400"
abbreviation "Error404NotFound \<equiv> huma_NewError 404"
abbreviation "Error409Conflict \<equiv> huma_NewError 409"
abbreviation "Error422UnprocessableEntity \<equiv> huma_NewError 422"
abbreviation "Error500InternalServerError \<equiv> huma_NewError 500"
abbreviation "Error502BadGateway \<equiv> huma_NewError 502"

text \<open>The errors of reads and writes that the handlers tell apart.\<close>

datatype conn_error = EPIPE | ECONNRESET | ContextCanceled | ErrClosed | OtherError string


section \<open>Numbers\<close>

text \<open>\<open>strconv.ParseInt(s, 10, 64)\<close>: a sign, digits, and a value in range.\<close>

definition ParseInt :: "string \<Rightarrow> int option" where
  "ParseInt s =
     (let neg = s \<noteq> [] \<and> hd s = CHR ''-'';
          ds = (if s \<noteq> [] \<and> (hd s = CHR ''-'' \<or> hd s = CHR ''+'') then tl s else s);
          v = (if neg then - int (digits_value ds) else int (digits_value ds)) in
      if ds \<noteq> [] \<and> list_all is_digit ds \<and> min_duration \<le> v \<and> v \<le> max_duration then Some v else None)"


section \<open>Deadlines\<close>

text \<open>
  A connection and its \<open>http.ResponseController\<close>: the deadlines it was given, whose errors the
  code ignores, and the read and write that may fail once they have passed.
\<close>

record 'w http_conn =
  hcNow :: "'w \<Rightarrow> time \<times> 'w"
  hcSetReadDeadline :: "time \<Rightarrow> 'w \<Rightarrow> 'w"
  hcSetWriteDeadline :: "time \<Rightarrow> 'w \<Rightarrow> 'w"
  hcWrite :: "(conn_error, 'w) io_writer"
  hcRead :: "'w \<Rightarrow> (conn_error + string) \<times> 'w"

definition StreamTimeout :: duration where
  "StreamTimeout = 10 * nano_second"

definition DeadlineWriter_Write :: "'w http_conn \<Rightarrow> duration \<Rightarrow> (conn_error, 'w) io_writer" where
  "DeadlineWriter_Write h timeout p w =
     (case hcNow h w of (now, w') \<Rightarrow> hcWrite h p (hcSetWriteDeadline h (time_add now timeout) w'))"

text \<open>Without a response controller the raw writer is used.\<close>

definition NewDeadlineWriter :: "'w http_conn \<Rightarrow> bool \<Rightarrow> duration \<Rightarrow> (conn_error, 'w) io_writer" where
  "NewDeadlineWriter h rc timeout = (if rc then DeadlineWriter_Write h timeout else hcWrite h)"

definition DeadlineReader_Read :: "'w http_conn \<Rightarrow> duration \<Rightarrow> 'w \<Rightarrow> (conn_error + string) \<times> 'w" where
  "DeadlineReader_Read h timeout w =
     (case hcNow h w of (now, w1) \<Rightarrow>
        hcRead h (hcSetWriteDeadline h (time_add now (int64 (2 * timeout)))
                   (hcSetReadDeadline h (time_add now timeout) w1)))"

definition NewDeadlineReader :: "'w http_conn \<Rightarrow> bool \<Rightarrow> duration \<Rightarrow> 'w \<Rightarrow> (conn_error + string) \<times> 'w" where
  "NewDeadlineReader h rc timeout = (if rc then DeadlineReader_Read h timeout else hcRead h)"


section \<open>The flushing writer\<close>

text \<open>
  \<open>TimedFlushWriter\<close>. Its timer is missing, idle (stopped or fired) or armed with the time it
  fires; \<open>AfterFunc\<close> and \<open>Reset\<close> both arm it. The writer below may be without a flusher.
\<close>

datatype timer = NoTimer | Idle | Armed time

record timed_flush_writer =
  tfTimer :: timer
  flushPending :: bool

record 'w flushable =
  flWrite :: "(conn_error, 'w) io_writer"
  flFlush :: "('w \<Rightarrow> 'w) option"

definition NewTimedFlushWriter :: timed_flush_writer where
  "NewTimedFlushWriter = \<lparr>tfTimer = NoTimer, flushPending = False\<rparr>"

definition TimedFlush_Write ::
  "'w flushable \<Rightarrow> duration \<Rightarrow> time \<Rightarrow> string \<Rightarrow> timed_flush_writer \<times> 'w \<Rightarrow>
     conn_error option \<times> timed_flush_writer \<times> 'w" where
  "TimedFlush_Write f interval now p st =
     (case st of (fw, w) \<Rightarrow>
      case flWrite f p w of (err, w') \<Rightarrow>
        if flFlush f = None then (err, fw, w')
        else if flushPending fw then (err, fw, w')
        else (err, fw \<lparr>tfTimer := Armed (now + interval), flushPending := True\<rparr>, w'))"

definition delayedFlush :: "'w flushable \<Rightarrow> timed_flush_writer \<times> 'w \<Rightarrow> timed_flush_writer \<times> 'w" where
  "delayedFlush f st =
     (case st of (fw, w) \<Rightarrow>
        if \<not> flushPending fw then (fw, w)
        else (fw \<lparr>flushPending := False\<rparr>, case flFlush f of None \<Rightarrow> w | Some fl \<Rightarrow> fl w))"

definition TimedFlush_Stop :: "'w flushable \<Rightarrow> timed_flush_writer \<times> 'w \<Rightarrow> timed_flush_writer \<times> 'w" where
  "TimedFlush_Stop f st =
     (case st of (fw, w) \<Rightarrow>
        (fw \<lparr>tfTimer := (if tfTimer fw = NoTimer then NoTimer else Idle), flushPending := False\<rparr>,
         case flFlush f of None \<Rightarrow> w | Some fl \<Rightarrow> if flushPending fw then fl w else w))"

text \<open>
  The writer in its server. The connection holds the bytes that are written but not flushed and
  those that were sent; the server may send buffered bytes on its own. The timer, when it fires,
  starts a goroutine that waits for the mutex: \<open>fsCallbacks\<close> counts those, and any of them may run
  later than a write or a stop. \<open>fsWritten\<close> and \<open>fsOldest\<close> record all accepted bytes and the time
  of the first write since the last flush.
\<close>

record flush_sys =
  fsNow :: time
  fsWriter :: timed_flush_writer
  fsSink :: "string \<times> string"
  fsCallbacks :: nat
  fsWritten :: string
  fsOldest :: time

definition accepted :: "(conn_error \<times> nat) option \<Rightarrow> string \<Rightarrow> string" where
  "accepted c p = (case c of None \<Rightarrow> p | Some (e, n) \<Rightarrow> take n p)"

definition buffered_conn :: "(conn_error \<times> nat) option \<Rightarrow> (string \<times> string) flushable" where
  "buffered_conn c = \<lparr>flWrite = (\<lambda>p (b, sent). (map_option fst c, b @ accepted c p, sent)),
     flFlush = Some (\<lambda>(b, sent). ([], sent @ b))\<rparr>"

definition flush_start :: flush_sys where
  "flush_start = \<lparr>fsNow = 0, fsWriter = NewTimedFlushWriter, fsSink = ([], []), fsCallbacks = 0,
     fsWritten = [], fsOldest = 0\<rparr>"

inductive flush_step :: "duration \<Rightarrow> flush_sys \<Rightarrow> flush_sys \<Rightarrow> bool" for interval where
  writes: "TimedFlush_Write (buffered_conn c) interval (fsNow s) p (fsWriter s, fsSink s) = (err, fw, sink) \<Longrightarrow>
    flush_step interval s (s \<lparr>fsWriter := fw, fsSink := sink, fsWritten := fsWritten s @ accepted c p,
      fsOldest := (if flushPending (fsWriter s) then fsOldest s else fsNow s)\<rparr>)"
| passes: "fsNow s \<le> t \<Longrightarrow> (\<And>d. tfTimer (fsWriter s) = Armed d \<Longrightarrow> t \<le> d) \<Longrightarrow>
    flush_step interval s (s \<lparr>fsNow := t\<rparr>)"
| fires: "tfTimer (fsWriter s) = Armed d \<Longrightarrow> d \<le> fsNow s \<Longrightarrow>
    flush_step interval s (s \<lparr>fsWriter := (fsWriter s) \<lparr>tfTimer := Idle\<rparr>, fsCallbacks := fsCallbacks s + 1\<rparr>)"
| flushes: "0 < fsCallbacks s \<Longrightarrow> delayedFlush (buffered_conn None) (fsWriter s, fsSink s) = (fw, sink) \<Longrightarrow>
    flush_step interval s (s \<lparr>fsWriter := fw, fsSink := sink, fsCallbacks := fsCallbacks s - 1\<rparr>)"
| stops: "TimedFlush_Stop (buffered_conn None) (fsWriter s, fsSink s) = (fw, sink) \<Longrightarrow>
    flush_step interval s (s \<lparr>fsWriter := fw, fsSink := sink\<rparr>)"
| sends: "fsSink s = (b @ b', sent) \<Longrightarrow> flush_step interval s (s \<lparr>fsSink := (b', sent @ b)\<rparr>)"

inductive_cases flush_stepE: "flush_step interval s t"

definition flush_inv :: "duration \<Rightarrow> flush_sys \<Rightarrow> bool" where
  "flush_inv interval s \<longleftrightarrow>
     (case fsSink s of (b, sent) \<Rightarrow> sent @ b = fsWritten s \<and> (b \<noteq> [] \<longrightarrow> flushPending (fsWriter s))) \<and>
     (flushPending (fsWriter s) \<longrightarrow> 0 < fsCallbacks s \<or>
        (\<exists>d. tfTimer (fsWriter s) = Armed d \<and> fsNow s \<le> d \<and> d \<le> fsOldest s + interval))"

lemma flush_inv_start: "flush_inv interval flush_start"
  by (simp add: flush_inv_def flush_start_def NewTimedFlushWriter_def)

lemmas flush_defs = TimedFlush_Write_def delayedFlush_def TimedFlush_Stop_def buffered_conn_def flush_inv_def

lemma flush_inv_step:
  assumes "flush_step interval s t" "flush_inv interval s" "0 \<le> interval"
  shows "flush_inv interval t"
  using assms
proof (cases rule: flush_step.cases)
  case (writes c p err fw sink)
  then show ?thesis using assms(2,3)
    by (cases "fsSink s") (auto simp: flush_defs split: if_splits)
next
  case (fires d)
  then show ?thesis using assms(2) by (cases "fsSink s") (auto simp: flush_inv_def)
next
  case (flushes fw sink)
  then show ?thesis using assms(2)
    by (cases "fsSink s") (auto simp: flush_defs split: if_splits)
next
  case (stops fw sink)
  then show ?thesis using assms(2)
    by (cases "fsSink s") (auto simp: flush_defs split: if_splits)
next
  case (sends b b' sent)
  then show ?thesis using assms(2) by (auto simp: flush_inv_def)
qed (use assms(2) in \<open>auto simp: flush_inv_def split: prod.splits\<close>)

lemma flush_inv_reachable:
  "(flush_step interval)\<^sup>*\<^sup>* flush_start s \<Longrightarrow> 0 \<le> interval \<Longrightarrow> flush_inv interval s"
  by (induction rule: rtranclp_induct) (auto intro: flush_inv_start flush_inv_step)



end
