(* ===== verification/Sidecar.thy ===== *)
theory Sidecar
  imports Paths HttpUtil Guarded
begin

text \<open>
  The sandbox sidecar's view of a container: \<open>src/internal/sandbox-sidecar/proc/procfs.go\<close> finds
  its processes by a marker in their environment, \<open>sidecar.go\<close> caches what was found, and
  \<open>filesystem/filesystem.go\<close> reads and writes its files through \<open>/proc/<pid>/root\<close>. The host is a
  parameter; handlers are programs that record their calls. Properties say what any call rests on,
  whatever the host answers.
\<close>


section \<open>The host\<close>

text \<open>
  A command as the sidecar hands it to \<open>os/exec\<close>: the fields of \<open>exec.Cmd\<close> and its \<open>SysProcAttr\<close>
  that are set, with the files of the two outputs.
\<close>

record exec_cmd =
  ecPath :: string
  ecArgs :: "string list"
  ecEnv :: "string list"
  ecDir :: string
  ecChroot :: string
  ecUid :: int
  ecGid :: int
  ecStdout :: string
  ecStderr :: string
  ecWaitDelay :: duration
  ecTimeout :: "duration option"

type_synonym ('w, 'a) host_call = "'w \<Rightarrow> (fs_error + 'a) \<times> 'w"

record 'w sidecar_host =
  shReadDir :: "string \<Rightarrow> ('w, (string \<times> bool) list) host_call"
  shReadFile :: "string \<Rightarrow> ('w, string) host_call"
  shReadlink :: "string \<Rightarrow> ('w, string) host_call"
  shGetwd :: "('w, string) host_call"
  shStat :: "string \<Rightarrow> ('w, file_info) host_call"
  shOwner :: "string \<Rightarrow> ('w, int \<times> int) host_call"
  shMkdir :: "string \<Rightarrow> nat \<Rightarrow> ('w, unit) host_call"
  shMkdirAll :: "string \<Rightarrow> nat \<Rightarrow> ('w, unit) host_call"
  shChown :: "string \<Rightarrow> int \<Rightarrow> int \<Rightarrow> ('w, unit) host_call"
  shChmod :: "string \<Rightarrow> nat \<Rightarrow> ('w, unit) host_call"
  shCreate :: "string \<Rightarrow> ('w, unit) host_call"
  shOpen :: "string \<Rightarrow> ('w, unit) host_call"
  shSeek :: "string \<Rightarrow> int \<Rightarrow> ('w, unit) host_call"
  shClose :: "string \<Rightarrow> ('w, unit) host_call"
  shCopy :: "string \<Rightarrow> ('w, unit) host_call"
  shRemoveAll :: "string \<Rightarrow> ('w, unit) host_call"
  shNewID :: "'w \<Rightarrow> string \<times> 'w"
  shStdinPipe :: "('w, unit) host_call"
  shStart :: "exec_cmd \<Rightarrow> ('w, unit) host_call"

text \<open>The calls, with their answers. A copy goes from the body of the request to an open file.\<close>

datatype side_call =
    CReadDir string
  | CReadFile string "fs_error + string"
  | CReadlink string "fs_error + string"
  | CGetwd "fs_error + string"
  | CStat string "fs_error + file_info"
  | COwner string "fs_error + int \<times> int"
  | CMkdir string "fs_error + unit"
  | CMkdirAll string "fs_error + unit"
  | CChown string int int
  | CChmod string nat
  | CCreate string "fs_error + unit"
  | COpen string "fs_error + unit"
  | CSeek string int
  | CClose string
  | CCopy string "fs_error + unit"
  | CRemoveAll string
  | CNewID string
  | CStdinPipe
  | CStart exec_cmd "fs_error + unit"

text \<open>
  What the handlers keep: the cached process ids, and the entries of the commands by id. The
  entry's context is cancelled by \<open>DeleteCommand\<close> or when the command has exited; \<open>done\<close> closes with
  the exit code.
\<close>

record command_entry =
  ceID :: string
  ceCmd :: exec_cmd
  ceOutputDir :: string
  ceStdinClosed :: bool
  ceCancelled :: bool
  ceDone :: bool
  ceExitCode :: int

record sidecar =
  sdCachedPIDs :: "string \<rightharpoonup> int"
  sdCommands :: "string \<rightharpoonup> command_entry"

type_synonym ('w, 'a) side = "('w, sidecar, side_call, 'a) program"


section \<open>Container processes\<close>

definition marker :: string where
  "marker = IsolaContainerNameEnv @ ''=''"

definition containerNameFromEnviron :: "string \<Rightarrow> string option" where
  "containerNameFromEnviron data =
     map_option (drop (length marker)) (find (prefix marker) (split_char CHR 0x00 data))"

definition environ_path :: "int \<Rightarrow> string" where
  "environ_path pid = ''/proc/'' @ itoa pid @ ''/environ''"

definition GetContainerName :: "'w sidecar_host \<Rightarrow> int \<Rightarrow> ('w, string option) side" where
  "GetContainerName h pid =
     seq (call_api (shReadFile h (environ_path pid)) (CReadFile (environ_path pid))) (\<lambda>r.
       State_Monad.return (case r of Inl e \<Rightarrow> None | Inr data \<Rightarrow> containerNameFromEnviron data))"

definition ErrContainerNotFound :: fs_error where
  "ErrContainerNotFound = Failed ''container not found: no process with ISOLA_CONTAINER_NAME''"

text \<open>\<open>strconv.Atoi\<close> on a 64-bit machine is \<open>ParseInt\<close>.\<close>

fun find_marked :: "'w sidecar_host \<Rightarrow> string \<Rightarrow> int \<Rightarrow> nat \<Rightarrow> (string \<times> bool) list \<Rightarrow> ('w, fs_error + int) side" where
  "find_marked h containerName foundPID foundCount [] =
     (if containerName \<noteq> [] then throwE ErrContainerNotFound
      else if foundCount = 0 then throwE ErrContainerNotFound
      else if 1 < foundCount then throwE ErrContainerNotFound
      else returnE foundPID)"
| "find_marked h containerName foundPID foundCount ((entry, isDir) # es) =
     (if \<not> isDir then find_marked h containerName foundPID foundCount es
      else case ParseInt entry of
        None \<Rightarrow> find_marked h containerName foundPID foundCount es
      | Some pid \<Rightarrow>
          seq (GetContainerName h pid) (\<lambda>r. case r of
            None \<Rightarrow> find_marked h containerName foundPID foundCount es
          | Some name \<Rightarrow>
              if containerName \<noteq> [] then
                if name = containerName then returnE pid
                else find_marked h containerName foundPID foundCount es
              else find_marked h containerName pid (foundCount + 1) es))"

definition FindMarkedPID :: "'w sidecar_host \<Rightarrow> string \<Rightarrow> ('w, fs_error + int) side" where
  "FindMarkedPID h containerName =
     seq (call_api (shReadDir h ''/proc'') (\<lambda>_. CReadDir ''/proc'')) (\<lambda>r. case r of
       Inl e \<Rightarrow> throwE (Wrapped ''read /proc'' e)
     | Inr entries \<Rightarrow> find_marked h containerName 0 0 entries)"

definition GetCwd :: "'w sidecar_host \<Rightarrow> int \<Rightarrow> ('w, fs_error + string) side" where
  "GetCwd h pid =
     (let p = ''/proc/'' @ itoa pid @ ''/cwd'' in
      seq (call_api (shReadlink h p) (CReadlink p)) (\<lambda>r. case r of
        Inl e \<Rightarrow> throwE (Wrapped ''read cwd symlink'' e) | Inr target \<Rightarrow> returnE target))"

definition GetRoot :: "int \<Rightarrow> string" where
  "GetRoot pid = path_join [''/proc'', itoa pid, ''root'']"

definition GetUIDGID :: "'w sidecar_host \<Rightarrow> int \<Rightarrow> ('w, fs_error + int \<times> int) side" where
  "GetUIDGID h pid =
     (let p = ''/proc/'' @ itoa pid in
      seq (call_api (shOwner h p) (COwner p)) (\<lambda>r. case r of
        Inl e \<Rightarrow> throwE (Wrapped (''stat '' @ p) e) | Inr ug \<Rightarrow> returnE ug))"

definition GetEnviron :: "'w sidecar_host \<Rightarrow> int \<Rightarrow> ('w, fs_error + string list) side" where
  "GetEnviron h pid =
     seq (call_api (shReadFile h (environ_path pid)) (CReadFile (environ_path pid))) (\<lambda>r. case r of
       Inl e \<Rightarrow> throwE (Wrapped ''read environ'' e)
     | Inr data \<Rightarrow> returnE (filter (\<lambda>e. e \<noteq> []) (split_char CHR 0x00 data)))"

text \<open>The cache: a cached process is used only while its marker is still there.\<close>

definition cached_pid :: "'w sidecar_host \<Rightarrow> string \<Rightarrow> ('w, int option) side" where
  "cached_pid h containerName =
     seq get_object (\<lambda>r. case sdCachedPIDs r containerName of
       None \<Rightarrow> State_Monad.return None
     | Some pid \<Rightarrow>
         seq (GetContainerName h pid) (\<lambda>name. State_Monad.return (case name of
           None \<Rightarrow> None
         | Some n \<Rightarrow> if containerName = [] \<or> n = containerName then Some pid else None)))"

definition FindCachedContainerPID :: "'w sidecar_host \<Rightarrow> string \<Rightarrow> ('w, fs_error + int) side" where
  "FindCachedContainerPID h containerName =
     seq (cached_pid h containerName) (\<lambda>hit. case hit of
       Some pid \<Rightarrow> returnE pid
     | None \<Rightarrow>
         bindE (FindMarkedPID h containerName) (\<lambda>newPID.
         seq get_object (\<lambda>r.
         seq (set_object (r \<lparr>sdCachedPIDs := (sdCachedPIDs r)(containerName \<mapsto> newPID)\<rparr>)) (\<lambda>_.
           returnE newPID))))"


section \<open>Files\<close>

definition http_bind :: "('w, fs_error + 'a) side \<Rightarrow> http_error \<Rightarrow> ('a \<Rightarrow> ('w, http_error + 'b) side) \<Rightarrow> ('w, http_error + 'b) side" where
  "http_bind m e f = seq m (\<lambda>r. case r of Inl _ \<Rightarrow> throwE e | Inr a \<Rightarrow> f a)"

text \<open>\<open>filepath.Abs\<close> asks for the working directory when the path is not absolute.\<close>

definition filepath_Abs :: "'w sidecar_host \<Rightarrow> string \<Rightarrow> ('w, fs_error + string) side" where
  "filepath_Abs h p =
     (if path_is_abs p then returnE (path_clean p)
      else seq (call_api (shGetwd h) CGetwd) (\<lambda>r. case r of
        Inl e \<Rightarrow> throwE e | Inr wd \<Rightarrow> returnE (path_join [wd, p])))"

definition resolve_failed :: http_error where
  "resolve_failed = Error500InternalServerError ''Failed to resolve path in sandbox container''"

definition resolveAbsolutePath :: "'w sidecar_host \<Rightarrow> string \<Rightarrow> int \<Rightarrow> ('w, http_error + string) side" where
  "resolveAbsolutePath h p pid =
     (if path_is_abs p then returnE (path_clean p)
      else http_bind (GetCwd h pid) resolve_failed (\<lambda>cwd.
           http_bind (filepath_Abs h (path_join [cwd, p])) resolve_failed returnE))"

text \<open>
  \<open>os.IsExist\<close>: the operating system's error of that text. \<open>mkdirAllChown\<close> recurses to the parent until a directory exists or \<open>Dir\<close> stays where it is.
\<close>

definition IsExist :: "fs_error \<Rightarrow> bool" where
  "IsExist e \<longleftrightarrow> e = OsError ''file exists''"

lemma path_dir_dot: "path_dir ''.'' = ''.''"
  by (simp add: path_dir_def drop_last_while_def path_clean_def clean_parts_def clean_step_def)

function mkdirAllChown :: "'w sidecar_host \<Rightarrow> int \<Rightarrow> int \<Rightarrow> string \<Rightarrow> ('w, fs_error + unit) side" where
  "mkdirAllChown h uid gid p =
     (let parent = path_dir p in
      if parent = p then returnE ()
      else seq (call_api (shStat h p) (CStat p)) (\<lambda>st. case st of
        Inr fi \<Rightarrow> if \<not> fiDir fi then throwE (Failed (p @ '' exists and is not a directory'')) else returnE ()
      | Inl e \<Rightarrow>
          if \<not> IsNotExist e then throwE e
          else
            bindE (mkdirAllChown h uid gid parent) (\<lambda>_.
            seq (call_api (shMkdir h p 493) (CMkdir p)) (\<lambda>made. case made of
              Inl e' \<Rightarrow> if IsExist e' then returnE () else throwE e'
            | Inr _ \<Rightarrow> call_api (shChown h p uid gid) (\<lambda>_. CChown p uid gid)))))"
  by pat_completeness auto

termination mkdirAllChown
proof (relation "measure (\<lambda>(h, uid, gid, p). if p = ''.'' then 0 else length p + 1)", goal_cases)
  case (2 h uid gid p parent e)
  then show ?case using path_dir_shorter [of p] path_dir_dot by auto
qed simp

declare mkdirAllChown.simps [simp del]

definition pid_failed :: http_error where
  "pid_failed = Error400BadRequest ''failed to determine container pid''"

text \<open>The file at a path inside the container.\<close>

definition target_path :: "int \<Rightarrow> string \<Rightarrow> string" where
  "target_path pid resolved = path_join [GetRoot pid, resolved]"

definition write_target :: "'w sidecar_host \<Rightarrow> string \<Rightarrow> int \<Rightarrow> int \<Rightarrow> ('w, http_error + unit) side" where
  "write_target h target uid gid =
     http_bind (mkdirAllChown h uid gid (path_dir target)) (Error500InternalServerError ''failed to create parent directories'') (\<lambda>_.
     http_bind (call_api (shCreate h target) (CCreate target)) (Error500InternalServerError ''failed to create file'') (\<lambda>_.
     seq (call_api (shCopy h target) (CCopy target)) (\<lambda>copied. case copied of
       Inl e \<Rightarrow>
         ignoring (call_api (shClose h target) (\<lambda>_. CClose target))
           (throwE (Error500InternalServerError ''failed to write file''))
     | Inr _ \<Rightarrow>
         ignoring (call_api (shChmod h target 438) (\<lambda>_. CChmod target 438))
         (ignoring (call_api (shChown h target uid gid) (\<lambda>_. CChown target uid gid))
         (ignoring (call_api (shClose h target) (\<lambda>_. CClose target))
           (returnE ()))))))"

definition PostFilesystem :: "'w sidecar_host \<Rightarrow> string \<Rightarrow> string \<Rightarrow> ('w, http_error + unit) side" where
  "PostFilesystem h p container =
     http_bind (FindCachedContainerPID h container) pid_failed (\<lambda>pid.
     bindE (resolveAbsolutePath h p pid) (\<lambda>resolved.
     http_bind (GetUIDGID h pid) (Error500InternalServerError ''failed to get container uid/gid'') (\<lambda>(uid, gid).
       write_target h (target_path pid resolved) uid gid)))"

text \<open>On success the file is open, and the body of the answer copies it.\<close>

definition GetFilesystem :: "'w sidecar_host \<Rightarrow> string \<Rightarrow> string \<Rightarrow> ('w, http_error + string) side" where
  "GetFilesystem h p container =
     http_bind (FindCachedContainerPID h container) pid_failed (\<lambda>pid.
     bindE (resolveAbsolutePath h p pid) (\<lambda>resolved.
       let target = target_path pid resolved in
       seq (call_api (shStat h target) (CStat target)) (\<lambda>st. case st of
         Inl e \<Rightarrow>
           throwE (if IsNotExist e then Error404NotFound (''file not found: '' @ p)
                   else Error500InternalServerError ''failed to stat file'')
       | Inr fi \<Rightarrow>
           if \<not> fiRegular fi then throwE (Error400BadRequest (''not a regular file: '' @ p))
           else http_bind (call_api (shOpen h target) (COpen target))
                  (Error500InternalServerError ''failed to open file'') (\<lambda>_. returnE target))))"



section \<open>What a call rests on\<close>

text \<open>
  What a handler has seen during its run: the markers read from environments, the files it
  examined, the directory it made and has not removed, the files it created, the command started.
\<close>

record side_known =
  skMarkers :: "(string \<times> string) list"
  skStat :: "(string \<times> file_info) list"
  skMade :: "string option"
  skCreated :: "string list"
  skStarted :: "exec_cmd option"

definition nothing_known :: side_known where
  "nothing_known = \<lparr>skMarkers = [], skStat = [], skMade = None, skCreated = [], skStarted = None\<rparr>"

fun side_learn :: "side_known \<Rightarrow> side_call \<Rightarrow> side_known" where
  "side_learn k (CReadFile p (Inr data)) =
     (case containerNameFromEnviron data of None \<Rightarrow> k | Some n \<Rightarrow> k \<lparr>skMarkers := (p, n) # skMarkers k\<rparr>)"
| "side_learn k (CStat p (Inr fi)) = k \<lparr>skStat := (p, fi) # skStat k\<rparr>"
| "side_learn k (CMkdirAll p (Inr u)) = k \<lparr>skMade := Some p\<rparr>"
| "side_learn k (CRemoveAll p) = k \<lparr>skMade := None\<rparr>"
| "side_learn k (CCreate p (Inr u)) = k \<lparr>skCreated := p # skCreated k\<rparr>"
| "side_learn k (CStart c (Inr u)) = k \<lparr>skStarted := Some c\<rparr>"
| "side_learn k c = k"

lemma side_learn_stat [simp]:
  "skMade (side_learn k (CStat p r)) = skMade k" "skStarted (side_learn k (CStat p r)) = skStarted k"
  "skCreated (side_learn k (CStat p r)) = skCreated k"
  by (cases r; simp)+

text \<open>A process of the container: its environment was read in this run and has the marker.\<close>

definition for_container :: "string \<Rightarrow> side_known \<Rightarrow> int \<Rightarrow> bool" where
  "for_container name k pid \<longleftrightarrow> (\<exists>n. (environ_path pid, n) \<in> set (skMarkers k) \<and> (name = [] \<or> n = name))"

lemma for_containerI: "(environ_path pid, n) \<in> set (skMarkers k) \<Longrightarrow> name = [] \<or> n = name \<Longrightarrow> for_container name k pid"
  by (auto simp: for_container_def)

definition below_root :: "string \<Rightarrow> side_known \<Rightarrow> string \<Rightarrow> bool" where
  "below_root name k p \<longleftrightarrow> (\<exists>pid. for_container name k pid \<and> inside (GetRoot pid) p)"

definition dir_of_target :: "string \<Rightarrow> side_known \<Rightarrow> string \<Rightarrow> bool" where
  "dir_of_target name k p \<longleftrightarrow> (\<exists>q n. below_root name k q \<and> p = (path_dir ^^ n) q)"

fun side_guard :: "string \<Rightarrow> side_known \<Rightarrow> side_call \<Rightarrow> bool" where
  "side_guard name k (CCreate p r) \<longleftrightarrow> below_root name k p"
| "side_guard name k (CCopy p r) \<longleftrightarrow> below_root name k p \<and> p \<in> set (skCreated k)"
| "side_guard name k (CChmod p m) \<longleftrightarrow> below_root name k p \<and> p \<in> set (skCreated k)"
| "side_guard name k (CMkdir p r) \<longleftrightarrow> dir_of_target name k p"
| "side_guard name k (CChown p u g) \<longleftrightarrow> dir_of_target name k p"
| "side_guard name k (CMkdirAll p r) \<longleftrightarrow> below_root name k p"
| "side_guard name k (CRemoveAll p) \<longleftrightarrow> skMade k = Some p"
| "side_guard name k (COpen p r) \<longleftrightarrow> below_root name k p \<and> (\<exists>fi. (p, fi) \<in> set (skStat k) \<and> fiRegular fi)"
| "side_guard name k (CStart c r) \<longleftrightarrow>
     (\<exists>pid. for_container name k pid \<and> ecChroot c = GetRoot pid) \<and> ecUid c = 0 \<and> ecGid c = 0 \<and>
     below_root name k (ecStdout c) \<and> below_root name k (ecStderr c) \<and>
     ecStdout c \<in> set (skCreated k) \<and> ecStderr c \<in> set (skCreated k)"
| "side_guard name k c \<longleftrightarrow> True"

interpretation access: protocol side_learn "side_guard name" for name .

abbreviation accesses where "accesses name \<equiv> protocol.keeps side_learn (side_guard name)"

text \<open>Knowledge grows, except for the directory made.\<close>

definition grows :: "side_known \<Rightarrow> side_known \<Rightarrow> bool" where
  "grows k l \<longleftrightarrow> set (skMarkers k) \<subseteq> set (skMarkers l) \<and> set (skStat k) \<subseteq> set (skStat l) \<and>
     set (skCreated k) \<subseteq> set (skCreated l)"

lemma grows_refl [simp]: "grows k k"
  by (simp add: grows_def)

lemma grows_trans: "grows k l \<Longrightarrow> grows l m \<Longrightarrow> grows k m"
  by (auto simp: grows_def)

lemma grows_learn: "grows k (side_learn k c)"
  by (cases "(k, c)" rule: side_learn.cases) (auto simp: grows_def split: option.splits)

lemma grows_created: "grows k l \<Longrightarrow> grows k (l \<lparr>skCreated := p # skCreated l\<rparr>)"
  by (auto simp: grows_def)

lemma for_container_grows: "for_container name k pid \<Longrightarrow> grows k l \<Longrightarrow> for_container name l pid"
  by (auto simp: for_container_def grows_def)

lemma below_root_grows: "below_root name k p \<Longrightarrow> grows k l \<Longrightarrow> below_root name l p"
  unfolding below_root_def using for_container_grows by blast

lemma below_root_created [simp]: "below_root name (k \<lparr>skCreated := cs\<rparr>) p = below_root name k p"
  by (simp add: below_root_def for_container_def)

lemma dir_of_target_grows: "dir_of_target name k p \<Longrightarrow> grows k l \<Longrightarrow> dir_of_target name l p"
  unfolding dir_of_target_def using below_root_grows by blast

lemma dir_of_target_self: "below_root name k p \<Longrightarrow> dir_of_target name k p"
  unfolding dir_of_target_def by (intro exI [of _ p] exI [of _ 0]) simp

lemma dir_of_target_dir: "dir_of_target name k p \<Longrightarrow> dir_of_target name k (path_dir p)"
  unfolding dir_of_target_def
proof (elim exE conjE)
  fix q n assume "below_root name k q" "p = (path_dir ^^ n) q"
  then show "\<exists>q n. below_root name k q \<and> path_dir p = (path_dir ^^ n) q"
    by (intro exI [of _ q] exI [of _ "Suc n"]) simp
qed


section \<open>What the operations keep\<close>

text \<open>After a step that only learns, \<open>Q\<close> of the result.\<close>

definition learns :: "string \<Rightarrow> ('w, 'a) side \<Rightarrow> (side_known \<Rightarrow> 'a \<Rightarrow> bool) \<Rightarrow> bool" where
  "learns name m Q \<longleftrightarrow> (\<forall>x k. accesses name m
     (\<lambda>r y l. grows k l \<and> skMade l = skMade k \<and> skStarted l = skStarted k \<and> skCreated l = skCreated k \<and> sdCommands y = sdCommands x \<and> Q l r) x k)"

lemma learnsD:
  "learns name m Q \<Longrightarrow> accesses name m
     (\<lambda>r y l. grows k l \<and> skMade l = skMade k \<and> skStarted l = skStarted k \<and> skCreated l = skCreated k \<and> sdCommands y = sdCommands x \<and> Q l r) x k"
  by (simp add: learns_def)

lemma learns_use:
  assumes "learns name m Q"
    and "\<And>r y l. grows k l \<Longrightarrow> skMade l = skMade k \<Longrightarrow> skStarted l = skStarted k \<Longrightarrow> skCreated l = skCreated k \<Longrightarrow> sdCommands y = sdCommands x \<Longrightarrow>
      Q l r \<Longrightarrow> R r y l"
  shows "accesses name m R x k"
  by (rule access.keeps_mono [OF learnsD [OF assms(1)]]) (use assms(2) in blast)

lemma keeps_learned:
  "side_guard name k (c a) \<Longrightarrow> Q a x (side_learn k (c a)) \<Longrightarrow>
     side_guard name k (c a) \<and> Q a x (side_learn k (c a))"
  by simp

lemma learns_GetContainerName:
  "learns name (GetContainerName h pid) (\<lambda>l r. \<forall>n. r = Some n \<longrightarrow> (environ_path pid, n) \<in> set (skMarkers l))"
  unfolding learns_def GetContainerName_def
  by (intro allI access.keeps_rules access.keeps_call)
     (auto intro!: access.keeps_rules simp: grows_def split: sum.splits option.splits)

lemma learns_find_marked:
  assumes "foundCount = 0 \<or> name = [] \<and> for_container name k foundPID"
  shows "accesses name (find_marked h name foundPID foundCount es)
     (\<lambda>r y l. grows k l \<and> skMade l = skMade k \<and> skStarted l = skStarted k \<and> skCreated l = skCreated k \<and> sdCommands y = sdCommands x \<and>
        (\<forall>pid. r = Inr pid \<longrightarrow> for_container name l pid)) x k"
  using assms
proof (induction es arbitrary: foundPID foundCount k x)
  case Nil
  then show ?case by (auto intro!: access.keeps_rules)
next
  case (Cons e es)
  obtain entry isDir where e: "e = (entry, isDir)" by (cases e)
  have rest: "accesses name (find_marked h name pid n es)
     (\<lambda>r y l'. grows k l' \<and> skMade l' = skMade k \<and> skStarted l' = skStarted k \<and> skCreated l' = skCreated k \<and> sdCommands y = sdCommands x \<and>
        (\<forall>pid. r = Inr pid \<longrightarrow> for_container name l' pid)) z l"
    if "grows k l" "skMade l = skMade k" "skStarted l = skStarted k" "skCreated l = skCreated k" "sdCommands z = sdCommands x"
      "n = 0 \<or> name = [] \<and> for_container name l pid" for pid n z l
    by (rule access.keeps_mono [OF Cons.IH [OF that(6)]]) (use that in \<open>auto intro: grows_trans\<close>)
  show ?case
  proof (cases "isDir \<and> ParseInt entry \<noteq> None")
    case False
    then have "find_marked h name foundPID foundCount (e # es) = find_marked h name foundPID foundCount es"
      using e by auto
    then show ?thesis using rest [of k x foundCount foundPID] Cons.prems by simp
  next
    case True
    then obtain pid where pid: "ParseInt entry = Some pid" "isDir" by blast
    have old: "foundCount = 0 \<or> name = [] \<and> for_container name l foundPID" if "grows k l" for l
      using Cons.prems for_container_grows that by blast
    show ?thesis
    proof (cases "name = []")
      case name: True
      have "for_container [] l pid" if "(environ_path pid, n) \<in> set (skMarkers l)" for l n
        using that by (auto simp: for_container_def)
      then show ?thesis unfolding e name using pid
        by (simp, intro access.keeps_bind learns_use [OF learns_GetContainerName] access.keeps_option)
           (auto intro!: rest [unfolded name] access.keeps_rules old [unfolded name])
    next
      case False
      then show ?thesis unfolding e using pid
        by (simp, intro access.keeps_bind learns_use [OF learns_GetContainerName] access.keeps_option access.keeps_if)
           (auto intro!: rest access.keeps_rules old for_containerI)
    qed
  qed
qed


lemma learns_mono: "learns name m Q \<Longrightarrow> (\<And>l r. Q l r \<Longrightarrow> R l r) \<Longrightarrow> learns name m R"
  unfolding learns_def by (blast intro: access.keeps_mono)



lemma learns_FindMarkedPID:
  "learns name (FindMarkedPID h name) (\<lambda>l r. \<forall>pid. r = Inr pid \<longrightarrow> for_container name l pid)"
proof -
  have "accesses name (find_marked h name 0 0 es)
     (\<lambda>r y l. grows k l \<and> skMade l = skMade k \<and> skStarted l = skStarted k \<and> skCreated l = skCreated k \<and> sdCommands y = sdCommands x \<and>
        (\<forall>pid. r = Inr pid \<longrightarrow> for_container name l pid)) x k" for es k x
    by (rule learns_find_marked) simp
  then show ?thesis unfolding learns_def FindMarkedPID_def
    by (intro allI access.keeps_rules access.keeps_call)
       (auto intro!: access.keeps_rules split: sum.splits)
qed

lemma learns_FindCachedContainerPID:
  "learns name (FindCachedContainerPID h name) (\<lambda>l r. \<forall>pid. r = Inr pid \<longrightarrow> for_container name l pid)"
proof -
  have hit: "learns name (cached_pid h name) (\<lambda>l r. \<forall>pid. r = Some pid \<longrightarrow> for_container name l pid)"
    unfolding learns_def cached_pid_def
    by (intro allI access.keeps_rules learns_use [OF learns_GetContainerName])
       (auto intro!: access.keeps_rules for_containerI split: option.splits)
  show ?thesis unfolding learns_def FindCachedContainerPID_def
    by (intro allI access.keeps_rules learns_use [OF hit] learns_use [OF learns_FindMarkedPID] access.keeps_case)
       (auto intro: grows_trans)
qed


text \<open>Resolved paths are clean and absolute, so the target is below the root of the process.\<close>

lemma ordinary_itoa: "ordinary (itoa pid)"
proof -
  have "\<forall>c \<in> set (itoa pid). is_digit c \<or> c = CHR ''-''" using itoa_chars by blast
  moreover have "CHR ''-'' \<notin> set (nat_digits n)" for n using nat_digits_digits by (fastforce simp: is_digit_def)
  then have "nat_digits n \<noteq> ''-''" for n by (metis list.set_intros(1))
  then have "itoa pid \<noteq> ''-''" by (auto simp: itoa_def)
  ultimately show ?thesis using itoa_no_newline(3) [of pid]
    by (auto simp: ordinary_def is_digit_def)
qed

lemma GetRoot_abs: "GetRoot pid = abs_path [''proc'', itoa pid, ''root'']"
proof -
  have "list_all ordinary [''proc'', itoa pid, ''root'']" using ordinary_itoa by (simp add: ordinary_def)
  then have "path_clean (abs_path [''proc'', itoa pid, ''root'']) = abs_path [''proc'', itoa pid, ''root'']"
    by (rule path_clean_id)
  then show ?thesis
    using ordinary_itoa [of pid] by (simp add: GetRoot_def path_join_def abs_path_def ordinary_def)
qed

lemma target_inside:
  assumes "list_all ordinary cs"
  shows "inside (GetRoot pid) (target_path pid (abs_path cs))"
proof -
  have "list_all ordinary [''proc'', itoa pid, ''root'']" using ordinary_itoa by (simp add: ordinary_def)
  then show ?thesis
    using assms inside_abs_path [of "[''proc'', itoa pid, ''root'']" cs]
    by (simp only: target_path_def GetRoot_abs path_join_abs list_all_append) simp
qed

definition working_dir :: "'w sidecar_host \<Rightarrow> bool" where
  "working_dir h \<longleftrightarrow> (\<forall>w wd w'. shGetwd h w = (Inr wd, w') \<longrightarrow> path_is_abs wd)"

lemma path_join_is_abs: "path_is_abs wd \<Longrightarrow> \<exists>cs. list_all ordinary cs \<and> path_join [wd, p] = abs_path cs"
proof -
  assume wd: "path_is_abs wd"
  have "path_join [wd, p] = path_clean (if p = [] then wd else wd @ ''/'' @ p)"
    using wd by (simp add: path_join_def path_is_abs_def)
  moreover have "path_is_abs (if p = [] then wd else wd @ ''/'' @ p)" using wd by (simp add: path_is_abs_def)
  ultimately show ?thesis using path_clean_abs by metis
qed

lemma learns_resolve:
  assumes "working_dir h"
  shows "learns name (resolveAbsolutePath h p pid) (\<lambda>l r. \<forall>q. r = Inr q \<longrightarrow> (\<exists>cs. list_all ordinary cs \<and> q = abs_path cs))"
proof -
  have wd: "path_is_abs wd" if "fst (shGetwd h w) = Inr wd" for w wd
    using that assms by (metis working_dir_def prod.collapse)
  have abs: "learns name (filepath_Abs h q) (\<lambda>l r. \<forall>q. r = Inr q \<longrightarrow> (\<exists>cs. list_all ordinary cs \<and> q = abs_path cs))" for q
    unfolding learns_def filepath_Abs_def
    by (intro allI access.keeps_rules access.keeps_call_where [where P = "\<lambda>r. \<forall>wd. r = Inr wd \<longrightarrow> path_is_abs wd"])
       (auto intro!: access.keeps_rules path_clean_abs path_join_is_abs dest: wd simp: grows_def split: sum.splits)
  have cwd: "learns name (GetCwd h pid) (\<lambda>l r. True)"
    unfolding learns_def GetCwd_def Let_def
    by (intro allI access.keeps_rules access.keeps_call) (auto intro!: access.keeps_rules simp: grows_def split: sum.splits)
  show ?thesis unfolding learns_def resolveAbsolutePath_def http_bind_def
    by (intro allI access.keeps_rules learns_use [OF cwd] learns_use [OF abs])
       (auto intro: grows_trans path_clean_abs)
qed

lemma learns_GetUIDGID: "learns name (GetUIDGID h pid) (\<lambda>l r. True)"
  unfolding learns_def GetUIDGID_def Let_def
  by (intro allI access.keeps_rules access.keeps_call) (auto intro!: access.keeps_rules simp: grows_def split: sum.splits)


text \<open>The handlers.\<close>

lemma keeps_mkdirAllChown:
  "dir_of_target name k p \<Longrightarrow>
     accesses name (mkdirAllChown h uid gid p) (\<lambda>r y l. grows k l \<and> sdCommands y = sdCommands x) x k"
proof (induction h uid gid p arbitrary: x k rule: mkdirAllChown.induct)
  case (1 h uid gid p)
  have stat: "grows k (side_learn k (CStat p st))" for st by (rule grows_learn)
  have up: "accesses name (mkdirAllChown h uid gid (path_dir p)) (\<lambda>r y l. grows k l \<and> sdCommands y = sdCommands x) y l"
    if "path_dir p \<noteq> p" "IsNotExist e" "grows k l" "sdCommands y = sdCommands x" for e y l
    by (rule access.keeps_mono [OF "1.IH" [OF refl that(1), of e]])
       (use that "1.prems" in \<open>auto intro: grows_trans dir_of_target_dir dir_of_target_grows\<close>)
  have mk: "accesses name (call_api (shMkdir h p 493) (CMkdir p)) (\<lambda>made. accesses name (case made of
         Inl e' \<Rightarrow> if IsExist e' then returnE () else throwE e'
       | Inr _ \<Rightarrow> call_api (shChown h p uid gid) (\<lambda>_. CChown p uid gid))
      (\<lambda>r y l. grows k l \<and> sdCommands y = sdCommands x)) y l"
    if "grows k l" "sdCommands y = sdCommands x" for y l
    by (intro access.keeps_rules access.keeps_call)
       (use that "1.prems" in \<open>auto intro!: access.keeps_rules access.keeps_call intro: dir_of_target_grows\<close>)
  have examined: "accesses name (call_api (shStat h p) (CStat p)) (\<lambda>r y l. grows k l \<and> y = x) x k"
    by (intro access.keeps_call) (auto simp: stat)
  show ?case
    by (subst mkdirAllChown.simps, unfold Let_def,
        intro access.keeps_rules access.keeps_mono [OF examined] access.keeps_case)
       (auto intro!: mk access.keeps_rules access.keeps_mono [OF up] split: sum.split)
qed


lemma below_root_target:
  "for_container name l pid \<Longrightarrow> grows l m \<Longrightarrow> list_all ordinary cs \<Longrightarrow> below_root name m (target_path pid (abs_path cs))"
  using target_inside for_container_grows unfolding below_root_def by blast

lemma learns_PostFilesystem:
  assumes "working_dir h"
  shows "accesses name (PostFilesystem h p name) (\<lambda>r y l. sdCommands y = sdCommands x) x k"
proof -
  have wr: "accesses name (write_target h target uid gid) (\<lambda>r y l. sdCommands y = sdCommands x) y k"
    if t: "below_root name k target" and y: "sdCommands y = sdCommands x" for target uid gid y k
  proof -
    have dir: "accesses name (mkdirAllChown h uid gid (path_dir target))
        (\<lambda>r z l. grows k l \<and> sdCommands z = sdCommands y) y k"
      by (rule keeps_mkdirAllChown) (use t in \<open>auto intro: dir_of_target_dir dir_of_target_self\<close>)
    have create: "accesses name (call_api (shCreate h target) (CCreate target))
        (\<lambda>r z m. (\<forall>u. r = Inr u \<longrightarrow> grows k m \<and> target \<in> set (skCreated m)) \<and> sdCommands z = sdCommands x) z l"
      if "grows k l" "sdCommands z = sdCommands x" for l z
      using below_root_grows [OF t that(1)] that by (intro access.keeps_call) (auto simp: grows_def)
    have copy: "accesses name (call_api (shCopy h target) (CCopy target))
        (\<lambda>r z m. grows k m \<and> target \<in> set (skCreated m) \<and> sdCommands z = sdCommands x) z l"
      if "grows k l" "target \<in> set (skCreated l)" "sdCommands z = sdCommands x" for l z
      using below_root_grows [OF t that(1)] that by (intro access.keeps_call) auto
    have root: "below_root name l target" if "grows k l" for l using below_root_grows [OF t that] .
    show ?thesis unfolding write_target_def http_bind_def ignoring_def
      by (intro access.keeps_rules access.keeps_mono [OF dir] access.keeps_case)
         (use t y in \<open>auto intro!: access.keeps_rules access.keeps_call access.keeps_mono [OF create]
           access.keeps_mono [OF copy] dir_of_target_self root grows_created split: sum.split\<close>)
  qed
  show ?thesis unfolding PostFilesystem_def http_bind_def
    by (intro access.keeps_rules learns_use [OF learns_FindCachedContainerPID] learns_use [OF learns_resolve [OF assms]]
          learns_use [OF learns_GetUIDGID] access.keeps_case)
       (auto intro!: access.keeps_rules learns_use [OF learns_resolve [OF assms]] wr
         intro: below_root_target grows_trans split: sum.split)
qed


lemma learns_GetFilesystem:
  assumes "working_dir h"
  shows "accesses name (GetFilesystem h p name) (\<lambda>r y l. sdCommands y = sdCommands x) x k"
proof -
  have examine: "accesses name (call_api (shStat h t) (CStat t))
      (\<lambda>r y m. grows l m \<and> sdCommands y = sdCommands z \<and> (\<forall>fi. r = Inr fi \<longrightarrow> (t, fi) \<in> set (skStat m))) z l" for t z l
    by (intro access.keeps_call) (auto simp: grows_learn)
  show ?thesis unfolding GetFilesystem_def http_bind_def Let_def
    by (intro access.keeps_rules learns_use [OF learns_FindCachedContainerPID] learns_use [OF learns_resolve [OF assms]]
          access.keeps_mono [OF examine] access.keeps_case access.keeps_call)
       (auto intro!: access.keeps_rules intro: below_root_target grows_trans split: sum.split)
qed


text \<open>A host with one marked process, for evaluation.\<close>

definition demo_environ :: string where
  "demo_environ = ''HOME=/'' @ [CHR 0x00] @ marker @ ''box'' @ [CHR 0x00]"

definition demo_host :: "unit sidecar_host" where
  "demo_host =
     (let ok = \<lambda>w. (Inr (), w) in
      \<lparr>shReadDir = (\<lambda>p w. (Inr [(''1'', True), (''self'', True), (''7'', True)], w)),
       shReadFile = (\<lambda>p w. (if p = ''/proc/7/environ'' then Inr demo_environ
                             else Inl (OsError ''permission denied''), w)),
       shReadlink = (\<lambda>p w. (Inr ''/work'', w)), shGetwd = (\<lambda>w. (Inr ''/'', w)),
       shStat = (\<lambda>p w. (if p = ''/proc/7/root'' then Inr \<lparr>fiDir = True, fiRegular = False, fiPerm = 493, fiSize = 0\<rparr>
                         else Inl (NotExist p), w)),
       shOwner = (\<lambda>p w. (Inr (1000, 1000), w)), shMkdir = (\<lambda>p m. ok), shMkdirAll = (\<lambda>p m. ok),
       shChown = (\<lambda>p u g. ok), shChmod = (\<lambda>p m. ok), shCreate = (\<lambda>p. ok), shOpen = (\<lambda>p. ok), shSeek = (\<lambda>p n. ok),
       shClose = (\<lambda>p. ok), shCopy = (\<lambda>p. ok), shRemoveAll = (\<lambda>p. ok), shNewID = (\<lambda>w. (''c0ffee'', w)),
       shStdinPipe = ok, shStart = (\<lambda>c. ok)\<rparr>)"

definition demo_sidecar :: "(unit, sidecar, side_call) run" where
  "demo_sidecar = \<lparr>rWorld = (), rCalls = [], rObject = \<lparr>sdCachedPIDs = Map.empty, sdCommands = Map.empty\<rparr>\<rparr>"

lemma demo_working_dir: "working_dir demo_host"
  by (simp add: working_dir_def demo_host_def path_is_abs_def Let_def)


lemmas demo_defs = PostFilesystem_def http_bind_def FindCachedContainerPID_def cached_pid_def FindMarkedPID_def GetContainerName_def
  resolveAbsolutePath_def GetCwd_def filepath_Abs_def GetUIDGID_def write_target_def ignoring_def demo_sidecar_def

lemma demo_answers:
  "shReadDir demo_host p w = (Inr [(''1'', True), (''self'', True), (''7'', True)], w)"
  "shReadFile demo_host p w = (if p = ''/proc/7/environ'' then Inr demo_environ
                             else Inl (OsError ''permission denied''), w)"
  "shReadlink demo_host p w = (Inr ''/work'', w)" "shOwner demo_host p w = (Inr (1000, 1000), w)"
  "shStat demo_host p w = (if p = ''/proc/7/root'' then Inr \<lparr>fiDir = True, fiRegular = False, fiPerm = 493, fiSize = 0\<rparr>
                         else Inl (NotExist p), w)"
  "shMkdir demo_host p m w = (Inr (), w)" "shChown demo_host p u g w = (Inr (), w)" "shChmod demo_host p m w = (Inr (), w)"
  "shCreate demo_host p w = (Inr (), w)" "shCopy demo_host p w = (Inr (), w)" "shClose demo_host p w = (Inr (), w)"
  by (simp_all add: demo_host_def Let_def)

lemma demo_paths:
  "ParseInt ''1'' = Some 1" "ParseInt ''self'' = None" "ParseInt ''7'' = Some 7"
  "environ_path 7 = ''/proc/7/environ''" "environ_path 1 = ''/proc/1/environ''"
  "containerNameFromEnviron demo_environ = Some ''box''"
  "path_is_abs ''../a/f'' = False" "path_join [''/work'', ''../a/f''] = ''/a/f''" "path_is_abs ''/a/f'' = True" "path_clean ''/a/f'' = ''/a/f''"
  "target_path 7 ''/a/f'' = ''/proc/7/root/a/f''" "path_dir ''/proc/7/root/a/f'' = ''/proc/7/root/a''"
  "path_dir ''/proc/7/root/a'' = ''/proc/7/root''" "path_dir ''/proc/7/root'' = ''/proc/7''"
  by code_simp+

lemma demo_mkdir: "wp (mkdirAllChown demo_host 1000 1000 ''/proc/7/root/a'') Q s =
   Q (Inr ()) (s \<lparr>rWorld := (), rCalls := rCalls s @ [CStat ''/proc/7/root/a'' (Inl (NotExist ''/proc/7/root/a'')),
      CStat ''/proc/7/root'' (Inr \<lparr>fiDir = True, fiRegular = False, fiPerm = 493, fiSize = 0\<rparr>),
      CMkdir ''/proc/7/root/a'' (Inr ()), CChown ''/proc/7/root/a'' 1000 1000]\<rparr>)"
  by (subst mkdirAllChown.simps, simp add: demo_answers demo_paths, subst mkdirAllChown.simps, simp add: demo_answers demo_paths)

lemma demo_write:
  "wp (PostFilesystem demo_host ''../a/f'' ''box'') (\<lambda>r t. take 4 (drop 7 (rCalls t)) =
     [CMkdir ''/proc/7/root/a'' (Inr ()), CChown ''/proc/7/root/a'' 1000 1000, CCreate ''/proc/7/root/a/f'' (Inr ()),
      CCopy ''/proc/7/root/a/f'' (Inr ())]) demo_sidecar"
  by (simp add: demo_defs demo_answers demo_paths demo_mkdir Let_def)


end
