(* ===== verification/CommandStream.thy ===== *)
theory CommandStream
  imports HttpUtil
begin

text \<open>
  The output streams of the sidecar, \<open>streamOutput\<close> and its callers in
  \<open>src/internal/sandbox-sidecar/command/command.go\<close>: one loop reads the file a command writes to,
  while the command runs, and sends what it read as Server-Sent Events, until the command has
  exited and the file is at its end. The specification is what the client reads, over all
  interleavings of the loop with the command and with a connection that may break in the middle
  of an event, and what a client reads that resumes with the id it got last.
\<close>


section \<open>Last-Event-ID\<close>

definition parseLastEventID :: "string \<Rightarrow> http_error + int" where
  "parseLastEventID eid =
     (if eid = [] then Inr 0
      else case ParseInt eid of
             None \<Rightarrow> Inl (Error400BadRequest (''invalid Last-Event-ID header '' @ quoted eid))
           | Some off \<Rightarrow>
               if off < 0 then Inl (Error400BadRequest (''invalid Last-Event-ID header '' @ quoted eid @ '': must be non-negative''))
               else Inr off)"

lemma parseLastEventID_itoa:
  assumes "0 \<le> k" "k \<le> max_duration"
  shows "parseLastEventID (itoa k) = Inr k"
proof -
  have i: "itoa k = nat_digits (nat k)" using assms(1) by (simp add: itoa_def)
  have d: "list_all is_digit (nat_digits (nat k))" using nat_digits_digits by (simp add: list_all_iff)
  have "hd (nat_digits (nat k)) \<in> set (nat_digits (nat k))" by simp
  then have "is_digit (hd (nat_digits (nat k)))" by (rule nat_digits_digits)
  then have s: "hd (nat_digits (nat k)) \<noteq> CHR ''-''" "hd (nat_digits (nat k)) \<noteq> CHR ''+''"
    by (auto simp: is_digit_def)
  show ?thesis using assms d s
    by (simp add: parseLastEventID_def ParseInt_def Let_def i min_duration_def)
qed


section \<open>The loop\<close>

definition isClientDisconnect :: "conn_error \<Rightarrow> bool" where
  "isClientDisconnect e \<longleftrightarrow> e = EPIPE \<or> e = ECONNRESET \<or> e = ContextCanceled"

text \<open>
  How the body ends: it returns after the final event, it returns because the client is gone, or
  it aborts the response by a panic.
\<close>

datatype stream_end = StreamFinished | StreamDisconnected | StreamAborted

definition write_failed :: "conn_error \<Rightarrow> stream_end" where
  "write_failed e = (if isClientDisconnect e then StreamDisconnected else StreamAborted)"

text \<open>
  One round of the loop, given what the read of the file returned and, when the loop gets that
  far, which case of the \<open>select\<close> was taken. The loop's variables are \<open>processDone\<close> and the event
  writer over the connection.
\<close>

datatype read_result = ReadBytes string | ReadEOF | ReadFailed
datatype wakeup = WakeDone | WakeCanceled | WakeKeepalive | WakeDefault

definition after_write :: "bool \<Rightarrow> conn_error option \<times> sse_writer \<times> 'w \<Rightarrow> stream_end option \<times> bool \<times> sse_writer \<times> 'w" where
  "after_write processDone r = (case r of (err, st) \<Rightarrow> (map_option write_failed err, processDone, st))"

definition stream_select ::
  "(conn_error, 'w) io_writer \<Rightarrow> wakeup \<Rightarrow> bool \<Rightarrow> sse_writer \<times> 'w \<Rightarrow> stream_end option \<times> bool \<times> sse_writer \<times> 'w" where
  "stream_select io wk processDone st =
     (case wk of
        WakeDone \<Rightarrow> (None, True, st)
      | WakeCanceled \<Rightarrow> (Some StreamDisconnected, processDone, st)
      | WakeKeepalive \<Rightarrow> after_write processDone (WriteKeepalive io st)
      | WakeDefault \<Rightarrow> (None, processDone, st))"

definition stream_round ::
  "(conn_error, 'w) io_writer \<Rightarrow> read_result \<Rightarrow> wakeup \<Rightarrow> bool \<Rightarrow> sse_writer \<times> 'w \<Rightarrow>
     stream_end option \<times> bool \<times> sse_writer \<times> 'w" where
  "stream_round io r wk processDone st =
     (case r of
        ReadBytes d \<Rightarrow> after_write processDone (WriteData io d st)
      | ReadFailed \<Rightarrow> (Some StreamAborted, processDone, st)
      | ReadEOF \<Rightarrow>
          if processDone then
            (case Finish io st of (err, st') \<Rightarrow>
               (Some (case err of None \<Rightarrow> StreamFinished | Some e \<Rightarrow> write_failed e), processDone, st'))
          else stream_select io wk processDone st)"

text \<open>Before the loop a keepalive commits the status of the response.\<close>

definition stream_open ::
  "(conn_error, 'w) io_writer \<Rightarrow> int \<Rightarrow> 'w \<Rightarrow> stream_end option \<times> bool \<times> sse_writer \<times> 'w" where
  "stream_open io off w = after_write False (WriteKeepalive io (NewWriterAtOffset off, w))"


section \<open>The loop among the command, the client and the clock\<close>

text \<open>
  The connection takes a write, or breaks after some of its bytes.
\<close>

definition conn_write :: "(conn_error \<times> nat) option \<Rightarrow> (conn_error, string) io_writer" where
  "conn_write c p out = (case c of None \<Rightarrow> (None, out @ p) | Some (e, n) \<Rightarrow> (Some e, out @ take n p))"

text \<open>
  The command appends to the output file, also through descriptors that outlive it; \<open>waitForExit\<close>
  closes the channel \<open>done\<close>. The handler reads at its own position. A read returns at most a
  buffer of 32 KiB of what is there, never nothing unless it is at the end. Of the \<open>select\<close> the case of
  \<open>done\<close> needs it closed, and the default needs it open. \<open>stAtExit\<close> records the file at the moment
  \<open>done\<close> was closed, and \<open>stFinishing\<close> that the final event was attempted.
\<close>

record stream_sys =
  stFile :: string
  stPos :: nat
  stClosed :: bool
  stAtExit :: string
  stDone :: bool
  stSse :: sse_writer
  stOut :: string
  stEnd :: "stream_end option"
  stFinishing :: bool

definition readable :: "stream_sys \<Rightarrow> read_result \<Rightarrow> bool" where
  "readable s r =
     (case r of
        ReadBytes d \<Rightarrow> d \<noteq> [] \<and> length d \<le> 32 * 1024 \<and> prefix d (drop (stPos s) (stFile s))
      | ReadEOF \<Rightarrow> length (stFile s) \<le> stPos s
      | ReadFailed \<Rightarrow> True)"

definition wakeable :: "stream_sys \<Rightarrow> wakeup \<Rightarrow> bool" where
  "wakeable s wk = (case wk of WakeDone \<Rightarrow> stClosed s | WakeDefault \<Rightarrow> \<not> stClosed s | _ \<Rightarrow> True)"

fun bytes_of :: "read_result \<Rightarrow> string" where
  "bytes_of (ReadBytes d) = d"
| "bytes_of ReadEOF = []"
| "bytes_of ReadFailed = []"

definition after_round :: "stream_sys \<Rightarrow> (conn_error \<times> nat) option \<Rightarrow> read_result \<Rightarrow> wakeup \<Rightarrow> stream_sys" where
  "after_round s c r wk =
     (case stream_round (conn_write c) r wk (stDone s) (stSse s, stOut s) of (e, processDone, sse, out) \<Rightarrow>
        s \<lparr>stPos := stPos s + length (bytes_of r), stDone := processDone, stSse := sse, stOut := out, stEnd := e,
           stFinishing := stFinishing s \<or> r = ReadEOF \<and> stDone s\<rparr>)"

definition stream_started :: "(conn_error \<times> nat) option \<Rightarrow> nat \<Rightarrow> string \<Rightarrow> bool \<Rightarrow> stream_sys" where
  "stream_started c off content closed =
     (case stream_open (conn_write c) (int off) [] of (e, processDone, sse, out) \<Rightarrow>
        \<lparr>stFile = content, stPos = off, stClosed = closed, stAtExit = content, stDone = processDone,
         stSse = sse, stOut = out, stEnd = e, stFinishing = False\<rparr>)"

inductive stream_step :: "stream_sys \<Rightarrow> stream_sys \<Rightarrow> bool" where
  appends: "stream_step s (s \<lparr>stFile := stFile s @ d\<rparr>)"
| closes: "\<not> stClosed s \<Longrightarrow> stream_step s (s \<lparr>stClosed := True, stAtExit := stFile s\<rparr>)"
| rounds: "stEnd s = None \<Longrightarrow> readable s r \<Longrightarrow> wakeable s wk \<Longrightarrow> stream_step s (after_round s c r wk)"

inductive stream_run :: "nat \<Rightarrow> string \<Rightarrow> stream_sys \<Rightarrow> bool" for off content where
  started: "stream_run off content (stream_started c off content closed)"
| moves: "stream_run off content s \<Longrightarrow> stream_step s t \<Longrightarrow> stream_run off content t"

inductive_cases stream_stepE: "stream_step s t"


section \<open>What reaches the client\<close>

text \<open>A write of the event writer is one event or nothing, whatever the connection makes of it.\<close>

definition data_event :: "string \<Rightarrow> sse_writer \<Rightarrow> string option \<times> sse_writer" where
  "data_event d w = (case WriteData to_buffer d (w, []) of (_, w', out) \<Rightarrow> (if out = [] then None else Some out, w'))"

lemma writeID_not_Nil: "writeID k \<noteq> []"
  by (simp add: writeID_def)

lemma WriteData_event:
  "WriteData io d (w, out) =
     (case data_event d w of
        (None, w') \<Rightarrow> (None, w', out)
      | (Some ev, w') \<Rightarrow> (case io ev out of (err, out') \<Rightarrow> (err, w', out')))"
  by (simp add: data_event_def WriteData_def to_buffer_def Let_def writeID_not_Nil)

lemma data_event_render: "data_event d w = (Some ev, w') \<Longrightarrow> \<exists>t k. ev = render [Ev t k]"
  by (auto simp: data_event_def WriteData_def to_buffer_def Let_def render_Ev split: if_splits)

lemma sse_step_event:
  "sse_step (w, out) (SseData d) =
     (case data_event d w of (None, w') \<Rightarrow> (w', out) | (Some ev, w') \<Rightarrow> (w', out @ ev))"
  by (simp add: sse_step_def WriteData_event to_buffer_def split: prod.splits option.splits)

text \<open>An event that was cut off is no event.\<close>

definition unfinished :: "string \<Rightarrow> bool" where
  "unfinished part \<longleftrightarrow> (\<exists>i n. part = take n (render [i]) \<and> n < length (render [i]))"

lemma take_lines:
  "n < length (concat (map (\<lambda>l. l @ newline) ls)) \<Longrightarrow>
     \<exists>m j. m < length ls \<and> take n (concat (map (\<lambda>l. l @ newline) ls)) =
       concat (map (\<lambda>l. l @ newline) (take m ls)) @ take j (ls ! m)"
proof (induction ls arbitrary: n)
  case (Cons l ls)
  show ?case
  proof (cases "n \<le> length l")
    case True
    then show ?thesis by (intro exI [of _ 0] exI [of _ n]) simp
  next
    case False
    then have "n - Suc (length l) < length (concat (map (\<lambda>l. l @ newline) ls))"
      using Cons.prems by (simp add: newline_def)
    from Cons.IH [OF this] obtain m j where m: "m < length ls"
        "take (n - Suc (length l)) (concat (map (\<lambda>l. l @ newline) ls)) =
         concat (map (\<lambda>l. l @ newline) (take m ls)) @ take j (ls ! m)" by blast
    then show ?thesis using False
      by (intro exI [of _ "Suc m"] exI [of _ j]) (simp add: newline_def take_Cons')
  qed
qed simp

lemma client_items_rest:
  "\<exists>eid'. client_lines [] (concat (map item_lines items) @ rest) eid =
     concat (map item_event items) @ client_lines [] rest eid'"
proof (induction items arbitrary: eid)
  case (Cons i items)
  show ?case
  proof (cases i)
    case (Ev t k)
    have id: "field (''id: '' @ itoa k) = (''id'', itoa k)"
      using itoa_no_newline(3) [of k] by (simp add: field_def str_cut_def)
    have "text_lines t \<noteq> []" "str_join newline (text_lines t) = norm_lines t"
      by (simp_all add: text_lines_def newline_def str_join_split_char)
    then show ?thesis using Cons [of "itoa k"] Ev id by (auto simp: client_data)
  next
    case Keep
    then show ?thesis using Cons by simp
  qed
qed auto

lemma client_part: "m < length (item_lines i) \<Longrightarrow> client_lines [] (take m (item_lines i)) eid = []"
proof (cases i)
  case (Ev t k)
  have id: "field (''id: '' @ itoa k) = (''id'', itoa k)"
    using itoa_no_newline(3) [of k] by (simp add: field_def str_cut_def)
  assume "m < length (item_lines i)"
  then consider "m \<le> length (text_lines t)" | "m = Suc (length (text_lines t))" using Ev by force
  then show ?thesis
  proof cases
    case 1
    then have "take m (item_lines i) = map (\<lambda>l. ''data: '' @ l) (take m (text_lines t)) @ []"
      using Ev by (simp add: take_map)
    then show ?thesis by (simp only: client_data) simp
  next
    case 2
    then have "take m (item_lines i) = map (\<lambda>l. ''data: '' @ l) (text_lines t) @ [''id: '' @ itoa k]"
      using Ev by simp
    then have "client_lines [] (take m (item_lines i)) eid = client_lines ([] @ text_lines t) [''id: '' @ itoa k] eid"
      by (simp only: client_data)
    then show ?thesis using id by simp
  qed
next
  case Keep
  assume "m < length (item_lines i)"
  then show ?thesis using Keep by (cases m) (auto simp: take_Cons' split: if_splits)
qed

lemma client_unfinished:
  assumes "unfinished part"
  shows "sse_client (render items @ part) = concat (map item_event items)"
proof -
  obtain i n where part: "part = take n (render [i])" "n < length (render [i])"
    using assms by (auto simp: unfinished_def)
  have r: "render [i] = concat (map (\<lambda>l. l @ newline) (item_lines i))" by (simp add: render_def)
  obtain m j where m: "m < length (item_lines i)"
      "part = concat (map (\<lambda>l. l @ newline) (take m (item_lines i))) @ take j (item_lines i ! m)"
    using take_lines [of n "item_lines i"] part unfolding r by auto
  let ?ls = "concat (map item_lines items) @ take m (item_lines i)"
  let ?r = "take j (item_lines i ! m)"
  have out: "render items @ part = concat (map (\<lambda>l. l @ newline) ?ls) @ ?r"
    using m(2) by (simp add: render_def)
  have clean: "CHR 0x0A \<notin> set l \<and> CHR 0x0D \<notin> set l" if "l \<in> set ?ls" for l
    using that item_lines_clean set_take_subset by fastforce
  have "item_lines i ! m \<in> set (item_lines i)" using m(1) by simp
  then have r': "CHR 0x0A \<notin> set ?r" "CHR 0x0D \<notin> set ?r"
    using item_lines_clean [of "item_lines i ! m" i] set_take_subset by fastforce+
  have "CHR 0x0D \<notin> set (render items @ part)"
    unfolding out using clean r'(2) by (auto simp: newline_def)
  then have n: "norm_lines (render items @ part) = render items @ part" by (rule norm_lines_id)
  have "split_char CHR 0x0A (concat (map (\<lambda>l. l @ newline) ls) @ ?r) = ls @ [?r]"
    if "\<forall>l \<in> set ls. CHR 0x0A \<notin> set l" for ls
    using that r'(1) by (induction ls) (simp_all add: newline_def split_char_append_sep split_char_single)
  then have "split_char CHR 0x0A (render items @ part) = ?ls @ [?r]" unfolding out using clean by blast
  then have "sse_client (render items @ part) = client_lines [] ?ls []"
    by (simp only: sse_client_def n butlast_snoc)
  then show ?thesis
    using client_items_rest [of items "take m (item_lines i)" "[]"] client_part [OF m(1)] by auto
qed


text \<open>
  What holds of a stream: the bytes \<open>D\<close> before the reader's position, of which the writer has taken
  the bytes \<open>D'\<close>; what the connection got of the writer's events, the last of which may be cut off
  once the stream has ended; and, when it ended with the final event, the file \<open>F\<close> whose text was sent.
\<close>

definition sending :: "nat \<Rightarrow> string \<Rightarrow> stream_sys \<Rightarrow> bool" where
  "sending off D s \<longleftrightarrow> (\<exists>D' E P items w part. prefix D' D \<and>
     sse_inv (int off) D' E P items (w, render items) \<and> stOut s = render items @ part \<and>
     (part = [] \<or> unfinished part) \<and>
     (stEnd s = None \<longrightarrow> D' = D \<and> part = [] \<and> stSse s = w))"

definition complete_for :: "nat \<Rightarrow> string \<Rightarrow> stream_sys \<Rightarrow> bool" where
  "complete_for off content s \<longleftrightarrow> (\<exists>F. prefix content F \<and> prefix (stAtExit s) F \<and> prefix F (stFile s) \<and>
     text_of (sse_client (stOut s)) = norm_lines (stream_text (drop off F)))"

definition stream_inv :: "nat \<Rightarrow> string \<Rightarrow> stream_sys \<Rightarrow> bool" where
  "stream_inv off content s \<longleftrightarrow>
     prefix content (stFile s) \<and> prefix (stAtExit s) (stFile s) \<and> (stDone s \<longrightarrow> stClosed s) \<and>
     (stFinishing s \<longrightarrow> stDone s \<and> stEnd s \<noteq> None) \<and>
     (\<exists>D. stPos s = off + length D \<and> prefix D (drop off (stFile s)) \<and> (\<not> stFinishing s \<longrightarrow> sending off D s)) \<and>
     (stEnd s = Some StreamFinished \<longrightarrow> stFinishing s \<and> complete_for off content s)"

lemma sendingI:
  "prefix D' D \<Longrightarrow> sse_inv (int off) D' E P items (w, render items) \<Longrightarrow> stOut s = render items @ part \<Longrightarrow>
     part = [] \<or> unfinished part \<Longrightarrow> (stEnd s = None \<longrightarrow> D' = D \<and> part = [] \<and> stSse s = w) \<Longrightarrow> sending off D s"
  unfolding sending_def by (rule exI [of _ D'], rule exI [of _ E], rule exI [of _ P], rule exI [of _ items],
      rule exI [of _ w], rule exI [of _ part]) simp

lemma conn_write_item:
  assumes "conn_write c (render [i]) (render items) = (err, out)"
  shows "(err = None \<longrightarrow> out = render (items @ [i])) \<and>
    (out = render (items @ [i]) \<or> (\<exists>part. out = render items @ part \<and> unfinished part))"
proof (cases c)
  case None
  then show ?thesis using assms by (simp add: conn_write_def render_append)
next
  case (Some en)
  then obtain e n where c: "c = Some (e, n)" by (cases en) auto
  show ?thesis
  proof (cases "n < length (render [i])")
    case True
    then have "unfinished (take n (render [i]))" unfolding unfinished_def by blast
    then show ?thesis using assms c by (auto simp: conn_write_def)
  next
    case False
    then show ?thesis using assms c by (auto simp: conn_write_def render_append)
  qed
qed

lemma after_round_frame:
  "stFile (after_round s c r wk) = stFile s" "stAtExit (after_round s c r wk) = stAtExit s"
  "stClosed (after_round s c r wk) = stClosed s" "stPos (after_round s c r wk) = stPos s + length (bytes_of r)"
  by (simp_all add: after_round_def split: prod.splits)

lemma sending_keep:
  assumes inv: "sse_inv (int off) D E P items (w, render items)"
    and wr: "WriteKeepalive (conn_write c) (w, render items) = (err, w', out)"
    and s: "stSse s = w'" "stOut s = out" "stEnd s = map_option write_failed err"
  shows "sending off D s"
proof -
  obtain out' where k: "conn_write c (render [Keep]) (render items) = (err, out')" "out = out'" "w' = w"
    using wr by (auto simp: WriteKeepalive_def render_Keep split: prod.splits)
  have keep: "sse_inv (int off) D E P (items @ [Keep]) (w, render (items @ [Keep]))"
    using sse_inv_keep [OF inv] by (simp add: sse_step_def WriteKeepalive_def to_buffer_def render_append render_Keep)
  note cw = conn_write_item [OF k(1)]
  then consider "out = render (items @ [Keep])" | part where "out = render items @ part" "unfinished part" "err \<noteq> None"
    using k(2) by auto
  then show ?thesis
  proof cases
    case 1
    then show ?thesis using keep s k
      by (intro sendingI [of D _ off E P "items @ [Keep]" w s "[]"]) simp_all
  next
    case (2 part)
    then show ?thesis using inv s
      by (intro sendingI [of D _ off E P items w s part]) auto
  qed
qed

lemma sending_data:
  assumes inv: "sse_inv (int off) D E P items (w, render items)"
    and size: "int off + int (length (D @ d)) \<le> max_duration"
    and wr: "WriteData (conn_write c) d (w, render items) = (err, w', out)"
    and s: "stSse s = w'" "stOut s = out" "stEnd s = map_option write_failed err"
  shows "sending off (D @ d) s"
proof -
  obtain E' P' items' where new: "sse_inv (int off) (D @ d) E' P' items' (sse_step (w, render items) (SseData d))"
    using sse_inv_data [OF inv _ size] by auto
  obtain eo w1 where ev: "data_event d w = (eo, w1)" by (cases "data_event d w")
  show ?thesis
  proof (cases eo)
    case None
    then have "sse_step (w, render items) (SseData d) = (w1, render items)" "err = None" "w' = w1" "out = render items"
      using ev wr by (simp_all add: sse_step_event WriteData_event)
    moreover from this(1) have "render items' = render items" using new by (simp add: sse_inv_def)
    ultimately show ?thesis unfolding sending_def using new s
      by (intro exI [of _ "D @ d"] exI [of _ E'] exI [of _ P'] exI [of _ items'] exI [of _ w1] exI [of _ "[]"]) simp
  next
    case (Some e)
    then obtain t k where i: "e = render [Ev t k]" using ev data_event_render by blast
    have st: "sse_step (w, render items) (SseData d) = (w1, render (items @ [Ev t k]))"
      using ev Some i by (simp add: sse_step_event render_append)
    then have r: "render items' = render (items @ [Ev t k])" using new by (simp add: sse_inv_def)
    have k: "conn_write c (render [Ev t k]) (render items) = (err, out)" "w' = w1"
      using wr ev Some i by (auto simp: WriteData_event split: prod.splits)
    from conn_write_item [OF k(1)] consider "out = render (items @ [Ev t k])"
      | part where "out = render items @ part" "unfinished part" "err \<noteq> None" by auto
    then show ?thesis
    proof cases
      case 1
      then show ?thesis using new s k r st
      by (intro sendingI [of "D @ d" _ off E' P' items' w1 s "[]"]) simp_all
    next
      case (2 part)
      then show ?thesis using inv s
      by (intro sendingI [of D _ off E P items w s part]) auto
    qed
  qed
qed

lemma stream_inv_start: "stream_inv off content (stream_started c off content closed)"
proof -
  let ?s = "stream_started c off content closed"
  obtain err w out where wr: "WriteKeepalive (conn_write c) (NewWriterAtOffset (int off), []) = (err, w, out)"
    by (cases "WriteKeepalive (conn_write c) (NewWriterAtOffset (int off), [])") auto
  have s: "stSse ?s = w" "stOut ?s = out" "stEnd ?s = map_option write_failed err" "\<not> stFinishing ?s" "\<not> stDone ?s"
      "stPos ?s = off" "stFile ?s = content" "stAtExit ?s = content"
    using wr by (simp_all add: stream_started_def stream_open_def after_write_def)
  have nil: "render [] = []" by (simp add: render_def)
  have "sending off [] ?s"
    using sending_keep [of off "[]" "[]" "[]" "[]" "NewWriterAtOffset (int off)" c err w out ?s] sse_inv_start [of "int off"] wr s
    by (simp add: nil)
  moreover have "stEnd ?s \<noteq> Some StreamFinished" using s by (auto simp: write_failed_def split: option.splits)
  ultimately show ?thesis using s by (simp add: stream_inv_def)
qed


lemma sendingE:
  assumes "sending off D s" "stEnd s = None"
  obtains E P items where "sse_inv (int off) D E P items (stSse s, render items)" "stOut s = render items"
  using assms by (auto simp: sending_def)

text \<open>Reading on, at the reader's position.\<close>

lemma prefix_read:
  assumes "prefix D (drop off F)" "prefix d (drop (off + length D) F)"
  shows "prefix (D @ d) (drop off F)"
proof -
  obtain r where r: "drop off F = D @ r" using assms(1) by (auto elim: prefixE)
  have "drop (off + length D) F = r" using arg_cong [OF r, of "drop (length D)"] by (simp add: add.commute)
  then show ?thesis using assms(2) r by simp
qed

lemma position_bound:
  assumes "prefix D (drop off F)" "int (max off (length F)) \<le> m"
  shows "int off + int (length D) \<le> m"
proof -
  have "length D \<le> length F - off" using prefix_length_le [OF assms(1)] by simp
  then show ?thesis using assms(2) by (simp add: max_def split: if_splits)
qed

lemma stream_inv_bytes:
  assumes inv: "stream_inv off content s" and live: "stEnd s = None" and rd: "readable s (ReadBytes d)"
    and size: "int (max off (length (stFile s))) \<le> max_duration"
  shows "stream_inv off content (after_round s c (ReadBytes d) wk)"
proof -
  let ?t = "after_round s c (ReadBytes d) wk"
  obtain D where D: "stPos s = off + length D" "prefix D (drop off (stFile s))" "sending off D s" "\<not> stFinishing s"
    using inv live by (auto simp: stream_inv_def)
  obtain E P items where st: "sse_inv (int off) D E P items (stSse s, render items)" "stOut s = render items"
    using sendingE [OF D(3) live] .
  obtain err w out where wr: "WriteData (conn_write c) d (stSse s, render items) = (err, w, out)"
    by (cases "WriteData (conn_write c) d (stSse s, render items)") auto
  have t: "stSse ?t = w" "stOut ?t = out" "stEnd ?t = map_option write_failed err" "\<not> stFinishing ?t" "stDone ?t = stDone s"
    using wr st(2) D(4) by (simp_all add: after_round_def stream_round_def after_write_def)
  have pre: "prefix (D @ d) (drop off (stFile s))" using prefix_read [OF D(2)] rd D(1) by (simp add: readable_def)
  then have "sending off (D @ d) ?t" by (rule sending_data [OF st(1) position_bound [OF _ size] wr t(1-3)])
  moreover have "stEnd ?t \<noteq> Some StreamFinished" using t(3) by (auto simp: write_failed_def)
  ultimately show ?thesis using inv pre D(1) t(4,5)
    by (simp add: stream_inv_def after_round_frame) (metis length_append add.assoc)
qed

lemma sending_frame:
  assumes s: "sending off D s" and t: "stSse t = stSse s" "stOut t = stOut s" "stEnd t = None \<longrightarrow> stEnd s = None"
  shows "sending off D t"
  using s unfolding sending_def [of off D s]
proof (elim exE conjE)
  fix D' E P items w part
  assume "prefix D' D" "sse_inv (int off) D' E P items (w, render items)" "stOut s = render items @ part"
    "part = [] \<or> unfinished part" "stEnd s = None \<longrightarrow> D' = D \<and> part = [] \<and> stSse s = w"
  then show ?thesis using t by (intro sendingI [of D' D off E P items w t part]) simp_all
qed

lemma prefix_length_eq: "prefix u v \<Longrightarrow> length v \<le> length u \<Longrightarrow> u = v"
  by (auto elim!: prefixE)

lemma stream_inv_eof_waiting:
  assumes inv: "stream_inv off content s" and live: "stEnd s = None" and wk: "wakeable s wk" and nd: "\<not> stDone s"
  shows "stream_inv off content (after_round s c ReadEOF wk)"
proof -
  let ?t = "after_round s c ReadEOF wk"
  obtain D where D: "stPos s = off + length D" "prefix D (drop off (stFile s))" "sending off D s" "\<not> stFinishing s"
    using inv live by (auto simp: stream_inv_def)
  have nf: "\<not> stFinishing ?t" using D(4) nd by (simp add: after_round_def split: prod.splits)
  show ?thesis
  proof (cases "wk = WakeKeepalive")
    case True
    obtain E P items where st: "sse_inv (int off) D E P items (stSse s, render items)" "stOut s = render items"
      using sendingE [OF D(3) live] .
    obtain err w out where wr: "WriteKeepalive (conn_write c) (stSse s, render items) = (err, w, out)"
      by (cases "WriteKeepalive (conn_write c) (stSse s, render items)") auto
    have t: "stSse ?t = w" "stOut ?t = out" "stEnd ?t = map_option write_failed err" "stDone ?t = stDone s"
      using wr st(2) D(4) nd True by (simp_all add: after_round_def stream_round_def stream_select_def after_write_def)
    moreover have "stEnd ?t \<noteq> Some StreamFinished" using t(3) by (auto simp: write_failed_def)
    ultimately show ?thesis using inv nf D sending_keep [OF st(1) wr t(1-3)]
      by (auto simp: stream_inv_def after_round_frame)
  next
    case False
    then have t: "stSse ?t = stSse s" "stOut ?t = stOut s" "stEnd ?t \<noteq> Some StreamFinished" "stDone ?t \<longrightarrow> stClosed s"
      using wk nd by (cases wk; simp add: after_round_def stream_round_def stream_select_def wakeable_def)+
    have "sending off D ?t" using sending_frame [OF D(3) t(1,2)] live by blast
    then show ?thesis using inv nf D t by (auto simp: stream_inv_def after_round_frame)
  qed
qed

lemma stream_inv_eof_finishing:
  assumes inv: "stream_inv off content s" and live: "stEnd s = None" and rd: "readable s ReadEOF" and dn: "stDone s"
    and size: "int (max off (length (stFile s))) \<le> max_duration"
  shows "stream_inv off content (after_round s c ReadEOF wk)"
proof -
  let ?t = "after_round s c ReadEOF wk"
  obtain D where D: "stPos s = off + length D" "prefix D (drop off (stFile s))" "sending off D s" "\<not> stFinishing s"
    using inv live by (auto simp: stream_inv_def)
  have "length (drop off (stFile s)) \<le> length D" using rd D(1) by (simp add: readable_def)
  then have whole: "D = drop off (stFile s)" using D(2) prefix_length_eq by blast
  obtain E P items where st: "sse_inv (int off) D E P items (stSse s, render items)" "stOut s = render items"
    using sendingE [OF D(3) live] .
  obtain err w out where wr: "Finish (conn_write c) (stSse s, stOut s) = (err, w, out)"
    by (cases "Finish (conn_write c) (stSse s, stOut s)") auto
  have t: "stFinishing ?t" "stDone ?t" "stOut ?t = out"
      "stEnd ?t = Some (case err of None \<Rightarrow> StreamFinished | Some e \<Rightarrow> write_failed e)"
    using dn wr by (simp_all add: after_round_def stream_round_def)
  have "complete_for off content ?t" if "stEnd ?t = Some StreamFinished"
  proof -
    have "err = None" using that t(4) by (cases err) (auto simp: write_failed_def split: if_splits)
    then have "out = finished (stSse s, stOut s)"
      using wr by (auto simp: finished_def Finish_def conn_write_def to_buffer_def Let_def split: if_splits option.splits prod.splits)
    then have "text_of (sse_client out) = norm_lines (stream_text D)"
      using sse_inv_finished [OF st(1) _ position_bound [OF D(2) size]] st(2) whole by auto
    then show ?thesis unfolding complete_for_def using inv t(3) whole
      by (intro exI [of _ "stFile s"]) (simp add: stream_inv_def after_round_frame)
  qed
  then show ?thesis using inv dn t D(1,2) by (auto simp: stream_inv_def after_round_frame)
qed

lemma stream_inv_step:
  assumes step: "stream_step s t" and inv: "stream_inv off content s"
    and size: "int (max off (length (stFile s))) \<le> max_duration"
  shows "stream_inv off content t"
  using step
proof (cases rule: stream_step.cases)
  case (appends d)
  have "prefix D (drop off (stFile s @ d))" if "prefix D (drop off (stFile s))" for D
    using that by (simp add: prefix_prefix)
  moreover have "sending off D t" if "sending off D s" for D
    using that appends by (simp add: sending_def)
  moreover have "complete_for off content t" if "complete_for off content s"
    using that appends unfolding complete_for_def by (auto simp: prefix_prefix)
  ultimately show ?thesis using inv appends unfolding stream_inv_def by (auto simp: prefix_prefix)
next
  case closes
  have "sending off D t" if "sending off D s" for D using that closes by (simp add: sending_def)
  moreover have "stEnd s \<noteq> Some StreamFinished" using inv closes by (auto simp: stream_inv_def)
  ultimately show ?thesis using inv closes unfolding stream_inv_def by auto
next
  case (rounds r wk c)
  show ?thesis
  proof (cases r)
    case (ReadBytes d)
    then show ?thesis using stream_inv_bytes [OF inv rounds(2) _ size] rounds by simp
  next
    case ReadEOF
    then show ?thesis using stream_inv_eof_finishing [OF inv rounds(2) _ _ size]
        stream_inv_eof_waiting [OF inv rounds(2)] rounds by (cases "stDone s") auto
  next
    case ReadFailed
    then have t: "stSse t = stSse s" "stOut t = stOut s" "stEnd t = Some StreamAborted" "stDone t = stDone s"
        "\<not> stFinishing t" "stFile t = stFile s" "stAtExit t = stAtExit s" "stPos t = stPos s" "stClosed t = stClosed s"
      using rounds inv by (auto simp: after_round_def stream_round_def stream_inv_def)
    then show ?thesis using inv rounds(2) sending_frame [of off _ s t] by (auto simp: stream_inv_def)
  qed
qed

lemma stream_step_grows: "stream_step s t \<Longrightarrow> prefix (stFile s) (stFile t)"
  by (erule stream_stepE) (simp_all add: after_round_frame)

lemma stream_run_inv:
  "stream_run off content s \<Longrightarrow> int (max off (length (stFile s))) \<le> max_duration \<Longrightarrow> stream_inv off content s"
proof (induction rule: stream_run.induct)
  case (started c closed)
  show ?case by (rule stream_inv_start)
next
  case (moves s t)
  have "length (stFile s) \<le> length (stFile t)" using stream_step_grows [OF moves(2)] by (rule prefix_length_le)
  then show ?case using moves stream_inv_step [OF moves(2)] by simp
qed


section \<open>The properties\<close>

text \<open>
  C27. When the body of an output stream ends with its final event, the client has read the whole
  output: the text of the file from the offset it asked for, the file being at least what it was
  when the command was known to have exited, however reads, keepalives and the command's writes
  fell. Nothing is lost between the last read and the exit.
\<close>

theorem stream_complete:
  assumes "stream_run off content s" "stEnd s = Some StreamFinished"
    and "int (max off (length (stFile s))) \<le> max_duration"
  shows "stClosed s \<and> (\<exists>F. prefix content F \<and> prefix (stAtExit s) F \<and> prefix F (stFile s) \<and>
    text_of (sse_client (stOut s)) = norm_lines (stream_text (drop off F)))"
  using stream_run_inv [OF assms(1,3)] assms(2) by (auto simp: stream_inv_def complete_for_def)

definition demo_stream :: "nat \<Rightarrow> stream_sys" where
  "demo_stream n =
     (let s0 = stream_started None 1 ''hi'' False;
          s1 = after_round s0 None (ReadBytes ''i'') WakeDefault;
          s2 = s1 \<lparr>stFile := ''hi!''\<rparr>;
          s3 = s2 \<lparr>stClosed := True, stAtExit := ''hi!''\<rparr>;
          s4 = after_round s3 None (ReadBytes ''!'') WakeDone;
          s5 = after_round s4 None ReadEOF WakeDone;
          s6 = after_round s5 None ReadEOF WakeDone in [s0, s1, s2, s3, s4, s5, s6] ! n)"

lemma demo_states:
  "demo_stream 0 = stream_started None 1 ''hi'' False"
  "demo_stream 1 = after_round (demo_stream 0) None (ReadBytes ''i'') WakeDefault"
  "demo_stream 2 = (demo_stream 1) \<lparr>stFile := ''hi!''\<rparr>"
  "demo_stream 3 = (demo_stream 2) \<lparr>stClosed := True, stAtExit := ''hi!''\<rparr>"
  "demo_stream 4 = after_round (demo_stream 3) None (ReadBytes ''!'') WakeDone"
  "demo_stream 5 = after_round (demo_stream 4) None ReadEOF WakeDone"
  "demo_stream 6 = after_round (demo_stream 5) None ReadEOF WakeDone"
  by (simp_all add: demo_stream_def Let_def nth_Cons')

lemma demo_facts:
  "stEnd (demo_stream 0) = None \<and> readable (demo_stream 0) (ReadBytes ''i'') \<and> wakeable (demo_stream 0) WakeDefault"
  "stFile (demo_stream 1) = ''hi'' \<and> \<not> stClosed (demo_stream 2) \<and> stFile (demo_stream 2) = ''hi!''"
  "stEnd (demo_stream 3) = None \<and> readable (demo_stream 3) (ReadBytes ''!'') \<and> wakeable (demo_stream 3) WakeDone"
  "stEnd (demo_stream 4) = None \<and> readable (demo_stream 4) ReadEOF \<and> wakeable (demo_stream 4) WakeDone"
  "stEnd (demo_stream 5) = None \<and> readable (demo_stream 5) ReadEOF \<and> wakeable (demo_stream 5) WakeDone"
  "stEnd (demo_stream 6) = Some StreamFinished \<and> stFile (demo_stream 6) = ''hi!'' \<and> stAtExit (demo_stream 6) = ''hi!''"
  by code_simp+

lemma demo_run: "stream_run 1 ''hi'' (demo_stream 6)" "stream_run 1 ''hi'' (demo_stream 1)"
proof -
  have "stream_run 1 ''hi'' (demo_stream 0)" unfolding demo_states(1) by (rule stream_run.started)
  then have r1: "stream_run 1 ''hi'' (demo_stream 1)"
    unfolding demo_states(2) using stream_step.rounds demo_facts(1) by (blast intro: stream_run.moves)
  have "stream_step (demo_stream 1) (demo_stream 2)"
    using stream_step.appends [of "demo_stream 1" "''!''"] demo_facts(2) by (simp add: demo_states(3))
  with r1 have "stream_run 1 ''hi'' (demo_stream 2)" by (rule stream_run.moves)
  moreover have "stream_step (demo_stream 2) (demo_stream 3)"
    using stream_step.closes [of "demo_stream 2"] demo_facts(2) by (simp add: demo_states(4))
  ultimately have "stream_run 1 ''hi'' (demo_stream 3)" by (rule stream_run.moves)
  then have "stream_run 1 ''hi'' (demo_stream 4)"
    unfolding demo_states(5) using stream_step.rounds demo_facts(3) by (blast intro: stream_run.moves)
  then have "stream_run 1 ''hi'' (demo_stream 5)"
    unfolding demo_states(6) using stream_step.rounds demo_facts(4) by (blast intro: stream_run.moves)
  then show "stream_run 1 ''hi'' (demo_stream 6)"
    unfolding demo_states(7) using stream_step.rounds demo_facts(5) by (blast intro: stream_run.moves)
  show "stream_run 1 ''hi'' (demo_stream 1)" by (rule r1)
qed

theorem stream_complete_witness:
  "text_of (sse_client (stOut (demo_stream 6))) = norm_lines (stream_text ''i!'')"
proof -
  have size: "int (max 1 (length (stFile (demo_stream 6)))) \<le> max_duration"
    using demo_facts(6) by (simp add: max_duration_def)
  have e: "stEnd (demo_stream 6) = Some StreamFinished" using demo_facts(6) by blast
  obtain F where F: "prefix ''hi!'' F" "prefix F ''hi!''"
      "text_of (sse_client (stOut (demo_stream 6))) = norm_lines (stream_text (drop 1 F))"
    using stream_complete [OF demo_run(1) e size] demo_facts(6) by auto
  then have "F = ''hi!''" by (simp add: prefix_order.antisym)
  with F(3) show ?thesis by simp
qed

lemma stream_inv_resume:
  assumes inv: "stream_inv off content s" and nf: "\<not> stFinishing s"
    and ev: "sse_client (stOut s) = evs @ [ev]"
  shows "\<exists>E R. drop off (stFile s) = E @ R \<and> snd ev = itoa (int off + int (length E)) \<and>
    text_of (evs @ [ev]) = norm_lines (sanitize_loop E) \<and> (\<forall>x. cuts E (R @ x)) \<and> (\<forall>x. joins E (R @ x))"
proof -
  obtain D where D: "prefix D (drop off (stFile s))" "sending off D s"
    using inv nf by (auto simp: stream_inv_def)
  from D(2) show ?thesis unfolding sending_def
  proof (elim exE conjE)
    fix D' E P items w part
    assume h: "prefix D' D" "sse_inv (int off) D' E P items (w, render items)" "stOut s = render items @ part"
      "part = [] \<or> unfinished part"
    have evs: "concat (map item_event items) = evs @ [ev]"
      using h(3,4) ev client_unfinished [of part items] sse_client_render [of items] by auto
    obtain R where R: "drop off (stFile s) = D' @ R" using h(1) D(1) by (auto elim!: prefixE)
    show ?thesis using h(2) R evs unfolding sse_inv_def
      by (intro exI [of _ E] exI [of _ "P @ R"]) (simp add: append.assoc)
  qed
qed



inductive stream_rounds :: "stream_sys \<Rightarrow> nat \<Rightarrow> nat \<Rightarrow> stream_sys \<Rightarrow> bool" where
  none: "stream_rounds s 0 0 s"
| one: "stream_rounds s n k t \<Longrightarrow> stEnd t = None \<Longrightarrow> readable t r \<Longrightarrow> wakeable t wk \<Longrightarrow>
    stream_rounds s (Suc n) (if r = ReadEOF \<and> wk = WakeKeepalive then Suc k else k) (after_round t c r wk)"

definition rounds_left :: "stream_sys \<Rightarrow> nat" where
  "rounds_left s = (if stEnd s \<noteq> None then 0 else length (stFile s) - stPos s + (if stDone s then 1 else 2))"

lemma after_round_left:
  assumes "stEnd t = None" "readable t r" "wakeable t wk" "stClosed t"
  shows "Suc (rounds_left (after_round t c r wk)) \<le> rounds_left t + (if r = ReadEOF \<and> wk = WakeKeepalive then 1 else 0)"
proof (cases r)
  case (ReadBytes d)
  have d: "d \<noteq> []" "length d \<le> length (stFile t) - stPos t"
    using assms(2) ReadBytes prefix_length_le [of d "drop (stPos t) (stFile t)"] by (simp_all add: readable_def)
  then have "0 < length d" by simp
  then have "length (stFile t) - (stPos t + length d) < length (stFile t) - stPos t" using d(2) by linarith
  then show ?thesis using assms(1) ReadBytes
    by (auto simp: rounds_left_def after_round_def stream_round_def after_write_def split: prod.splits)
next
  case ReadEOF
  then show ?thesis using assms
    by (cases wk)
      (auto simp: rounds_left_def after_round_def stream_round_def after_write_def stream_select_def wakeable_def split: prod.splits)
next
  case ReadFailed
  then show ?thesis using assms(1) by (auto simp: rounds_left_def after_round_def stream_round_def)
qed

lemma rounds_bound:
  "stream_rounds s n k t \<Longrightarrow> stClosed s \<Longrightarrow> stClosed t \<and> n + rounds_left t \<le> rounds_left s + k"
proof (induction rule: stream_rounds.induct)
  case (one s n k t r wk c)
  then show ?case using after_round_left [OF one(2-4), of c]
    by (cases "r = ReadEOF \<and> wk = WakeKeepalive") (auto simp: after_round_frame)
qed simp

text \<open>
  C29. Once the command is known to have exited and no longer writes, the body of its stream ends:
  each round that is not a keepalive reads a byte at least or comes closer to the final event.
\<close>

theorem stream_terminates:
  assumes "stream_rounds s n k t" "stClosed s"
  shows "n \<le> length (stFile s) - stPos s + 2 + k \<and>
    (stEnd t = None \<longrightarrow> (\<exists>r wk c. readable t r \<and> wakeable t wk \<and> stream_rounds s (Suc n) k (after_round t c r wk)))"
proof (intro conjI impI)
  show "n \<le> length (stFile s) - stPos s + 2 + k"
    using rounds_bound [OF assms] by (auto simp: rounds_left_def split: if_splits)
  assume e: "stEnd t = None"
  let ?r = "if length (stFile t) \<le> stPos t then ReadEOF else ReadBytes [stFile t ! stPos t]"
  have r: "readable t ?r" by (auto simp: readable_def Cons_nth_drop_Suc [symmetric])
  have w: "wakeable t WakeDone" using rounds_bound [OF assms] by (simp add: wakeable_def)
  show "\<exists>r wk c. readable t r \<and> wakeable t wk \<and> stream_rounds s (Suc n) k (after_round t c r wk)"
    using stream_rounds.one [OF assms(1) e r w] r w by (intro exI [of _ ?r] exI [of _ WakeDone]) auto
qed

theorem stream_terminates_witness:
  "stream_rounds (demo_stream 3) 3 0 (demo_stream 6) \<and> 3 \<le> length (stFile (demo_stream 3)) - stPos (demo_stream 3) + 2"
proof -
  have "stream_rounds (demo_stream 3) 1 0 (demo_stream 4)"
    using stream_rounds.one [OF stream_rounds.none, of "demo_stream 3" "ReadBytes ''!''" WakeDone None] demo_facts(3)
    by (simp add: demo_states(5))
  then have "stream_rounds (demo_stream 3) 2 0 (demo_stream 5)"
    using stream_rounds.one [of "demo_stream 3" 1 0 "demo_stream 4" ReadEOF WakeDone None] demo_facts(4)
    by (simp add: demo_states(6) numeral_2_eq_2)
  then have r: "stream_rounds (demo_stream 3) 3 0 (demo_stream 6)"
    using stream_rounds.one [of "demo_stream 3" 2 0 "demo_stream 5" ReadEOF WakeDone None] demo_facts(5)
    by (simp add: demo_states(7) numeral_3_eq_3 [symmetric])
  have "stClosed (demo_stream 3) \<and> length (stFile (demo_stream 3)) - stPos (demo_stream 3) = 1" by code_simp
  then show ?thesis using stream_terminates [OF r] r by simp
qed

end
