(* ===== verification/Commands.thy ===== *)
theory Commands
  imports Sidecar CommandStream
begin

text \<open>
  The commands of a container, \<open>src/internal/sandbox-sidecar/command/command.go\<close>: how one is started,
  what its environment is, how its status is asked for, and how its standard input is written and
  closed by concurrent requests while it may exit at any moment. The output streams are in
  \<open>CommandStream\<close>.
\<close>


section \<open>Starting a command\<close>

record command_request =
  rqArgs :: "string list"
  rqEnv :: "string \<rightharpoonup> string"
  rqCwd :: string
  rqTimeout :: "int option"

definition waitDelayGracePeriod :: duration where
  "waitDelayGracePeriod = 5 * nano_second"

text \<open>
  The shell looks the command up in the container's \<open>PATH\<close> and is replaced by it; \<open>"$@"\<close> passes the
  arguments on unchanged.
\<close>

definition shell_script :: string where
  "shell_script = ''exec '' @ [CHR 0x22] @ ''$@'' @ [CHR 0x22]"

definition Build ::
  "'w sidecar_host \<Rightarrow> int \<Rightarrow> command_request \<Rightarrow> string list \<Rightarrow> string \<Rightarrow> string \<Rightarrow> duration option \<Rightarrow>
     ('w, fs_error + exec_cmd) side" where
  "Build h pid req env stdoutFile stderrFile timeout =
     (let link = ''/proc/'' @ itoa pid @ ''/cwd'' in
      bindE (if rqCwd req \<noteq> [] then returnE (rqCwd req)
             else seq (call_api (shReadlink h link) (CReadlink link)) (\<lambda>r. case r of
               Inl e \<Rightarrow> throwE (Wrapped (''read cwd for pid '' @ itoa pid) e) | Inr cwd \<Rightarrow> returnE cwd)) (\<lambda>dir.
      returnE \<lparr>ecPath = ''/bin/sh'', ecArgs = [''-c'', shell_script, ''--''] @ rqArgs req, ecEnv = env, ecDir = dir,
        ecChroot = ''/proc/'' @ itoa pid @ ''/root'', ecUid = 0, ecGid = 0, ecStdout = stdoutFile,
        ecStderr = stderrFile, ecWaitDelay = waitDelayGracePeriod, ecTimeout = timeout\<rparr>))"

text \<open>
  The environment: the container's variables and the request's, without the container marker. Go
  ranges over a map in an order of its own, the parameter \<open>range_of\<close>.
\<close>

definition container_env :: "string list \<Rightarrow> (string \<rightharpoonup> string)" where
  "container_env containerEnv =
     foldl (\<lambda>m kv. case str_cut kv ''='' of (k, v, ok) \<Rightarrow> if ok then m(k \<mapsto> v) else m) Map.empty containerEnv"

definition env_map :: "string list \<Rightarrow> (string \<rightharpoonup> string) \<Rightarrow> (string \<rightharpoonup> string)" where
  "env_map containerEnv overrides = (container_env containerEnv ++ overrides)(IsolaContainerNameEnv := None)"

definition buildCmdEnv :: "((string \<rightharpoonup> string) \<Rightarrow> string list) \<Rightarrow> string list \<Rightarrow> (string \<rightharpoonup> string) \<Rightarrow> string list" where
  "buildCmdEnv range_of containerEnv overrides =
     (let m = env_map containerEnv overrides in map (\<lambda>k. k @ ''='' @ the (m k)) (range_of m))"

text \<open>The working directory, cleaned as an absolute path and looked up below the container's root.\<close>

definition check_cwd :: "'w sidecar_host \<Rightarrow> int \<Rightarrow> string \<Rightarrow> ('w, http_error + unit) side" where
  "check_cwd h pid cwd =
     (if cwd = [] then returnE ()
      else
        (let hostPath = path_join [GetRoot pid, path_clean (''/'' @ cwd)] in
         seq (call_api (shStat h hostPath) (CStat hostPath)) (\<lambda>st. case st of
           Inl e \<Rightarrow>
             throwE (if IsNotExist e then Error400BadRequest (''working directory does not exist: '' @ cwd)
                     else Error500InternalServerError ''failed to validate working directory'')
         | Inr fi \<Rightarrow>
             if \<not> fiDir fi then throwE (Error400BadRequest (''working directory is not a directory: '' @ cwd))
             else returnE ())))"

definition closing :: "'w sidecar_host \<Rightarrow> string \<Rightarrow> ('w, 'a) side \<Rightarrow> ('w, 'a) side" where
  "closing h p m = seq m (\<lambda>r. seq (call_api (shClose h p) (\<lambda>_. CClose p)) (\<lambda>_. State_Monad.return r))"

text \<open>The deferred clean-up of a start that failed; cancelling the context has no other effect.\<close>

definition unless_started :: "'w sidecar_host \<Rightarrow> string \<Rightarrow> ('w, http_error + 'a) side \<Rightarrow> ('w, http_error + 'a) side" where
  "unless_started h outputDir m = seq m (\<lambda>r. case r of
     Inl e \<Rightarrow> ignoring (call_api (shRemoveAll h outputDir) (\<lambda>_. CRemoveAll outputDir)) (throwE e)
   | Inr a \<Rightarrow> returnE a)"

definition launch ::
  "'w sidecar_host \<Rightarrow> int \<Rightarrow> command_request \<Rightarrow> string list \<Rightarrow> string \<Rightarrow> string \<Rightarrow> duration option \<Rightarrow> string \<Rightarrow> string \<Rightarrow>
     ('w, http_error + command_entry) side" where
  "launch h pid req env stdoutFile stderrFile timeout cmdID outputDir =
     http_bind (Build h pid req env stdoutFile stderrFile timeout) (Error500InternalServerError ''failed to build command'') (\<lambda>cmd.
     http_bind (call_api (shStdinPipe h) (\<lambda>_. CStdinPipe)) (Error500InternalServerError ''failed to create stdin pipe'') (\<lambda>_.
     seq (call_api (shStart h cmd) (CStart cmd)) (\<lambda>started. case started of
       Inl e \<Rightarrow> throwE (Error500InternalServerError (''failed to start command: '' @ err_text e))
     | Inr _ \<Rightarrow>
         returnE \<lparr>ceID = cmdID, ceCmd = cmd, ceOutputDir = outputDir, ceStdinClosed = False, ceCancelled = False,
           ceDone = False, ceExitCode = 0\<rparr>)))"

definition command_timeout :: "int option \<Rightarrow> duration option" where
  "command_timeout t = (case t of None \<Rightarrow> None | Some n \<Rightarrow> if 0 < n then Some (duration_of_seconds n) else None)"

definition startCommand ::
  "'w sidecar_host \<Rightarrow> ((string \<rightharpoonup> string) \<Rightarrow> string list) \<Rightarrow> int \<Rightarrow> command_request \<Rightarrow> ('w, http_error + command_entry) side" where
  "startCommand h range_of pid req =
     bindE (check_cwd h pid (rqCwd req)) (\<lambda>_.
     seq (call_api (shNewID h) CNewID) (\<lambda>cmdID.
       let outputDir = path_join [GetRoot pid, ''var'', ''run'', ''isola'', ''commands'', cmdID];
           stdoutFile = path_join [outputDir, ''stdout''];
           stderrFile = path_join [outputDir, ''stderr''] in
       http_bind (call_api (shMkdirAll h outputDir 493) (CMkdirAll outputDir))
         (Error500InternalServerError ''failed to create command output directory'') (\<lambda>_.
       http_bind (call_api (shCreate h stdoutFile) (CCreate stdoutFile))
         (Error500InternalServerError ''failed to create stdout file'') (\<lambda>_.
       closing h stdoutFile (
         http_bind (call_api (shCreate h stderrFile) (CCreate stderrFile))
           (Error500InternalServerError ''failed to create stderr file'') (\<lambda>_.
         closing h stderrFile (
           seq (GetEnviron h pid) (\<lambda>env.
             let cmdEnv = buildCmdEnv range_of (case env of Inl _ \<Rightarrow> [] | Inr e \<Rightarrow> e) (rqEnv req) in
             unless_started h outputDir
               (launch h pid req cmdEnv stdoutFile stderrFile (command_timeout (rqTimeout req)) cmdID outputDir))))))))) "

definition PostCommand ::
  "'w sidecar_host \<Rightarrow> ((string \<rightharpoonup> string) \<Rightarrow> string list) \<Rightarrow> string \<Rightarrow> command_request \<Rightarrow> ('w, http_error + string) side" where
  "PostCommand h range_of container req =
     http_bind (FindCachedContainerPID h container) pid_failed (\<lambda>pid.
     bindE (startCommand h range_of pid req) (\<lambda>entry.
     seq get_object (\<lambda>r.
     seq (set_object (r \<lparr>sdCommands := (sdCommands r)(ceID entry \<mapsto> entry)\<rparr>)) (\<lambda>_.
       returnE (ceID entry)))))"


section \<open>Status, deletion and output\<close>

definition getCommandEntry :: "sidecar \<Rightarrow> string \<Rightarrow> http_error + command_entry" where
  "getCommandEntry sd cmdID =
     (case sdCommands sd cmdID of
        None \<Rightarrow> Inl (Error404NotFound (''command '' @ quoted cmdID @ '' not found''))
      | Some e \<Rightarrow> Inr e)"

text \<open>What \<open>cmd.Wait\<close> returned, and the exit code kept for it.\<close>

datatype wait_result = WaitOk | WaitDelayExpired | WaitExitError int | WaitFailed

definition exit_code :: "wait_result \<Rightarrow> int" where
  "exit_code r = (case r of WaitOk \<Rightarrow> 0 | WaitDelayExpired \<Rightarrow> 0 | WaitExitError c \<Rightarrow> c | WaitFailed \<Rightarrow> -1)"

definition waitForExit :: "string \<Rightarrow> wait_result \<Rightarrow> sidecar \<Rightarrow> sidecar" where
  "waitForExit cmdID r sd =
     (case sdCommands sd cmdID of
        None \<Rightarrow> sd
      | Some e \<Rightarrow> sd \<lparr>sdCommands := (sdCommands sd)(cmdID \<mapsto>
          e \<lparr>ceExitCode := exit_code r, ceCancelled := True, ceDone := True\<rparr>)\<rparr>)"

text \<open>
  The status handler, given which case its \<open>select\<close> took when it waited: the command is done, the
  timer fired, or the client is gone. The state is the one at that moment: entries never go, and
  \<open>StatusDone\<close> is taken only when \<open>waitForExit\<close> has closed the channel.
\<close>

datatype status_wake = StatusDone | StatusTimer | StatusGone

definition statusClientClosedRequest :: int where
  "statusClientClosedRequest = 499"

definition GetCommandStatus :: "sidecar \<Rightarrow> string \<Rightarrow> int \<Rightarrow> status_wake \<Rightarrow> http_error + int option" where
  "GetCommandStatus sd cmdID waitSeconds wake =
     (case getCommandEntry sd cmdID of
        Inl e \<Rightarrow> Inl e
      | Inr e \<Rightarrow>
          if 0 < waitSeconds then
            (case wake of
               StatusDone \<Rightarrow> Inr (Some (ceExitCode e))
             | StatusTimer \<Rightarrow> Inr None
             | StatusGone \<Rightarrow> Inl (huma_NewError statusClientClosedRequest ''client closed request''))
          else Inr (if ceDone e then Some (ceExitCode e) else None))"

definition DeleteCommand :: "string \<Rightarrow> sidecar \<Rightarrow> (http_error + unit) \<times> sidecar" where
  "DeleteCommand cmdID sd =
     (case sdCommands sd cmdID of
        None \<Rightarrow> (Inl (Error404NotFound (''command '' @ quoted cmdID @ '' not found'')), sd)
      | Some e \<Rightarrow> (Inr (), sd \<lparr>sdCommands := (sdCommands sd)(cmdID \<mapsto> e \<lparr>ceCancelled := True\<rparr>)\<rparr>))"

text \<open>Up to the start of the stream: its file is open, at the offset the client asked for.\<close>

definition streamOutput :: "'w sidecar_host \<Rightarrow> string \<Rightarrow> int \<Rightarrow> string \<Rightarrow> ('w, http_error + string \<times> int) side" where
  "streamOutput h cmdID offset streamName =
     seq get_object (\<lambda>sd. case getCommandEntry sd cmdID of
       Inl e \<Rightarrow> throwE e
     | Inr e \<Rightarrow>
         (let filePath = path_join [ceOutputDir e, streamName] in
          http_bind (call_api (shOpen h filePath) (COpen filePath))
            (Error500InternalServerError ''failed to open command output'') (\<lambda>_.
          if 0 < offset then
            seq (call_api (shSeek h filePath offset) (\<lambda>_. CSeek filePath offset)) (\<lambda>r. case r of
              Inl _ \<Rightarrow>
                ignoring (call_api (shClose h filePath) (\<lambda>_. CClose filePath))
                  (throwE (Error500InternalServerError ''failed to seek command output''))
            | Inr _ \<Rightarrow> returnE (filePath, offset))
          else returnE (filePath, offset))))"

definition GetCommandStdout :: "'w sidecar_host \<Rightarrow> string \<Rightarrow> string \<Rightarrow> ('w, http_error + string \<times> int) side" where
  "GetCommandStdout h cmdID lastEventID =
     (case parseLastEventID lastEventID of Inl e \<Rightarrow> throwE e | Inr offset \<Rightarrow> streamOutput h cmdID offset ''stdout'')"

definition GetCommandStderr :: "'w sidecar_host \<Rightarrow> string \<Rightarrow> string \<Rightarrow> ('w, http_error + string \<times> int) side" where
  "GetCommandStderr h cmdID lastEventID =
     (case parseLastEventID lastEventID of Inl e \<Rightarrow> throwE e | Inr offset \<Rightarrow> streamOutput h cmdID offset ''stderr'')"


section \<open>What a start rests on\<close>

text \<open>The paths of a command's files.\<close>

definition root_parts :: "int \<Rightarrow> string list" where
  "root_parts pid = [''proc'', itoa pid, ''root'']"

lemma root_parts: "list_all ordinary (root_parts pid)" "root_parts pid \<noteq> []" "GetRoot pid = abs_path (root_parts pid)"
  using ordinary_itoa by (simp_all add: root_parts_def ordinary_def GetRoot_abs)

definition command_parts :: "int \<Rightarrow> string \<Rightarrow> string list" where
  "command_parts pid cmdID = root_parts pid @ [''var'', ''run'', ''isola'', ''commands'', cmdID]"

lemma command_parts: "ordinary cmdID \<Longrightarrow> list_all ordinary (command_parts pid cmdID)" "command_parts pid cmdID \<noteq> []"
  using root_parts by (simp_all add: command_parts_def ordinary_def)

lemma output_dir:
  "ordinary cmdID \<Longrightarrow>
     path_join [GetRoot pid, ''var'', ''run'', ''isola'', ''commands'', cmdID] = abs_path (command_parts pid cmdID)"
  using path_join_names [OF root_parts(2), of pid "[''var'', ''run'', ''isola'', ''commands'', cmdID]"] command_parts(1) [of cmdID pid]
  by (simp add: root_parts(3) command_parts_def)

lemma output_file:
  "ordinary cmdID \<Longrightarrow> ordinary f \<Longrightarrow> path_join [abs_path (command_parts pid cmdID), f] = abs_path (command_parts pid cmdID @ [f])"
  using path_join_names [OF command_parts(2), of pid cmdID "[f]"] command_parts(1) [of cmdID pid] by simp

lemma below_root_parts:
  assumes "for_container name k pid" "ordinary cmdID" "list_all ordinary fs"
  shows "below_root name k (abs_path (command_parts pid cmdID @ fs))"
proof -
  let ?ds = "[''var'', ''run'', ''isola'', ''commands'', cmdID] @ fs"
  have "list_all ordinary (root_parts pid @ ?ds)"
    using command_parts(1) [OF assms(2), of pid] assms(3) by (simp add: command_parts_def)
  from inside_abs_path [OF this root_parts(2)] show ?thesis
    using assms(1) by (auto simp: below_root_def root_parts(3) command_parts_def)
qed

lemma chroot_root: "''/proc/'' @ itoa pid @ ''/root'' = GetRoot pid"
  by (simp add: GetRoot_abs abs_path_def)

definition fresh_ids :: "'w sidecar_host \<Rightarrow> bool" where
  "fresh_ids h \<longleftrightarrow> (\<forall>w. ordinary (fst (shNewID h w)))"

text \<open>What is known of a command that was started for a request.\<close>

definition command_of :: "string \<Rightarrow> command_request \<Rightarrow> side_known \<Rightarrow> command_entry \<Rightarrow> bool" where
  "command_of name req k e \<longleftrightarrow>
     skStarted k = Some (ceCmd e) \<and> skMade k = Some (ceOutputDir e) \<and>
     ecPath (ceCmd e) = ''/bin/sh'' \<and> ecArgs (ceCmd e) = [''-c'', shell_script, ''--''] @ rqArgs req \<and>
     ecTimeout (ceCmd e) = command_timeout (rqTimeout req) \<and>
     (rqCwd req \<noteq> [] \<longrightarrow> ecDir (ceCmd e) = rqCwd req \<and>
        (\<exists>p fi. (p, fi) \<in> set (skStat k) \<and> fiDir fi \<and> below_root name k p)) \<and>
     \<not> ceDone e \<and> \<not> ceCancelled e \<and> \<not> ceStdinClosed e"

definition not_started :: "side_known \<Rightarrow> bool" where
  "not_started k \<longleftrightarrow> skStarted k = None \<and> (length (skCreated k) < 2 \<or> skMade k = None)"

definition start_outcome ::
  "string \<Rightarrow> command_request \<Rightarrow> sidecar \<Rightarrow> http_error + command_entry \<Rightarrow> sidecar \<Rightarrow> side_known \<Rightarrow> bool" where
  "start_outcome name req x r y k \<longleftrightarrow>
     sdCommands y = sdCommands x \<and> (case r of Inl e \<Rightarrow> not_started k | Inr e \<Rightarrow> command_of name req k e)"

lemma start_outcome_simps [simp]:
  "start_outcome name req x (Inl e) y k \<longleftrightarrow> sdCommands y = sdCommands x \<and> not_started k"
  "start_outcome name req x (Inr c) y k \<longleftrightarrow> sdCommands y = sdCommands x \<and> command_of name req k c"
  by (simp_all add: start_outcome_def)

lemma keeps_check_cwd:
  assumes "for_container name k pid"
  shows "accesses name (check_cwd h pid cwd)
     (\<lambda>r y l. grows k l \<and> skMade l = skMade k \<and> skStarted l = skStarted k \<and> skCreated l = skCreated k \<and> sdCommands y = sdCommands x \<and>
        (r = Inr () \<longrightarrow> cwd \<noteq> [] \<longrightarrow> (\<exists>p fi. (p, fi) \<in> set (skStat l) \<and> fiDir fi \<and> below_root name l p))) x k"
proof -
  let ?p = "path_join [GetRoot pid, path_clean (''/'' @ cwd)]"
  obtain cs where cs: "list_all ordinary cs" "path_clean (''/'' @ cwd) = abs_path cs"
    using path_clean_abs [of "''/'' @ cwd"] by (auto simp: path_is_abs_def)
  have below: "below_root name l ?p" if "grows k l" for l
    using below_root_target [OF assms that cs(1)] by (simp only: cs(2) target_path_def)
  have examine: "accesses name (call_api (shStat h ?p) (CStat ?p))
      (\<lambda>r y l. grows k l \<and> skMade l = skMade k \<and> skStarted l = skStarted k \<and> skCreated l = skCreated k \<and> y = x \<and>
         (\<forall>fi. r = Inr fi \<longrightarrow> (?p, fi) \<in> set (skStat l))) x k"
    by (intro access.keeps_call) (auto simp: grows_learn split: sum.splits) 
  show ?thesis unfolding check_cwd_def Let_def
    by (intro access.keeps_rules access.keeps_mono [OF examine]) (use below in \<open>auto\<close>)
qed


lemma keeps_closing: "accesses name m Q x k \<Longrightarrow> accesses name (closing h p m) Q x k"
  unfolding closing_def
  by (rule access.keeps_bind, erule access.keeps_mono, rule access.keeps_bind, rule access.keeps_call)
     (auto intro: access.keeps_return)

lemma learns_GetEnviron: "learns name (GetEnviron h pid) (\<lambda>l r. True)"
  unfolding learns_def GetEnviron_def
  by (intro allI access.keeps_rules access.keeps_call)
     (auto intro!: access.keeps_rules simp: grows_def split: sum.splits option.splits)

lemma learns_Build:
  "learns name (Build h pid req env out err tmo) (\<lambda>l r. \<forall>cmd. r = Inr cmd \<longrightarrow>
     ecPath cmd = ''/bin/sh'' \<and> ecArgs cmd = [''-c'', shell_script, ''--''] @ rqArgs req \<and> ecTimeout cmd = tmo \<and>
     (rqCwd req \<noteq> [] \<longrightarrow> ecDir cmd = rqCwd req) \<and> ecChroot cmd = GetRoot pid \<and> ecUid cmd = 0 \<and> ecGid cmd = 0 \<and>
     ecStdout cmd = out \<and> ecStderr cmd = err \<and> ecEnv cmd = env)"
  unfolding learns_def Build_def Let_def
  by (intro allI access.keeps_rules access.keeps_call)
     (auto intro!: access.keeps_rules access.keeps_case simp: chroot_root [simplified] grows_def split: sum.split)

lemma keeps_launch:
  assumes k: "for_container name k pid" "below_root name k out" "below_root name k err" "out \<in> set (skCreated k)"
      "err \<in> set (skCreated k)" "skStarted k = None" "skMade k = Some dir"
    and cwd: "rqCwd req \<noteq> [] \<longrightarrow> (\<exists>p fi. (p, fi) \<in> set (skStat k) \<and> fiDir fi \<and> below_root name k p)"
  shows "accesses name (launch h pid req env out err (command_timeout (rqTimeout req)) cmdID dir)
     (\<lambda>r y l. sdCommands y = sdCommands x \<and> skMade l = Some dir \<and>
        (case r of Inl e \<Rightarrow> skStarted l = None | Inr e \<Rightarrow> command_of name req l e \<and> ceID e = cmdID \<and> ecEnv (ceCmd e) = env)) x k"
proof -
  have cwd': "rqCwd req \<noteq> [] \<Longrightarrow> \<exists>p fi. (p, fi) \<in> set (skStat l) \<and> fiDir fi \<and> below_root name l p" if "grows k l" for l
    using cwd below_root_grows [OF _ that] that unfolding grows_def by blast
  have started: "below_root name (l \<lparr>skStarted := c\<rparr>) p = below_root name l p" for l c p
    by (simp add: below_root_def for_container_def)
  have start: "accesses name (call_api (shStart h cmd) (CStart cmd))
      (\<lambda>r z m. sdCommands z = sdCommands x \<and> skMade m = Some dir \<and>
         (case r of Inl e \<Rightarrow> skStarted m = None | Inr u \<Rightarrow> skStarted m = Some cmd \<and>
            (rqCwd req \<noteq> [] \<longrightarrow> (\<exists>p fi. (p, fi) \<in> set (skStat m) \<and> fiDir fi \<and> below_root name m p)))) z l"
    if g: "grows k l" and c: "ecChroot cmd = GetRoot pid" "ecUid cmd = 0" "ecGid cmd = 0" "ecStdout cmd = out" "ecStderr cmd = err"
      and l: "skMade l = Some dir" "skStarted l = None" "sdCommands z = sdCommands x" for cmd z l
  proof (rule access.keeps_call)
    fix a
    have "\<exists>pid. for_container name l pid \<and> ecChroot cmd = GetRoot pid"
      using c(1) for_container_grows [OF k(1) g] by blast
    moreover have "below_root name l out" "below_root name l err" "out \<in> set (skCreated l)" "err \<in> set (skCreated l)"
      using below_root_grows [OF k(2) g] below_root_grows [OF k(3) g] k(4,5) g by (auto simp: grows_def)
    ultimately have "side_guard name l (CStart cmd a)" using c by simp
    then show "side_guard name l (CStart cmd a) \<and> sdCommands z = sdCommands x \<and>
        skMade (side_learn l (CStart cmd a)) = Some dir \<and>
        (case a of Inl e \<Rightarrow> skStarted (side_learn l (CStart cmd a)) = None
         | Inr u \<Rightarrow> skStarted (side_learn l (CStart cmd a)) = Some cmd \<and>
             (rqCwd req \<noteq> [] \<longrightarrow> (\<exists>p fi. (p, fi) \<in> set (skStat (side_learn l (CStart cmd a))) \<and> fiDir fi \<and>
                below_root name (side_learn l (CStart cmd a)) p)))"
      using l cwd' [OF g] by (cases a) (simp_all add: started)
  qed
  have pipe: "accesses name (call_api (shStdinPipe h) (\<lambda>_. CStdinPipe)) (\<lambda>r z m. z = y \<and> m = l) y l" for y l
    by (intro access.keeps_call) simp
  show ?thesis unfolding launch_def http_bind_def
    by (intro access.keeps_rules learns_use [OF learns_Build])
       (use k in \<open>auto intro!: access.keeps_rules access.keeps_mono [OF pipe] access.keeps_mono [OF start]
         simp: command_of_def split: sum.splits\<close>)
qed


lemma keeps_startCommand:
  assumes ids: "fresh_ids h" and k: "for_container name k pid" "skStarted k = None" "skCreated k = []" "skMade k = None"
  shows "accesses name (startCommand h range_of pid req)
     (start_outcome name req x) x k"
proof -
  have newid: "accesses name (call_api (shNewID h) CNewID) (\<lambda>cmdID y m. ordinary cmdID \<and> y = z \<and> m = l) z l" for z l
    by (rule access.keeps_call_where [where P = ordinary]) (use ids in \<open>auto simp: fresh_ids_def\<close>)
  have body: "accesses name
      (closing h out (http_bind (call_api (shCreate h err) (CCreate err)) e (\<lambda>_. closing h err (
         seq (GetEnviron h pid) (\<lambda>env. unless_started h dir
           (launch h pid req (buildCmdEnv range_of (case env of Inl _ \<Rightarrow> [] | Inr e \<Rightarrow> e) (rqEnv req)) out err
              (command_timeout (rqTimeout req)) cmdID dir))))))
      (start_outcome name req x) z l"
    if l: "grows k l" "below_root name l out" "below_root name l err" "skCreated l = [out]" "skStarted l = None" "skMade l = Some dir"
        "sdCommands z = sdCommands x" "rqCwd req \<noteq> [] \<longrightarrow> (\<exists>p fi. (p, fi) \<in> set (skStat l) \<and> fiDir fi \<and> below_root name l p)"
    for out err dir cmdID e z l
  proof -
    have fc: "for_container name l pid" using for_container_grows [OF k(1) l(1)] .
    have rm: "accesses name (call_api (shRemoveAll h dir) (\<lambda>_. CRemoveAll dir))
        (\<lambda>r y n. sdCommands y = sdCommands x \<and> not_started n) y m"
      if "skMade m = Some dir" "skStarted m = None" "sdCommands y = sdCommands x" for y m
      using that by (intro access.keeps_call) (simp add: not_started_def)
    have create: "accesses name (call_api (shCreate h err) (CCreate err))
        (\<lambda>r y m. sdCommands y = sdCommands x \<and> (case r of Inl e \<Rightarrow> not_started m | Inr u \<Rightarrow>
           grows l m \<and> skStarted m = None \<and> skMade m = Some dir \<and> out \<in> set (skCreated m) \<and> err \<in> set (skCreated m))) z l"
      using l by (intro access.keeps_call) (auto simp: not_started_def grows_def split: sum.splits)
    have cwd: "rqCwd req \<noteq> [] \<longrightarrow> (\<exists>p fi. (p, fi) \<in> set (skStat m) \<and> fiDir fi \<and> below_root name m p)" if "grows l m" for m
      using l(8) below_root_grows [OF _ that] that unfolding grows_def by blast
    have run: "accesses name (unless_started h dir (launch h pid req env out err (command_timeout (rqTimeout req)) cmdID dir))
        (start_outcome name req x) y m"
      if m: "grows l m" "skStarted m = None" "skMade m = Some dir" "out \<in> set (skCreated m)" "err \<in> set (skCreated m)"
        "sdCommands y = sdCommands x" for env y m
      unfolding unless_started_def ignoring_def
      by (intro access.keeps_rules access.keeps_mono [OF keeps_launch [OF for_container_grows [OF fc m(1)]
              below_root_grows [OF l(2) m(1)] below_root_grows [OF l(3) m(1)] m(4,5,2,3) cwd [OF m(1)]]])
         (use m in \<open>auto intro!: access.keeps_rules access.keeps_mono [OF rm] split: sum.splits\<close>)
    show ?thesis unfolding http_bind_def Let_def
      by (intro keeps_closing access.keeps_rules access.keeps_mono [OF create])
         (auto intro!: access.keeps_rules keeps_closing learns_use [OF learns_GetEnviron] run
            intro: grows_trans split: sum.split)
  qed
  have made: "accesses name (call_api (shMkdirAll h d 493) (CMkdirAll d))
      (\<lambda>r y m. y = z \<and> (case r of Inl e \<Rightarrow> m = l | Inr u \<Rightarrow> m = l \<lparr>skMade := Some d\<rparr>)) z l"
    if "below_root name l d" for d z l
    using that by (intro access.keeps_call) (auto split: sum.splits)
  have create: "accesses name (call_api (shCreate h f) (CCreate f))
      (\<lambda>r y m. y = z \<and> (case r of Inl e \<Rightarrow> m = l | Inr u \<Rightarrow> m = l \<lparr>skCreated := f # skCreated l\<rparr>)) z l"
    if "below_root name l f" for f z l
    using that by (intro access.keeps_call) (auto split: sum.splits)
  have made_root: "below_root name (l \<lparr>skMade := d\<rparr>) p = below_root name l p" for l d p
    by (simp add: below_root_def for_container_def)
  have parts: "below_root name l (path_join [GetRoot pid, ''var'', ''run'', ''isola'', ''commands'', cmdID])"
      "below_root name l (path_join [path_join [GetRoot pid, ''var'', ''run'', ''isola'', ''commands'', cmdID], ''stdout''])"
      "below_root name l (path_join [path_join [GetRoot pid, ''var'', ''run'', ''isola'', ''commands'', cmdID], ''stderr''])"
    if "grows k l" "ordinary cmdID" for l cmdID
    using below_root_parts [OF for_container_grows [OF k(1) that(1)] that(2), of "[]"]
      below_root_parts [OF for_container_grows [OF k(1) that(1)] that(2), of "[''stdout'']"]
      below_root_parts [OF for_container_grows [OF k(1) that(1)] that(2), of "[''stderr'']"]
    by (simp_all only: output_dir [OF that(2)] output_file [OF that(2)] ordinary_def) (simp_all add: ordinary_def output_file [OF that(2)])
  show ?thesis unfolding startCommand_def Let_def http_bind_def [of "call_api (shMkdirAll h _ _) _"]
      http_bind_def [of "call_api (shCreate h (path_join [_, ''stdout''])) _"]
    by (intro access.keeps_rules access.keeps_mono [OF keeps_check_cwd [OF k(1)]] access.keeps_case,
        use k in \<open>auto intro!: access.keeps_rules access.keeps_mono [OF newid] access.keeps_mono [OF made]
          access.keeps_mono [OF create] body parts simp: not_started_def made_root grows_def split: sum.split\<close>) blast
qed


definition post_outcome ::
  "string \<Rightarrow> command_request \<Rightarrow> sidecar \<Rightarrow> http_error + string \<Rightarrow> sidecar \<Rightarrow> side_known \<Rightarrow> bool" where
  "post_outcome name req x r y k \<longleftrightarrow>
     (case r of
        Inl e \<Rightarrow> sdCommands y = sdCommands x \<and> not_started k
      | Inr cmdID \<Rightarrow> \<exists>e. ceID e = cmdID \<and> sdCommands y = (sdCommands x)(cmdID \<mapsto> e) \<and> command_of name req k e)"

lemma keeps_PostCommand:
  assumes "fresh_ids h"
  shows "accesses name (PostCommand h range_of name req) (post_outcome name req x) x nothing_known"
proof -
  have start: "accesses name (startCommand h range_of pid req) (start_outcome name req x) y l"
    if "for_container name l pid" "skMade l = None" "skStarted l = None" "skCreated l = []" "sdCommands y = sdCommands x" for pid y l
    by (rule access.keeps_mono [OF keeps_startCommand [OF assms that(1,3,4,2), where x = y]])
       (use that(5) in \<open>auto simp: start_outcome_def\<close>)
  show ?thesis unfolding PostCommand_def http_bind_def
    by (intro access.keeps_rules learns_use [OF learns_FindCachedContainerPID])
       (auto intro!: access.keeps_rules access.keeps_mono [OF start] access.keeps_case
         simp: nothing_known_def post_outcome_def not_started_def split: sum.split)
qed



definition demo_request :: command_request where
  "demo_request = \<lparr>rqArgs = [''ls'', ''-l''], rqEnv = Map.empty, rqCwd = [], rqTimeout = Some 5\<rparr>"

lemma demo_fresh: "fresh_ids demo_host"
  by (simp add: fresh_ids_def demo_host_def Let_def ordinary_def)

lemma demo_command_answers:
  "shNewID demo_host w = (''c0ffee'', w)" "shMkdirAll demo_host p m w = (Inr (), w)"
  "shStdinPipe demo_host w = (Inr (), w)" "shStart demo_host c w = (Inr (), w)"
  by (simp_all add: demo_host_def Let_def)

lemma demo_post:
  "wp (PostCommand demo_host (\<lambda>m. []) ''box'' demo_request) (\<lambda>r t. r = Inr ''c0ffee'') demo_sidecar"
  by (simp add: PostCommand_def startCommand_def launch_def unless_started_def closing_def check_cwd_def Build_def
      GetEnviron_def demo_request_def demo_defs demo_answers demo_command_answers demo_paths Let_def)



section \<open>The environment\<close>

text \<open>The environment of the process, as \<open>/proc/<pid>/environ\<close> shows it.\<close>

definition environ_of :: "string list \<Rightarrow> string" where
  "environ_of es = concat (map (\<lambda>e. e @ [CHR 0x00]) es)"

lemma split_environ:
  "\<forall>e \<in> set es. CHR 0x00 \<notin> set e \<Longrightarrow> split_char CHR 0x00 (environ_of es) = es @ [[]]"
  by (induction es) (simp_all add: environ_of_def split_char_append_sep)

lemma marker_not_Nil: "marker \<noteq> []" "\<not> prefix marker []"
  by (simp_all add: marker_def)

lemma container_name_environ:
  assumes "\<forall>e \<in> set es. CHR 0x00 \<notin> set e"
  shows "containerNameFromEnviron (environ_of es) = None \<longleftrightarrow> \<not> (\<exists>e \<in> set es. prefix marker e)"
  unfolding containerNameFromEnviron_def split_environ [OF assms]
  by (auto simp: find_None_iff marker_not_Nil)

lemma prefix_marker:
  assumes "k \<noteq> IsolaContainerNameEnv"
  shows "prefix marker (k @ CHR ''='' # v) \<longleftrightarrow> prefix marker k"
proof
  assume p: "prefix marker (k @ CHR ''='' # v)"
  show "prefix marker k"
  proof (cases "length marker \<le> length k")
    case True
    then show ?thesis using p prefix_length_prefix [of marker "k @ CHR ''='' # v" k] by simp
  next
    case False
    then have kn: "length k \<le> length IsolaContainerNameEnv" by (simp add: marker_def)
    from p obtain z where z: "k @ CHR ''='' # v = IsolaContainerNameEnv @ CHR ''='' # z"
      by (auto simp: marker_def elim!: prefixE)
    have eq: "CHR ''='' \<notin> set IsolaContainerNameEnv" by (simp add: IsolaContainerNameEnv_def)
    have u: "IsolaContainerNameEnv = k @ drop (length k) IsolaContainerNameEnv"
      using arg_cong [OF z, of "take (length k)"] kn
      by (metis append_eq_conv_conj append_take_drop_id take_append diff_is_0_eq take_0 append_Nil2)
    then have "CHR ''='' # v = drop (length k) IsolaContainerNameEnv @ CHR ''='' # z"
      using z by (metis append_assoc same_append_eq)
    moreover have "CHR ''='' \<notin> set (drop (length k) IsolaContainerNameEnv)" using eq in_set_dropD by metis
    ultimately have "drop (length k) IsolaContainerNameEnv = []"
      by (cases "drop (length k) IsolaContainerNameEnv") auto
    then show ?thesis using u assms by simp
  qed
next
  assume "prefix marker k"
  then show "prefix marker (k @ CHR ''='' # v)" by simp
qed

lemma str_cut_key: "str_cut kv [c] = (k, v, True) \<Longrightarrow> c \<notin> set k"
  using str_index_before [of kv "[c]"] split_list [of c]
  by (fastforce simp: str_cut_def sublist_def split: option.splits)

lemma container_env_keys: "k \<in> dom (container_env ce) \<Longrightarrow> CHR ''='' \<notin> set k"
proof -
  have "\<forall>k \<in> dom (foldl (\<lambda>m kv. case str_cut kv ''='' of (k, v, ok) \<Rightarrow> if ok then m(k \<mapsto> v) else m) m ce). CHR ''='' \<notin> set k"
    if "\<forall>k \<in> dom m. CHR ''='' \<notin> set k" for m
    using that
  proof (induction ce arbitrary: m)
    case (Cons kv ce)
    obtain k v ok where c: "str_cut kv ''='' = (k, v, ok)" by (metis prod_cases3)
    have "\<forall>k \<in> dom (if ok then m(k \<mapsto> v) else m). CHR ''='' \<notin> set k"
      using Cons.prems str_cut_key [of kv] c by auto
    from Cons.IH [OF this] show ?case using c by simp
  qed simp
  from this [of Map.empty] show "k \<in> dom (container_env ce) \<Longrightarrow> CHR ''='' \<notin> set k"
    by (auto simp: container_env_def)
qed

text \<open>
  C32. A command is taken for a process of the container exactly when the request overrides a
  variable whose name itself begins with \<open>ISOLA_CONTAINER_NAME=\<close>: the container's own marker and an
  override of the plain name are removed, whatever the container's environment holds.
\<close>

theorem command_env_unmarked:
  assumes "set (range_of (env_map ce ov)) = dom (env_map ce ov)"
    and "\<forall>e \<in> set (buildCmdEnv range_of ce ov). CHR 0x00 \<notin> set e"
  shows "containerNameFromEnviron (environ_of (buildCmdEnv range_of ce ov)) = None \<longleftrightarrow>
    \<not> (\<exists>k \<in> dom ov. prefix marker k)"
proof -
  have "(\<exists>e \<in> set (buildCmdEnv range_of ce ov). prefix marker e) \<longleftrightarrow> (\<exists>k \<in> dom (env_map ce ov). prefix marker k)"
  proof -
    have "prefix marker (k @ CHR ''='' # v) = prefix marker k" if "k \<in> dom (env_map ce ov)" for k v
      using that prefix_marker [of k v] by (auto simp: env_map_def)
    then show ?thesis using assms(1) by (simp add: buildCmdEnv_def Let_def)
  qed
  also have "\<dots> \<longleftrightarrow> (\<exists>k \<in> dom ov. prefix marker k)"
  proof -
    have "\<not> prefix marker k" if "k \<in> dom (container_env ce)" for k
      using container_env_keys [OF that] by (auto simp: marker_def elim!: prefixE)
    moreover have "\<not> prefix marker IsolaContainerNameEnv" using prefix_length_le by (fastforce simp: marker_def)
    ultimately show ?thesis by (auto simp: env_map_def)
  qed
  finally show ?thesis using container_name_environ [OF assms(2)] by blast
qed

theorem command_env_unmarked_witness:
  "containerNameFromEnviron (environ_of (buildCmdEnv (\<lambda>m. [''PATH'', ''ISOLA_CONTAINER_NAME=x''])
     [marker @ ''box'', ''PATH=/bin''] [''ISOLA_CONTAINER_NAME=x'' \<mapsto> ''y''])) \<noteq> None"
proof -
  let ?ce = "[marker @ ''box'', ''PATH=/bin'']" and ?ov = "[''ISOLA_CONTAINER_NAME=x'' \<mapsto> ''y'']"
  let ?range = "\<lambda>m :: string \<rightharpoonup> string. [''PATH'', ''ISOLA_CONTAINER_NAME=x'']"
  have m: "env_map ?ce ?ov = [''PATH'' \<mapsto> ''/bin'', ''ISOLA_CONTAINER_NAME=x'' \<mapsto> ''y'']"
    by (rule ext) (simp add: env_map_def container_env_def str_cut_def marker_def IsolaContainerNameEnv_def)
  have d: "set (?range (env_map ?ce ?ov)) = dom (env_map ?ce ?ov)" unfolding m by auto
  have n: "\<forall>e \<in> set (buildCmdEnv ?range ?ce ?ov). CHR 0x00 \<notin> set e"
    unfolding buildCmdEnv_def m by simp
  have "prefix marker ''ISOLA_CONTAINER_NAME=x''" by (simp add: marker_def IsolaContainerNameEnv_def)
  then show ?thesis using command_env_unmarked [OF d n] by auto
qed

end
