(* ===== verification/CommandStdin.thy ===== *)
theory CommandStdin
  imports Commands
begin

text \<open>
  The standard input of a command, \<open>PostCommandStdin\<close> and \<open>CloseCommandStdin\<close> of
  \<open>src/internal/sandbox-sidecar/command/command.go\<close>: any number of requests for one command, which run
  in goroutines of their own and serialize on the entry's mutex, while the process may close its end
  of the pipe or exit at any moment. A step is one of the actions of a request between which others
  can run; the pipe is the bytes that were accepted by its write end, in order.
\<close>


section \<open>The handlers\<close>

text \<open>Both handlers begin alike: the entry is looked up, and a command that is done is refused.\<close>

definition stdin_entry :: "sidecar \<Rightarrow> string \<Rightarrow> http_error + command_entry" where
  "stdin_entry sd cmdID =
     (case getCommandEntry sd cmdID of
        Inl e \<Rightarrow> Inl e
      | Inr e \<Rightarrow> if ceDone e then Inl (Error409Conflict ''command has already exited'') else Inr e)"

text \<open>What a copy into the pipe that failed is answered with.\<close>

definition copy_error :: "conn_error \<Rightarrow> http_error" where
  "copy_error e =
     (if e = EPIPE then Error409Conflict ''command has already exited''
      else if e = ErrClosed then Error409Conflict ''stdin has been closed''
      else Error500InternalServerError ''failed to write to stdin'')"

datatype stdin_op = PostStdin | CloseStdin

text \<open>
  A request: not there yet, waiting for the mutex, copying with the mutex held (the bytes written, and
  those read and still to be written), or answered (with the bytes it wrote).
\<close>

datatype stdin_call =
    NotArrived
  | Locking stdin_op
  | Copying string string
  | Answered stdin_op string "http_error + unit"

text \<open>\<open>siOrder\<close> is the order in which requests began to write; the code does not keep it.\<close>

record stdin_sys =
  siSidecar :: sidecar
  siMu :: "nat option"
  siPipeClosed :: bool
  siReaderGone :: bool
  siPiped :: string
  siCalls :: "nat \<Rightarrow> stdin_call"
  siOrder :: "nat list"

definition arrived :: "string \<Rightarrow> nat \<Rightarrow> stdin_op \<Rightarrow> stdin_sys \<Rightarrow> stdin_sys" where
  "arrived cmdID i op s =
     s \<lparr>siCalls := (siCalls s)(i :=
       case stdin_entry (siSidecar s) cmdID of Inl e \<Rightarrow> Answered op [] (Inl e) | Inr e \<Rightarrow> Locking op)\<rparr>"

definition answered :: "nat \<Rightarrow> stdin_op \<Rightarrow> string \<Rightarrow> http_error + unit \<Rightarrow> stdin_sys \<Rightarrow> stdin_sys" where
  "answered i op w r s = s \<lparr>siMu := None, siCalls := (siCalls s)(i := Answered op w r)\<rparr>"

definition PostCommandStdin_lock :: "nat \<Rightarrow> command_entry \<Rightarrow> stdin_sys \<Rightarrow> stdin_sys" where
  "PostCommandStdin_lock i e s =
     (if ceStdinClosed e then answered i PostStdin [] (Inl (Error409Conflict ''stdin is already closed'')) s
      else s \<lparr>siMu := Some i, siCalls := (siCalls s)(i := Copying [] []), siOrder := siOrder s @ [i]\<rparr>)"

definition CloseCommandStdin_lock :: "nat \<Rightarrow> string \<Rightarrow> command_entry \<Rightarrow> stdin_sys \<Rightarrow> stdin_sys" where
  "CloseCommandStdin_lock i cmdID e s =
     (if ceStdinClosed e then answered i CloseStdin [] (Inl (Error409Conflict ''stdin is already closed'')) s
      else answered i CloseStdin [] (Inr ())
        (s \<lparr>siPipeClosed := True,
            siSidecar := (siSidecar s) \<lparr>sdCommands := (sdCommands (siSidecar s))(cmdID \<mapsto> e \<lparr>ceStdinClosed := True\<rparr>)\<rparr>\<rparr>))"

text \<open>
  The steps. A write into the pipe is accepted in parts; it fails with EPIPE only when the read end is
  gone, and with \<open>ErrClosed\<close> only when the write end was closed, by \<open>CloseCommandStdin\<close> or by
  \<open>cmd.Wait\<close>, which closes it before the command is marked done.
\<close>

inductive stdin_step :: "(nat \<Rightarrow> string) \<Rightarrow> string \<Rightarrow> stdin_sys \<Rightarrow> stdin_sys \<Rightarrow> bool" for body cmdID where
  arrive: "siCalls s i = NotArrived \<Longrightarrow> stdin_step body cmdID s (arrived cmdID i op s)"
| lock_post: "siCalls s i = Locking PostStdin \<Longrightarrow> siMu s = None \<Longrightarrow> sdCommands (siSidecar s) cmdID = Some e \<Longrightarrow>
    stdin_step body cmdID s (PostCommandStdin_lock i e s)"
| read_body: "siCalls s i = Copying w [] \<Longrightarrow> b \<noteq> [] \<Longrightarrow> prefix (w @ b) (body i) \<Longrightarrow>
    stdin_step body cmdID s (s \<lparr>siCalls := (siCalls s)(i := Copying w b)\<rparr>)"
| read_eof: "siCalls s i = Copying w [] \<Longrightarrow> w = body i \<Longrightarrow>
    stdin_step body cmdID s (answered i PostStdin w (Inr ()) s)"
| read_fail: "siCalls s i = Copying w [] \<Longrightarrow>
    stdin_step body cmdID s (answered i PostStdin w (Inl (copy_error err)) s)"
| write_part: "siCalls s i = Copying w (b @ b') \<Longrightarrow> b \<noteq> [] \<Longrightarrow> \<not> siPipeClosed s \<Longrightarrow> \<not> siReaderGone s \<Longrightarrow>
    stdin_step body cmdID s (s \<lparr>siCalls := (siCalls s)(i := Copying (w @ b) b'), siPiped := siPiped s @ b\<rparr>)"
| write_fail: "siCalls s i = Copying w b \<Longrightarrow> b \<noteq> [] \<Longrightarrow> (err = EPIPE \<longrightarrow> siReaderGone s) \<Longrightarrow>
    (err = ErrClosed \<longrightarrow> siPipeClosed s) \<Longrightarrow>
    stdin_step body cmdID s (answered i PostStdin w (Inl (copy_error err)) s)"
| lock_close: "siCalls s i = Locking CloseStdin \<Longrightarrow> siMu s = None \<Longrightarrow> sdCommands (siSidecar s) cmdID = Some e \<Longrightarrow>
    stdin_step body cmdID s (CloseCommandStdin_lock i cmdID e s)"
| reader_gone: "stdin_step body cmdID s (s \<lparr>siReaderGone := True\<rparr>)"
| wait_closes: "stdin_step body cmdID s (s \<lparr>siPipeClosed := True\<rparr>)"
| exited: "siPipeClosed s \<Longrightarrow> stdin_step body cmdID s (s \<lparr>siSidecar := waitForExit cmdID r (siSidecar s)\<rparr>)"
| deleted: "stdin_step body cmdID s (s \<lparr>siSidecar := snd (DeleteCommand cmdID (siSidecar s))\<rparr>)"

definition stdin_start :: "string \<Rightarrow> stdin_sys \<Rightarrow> bool" where
  "stdin_start cmdID s \<longleftrightarrow>
     (\<exists>e. sdCommands (siSidecar s) cmdID = Some e \<and> \<not> ceStdinClosed e) \<and>
     siMu s = None \<and> siPiped s = [] \<and> siOrder s = [] \<and> siCalls s = (\<lambda>i. NotArrived)"


section \<open>The serialization\<close>

fun sent :: "stdin_call \<Rightarrow> string" where
  "sent (Copying w b) = w"
| "sent (Answered op w r) = w"
| "sent _ = []"

fun sent_ok :: "string \<Rightarrow> stdin_call \<Rightarrow> bool" where
  "sent_ok body (Copying w b) \<longleftrightarrow> prefix (w @ b) body"
| "sent_ok body (Answered op w r) \<longleftrightarrow> prefix w body \<and> (op = PostStdin \<longrightarrow> r = Inr () \<longrightarrow> w = body)"
| "sent_ok body _ \<longleftrightarrow> True"

text \<open>The requests to close that succeeded.\<close>

definition closers :: "(nat \<Rightarrow> stdin_call) \<Rightarrow> nat set" where
  "closers f = {i. \<exists>w. f i = Answered CloseStdin w (Inr ())}"

text \<open>
  The invariant: what the mutex protects (the request that holds it is the one that copies, and the
  last that began to write), what the pipe holds, and what the closed flag says.
\<close>

definition begun :: "stdin_call \<Rightarrow> bool" where
  "begun c \<longleftrightarrow> c \<noteq> NotArrived \<and> (\<forall>op. c \<noteq> Locking op)"

definition copying :: "stdin_call \<Rightarrow> bool" where
  "copying c \<longleftrightarrow> (\<exists>w b. c = Copying w b)"

definition pipe_ok :: "nat list \<Rightarrow> string \<Rightarrow> nat option \<Rightarrow> (nat \<Rightarrow> stdin_call) \<Rightarrow> bool" where
  "pipe_ok order piped mu f \<longleftrightarrow>
     distinct order \<and> piped = concat (map (\<lambda>i. sent (f i)) order) \<and>
     (\<forall>i. copying (f i) \<longleftrightarrow> mu = Some i) \<and> (\<forall>i. mu = Some i \<longrightarrow> (\<exists>is. order = is @ [i])) \<and>
     (\<forall>i \<in> set order. begun (f i)) \<and> (\<forall>i w. f i = Answered PostStdin w (Inr ()) \<longrightarrow> i \<in> set order)"

abbreviation pipe_inv :: "stdin_sys \<Rightarrow> bool" where
  "pipe_inv s \<equiv> pipe_ok (siOrder s) (siPiped s) (siMu s) (siCalls s)"

definition closed_inv :: "string \<Rightarrow> stdin_sys \<Rightarrow> bool" where
  "closed_inv cmdID s \<longleftrightarrow>
     (\<exists>e. sdCommands (siSidecar s) cmdID = Some e \<and>
        (if ceStdinClosed e then siPipeClosed s \<and> (\<exists>i. closers (siCalls s) = {i}) else closers (siCalls s) = {}))"

lemmas stdin_defs = arrived_def answered_def PostCommandStdin_lock_def CloseCommandStdin_lock_def

lemma sent_ok_prefix: "sent_ok body c \<Longrightarrow> prefix (sent c) body"
  by (cases c) (auto dest: append_prefixD)

lemma sent_step:
  assumes "stdin_step body cmdID s t" "sent_ok (body i) (siCalls s i)"
  shows "sent_ok (body i) (siCalls t i)"
  using assms by cases (auto simp: stdin_defs dest: append_prefixD split: sum.split if_splits)

text \<open>What an update of one request changes: nothing where it has not begun, or goes on with what it wrote.\<close>

lemma map_sent_other: "i \<notin> set is \<Longrightarrow> map (\<lambda>j. sent (if j = i then c else f j)) is = map (\<lambda>j. sent (f j)) is"
  by auto

lemma map_sent_same: "sent c = sent (f i) \<Longrightarrow> map (\<lambda>j. sent (if j = i then c else f j)) is = map (\<lambda>j. sent (f j)) is"
  by auto

lemma closers_upd:
  "closers (f(i := c)) = (if \<exists>w. c = Answered CloseStdin w (Inr ()) then insert i (closers f) else closers f - {i})"
  by (auto simp: closers_def)

lemma not_closer: "\<nexists>w. f i = Answered CloseStdin w (Inr ()) \<Longrightarrow> i \<notin> closers f"
  by (simp add: closers_def)

lemma pipe_ok_keep:
  assumes "pipe_ok order piped mu f" "sent c = sent (f i)" "begun (f i) \<Longrightarrow> begun c"
    and "\<And>w. c = Answered PostStdin w (Inr ()) \<Longrightarrow> copying (f i)"
    and "copying c = copying (f i) \<and> mu' = mu \<or> \<not> copying c \<and> mu' = None \<and> (mu = None \<or> copying (f i))"
  shows "pipe_ok order piped mu' (f(i := c))"
proof -
  have cop: "\<And>j. copying (f j) \<longleftrightarrow> mu = Some j" and last: "\<And>j. mu = Some j \<Longrightarrow> j \<in> set order"
    using assms(1) by (auto simp: pipe_ok_def)
  have "copying ((f(i := c)) j) \<longleftrightarrow> mu' = Some j" for j using assms(5) cop [of i] cop [of j] by auto
  moreover have "mu' = Some j \<Longrightarrow> mu = Some j" for j using assms(5) by auto
  moreover have "(f(i := c)) j = Answered PostStdin w (Inr ()) \<Longrightarrow> j \<in> set order" for j w
    using assms(1,4) cop last by (auto simp: pipe_ok_def split: if_splits)
  ultimately show ?thesis using assms(1-3) by (auto simp: pipe_ok_def map_sent_same)
qed

lemma pipe_ok_begin:
  assumes "pipe_ok order piped None f" "\<not> begun (f i)"
  shows "pipe_ok (order @ [i]) piped (Some i) (f(i := Copying [] []))"
proof -
  have "i \<notin> set order" using assms by (auto simp: pipe_ok_def)
  then show ?thesis using assms(1) by (auto simp: pipe_ok_def map_sent_other copying_def begun_def)
qed

lemma pipe_ok_write:
  assumes "pipe_ok order piped mu f" "f i = Copying w (b @ b')"
  shows "pipe_ok order (piped @ b) mu (f(i := Copying (w @ b) b'))"
proof -
  have mu: "mu = Some i" using assms by (auto simp: pipe_ok_def copying_def)
  then obtain "is" where o: "order = is @ [i]" "i \<notin> set is" using assms(1) by (auto simp: pipe_ok_def)
  then show ?thesis using assms mu by (auto simp: pipe_ok_def map_sent_other copying_def begun_def)
qed

lemma pipe_step:
  assumes "stdin_step body cmdID s t" "pipe_inv s"
  shows "pipe_inv t"
  using assms(1)
proof cases
  case (arrive i op)
  then show ?thesis using assms(2)
    by (auto simp: stdin_defs copying_def begun_def intro!: pipe_ok_keep split: sum.split)
next
  case (lock_post i e)
  then show ?thesis using assms(2)
    by (auto simp: stdin_defs copying_def intro!: pipe_ok_keep pipe_ok_begin) (auto simp: begun_def)
next
  case (lock_close i e)
  then show ?thesis using assms(2)
    by (auto simp: stdin_defs copying_def intro!: pipe_ok_keep) (auto simp: begun_def)
qed (use assms(2) in \<open>auto simp: stdin_defs copying_def begun_def intro!: pipe_ok_keep pipe_ok_write\<close>)

lemma closed_step:
  assumes "stdin_step body cmdID s t" "closed_inv cmdID s"
  shows "closed_inv cmdID t"
  using assms
  by cases (auto simp: closed_inv_def stdin_defs waitForExit_def DeleteCommand_def closers_upd not_closer split: sum.split if_splits)

lemma stdin_start_inv:
  "stdin_start cmdID s \<Longrightarrow> pipe_inv s \<and> closed_inv cmdID s \<and> (\<forall>i. sent_ok (body i) (siCalls s i))"
  by (auto simp: stdin_start_def pipe_ok_def copying_def closed_inv_def closers_def)

lemma stdin_run_inv:
  assumes "(stdin_step body cmdID)\<^sup>*\<^sup>* s0 s" "stdin_start cmdID s0"
  shows "pipe_inv s \<and> closed_inv cmdID s \<and> (\<forall>i. sent_ok (body i) (siCalls s i))"
  using assms
  by (induction rule: rtranclp_induct) (auto simp: stdin_start_inv intro: pipe_step closed_step sent_step)

lemma closed_pipe_final:
  assumes "(stdin_step body cmdID)\<^sup>*\<^sup>* s t" "siPipeClosed s"
  shows "siPipeClosed t \<and> siPiped t = siPiped s"
  using assms
proof (induction rule: rtranclp_induct)
  case (step t u)
  from step.hyps(2) step.IH [OF step.prems] show ?case by cases (auto simp: stdin_defs)
qed simp

text \<open>
  C33. However the requests of a command's standard input interleave with each other, with the process
  closing its end, and with its exit: the pipe has received one block for each request that began to
  write, in the order in which they did, each block a prefix of that request's body and the whole body
  when the request succeeded. At most one request to close it succeeds, and once one has, nothing is
  written any more.
\<close>

theorem stdin_serialized:
  assumes "stdin_start cmdID s0" "(stdin_step body cmdID)\<^sup>*\<^sup>* s0 s"
  shows "distinct (siOrder s) \<and> siPiped s = concat (map (\<lambda>i. sent (siCalls s i)) (siOrder s)) \<and>
    (\<forall>i. prefix (sent (siCalls s i)) (body i)) \<and>
    (\<forall>i w. siCalls s i = Answered PostStdin w (Inr ()) \<longrightarrow> i \<in> set (siOrder s) \<and> w = body i) \<and>
    (\<forall>i w. siCalls s i = Answered CloseStdin w (Inr ()) \<longrightarrow>
       (\<forall>j v. siCalls s j = Answered CloseStdin v (Inr ()) \<longrightarrow> j = i) \<and>
       (\<forall>t. (stdin_step body cmdID)\<^sup>*\<^sup>* s t \<longrightarrow> siPiped t = siPiped s))"
proof -
  have inv: "pipe_inv s" "closed_inv cmdID s" and ok: "\<And>i. sent_ok (body i) (siCalls s i)"
    using stdin_run_inv [OF assms(2,1)] by auto
  have "w = body i" if "siCalls s i = Answered PostStdin w (Inr ())" for i w using ok [of i] that by simp
  moreover have "closers (siCalls s) = {i} \<and> siPipeClosed s" if "siCalls s i = Answered CloseStdin w (Inr ())" for i w
  proof -
    have "i \<in> closers (siCalls s)" using that by (simp add: closers_def)
    then show ?thesis using inv(2) by (auto simp: closed_inv_def split: if_splits)
  qed
  then have "j = i" "(stdin_step body cmdID)\<^sup>*\<^sup>* s t \<longrightarrow> siPiped t = siPiped s"
    if "siCalls s i = Answered CloseStdin w (Inr ())" "siCalls s j = Answered CloseStdin v (Inr ())" for i w j v t
    using that closed_pipe_final [of body cmdID s t] by (auto simp: closers_def)
  ultimately show ?thesis using inv(1) sent_ok_prefix [OF ok] by (fastforce simp: pipe_ok_def)
qed


definition demo_entry :: command_entry where
  "demo_entry = \<lparr>ceID = ''c0ffee'',
     ceCmd = \<lparr>ecPath = ''/bin/sh'', ecArgs = [], ecEnv = [], ecDir = ''/'', ecChroot = ''/'', ecUid = 0, ecGid = 0,
       ecStdout = [], ecStderr = [], ecWaitDelay = 0, ecTimeout = None\<rparr>,
     ceOutputDir = [], ceStdinClosed = False, ceCancelled = False, ceDone = False, ceExitCode = 0\<rparr>"

definition demo_stdin :: stdin_sys where
  "demo_stdin = \<lparr>siSidecar = \<lparr>sdCachedPIDs = Map.empty, sdCommands = [''c0ffee'' \<mapsto> demo_entry]\<rparr>, siMu = None,
     siPipeClosed = False, siReaderGone = False, siPiped = [], siCalls = (\<lambda>i. NotArrived), siOrder = []\<rparr>"

definition demo_body :: "nat \<Rightarrow> string" where
  "demo_body i = (if i = 0 then ''hi'' else [])"

text \<open>The first request, as it arrives, copies its body in one piece and is answered.\<close>

definition demo_posted :: stdin_sys where
  "demo_posted = demo_stdin \<lparr>siPiped := ''hi'', siCalls := (\<lambda>i. NotArrived)(0 := Answered PostStdin ''hi'' (Inr ())), siOrder := [0]\<rparr>"

lemma demo_stdin_run: "(stdin_step demo_body ''c0ffee'')\<^sup>*\<^sup>* demo_stdin demo_posted"
proof -
  let ?at = "\<lambda>s c. s \<lparr>siCalls := (siCalls s)(0 := c)\<rparr>"
  let ?s1 = "?at demo_stdin (Locking PostStdin)"
  let ?s2 = "?at (demo_stdin \<lparr>siMu := Some 0, siOrder := [0]\<rparr>) (Copying [] [])"
  let ?s3 = "?at ?s2 (Copying [] ''hi'')"
  let ?s4 = "?at (?s2 \<lparr>siPiped := ''hi''\<rparr>) (Copying ''hi'' [])"
  have s1: "stdin_step demo_body ''c0ffee'' demo_stdin ?s1"
    using stdin_step.arrive [of demo_stdin 0 demo_body "''c0ffee''" PostStdin]
    by (simp add: arrived_def demo_stdin_def stdin_entry_def getCommandEntry_def demo_entry_def)
  have s2: "stdin_step demo_body ''c0ffee'' ?s1 ?s2"
    using stdin_step.lock_post [of ?s1 0 "''c0ffee''" demo_entry demo_body]
    by (simp add: PostCommandStdin_lock_def demo_stdin_def demo_entry_def)
  have s3: "stdin_step demo_body ''c0ffee'' ?s2 ?s3"
    using stdin_step.read_body [of ?s2 0 "[]" "''hi''" demo_body "''c0ffee''"] by (simp add: demo_body_def)
  have s4: "stdin_step demo_body ''c0ffee'' ?s3 ?s4"
    using stdin_step.write_part [of ?s3 0 "[]" "''hi''" "[]" demo_body "''c0ffee''"] by (simp add: demo_stdin_def)
  have s5: "stdin_step demo_body ''c0ffee'' ?s4 demo_posted"
  proof -
    have "answered 0 PostStdin ''hi'' (Inr ()) ?s4 = demo_posted"
      by (simp only: answered_def demo_posted_def demo_stdin_def stdin_sys.simps fun_upd_upd)
    moreover have "''hi'' = demo_body 0" by (simp add: demo_body_def)
    moreover have "siCalls ?s4 0 = Copying ''hi'' []" by simp
    ultimately show ?thesis using stdin_step.read_eof [of ?s4 0 "''hi''" demo_body "''c0ffee''"] by metis
  qed
  note extend = rtranclp.rtrancl_into_rtrancl [of "stdin_step demo_body ''c0ffee''" demo_stdin]
  show ?thesis
    by (rule extend [OF extend [OF extend [OF extend [OF extend [OF rtranclp.rtrancl_refl s1] s2] s3] s4] s5])
qed

theorem stdin_serialized_witness:
  "stdin_start ''c0ffee'' demo_stdin \<and> siPiped demo_posted = demo_body 0 \<and>
   siPiped demo_posted = concat (map (\<lambda>i. sent (siCalls demo_posted i)) (siOrder demo_posted))"
proof -
  have "stdin_start ''c0ffee'' demo_stdin" by (simp add: stdin_start_def demo_stdin_def demo_entry_def)
  moreover from stdin_serialized [OF this demo_stdin_run]
  have "siPiped demo_posted = concat (map (\<lambda>i. sent (siCalls demo_posted i)) (siOrder demo_posted))" by blast
  ultimately show ?thesis by (simp add: demo_posted_def demo_body_def)
qed

end
