(* ===== verification/Gateway.thy ===== *)
theory Gateway
  imports Commands ApiTypes "HOL-Library.Char_ord" "HOL-Library.List_Lexorder"
begin

text \<open>
  The API gateway's way to a sandbox, \<open>src/internal/api-gateway/proxy.go\<close>, \<open>command/command.go\<close> and
  \<open>filesystem/filesystem.go\<close>: a handler looks the sandbox up, and passes the request on to the sidecar of
  a sandbox that is running. The Kubernetes client, the HTTP client, JSON and \<open>net/http\<close>'s request
  constructor are the fields of \<open>gateway\<close>; the query strings of \<open>net/url\<close> are modelled.
\<close>


section \<open>The interface\<close>

text \<open>
  An error of the Kubernetes client: the code and message of the \<open>StatusError\<close> it wraps, if any, and
  what \<open>SuggestsClientDelay\<close>, \<open>IsNotFound\<close> and \<open>IsAlreadyExists\<close> say of it.
\<close>

record k8s_error =
  keStatus :: "(int \<times> string) option"
  keDelay :: "int option"
  keNotFound :: bool
  keAlreadyExists :: bool

datatype request_body = NoBody | JsonBody string | StreamBody

record sidecar_request =
  sqMethod :: string
  sqURL :: string
  sqHeaders :: "(string \<times> string) list"
  sqBody :: request_body

record sidecar_response =
  srStatus :: int
  srBody :: string

type_synonym 'a k8s = "k8s_error + 'a"

record 'w gateway =
  gwNamespace :: string
  gwGetSandbox :: "string \<Rightarrow> string \<Rightarrow> 'w \<Rightarrow> sandbox k8s \<times> 'w"
  gwCreateSandbox :: "sandbox \<Rightarrow> 'w \<Rightarrow> sandbox k8s \<times> 'w"
  gwDeleteSandbox :: "string \<Rightarrow> string \<Rightarrow> 'w \<Rightarrow> unit k8s \<times> 'w"
  gwListSandboxes :: "string \<Rightarrow> 'w \<Rightarrow> sandbox list k8s \<times> 'w"
  gwGetSnapshot :: "string \<Rightarrow> string \<Rightarrow> 'w \<Rightarrow> rootfs_snapshot k8s \<times> 'w"
  gwCreateSnapshot :: "rootfs_snapshot \<Rightarrow> 'w \<Rightarrow> rootfs_snapshot k8s \<times> 'w"
  gwGenerate :: "string \<Rightarrow> nat \<Rightarrow> 'w \<Rightarrow> (string + string) \<times> 'w"
  gwDo :: "sidecar_request \<Rightarrow> 'w \<Rightarrow> (string + sidecar_response) \<times> 'w"
  gwRequestOk :: "string \<Rightarrow> string \<Rightarrow> bool"
  gwMarshal :: "command_request \<Rightarrow> string option"
  gwErrorDetail :: "string \<Rightarrow> string option"
  gwDecodeID :: "string \<Rightarrow> string option"
  gwDecodeExit :: "string \<Rightarrow> int option option"
  gwStatusText :: "int \<Rightarrow> string"
  gwFindCondition :: "condition list \<Rightarrow> string \<Rightarrow> condition option"
  gwConditionTrue :: "condition list \<Rightarrow> string \<Rightarrow> bool"
  gwFormatTime :: "time \<Rightarrow> string"
  gwQuantity :: "string \<Rightarrow> string + string"

text \<open>The calls, with their outcomes. The handlers keep nothing between requests.\<close>

datatype gw_call =
    GwGetSandbox string string "sandbox k8s"
  | GwCreateSandbox sandbox "sandbox k8s"
  | GwDeleteSandbox string string "unit k8s"
  | GwListSandboxes string "sandbox list k8s"
  | GwGetSnapshot string string "rootfs_snapshot k8s"
  | GwCreateSnapshot rootfs_snapshot "rootfs_snapshot k8s"
  | GwGenerate string nat "string + string"
  | GwDo sidecar_request "string + sidecar_response"

type_synonym ('w, 'a) gw = "('w, unit, gw_call, http_error + 'a) program"


section \<open>Errors and states\<close>

definition K8sErrorToHuma :: "k8s_error \<Rightarrow> string \<Rightarrow> http_error" where
  "K8sErrorToHuma err fallbackMsg =
     (case keStatus err of
        None \<Rightarrow> Error500InternalServerError fallbackMsg
      | Some (code, msg) \<Rightarrow>
          if 0 < code then
            (case keDelay err of
               None \<Rightarrow> huma_NewError code msg
             | Some seconds \<Rightarrow>
                 if 0 < seconds then (huma_NewError code msg) \<lparr>heRetryAfter := Some seconds\<rparr>
                 else huma_NewError code msg)
          else Error500InternalServerError fallbackMsg)"

definition StatusPending :: string where "StatusPending = ''Pending''"
definition StatusRunning :: string where "StatusRunning = ''Running''"
definition StatusTerminating :: string where "StatusTerminating = ''Terminating''"
definition StatusSucceeded :: string where "StatusSucceeded = ''Succeeded''"
definition StatusFailed :: string where "StatusFailed = ''Failed''"

definition unfinished_status :: "'w gateway \<Rightarrow> sandbox \<Rightarrow> string" where
  "unfinished_status g sb =
     (if \<not> time_is_zero (metaDeleted (sbMeta sb)) then StatusTerminating
      else if gwConditionTrue g (sbConditions (sbStatus sb)) SandboxReadyCondition then StatusRunning
      else StatusPending)"

definition SandboxStatus :: "'w gateway \<Rightarrow> sandbox \<Rightarrow> string" where
  "SandboxStatus g sb =
     (case gwFindCondition g (sbConditions (sbStatus sb)) SandboxSucceededCondition of
        None \<Rightarrow> unfinished_status g sb
      | Some c \<Rightarrow>
          (case condStatus c of
             StatusTrue \<Rightarrow> StatusSucceeded
           | StatusFalse \<Rightarrow> StatusFailed
           | StatusUnknown \<Rightarrow> unfinished_status g sb))"

definition get_sandbox_failed :: "string \<Rightarrow> k8s_error \<Rightarrow> http_error" where
  "get_sandbox_failed sid e =
     (if keNotFound e then Error404NotFound (''sandbox '' @ quoted sid @ '' not found'')
      else K8sErrorToHuma e ''failed to get sandbox'')"

text \<open>What the answer of the API server makes of a request to a sandbox.\<close>

definition ready_sandbox :: "'w gateway \<Rightarrow> string \<Rightarrow> sandbox k8s \<Rightarrow> http_error + sandbox" where
  "ready_sandbox g sid r =
     (case r of
        Inl e \<Rightarrow> Inl (get_sandbox_failed sid e)
      | Inr sb \<Rightarrow>
          if SandboxStatus g sb \<noteq> StatusRunning then Inl (Error409Conflict ''sandbox is not ready'')
          else if sbPodIP (sbStatus sb) = [] then Inl (Error409Conflict ''sandbox is not ready'')
          else Inr sb)"

definition GetReadySandbox :: "'w gateway \<Rightarrow> string \<Rightarrow> ('w, sandbox) gw" where
  "GetReadySandbox g sid =
     seq (call_api (gwGetSandbox g (gwNamespace g) sid) (GwGetSandbox (gwNamespace g) sid)) (\<lambda>r.
       State_Monad.return (ready_sandbox g sid r))"

text \<open>At most 4096 bytes of an error body are read.\<close>

definition HandleSidecarError :: "'w gateway \<Rightarrow> sidecar_response \<Rightarrow> http_error" where
  "HandleSidecarError g resp =
     (let body = take 4096 (srBody resp);
          detail = (case gwErrorDetail g body of
                      None \<Rightarrow> gwStatusText g (srStatus resp)
                    | Some d \<Rightarrow> if d \<noteq> [] then d else gwStatusText g (srStatus resp)) in
      if 500 \<le> srStatus resp then Error502BadGateway detail else huma_NewError (srStatus resp) detail)"


section \<open>Query strings\<close>

text \<open>
  \<open>url.QueryEscape\<close> and \<open>url.Values.Encode\<close>, which sorts by key, and \<open>url.ParseQuery\<close> on the other
  side. A value that does not unescape is dropped there, as is a part with a semicolon.
\<close>

definition unreserved :: "char \<Rightarrow> bool" where
  "unreserved c \<longleftrightarrow>
     is_digit c \<or> char_in CHR ''a'' CHR ''z'' c \<or> char_in CHR ''A'' CHR ''Z'' c \<or> c \<in> set ''-_.~''"

definition upper_hex :: "nat \<Rightarrow> char" where
  "upper_hex n = ''0123456789ABCDEF'' ! n"

definition escape_char :: "char \<Rightarrow> string" where
  "escape_char c =
     (if unreserved c then [c]
      else if c = CHR '' '' then ''+''
      else [CHR ''%'', upper_hex (of_char c div 16), upper_hex (of_char c mod 16)])"

definition QueryEscape :: "string \<Rightarrow> string" where
  "QueryEscape s = concat (map escape_char s)"

definition Encode :: "(string \<times> string) list \<Rightarrow> string" where
  "Encode ps = str_join ''&'' (map (\<lambda>(k, v). QueryEscape k @ ''='' @ QueryEscape v) (sort_key fst ps))"

definition unhex :: "char \<Rightarrow> nat option" where
  "unhex c =
     (if is_digit c then Some (of_char c - 48)
      else if char_in CHR ''a'' CHR ''f'' c then Some (of_char c - 87)
      else if char_in CHR ''A'' CHR ''F'' c then Some (of_char c - 55)
      else None)"

fun QueryUnescape :: "string \<Rightarrow> string option" where
  "QueryUnescape [] = Some []"
| "QueryUnescape (c # s) =
     (if c = CHR ''%'' then
        (case s of
           a # b # t \<Rightarrow>
             (case (unhex a, unhex b) of
                (Some m, Some n) \<Rightarrow> map_option (\<lambda>u. char_of (16 * m + n) # u) (QueryUnescape t)
              | _ \<Rightarrow> None)
         | _ \<Rightarrow> None)
      else map_option (\<lambda>u. (if c = CHR ''+'' then CHR '' '' else c) # u) (QueryUnescape s))"

definition parse_part :: "string \<Rightarrow> (string \<times> string) list" where
  "parse_part p =
     (if p = [] \<or> CHR '';'' \<in> set p then []
      else case str_cut p ''='' of (k, v, ok) \<Rightarrow>
        (case (QueryUnescape k, QueryUnescape v) of (Some k', Some v') \<Rightarrow> [(k', v')] | _ \<Rightarrow> []))"

definition ParseQuery :: "string \<Rightarrow> (string \<times> string) list" where
  "ParseQuery q = concat (map parse_part (split_char CHR ''&'' q))"


section \<open>Requests to a sidecar\<close>

definition SidecarPort :: int where
  "SidecarPort = 10032"

definition sidecar_url :: "string \<Rightarrow> string \<Rightarrow> string" where
  "sidecar_url ip p = ''http://'' @ ip @ '':'' @ itoa SidecarPort @ p"

definition ask_sidecar ::
  "'w gateway \<Rightarrow> string \<Rightarrow> string \<Rightarrow> (string \<times> string) list \<Rightarrow> request_body \<Rightarrow> ('w, sidecar_response) gw" where
  "ask_sidecar g method url headers body =
     (if \<not> gwRequestOk g method url then throwE (Error500InternalServerError ''failed to build sidecar request'')
      else
        (let req = \<lparr>sqMethod = method, sqURL = url, sqHeaders = headers, sqBody = body\<rparr> in
         seq (call_api (gwDo g req) (GwDo req)) (\<lambda>r. case r of
           Inl e \<Rightarrow> throwE (Error502BadGateway ''failed to reach sidecar'')
         | Inr resp \<Rightarrow>
             if 400 \<le> srStatus resp then throwE (HandleSidecarError g resp) else returnE resp)))"

definition invalid_response :: http_error where
  "invalid_response = Error502BadGateway ''invalid sidecar response''"

definition container_param :: "string \<Rightarrow> (string \<times> string) list" where
  "container_param container = (if container \<noteq> [] then [(''container'', container)] else [])"

definition PostCommand_gw :: "'w gateway \<Rightarrow> string \<Rightarrow> string \<Rightarrow> command_request \<Rightarrow> ('w, string) gw" where
  "PostCommand_gw g sid container body =
     bindE (GetReadySandbox g sid) (\<lambda>sb.
       let url = sidecar_url (sbPodIP (sbStatus sb)) (''/v1/commands?'' @ Encode (container_param container)) in
       case gwMarshal g body of
         None \<Rightarrow> throwE (Error500InternalServerError ''failed to marshal command request'')
       | Some json \<Rightarrow>
           bindE (ask_sidecar g ''POST'' url [(''Content-Type'', ''application/json'')] (JsonBody json)) (\<lambda>resp.
             case gwDecodeID g (srBody resp) of
               None \<Rightarrow> throwE invalid_response
             | Some cmdID \<Rightarrow> returnE cmdID))"

definition command_path :: "string \<Rightarrow> string \<Rightarrow> string" where
  "command_path cmdID what = ''/v1/commands/'' @ cmdID @ what"

definition wait_query :: "int \<Rightarrow> string" where
  "wait_query waitSeconds = (if 0 < waitSeconds then ''?waitSeconds='' @ itoa waitSeconds else [])"

definition GetCommandStatus_gw :: "'w gateway \<Rightarrow> string \<Rightarrow> string \<Rightarrow> int \<Rightarrow> ('w, int option) gw" where
  "GetCommandStatus_gw g sid cmdID waitSeconds =
     bindE (GetReadySandbox g sid) (\<lambda>sb.
       let url = sidecar_url (sbPodIP (sbStatus sb)) (command_path cmdID ''/status'' @ wait_query waitSeconds) in
       bindE (ask_sidecar g ''GET'' url [] NoBody) (\<lambda>resp.
         case gwDecodeExit g (srBody resp) of
           None \<Rightarrow> throwE invalid_response
         | Some exitCode \<Rightarrow> returnE exitCode))"

text \<open>On success the body of the sidecar's answer is copied to the client, and the copy ends the answer.\<close>

definition proxyStream :: "'w gateway \<Rightarrow> string \<Rightarrow> string \<Rightarrow> string \<Rightarrow> string \<Rightarrow> ('w, sidecar_response) gw" where
  "proxyStream g sid cmdID stream lastEventID =
     bindE (GetReadySandbox g sid) (\<lambda>sb.
       ask_sidecar g ''GET'' (sidecar_url (sbPodIP (sbStatus sb)) (command_path cmdID (''/'' @ stream)))
         (if lastEventID \<noteq> [] then [(''Last-Event-ID'', lastEventID)] else []) NoBody)"

definition proxy_end :: "conn_error option \<Rightarrow> stream_end" where
  "proxy_end r =
     (case r of
        None \<Rightarrow> StreamFinished
      | Some e \<Rightarrow> if e = ContextCanceled \<or> e = EPIPE then StreamDisconnected else StreamAborted)"

definition GetCommandStdout_gw :: "'w gateway \<Rightarrow> string \<Rightarrow> string \<Rightarrow> string \<Rightarrow> ('w, sidecar_response) gw" where
  "GetCommandStdout_gw g sid cmdID lastEventID = proxyStream g sid cmdID ''stdout'' lastEventID"

definition GetCommandStderr_gw :: "'w gateway \<Rightarrow> string \<Rightarrow> string \<Rightarrow> string \<Rightarrow> ('w, sidecar_response) gw" where
  "GetCommandStderr_gw g sid cmdID lastEventID = proxyStream g sid cmdID ''stderr'' lastEventID"

definition octet_stream :: "(string \<times> string) list" where
  "octet_stream = [(''Content-Type'', ''application/octet-stream'')]"

text \<open>An answer without a body.\<close>

definition no_content :: "('w, sidecar_response) gw \<Rightarrow> ('w, unit) gw" where
  "no_content m = bindE m (\<lambda>resp. returnE ())"

definition PostCommandStdin_gw :: "'w gateway \<Rightarrow> string \<Rightarrow> string \<Rightarrow> ('w, unit) gw" where
  "PostCommandStdin_gw g sid cmdID =
     bindE (GetReadySandbox g sid) (\<lambda>sb.
       no_content (ask_sidecar g ''POST'' (sidecar_url (sbPodIP (sbStatus sb)) (command_path cmdID ''/stdin''))
         octet_stream StreamBody))"

definition CloseCommandStdin_gw :: "'w gateway \<Rightarrow> string \<Rightarrow> string \<Rightarrow> ('w, unit) gw" where
  "CloseCommandStdin_gw g sid cmdID =
     bindE (GetReadySandbox g sid) (\<lambda>sb.
       no_content (ask_sidecar g ''POST'' (sidecar_url (sbPodIP (sbStatus sb)) (command_path cmdID ''/stdin/close''))
         [] NoBody))"

definition DeleteCommand_gw :: "'w gateway \<Rightarrow> string \<Rightarrow> string \<Rightarrow> ('w, unit) gw" where
  "DeleteCommand_gw g sid cmdID =
     bindE (GetReadySandbox g sid) (\<lambda>sb.
       no_content (ask_sidecar g ''DELETE'' (sidecar_url (sbPodIP (sbStatus sb)) (command_path cmdID [])) [] NoBody))"

definition file_params :: "string \<Rightarrow> string \<Rightarrow> (string \<times> string) list" where
  "file_params p container = (''path'', p) # container_param container"

definition PostFilesystem_gw :: "'w gateway \<Rightarrow> string \<Rightarrow> string \<Rightarrow> string \<Rightarrow> ('w, unit) gw" where
  "PostFilesystem_gw g sid p container =
     bindE (GetReadySandbox g sid) (\<lambda>sb.
       no_content (ask_sidecar g ''POST''
         (sidecar_url (sbPodIP (sbStatus sb)) (''/v1/filesystem?'' @ Encode (file_params p container)))
         octet_stream StreamBody))"

definition GetFilesystem_gw :: "'w gateway \<Rightarrow> string \<Rightarrow> string \<Rightarrow> string \<Rightarrow> ('w, sidecar_response) gw" where
  "GetFilesystem_gw g sid p container =
     bindE (GetReadySandbox g sid) (\<lambda>sb.
       ask_sidecar g ''GET''
         (sidecar_url (sbPodIP (sbStatus sb)) (''/v1/filesystem?'' @ Encode (file_params p container))) [] NoBody)"


section \<open>What is sent to a sidecar\<close>

text \<open>
  \<open>asked g method url cs r\<close>: at most one request was sent, with the method and URL given, and success
  needs an answer below 400.
\<close>

definition asked :: "'w gateway \<Rightarrow> string \<Rightarrow> string \<Rightarrow> gw_call list \<Rightarrow> http_error + 'a \<Rightarrow> bool" where
  "asked g method url cs r \<longleftrightarrow>
     cs = [] \<and> (\<exists>e. r = Inl e \<and> heStatus e = 500) \<or>
     (\<exists>req ans. cs = [GwDo req ans] \<and> sqMethod req = method \<and> sqURL req = url \<and>
        (case ans of
           Inl e \<Rightarrow> r = Inl (Error502BadGateway ''failed to reach sidecar'')
         | Inr resp \<Rightarrow>
             if 400 \<le> srStatus resp then r = Inl (HandleSidecarError g resp)
             else r = Inl invalid_response \<or> (\<exists>a. r = Inr a)))"

text \<open>
  \<open>proxied g sid method p cs r\<close>: the calls \<open>cs\<close> and the result \<open>r\<close> of a request for sandbox \<open>sid\<close>. The sandbox
  is looked up once. Without a sandbox that is running and has an address nothing is sent and the
  answer is the reason; otherwise the sidecar at that address is asked for the path \<open>p\<close>.
\<close>

definition proxied :: "'w gateway \<Rightarrow> string \<Rightarrow> string \<Rightarrow> string \<Rightarrow> gw_call list \<Rightarrow> http_error + 'a \<Rightarrow> bool" where
  "proxied g sid method p cs r \<longleftrightarrow>
     (\<exists>got ds. cs = GwGetSandbox (gwNamespace g) sid got # ds \<and>
        (case ready_sandbox g sid got of
           Inl e \<Rightarrow> ds = [] \<and> r = Inl e
         | Inr sb \<Rightarrow>
             got = Inr sb \<and> SandboxStatus g sb = StatusRunning \<and> sbPodIP (sbStatus sb) \<noteq> [] \<and>
             asked g method (sidecar_url (sbPodIP (sbStatus sb)) p) ds r))"

abbreviation gw_traces :: "('w, 'a) gw \<Rightarrow> (gw_call list \<Rightarrow> http_error + 'a \<Rightarrow> bool) \<Rightarrow> bool" where
  "gw_traces m R \<equiv> traces (\<lambda>u. True) m R"

lemma ready_sandboxD:
  "ready_sandbox g sid got = Inr sb \<Longrightarrow> got = Inr sb \<and> SandboxStatus g sb = StatusRunning \<and> sbPodIP (sbStatus sb) \<noteq> []"
  by (auto simp: ready_sandbox_def split: sum.splits if_splits)

lemma traces_with_sandbox:
  assumes "\<And>sb. gw_traces (f sb) (asked g method (sidecar_url (sbPodIP (sbStatus sb)) p))"
  shows "gw_traces (bindE (GetReadySandbox g sid) f) (proxied g sid method p)"
proof -
  have "gw_traces (GetReadySandbox g sid)
      (\<lambda>cs r. \<exists>got. cs = [GwGetSandbox (gwNamespace g) sid got] \<and> r = ready_sandbox g sid got)"
    unfolding GetReadySandbox_def by (rule traces_bind_call) (rule traces_return, simp)
  then show ?thesis
  proof (rule traces_bindE)
    fix sb cs assume "\<exists>got. cs = [GwGetSandbox (gwNamespace g) sid got] \<and> Inr sb = ready_sandbox g sid got"
    then obtain got where c: "cs = [GwGetSandbox (gwNamespace g) sid got]" "ready_sandbox g sid got = Inr sb" by metis
    show "gw_traces (f sb) (\<lambda>ds r. proxied g sid method p (cs @ ds) r)"
      by (rule traces_weaken [OF assms]) (use ready_sandboxD [OF c(2)] c in \<open>simp add: proxied_def\<close>)
  next
    fix e cs assume "\<exists>got. cs = [GwGetSandbox (gwNamespace g) sid got] \<and> Inl e = ready_sandbox g sid got"
    then obtain got where "cs = [GwGetSandbox (gwNamespace g) sid got]" "ready_sandbox g sid got = Inl e" by metis
    then show "proxied g sid method p cs (Inl e)" by (simp add: proxied_def)
  qed
qed

lemma traces_ask: "gw_traces (ask_sidecar g method url headers body) (asked g method url)"
  unfolding ask_sidecar_def Let_def
  by (intro traces_if traces_throwE traces_bind_call traces_case_sum traces_returnE)
     (auto simp: huma_NewError_def asked_def split: sum.splits)

lemma asked_success:
  assumes "asked g method url cs (Inr b)"
  shows "asked g method url cs (Inl invalid_response)" "asked g method url cs (Inr a)"
proof -
  obtain req ans where "cs = [GwDo req ans]" using assms by (auto simp: asked_def)
  then obtain resp where "cs = [GwDo req (Inr resp)]" "sqMethod req = method" "sqURL req = url" "srStatus resp < 400"
    using assms by (cases ans) (auto simp: asked_def split: if_splits)
  then show "asked g method url cs (Inl invalid_response)" "asked g method url cs (Inr a)" by (auto simp: asked_def)
qed

lemma asked_failure:
  assumes "asked g method url cs (Inl e :: http_error + 'a)"
  shows "asked g method url cs (Inl e :: http_error + 'b)"
proof (cases cs)
  case (Cons c ds)
  then obtain req ans where "c = GwDo req ans" "ds = []" using assms by (auto simp: asked_def)
  then show ?thesis using assms Cons by (cases ans) (auto simp: asked_def)
qed (use assms in \<open>auto simp: asked_def\<close>)

lemma traces_ask_then:
  assumes "\<And>resp. gw_traces (f resp) (\<lambda>ds r. ds = [] \<and> (r = Inl invalid_response \<or> (\<exists>a. r = Inr a)))"
  shows "gw_traces (bindE (ask_sidecar g method url headers body) f) (asked g method url)"
proof (rule traces_bindE [OF traces_ask])
  fix resp :: sidecar_response and cs assume "asked g method url cs (Inr resp)"
  note ok = asked_success [OF this]
  show "gw_traces (f resp) (\<lambda>ds r. asked g method url (cs @ ds) r)"
    by (rule traces_weaken [OF assms]) (auto intro: ok)
qed (rule asked_failure)

lemma traces_no_content:
  "gw_traces (no_content (ask_sidecar g method url headers body)) (asked g method url)"
  unfolding no_content_def by (rule traces_ask_then) (simp add: traces_returnE)

text \<open>
  C34. What every handler of the gateway that needs a sidecar sends to it, whatever the API server and
  the sidecar answer: the sandbox is looked up, and only when it is running and has an address one
  request goes there, to the port of the sidecar, with the method and path of the operation; the
  client gets the reason when nothing was sent, 502 when the sidecar cannot be reached, the sidecar's
  error when it reports one, and success only on an answer below 400.
\<close>

theorem sidecar_requests_exact:
  "gw_traces (PostCommand_gw g sid container body)
     (proxied g sid ''POST'' (''/v1/commands?'' @ Encode (container_param container))) \<and>
   gw_traces (GetCommandStatus_gw g sid cmdID waitSeconds)
     (proxied g sid ''GET'' (command_path cmdID ''/status'' @ wait_query waitSeconds)) \<and>
   gw_traces (GetCommandStdout_gw g sid cmdID lastEventID) (proxied g sid ''GET'' (command_path cmdID ''/stdout'')) \<and>
   gw_traces (GetCommandStderr_gw g sid cmdID lastEventID) (proxied g sid ''GET'' (command_path cmdID ''/stderr'')) \<and>
   gw_traces (PostCommandStdin_gw g sid cmdID) (proxied g sid ''POST'' (command_path cmdID ''/stdin'')) \<and>
   gw_traces (CloseCommandStdin_gw g sid cmdID) (proxied g sid ''POST'' (command_path cmdID ''/stdin/close'')) \<and>
   gw_traces (DeleteCommand_gw g sid cmdID) (proxied g sid ''DELETE'' (command_path cmdID [])) \<and>
   gw_traces (PostFilesystem_gw g sid p container)
     (proxied g sid ''POST'' (''/v1/filesystem?'' @ Encode (file_params p container))) \<and>
   gw_traces (GetFilesystem_gw g sid p container)
     (proxied g sid ''GET'' (''/v1/filesystem?'' @ Encode (file_params p container)))"
  unfolding PostCommand_gw_def GetCommandStatus_gw_def GetCommandStdout_gw_def GetCommandStderr_gw_def proxyStream_def
    PostCommandStdin_gw_def CloseCommandStdin_gw_def DeleteCommand_gw_def PostFilesystem_gw_def GetFilesystem_gw_def Let_def
  by (auto intro!: traces_with_sandbox traces_ask traces_ask_then traces_no_content traces_case_option traces_throwE
      traces_returnE simp: asked_def huma_NewError_def)


section \<open>Query strings arrive as they were sent\<close>

lemma unhex_upper: "n < 16 \<Longrightarrow> unhex (upper_hex n) = Some n"
proof -
  have "\<forall>n < 16. unhex (upper_hex n) = Some n"
    by (simp add: upper_hex_def unhex_def is_digit_def char_in_def All_less_Suc eval_nat_numeral)
  then show "n < 16 \<Longrightarrow> unhex (upper_hex n) = Some n" by blast
qed

lemma upper_hex_unreserved: "n < 16 \<Longrightarrow> unreserved (upper_hex n)"
proof -
  have "\<forall>n < 16. unreserved (upper_hex n)"
    by (simp add: upper_hex_def unreserved_def is_digit_def char_in_def All_less_Suc eval_nat_numeral)
  then show "n < 16 \<Longrightarrow> unreserved (upper_hex n)" by blast
qed

lemma reserved: "unreserved c \<Longrightarrow> c \<notin> set ''%+=&; ''"
  by (auto simp: unreserved_def is_digit_def char_in_def)

lemma of_char_parts: "(of_char c :: nat) div 16 < 16" "(of_char c :: nat) mod 16 < 16"
  using nat_of_char_less_256 [of c] by (simp_all add: less_mult_imp_div_less)

lemma escape_char_set: "set (escape_char c) \<subseteq> Collect unreserved \<union> set ''%+''"
  using upper_hex_unreserved [OF of_char_parts(1)] upper_hex_unreserved [OF of_char_parts(2)]
  by (auto simp: escape_char_def)

lemma QueryEscape_set: "set (QueryEscape s) \<subseteq> Collect unreserved \<union> set ''%+''"
  using escape_char_set by (fastforce simp: QueryEscape_def)

lemma QueryUnescape_char: "QueryUnescape (escape_char c @ t) = map_option (\<lambda>u. c # u) (QueryUnescape t)"
proof (cases "unreserved c")
  case True
  then show ?thesis using reserved [OF True] by (simp add: escape_char_def)
next
  case False
  have "char_of (16 * (of_char c div 16) + of_char c mod 16 :: nat) = c"
    by (simp only: mult_div_mod_eq char_of_char)
  then show ?thesis using False unhex_upper [OF of_char_parts(1)] unhex_upper [OF of_char_parts(2)]
    by (simp add: escape_char_def)
qed

lemma QueryUnescape_escape: "QueryUnescape (QueryEscape s) = Some s"
  by (induction s) (simp_all add: QueryEscape_def QueryUnescape_char)

lemma parse_part_pair: "parse_part (QueryEscape k @ ''='' @ QueryEscape v) = [(k, v)]"
proof -
  have no: "d \<notin> set (QueryEscape s)" if "d \<in> set ''=&;''" for d s
    using QueryEscape_set [of s] reserved that by fastforce
  have cut: "str_cut (s @ ''='' @ t) ''='' = (s, t, True)" if "CHR ''='' \<notin> set s" for s t
    using that
  proof (induction s)
    case Nil
    then show ?case by (simp add: str_cut_def)
  next
    case (Cons c s)
    then show ?case by (simp add: str_cut_def split: option.splits prod.splits)
  qed
  show ?thesis
    using cut [OF no [of "CHR ''=''" k]] no [of "CHR '';''"]
    by (simp add: parse_part_def QueryUnescape_escape)
qed

lemma ParseQuery_Encode: "ParseQuery (Encode ps) = sort_key fst ps"
proof (cases ps)
  case Nil
  then show ?thesis by (simp add: Encode_def ParseQuery_def parse_part_def)
next
  case (Cons p qs)
  let ?part = "\<lambda>(k, v). QueryEscape k @ ''='' @ QueryEscape v"
  have no: "CHR ''&'' \<notin> set (QueryEscape s)" for s
    using QueryEscape_set [of s] reserved by fastforce
  have "split_char CHR ''&'' (Encode ps) = map ?part (sort_key fst ps)"
    unfolding Encode_def
    by (rule split_char_str_join) (use no Cons in \<open>auto simp flip: length_0_conv\<close>)
  then show ?thesis using parse_part_pair
    by (simp add: ParseQuery_def comp_def case_prod_beta)
qed

lemma Encode_set: "set (Encode ps) \<subseteq> Collect unreserved \<union> set ''%+=&''"
proof -
  have j: "set (str_join sep xs) \<subseteq> \<Union> (set ` set xs) \<union> set sep" for sep and xs :: "string list"
    by (induction sep xs rule: str_join.induct) auto
  have "set (QueryEscape k @ ''='' @ QueryEscape v) \<subseteq> Collect unreserved \<union> set ''%+=&''" for k v
    using QueryEscape_set by fastforce
  then show ?thesis unfolding Encode_def using j [of "''&''"] by fastforce
qed


end
