(* ===== verification/GatewayApi.thy ===== *)
theory GatewayApi
  imports Gateway
begin

text \<open>
  The API gateway's own resources: \<open>src/internal/api-gateway/sandbox\<close> and \<open>rootfssnapshot\<close>. A request is
  converted into a custom resource, created in the sandbox namespace, and read back as a response.
  Pointers are options; the type of a termination policy, a string on both sides, is the datatype of
  the resource on one.
\<close>


section \<open>Requests and responses\<close>

record rest_resource_list =
  rrCPU :: string
  rrMemory :: string
  rrEphemeral :: string

record rest_resources =
  rrLimits :: "rest_resource_list option"
  rrRequests :: "rest_resource_list option"

record container_request =
  crName :: string
  crImage :: string
  crCommand :: "string list"
  crEnv :: str_map
  crSnapshot :: string
  crResources :: "rest_resources option"

record rest_snapshot_termination =
  rstName :: string
  rstTimeout :: "int option"

record rest_termination =
  rtType :: string
  rtSnapshot :: "rest_snapshot_termination option"

record rest_network =
  rnInternet :: "bool option"
  rnClusterDNS :: "bool option"
  rnIPv6 :: "bool option"
  rnCIDRs :: "string list"
  rnNameservers :: "string list"
  rnRate :: "int option"

record create_request =
  cqContainers :: "container_request list"
  cqTimeout :: "int option"
  cqStartup :: "int option"
  cqNetwork :: "rest_network option"
  cqTermination :: "rest_termination option"

text \<open>Responses leave the environment out.\<close>

record container_info =
  ciName :: string
  ciImage :: string
  ciCommand :: "string list"
  ciSnapshot :: string
  ciResources :: "rest_resources option"

record sandbox_response =
  rpID :: string
  rpContainers :: "container_info list"
  rpTimeout :: "int option"
  rpStartup :: "int option"
  rpNetwork :: "rest_network option"
  rpTermination :: "rest_termination option"
  rpStatus :: string
  rpCreated :: string

record sandbox_summary =
  smID :: string
  smStatus :: string
  smCreated :: string


section \<open>Conversions\<close>

text \<open>
  A resource list of Kubernetes holds canonical texts; \<open>gwQuantity\<close> is the quantity parser, up to the
  text it prints.
\<close>

definition no_resources :: resource_list where
  "no_resources = \<lparr>rlCPU = None, rlMemory = None, rlEphemeral = None\<rparr>"

definition parse_quantity :: "'w gateway \<Rightarrow> string \<Rightarrow> string \<Rightarrow> string + string option" where
  "parse_quantity g what s =
     (if s = [] then Inr None
      else case gwQuantity g s of
        Inl e \<Rightarrow> Inl (''invalid '' @ what @ '' '' @ quoted s @ '': '' @ e)
      | Inr q \<Rightarrow> Inr (Some q))"

definition restResourceListToK8s :: "'w gateway \<Rightarrow> rest_resource_list option \<Rightarrow> string + resource_list" where
  "restResourceListToK8s g src =
     (case src of
        None \<Rightarrow> Inr no_resources
      | Some l \<Rightarrow>
          (case parse_quantity g ''cpu'' (rrCPU l) of Inl e \<Rightarrow> Inl e | Inr c \<Rightarrow>
          (case parse_quantity g ''memory'' (rrMemory l) of Inl e \<Rightarrow> Inl e | Inr m \<Rightarrow>
          (case parse_quantity g ''ephemeralStorage'' (rrEphemeral l) of Inl e \<Rightarrow> Inl e | Inr s \<Rightarrow>
             Inr \<lparr>rlCPU = c, rlMemory = m, rlEphemeral = s\<rparr>))))"

definition quantity_text :: "string option \<Rightarrow> string" where
  "quantity_text q = (case q of None \<Rightarrow> [] | Some s \<Rightarrow> s)"

definition resourceListToREST :: "resource_list \<Rightarrow> rest_resource_list option" where
  "resourceListToREST rl =
     (if rl = no_resources then None
      else Some \<lparr>rrCPU = quantity_text (rlCPU rl), rrMemory = quantity_text (rlMemory rl),
        rrEphemeral = quantity_text (rlEphemeral rl)\<rparr>)"

definition containerResourcesToSpec :: "pod_resources option \<Rightarrow> rest_resources option" where
  "containerResourcesToSpec r =
     (case r of
        None \<Rightarrow> None
      | Some p \<Rightarrow>
          (let l = resourceListToREST (resLimits p); q = resourceListToREST (resRequests p) in
           if l = None \<and> q = None then None else Some \<lparr>rrLimits = l, rrRequests = q\<rparr>))"

text \<open>Go ranges over a map in an order of its own, \<open>range_of\<close>; the names are then sorted.\<close>

definition mapToEnvVars :: "(str_map \<Rightarrow> string list) \<Rightarrow> str_map \<Rightarrow> env_var list" where
  "mapToEnvVars range_of m = map (\<lambda>k. \<lparr>envName = k, envVal = the (m k)\<rparr>) (sort (range_of m))"

definition restNetworkToCRD :: "rest_network option \<Rightarrow> network option" where
  "restNetworkToCRD n = map_option (\<lambda>n.
     \<lparr>allowInternetEgress = rnInternet n, allowClusterDNS = rnClusterDNS n, allowIPv6Egress = rnIPv6 n,
      allowedEgressCIDRs = rnCIDRs n, nameservers = rnNameservers n, egressRateLimit = rnRate n\<rparr>) n"

definition crdNetworkToREST :: "network option \<Rightarrow> rest_network option" where
  "crdNetworkToREST n = map_option (\<lambda>n.
     \<lparr>rnInternet = allowInternetEgress n, rnClusterDNS = allowClusterDNS n, rnIPv6 = allowIPv6Egress n,
      rnCIDRs = allowedEgressCIDRs n, rnNameservers = nameservers n, rnRate = egressRateLimit n\<rparr>) n"

definition termination_of :: "string \<Rightarrow> termination_type" where
  "termination_of t =
     (if t = ''Delete'' then TerminationDelete
      else if t = ''SnapshotRootfs'' then TerminationSnapshotRootfs
      else TerminationOther t)"

fun termination_text :: "termination_type \<Rightarrow> string" where
  "termination_text TerminationDelete = ''Delete''"
| "termination_text TerminationSnapshotRootfs = ''SnapshotRootfs''"
| "termination_text (TerminationOther t) = t"

definition restTerminationPolicyToCRD :: "rest_termination option \<Rightarrow> termination_policy option" where
  "restTerminationPolicyToCRD r = map_option (\<lambda>r.
     \<lparr>tpType = termination_of (rtType r),
      tpSnapshotRootfs = map_option (\<lambda>c. \<lparr>trSnapshotName = rstName c, trTimeoutSeconds = rstTimeout c\<rparr>) (rtSnapshot r)\<rparr>) r"

definition crdTerminationPolicyToREST :: "termination_policy option \<Rightarrow> rest_termination option" where
  "crdTerminationPolicyToREST t = map_option (\<lambda>t.
     \<lparr>rtType = termination_text (tpType t),
      rtSnapshot = map_option (\<lambda>c. \<lparr>rstName = trSnapshotName c, rstTimeout = trTimeoutSeconds c\<rparr>) (tpSnapshotRootfs t)\<rparr>) t"

text \<open>The snapshot of the termination policy is named after the sandbox unless the request names it.\<close>

definition default_snapshot_name :: "string \<Rightarrow> termination_policy \<Rightarrow> termination_policy" where
  "default_snapshot_name name t = t \<lparr>tpSnapshotRootfs := map_option (\<lambda>c.
     if trSnapshotName c = [] then c \<lparr>trSnapshotName := name\<rparr> else c) (tpSnapshotRootfs t)\<rparr>"


section \<open>From a request to a sandbox\<close>

definition container_name :: "nat \<Rightarrow> container_request \<Rightarrow> string" where
  "container_name i c = (if crName c = [] then ''sandbox'' @ itoa (int i) else crName c)"

definition container_resources :: "'w gateway \<Rightarrow> string \<Rightarrow> rest_resources option \<Rightarrow> string + pod_resources option" where
  "container_resources g name r =
     (case r of
        None \<Rightarrow> Inr None
      | Some r \<Rightarrow>
          (case restResourceListToK8s g (rrLimits r) of
             Inl e \<Rightarrow> Inl (''container '' @ quoted name @ '': invalid resource limits: '' @ e)
           | Inr l \<Rightarrow>
               (case restResourceListToK8s g (rrRequests r) of
                  Inl e \<Rightarrow> Inl (''container '' @ quoted name @ '': invalid resource requests: '' @ e)
                | Inr q \<Rightarrow> Inr (Some \<lparr>resLimits = l, resRequests = q\<rparr>))))"

definition request_container :: "(str_map \<Rightarrow> string list) \<Rightarrow> string \<Rightarrow> container_request \<Rightarrow> pod_resources option \<Rightarrow> pod_container" where
  "request_container range_of name c res =
     \<lparr>ctrName = name, ctrImage = crImage c, ctrPullPolicy = [], ctrCommand = crCommand c,
      ctrEnv = mapToEnvVars range_of (crEnv c), ctrRestartPolicy = None, ctrRestartRules = [],
      ctrResources = res, ctrSecurity = None, ctrRest = []\<rparr>"

fun containers_loop ::
  "'w gateway \<Rightarrow> (str_map \<Rightarrow> string list) \<Rightarrow> nat \<Rightarrow> container_request list \<Rightarrow> string + pod_container list \<times> snapshot_source list" where
  "containers_loop g range_of i [] = Inr ([], [])"
| "containers_loop g range_of i (c # cs) =
     (let name = container_name i c in
      case container_resources g name (crResources c) of
        Inl e \<Rightarrow> Inl e
      | Inr res \<Rightarrow>
          (case containers_loop g range_of (Suc i) cs of
             Inl e \<Rightarrow> Inl e
           | Inr (containers, sources) \<Rightarrow>
               Inr (request_container range_of name c res # containers,
                 (if crSnapshot c \<noteq> [] then [\<lparr>srcSnapshotName = crSnapshot c, srcContainerName = name\<rparr>] else []) @ sources)))"

definition request_pod_spec :: "pod_container list \<Rightarrow> pod_spec" where
  "request_pod_spec cs =
     \<lparr>podContainers = cs, podInitContainers = [], podRestartPolicy = None, podAutomountToken = None,
      podPullSecrets = [], podRuntimeClass = None, podSharePID = None, podPriorityClass = [],
      podDNSPolicy = DNSUnset, podDNSConfig = None, podNodeName = [], podSpecRest = []\<rparr>"

definition requestToSandboxCR ::
  "'w gateway \<Rightarrow> (str_map \<Rightarrow> string list) \<Rightarrow> create_request \<Rightarrow> string \<Rightarrow> string \<Rightarrow> string + sandbox" where
  "requestToSandboxCR g range_of req name ns =
     (case containers_loop g range_of 0 (cqContainers req) of
        Inl e \<Rightarrow> Inl e
      | Inr (containers, sources) \<Rightarrow>
          Inr \<lparr>sbMeta = empty_meta \<lparr>metaName := name, metaNamespace := ns\<rparr>,
               sbSpec = \<lparr>podTemplate = \<lparr>tplLabels = Map.empty, tplAnnotations = Map.empty, tplSpec = request_pod_spec containers\<rparr>,
                 timeoutSeconds = cqTimeout req, startupTimeoutSeconds = cqStartup req,
                 terminationPolicy = map_option (default_snapshot_name name) (restTerminationPolicyToCRD (cqTermination req)),
                 sbNetwork = restNetworkToCRD (cqNetwork req), snapshotSources = sources\<rparr>,
               sbStatus = \<lparr>sbConditions = [], timeoutAt = None, terminationDeadlineAt = None, sbPodIP = [],
                 sidecarVersion = []\<rparr>\<rparr>)"


section \<open>From a sandbox to a response\<close>

definition rootfs_map :: "snapshot_source list \<Rightarrow> pod_container list \<Rightarrow> str_map" where
  "rootfs_map srcs cs =
     (let m = foldl (\<lambda>m s. m(srcContainerName s \<mapsto> srcSnapshotName s)) Map.empty srcs in
      case cs of
        [c] \<Rightarrow> (case m [] of None \<Rightarrow> m | Some snap \<Rightarrow> m(ctrName c \<mapsto> snap))
      | _ \<Rightarrow> m)"

definition container_answer :: "str_map \<Rightarrow> pod_container \<Rightarrow> container_info" where
  "container_answer m c =
     \<lparr>ciName = ctrName c, ciImage = ctrImage c, ciCommand = ctrCommand c,
      ciSnapshot = (case m (ctrName c) of None \<Rightarrow> [] | Some s \<Rightarrow> s),
      ciResources = containerResourcesToSpec (ctrResources c)\<rparr>"

definition sandboxToResponse :: "'w gateway \<Rightarrow> sandbox \<Rightarrow> sandbox_response" where
  "sandboxToResponse g sb =
     (let cs = podContainers (tplSpec (podTemplate (sbSpec sb)));
          m = rootfs_map (snapshotSources (sbSpec sb)) cs in
      \<lparr>rpID = metaName (sbMeta sb), rpContainers = map (container_answer m) cs,
       rpTimeout = timeoutSeconds (sbSpec sb), rpStartup = startupTimeoutSeconds (sbSpec sb),
       rpNetwork = crdNetworkToREST (sbNetwork (sbSpec sb)),
       rpTermination = crdTerminationPolicyToREST (terminationPolicy (sbSpec sb)),
       rpStatus = SandboxStatus g sb, rpCreated = gwFormatTime g (metaCreated (sbMeta sb))\<rparr>)"

definition sandboxToSummary :: "'w gateway \<Rightarrow> sandbox \<Rightarrow> sandbox_summary" where
  "sandboxToSummary g sb =
     \<lparr>smID = metaName (sbMeta sb), smStatus = SandboxStatus g sb, smCreated = gwFormatTime g (metaCreated (sbMeta sb))\<rparr>"


section \<open>Handlers\<close>

definition letterAlphabet :: string where
  "letterAlphabet = ''abcdefghijklmnopqrstuvwxyz''"

definition fullAlphabet :: string where
  "fullAlphabet = ''abcdefghijklmnopqrstuvwxyz0123456789''"

definition sandboxIDLength :: nat where
  "sandboxIDLength = 22"

definition generateSandboxID :: "'w gateway \<Rightarrow> ('w, unit, gw_call, string + string) program" where
  "generateSandboxID g =
     seq (call_api (gwGenerate g letterAlphabet 1) (GwGenerate letterAlphabet 1)) (\<lambda>r. case r of
       Inl e \<Rightarrow> throwE (''generate first char: '' @ e)
     | Inr first \<Rightarrow>
         seq (call_api (gwGenerate g fullAlphabet (sandboxIDLength - 1)) (GwGenerate fullAlphabet (sandboxIDLength - 1)))
           (\<lambda>r. case r of
              Inl e \<Rightarrow> throwE (''generate remaining chars: '' @ e)
            | Inr rest \<Rightarrow> returnE (first @ rest)))"

definition one_container_only :: "create_request \<Rightarrow> bool" where
  "one_container_only req \<longleftrightarrow>
     (case cqTermination req of None \<Rightarrow> False | Some t \<Rightarrow> rtType t = ''SnapshotRootfs'')"

definition PostSandbox :: "'w gateway \<Rightarrow> (str_map \<Rightarrow> string list) \<Rightarrow> create_request \<Rightarrow> ('w, sandbox_response) gw" where
  "PostSandbox g range_of req =
     (if one_container_only req \<and> 1 < length (cqContainers req) then
        throwE (Error422UnprocessableEntity
          ''SnapshotRootfs termination type currently supports single-container sandboxes only'')
      else
        seq (generateSandboxID g) (\<lambda>r. case r of
          Inl e \<Rightarrow> throwE (Error500InternalServerError ''failed to generate sandbox id'')
        | Inr name \<Rightarrow>
            (case requestToSandboxCR g range_of req name (gwNamespace g) of
               Inl e \<Rightarrow> throwE (Error400BadRequest e)
             | Inr sb \<Rightarrow>
                 seq (call_api (gwCreateSandbox g sb) (GwCreateSandbox sb)) (\<lambda>r. case r of
                   Inl e \<Rightarrow>
                     throwE (if keAlreadyExists e then Error409Conflict ''sandbox already exists''
                             else K8sErrorToHuma e ''failed to create sandbox'')
                 | Inr sb' \<Rightarrow> returnE (sandboxToResponse g sb')))))"

definition GetSandbox_gw :: "'w gateway \<Rightarrow> string \<Rightarrow> ('w, sandbox_response) gw" where
  "GetSandbox_gw g sid =
     seq (call_api (gwGetSandbox g (gwNamespace g) sid) (GwGetSandbox (gwNamespace g) sid)) (\<lambda>r. case r of
       Inl e \<Rightarrow> throwE (get_sandbox_failed sid e)
     | Inr sb \<Rightarrow> returnE (sandboxToResponse g sb))"

definition ListSandboxes :: "'w gateway \<Rightarrow> ('w, sandbox_summary list) gw" where
  "ListSandboxes g =
     seq (call_api (gwListSandboxes g (gwNamespace g)) (GwListSandboxes (gwNamespace g))) (\<lambda>r. case r of
       Inl e \<Rightarrow> throwE (K8sErrorToHuma e ''failed to list sandboxes'')
     | Inr sbs \<Rightarrow> returnE (map (sandboxToSummary g) sbs))"

definition DeleteSandbox_gw :: "'w gateway \<Rightarrow> string \<Rightarrow> ('w, unit) gw" where
  "DeleteSandbox_gw g sid =
     seq (call_api (gwDeleteSandbox g (gwNamespace g) sid) (GwDeleteSandbox (gwNamespace g) sid)) (\<lambda>r. case r of
       Inl e \<Rightarrow> if keNotFound e then returnE () else throwE (K8sErrorToHuma e ''failed to delete sandbox'')
     | Inr _ \<Rightarrow> returnE ())"


section \<open>Snapshots\<close>

record snapshot_request =
  nqSandboxID :: string
  nqSnapshotName :: string
  nqContainerName :: string
  nqTimeout :: "int option"
  nqTTL :: "int option"

record snapshot_response =
  npID :: string
  npSandboxID :: string
  npSnapshotName :: string
  npContainerName :: string
  npTimeout :: "int option"
  npTTL :: "int option"
  npStatus :: string
  npCreated :: string

definition requestToRootfsSnapshotCR :: "snapshot_request \<Rightarrow> string \<Rightarrow> string \<Rightarrow> rootfs_snapshot" where
  "requestToRootfsSnapshotCR req name ns =
     \<lparr>snMeta = empty_meta \<lparr>metaName := name, metaNamespace := ns\<rparr>,
      snSpec = \<lparr>snSandboxName = nqSandboxID req,
        snSnapshotName = (if nqSnapshotName req = [] then nqSandboxID req else nqSnapshotName req),
        snContainerName = nqContainerName req, snTimeoutSeconds = nqTimeout req, snTTLSeconds = nqTTL req\<rparr>,
      snStatus = empty_snapshot_status\<rparr>"

definition snapshotStatus :: "'w gateway \<Rightarrow> time option \<Rightarrow> condition list \<Rightarrow> string" where
  "snapshotStatus g startTime conditions =
     (let unfinished = (if startTime \<noteq> None then StatusRunning else StatusPending) in
      case gwFindCondition g conditions RootfsSnapshotSucceededCondition of
        None \<Rightarrow> unfinished
      | Some c \<Rightarrow>
          (case condStatus c of
             StatusTrue \<Rightarrow> StatusSucceeded | StatusFalse \<Rightarrow> StatusFailed | StatusUnknown \<Rightarrow> unfinished))"

definition rootfsSnapshotToResponse :: "'w gateway \<Rightarrow> rootfs_snapshot \<Rightarrow> snapshot_response" where
  "rootfsSnapshotToResponse g rs =
     \<lparr>npID = metaName (snMeta rs), npSandboxID = snSandboxName (snSpec rs), npSnapshotName = snSnapshotName (snSpec rs),
      npContainerName = snContainerName (snSpec rs), npTimeout = snTimeoutSeconds (snSpec rs),
      npTTL = snTTLSeconds (snSpec rs),
      npStatus = snapshotStatus g (snStartTime (snStatus rs)) (snConditions (snStatus rs)),
      npCreated = gwFormatTime g (metaCreated (snMeta rs))\<rparr>"

definition snapshotIDLength :: nat where
  "snapshotIDLength = 22"

definition generateSnapshotID :: "'w gateway \<Rightarrow> ('w, unit, gw_call, string + string) program" where
  "generateSnapshotID g =
     seq (call_api (gwGenerate g letterAlphabet 1) (GwGenerate letterAlphabet 1)) (\<lambda>r. case r of
       Inl e \<Rightarrow> throwE (''generate first char: '' @ e)
     | Inr first \<Rightarrow>
         seq (call_api (gwGenerate g fullAlphabet (snapshotIDLength - 1)) (GwGenerate fullAlphabet (snapshotIDLength - 1)))
           (\<lambda>r. case r of
              Inl e \<Rightarrow> throwE (''generate remaining chars: '' @ e)
            | Inr rest \<Rightarrow> returnE (first @ rest)))"

definition PostRootfsSnapshot :: "'w gateway \<Rightarrow> snapshot_request \<Rightarrow> ('w, snapshot_response) gw" where
  "PostRootfsSnapshot g req =
     seq (generateSnapshotID g) (\<lambda>r. case r of
       Inl e \<Rightarrow> throwE (Error500InternalServerError ''failed to generate snapshot id'')
     | Inr name \<Rightarrow>
         (let cr = requestToRootfsSnapshotCR req name (gwNamespace g) in
          seq (call_api (gwCreateSnapshot g cr) (GwCreateSnapshot cr)) (\<lambda>r. case r of
            Inl e \<Rightarrow> throwE (K8sErrorToHuma e ''failed to create rootfs snapshot'')
          | Inr cr' \<Rightarrow> returnE (rootfsSnapshotToResponse g cr'))))"

definition GetRootfsSnapshot :: "'w gateway \<Rightarrow> string \<Rightarrow> ('w, snapshot_response) gw" where
  "GetRootfsSnapshot g nid =
     seq (call_api (gwGetSnapshot g (gwNamespace g) nid) (GwGetSnapshot (gwNamespace g) nid)) (\<lambda>r. case r of
       Inl e \<Rightarrow>
         throwE (if keNotFound e then Error404NotFound (''rootfs snapshot '' @ quoted nid @ '' not found'')
                 else K8sErrorToHuma e ''failed to get rootfs snapshot'')
     | Inr rs \<Rightarrow> returnE (rootfsSnapshotToResponse g rs))"


section \<open>A created sandbox reads back as requested\<close>

text \<open>What a response to the request says, once defaults are filled in and quantities are canonical.\<close>

definition canonical :: "'w gateway \<Rightarrow> string \<Rightarrow> string" where
  "canonical g s = (if s = [] then [] else case gwQuantity g s of Inl e \<Rightarrow> [] | Inr q \<Rightarrow> q)"

definition canonical_list :: "'w gateway \<Rightarrow> rest_resource_list option \<Rightarrow> rest_resource_list option" where
  "canonical_list g src =
     (case src of
        None \<Rightarrow> None
      | Some l \<Rightarrow>
          if rrCPU l = [] \<and> rrMemory l = [] \<and> rrEphemeral l = [] then None
          else Some \<lparr>rrCPU = canonical g (rrCPU l), rrMemory = canonical g (rrMemory l), rrEphemeral = canonical g (rrEphemeral l)\<rparr>)"

definition canonical_resources :: "'w gateway \<Rightarrow> rest_resources option \<Rightarrow> rest_resources option" where
  "canonical_resources g r =
     (case r of
        None \<Rightarrow> None
      | Some r \<Rightarrow>
          (let l = canonical_list g (rrLimits r); q = canonical_list g (rrRequests r) in
           if l = None \<and> q = None then None else Some \<lparr>rrLimits = l, rrRequests = q\<rparr>))"

definition requested_container :: "'w gateway \<Rightarrow> nat \<Rightarrow> container_request \<Rightarrow> container_info" where
  "requested_container g i c =
     \<lparr>ciName = container_name i c, ciImage = crImage c, ciCommand = crCommand c, ciSnapshot = crSnapshot c,
      ciResources = canonical_resources g (crResources c)\<rparr>"

definition requested :: "'w gateway \<Rightarrow> create_request \<Rightarrow> string \<Rightarrow> string \<Rightarrow> sandbox_response" where
  "requested g req name status =
     \<lparr>rpID = name, rpContainers = map (\<lambda>(i, c). requested_container g i c) (enumerate 0 (cqContainers req)),
      rpTimeout = cqTimeout req, rpStartup = cqStartup req, rpNetwork = cqNetwork req,
      rpTermination = map_option (\<lambda>t. t \<lparr>rtSnapshot := map_option (\<lambda>c.
         if rstName c = [] then c \<lparr>rstName := name\<rparr> else c) (rtSnapshot t)\<rparr>) (cqTermination req),
      rpStatus = status, rpCreated = gwFormatTime g zero_time\<rparr>"

definition container_names :: "create_request \<Rightarrow> string list" where
  "container_names req = map (\<lambda>(i, c). container_name i c) (enumerate 0 (cqContainers req))"

lemma container_name_not_Nil: "container_name i c \<noteq> []"
  by (simp add: container_name_def)

lemma termination_text_of: "termination_text (termination_of t) = t"
  by (simp add: termination_of_def)

lemma parse_quantity_text:
  "parse_quantity g what s = Inr q \<Longrightarrow> quantity_text q = canonical g s \<and> (q = None \<longleftrightarrow> s = [])"
  by (auto simp: parse_quantity_def quantity_text_def canonical_def split: if_splits sum.splits)

lemma resource_list_roundtrip:
  assumes "restResourceListToK8s g src = Inr rl"
  shows "resourceListToREST rl = canonical_list g src"
proof (cases src)
  case None
  then show ?thesis using assms by (simp add: restResourceListToK8s_def resourceListToREST_def canonical_list_def)
next
  case (Some l)
  obtain c m e where p: "parse_quantity g ''cpu'' (rrCPU l) = Inr c" "parse_quantity g ''memory'' (rrMemory l) = Inr m"
      "parse_quantity g ''ephemeralStorage'' (rrEphemeral l) = Inr e"
      "rl = \<lparr>rlCPU = c, rlMemory = m, rlEphemeral = e\<rparr>"
    using assms Some by (auto simp: restResourceListToK8s_def split: sum.splits)
  show ?thesis using parse_quantity_text [OF p(1)] parse_quantity_text [OF p(2)] parse_quantity_text [OF p(3)] p(4) Some
    by (simp add: resourceListToREST_def canonical_list_def no_resources_def)
qed

lemma resources_roundtrip:
  "container_resources g name r = Inr res \<Longrightarrow> containerResourcesToSpec res = canonical_resources g r"
  by (auto simp: container_resources_def containerResourcesToSpec_def canonical_resources_def Let_def resource_list_roundtrip
      split: option.splits sum.splits)

text \<open>The sources that the loop collects, and what the loop makes of each container.\<close>

definition source_of :: "nat \<times> container_request \<Rightarrow> snapshot_source list" where
  "source_of = (\<lambda>(i, c). if crSnapshot c \<noteq> [] then [\<lparr>srcSnapshotName = crSnapshot c, srcContainerName = container_name i c\<rparr>] else [])"

lemma containers_loop_Inr:
  "containers_loop g range_of i cs = Inr (containers, sources) \<Longrightarrow>
     sources = concat (map source_of (enumerate i cs)) \<and>
     list_all2 (\<lambda>(j, c) p. \<exists>res. container_resources g (container_name j c) (crResources c) = Inr res \<and>
       p = request_container range_of (container_name j c) c res) (enumerate i cs) containers"
proof (induction g range_of i cs arbitrary: containers sources rule: containers_loop.induct)
  case (2 g range_of i c cs)
  then show ?case by (auto simp: Let_def source_of_def split: sum.splits prod.splits)
qed simp

lemma source_map:
  fixes xs :: "(nat \<times> container_request) list"
  assumes "distinct (map (\<lambda>(i, c). container_name i c) xs)"
  shows "foldl (\<lambda>m s. m(srcContainerName s \<mapsto> srcSnapshotName s)) m (concat (map source_of xs)) k =
    (case find (\<lambda>(i, c). container_name i c = k \<and> crSnapshot c \<noteq> []) xs of None \<Rightarrow> m k | Some (i, c) \<Rightarrow> Some (crSnapshot c))"
  using assms
proof (induction xs arbitrary: m)
  case (Cons x xs)
  obtain i c where x: "x = (i, c)" by (cases x)
  have "find (\<lambda>(i, c). container_name i c = k \<and> crSnapshot c \<noteq> []) xs = None" if "container_name i c = k"
  proof -
    have "k \<notin> (\<lambda>(i, c). container_name i c) ` set xs" using Cons.prems x that by auto
    then show ?thesis by (force simp: find_None_iff)
  qed
  then show ?case using Cons x by (auto simp: source_of_def split: option.split)
qed simp

lemma found_source:
  assumes "distinct (map (\<lambda>(i, c). container_name i c) xs)" "(i, c) \<in> set xs"
  shows "(case find (\<lambda>(j, d). container_name j d = container_name i c \<and> crSnapshot d \<noteq> []) xs of
    None \<Rightarrow> [] | Some (j, d) \<Rightarrow> crSnapshot d) = crSnapshot c"
proof (cases "find (\<lambda>(j, d). container_name j d = container_name i c \<and> crSnapshot d \<noteq> []) xs")
  case None
  then have "crSnapshot c = []" using assms(2) by (fastforce simp: find_None_iff)
  then show ?thesis using None by simp
next
  case (Some y)
  obtain j d where jd: "y = (j, d)" by (cases y)
  then have y: "y = (j, d)" "(j, d) \<in> set xs" "container_name j d = container_name i c"
    using find_Some_iff [THEN iffD1, OF Some] by (auto simp: in_set_conv_nth)
  have "(j, d) = (i, c)"
    using inj_onD [of "\<lambda>(i, c). container_name i c" "set xs" "(j, d)" "(i, c)"] assms y(2,3)
    by (simp add: distinct_map)
  then show ?thesis using Some y(1) by simp
qed

lemma rootfs_map_request:
  assumes loop: "containers_loop g range_of i cs = Inr (containers, sources)"
    and names: "distinct (map (\<lambda>(i, c). container_name i c) (enumerate i cs))" and k: "k \<noteq> []"
  shows "rootfs_map sources containers k =
    (case find (\<lambda>(i, c). container_name i c = k \<and> crSnapshot c \<noteq> []) (enumerate i cs) of
       None \<Rightarrow> None | Some (i, c) \<Rightarrow> Some (crSnapshot c))"
proof -
  note s = containers_loop_Inr [OF loop]
  let ?m = "foldl (\<lambda>m s. m(srcContainerName s \<mapsto> srcSnapshotName s)) Map.empty sources"
  have m: "?m k = (case find (\<lambda>(i, c). container_name i c = k \<and> crSnapshot c \<noteq> []) (enumerate i cs) of
      None \<Rightarrow> None | Some (i, c) \<Rightarrow> Some (crSnapshot c))" for k
    using source_map [OF names, of Map.empty k] s by simp
  have "?m [] = None" using container_name_not_Nil
    by (subst m) (auto split: option.split simp: find_Some_iff)
  then show ?thesis using m [of k] by (simp add: rootfs_map_def Let_def split: list.split)
qed

lemma list_all2_map_eq:
  "list_all2 P xs ys \<Longrightarrow> (\<And>x y. x \<in> set xs \<Longrightarrow> P x y \<Longrightarrow> g y = h x) \<Longrightarrow> map g ys = map h xs"
  by (induction rule: list_all2_induct) auto

lemma answers_request:
  assumes loop: "containers_loop g range_of i cs = Inr (containers, sources)"
    and names: "distinct (map (\<lambda>(i, c). container_name i c) (enumerate i cs))"
  shows "map (container_answer (rootfs_map sources containers)) containers =
    map (\<lambda>(i, c). requested_container g i c) (enumerate i cs)"
proof -
  let ?m = "rootfs_map sources containers"
  have "container_answer ?m p = requested_container g j c"
    if "(j, c) \<in> set (enumerate i cs)"
      "\<exists>res. container_resources g (container_name j c) (crResources c) = Inr res \<and>
        p = request_container range_of (container_name j c) c res" for j c p
  proof -
    have "(case ?m (container_name j c) of None \<Rightarrow> [] | Some s \<Rightarrow> s) = crSnapshot c"
      using found_source [OF names that(1)]
      unfolding rootfs_map_request [OF loop names container_name_not_Nil] by (auto split: option.splits)
    then show ?thesis using that(2)
      by (auto simp: container_answer_def requested_container_def request_container_def resources_roundtrip)
  qed
  note one = this
  show ?thesis
    by (rule list_all2_map_eq [OF conjunct2 [OF containers_loop_Inr [OF loop]]]) (auto dest: one)
qed

lemma mapToEnvVars_sorted:
  assumes "set (range_of m) = dom m" "distinct (range_of m)"
  shows "mapToEnvVars range_of m = map (\<lambda>k. \<lparr>envName = k, envVal = the (m k)\<rparr>) (sorted_list_of_set (dom m))"
  using assms sorted_list_of_set_sort_remdups [of "range_of m"] by (simp add: mapToEnvVars_def distinct_remdups_id)

lemma response_of_request:
  assumes cr: "requestToSandboxCR g range_of req name ns = Inr sb" and names: "distinct (container_names req)"
  shows "sandboxToResponse g sb = requested g req name (SandboxStatus g sb)"
proof -
  obtain containers sources where loop: "containers_loop g range_of 0 (cqContainers req) = Inr (containers, sources)"
    and sb: "podContainers (tplSpec (podTemplate (sbSpec sb))) = containers" "snapshotSources (sbSpec sb) = sources"
      "timeoutSeconds (sbSpec sb) = cqTimeout req" "startupTimeoutSeconds (sbSpec sb) = cqStartup req"
      "sbNetwork (sbSpec sb) = restNetworkToCRD (cqNetwork req)"
      "terminationPolicy (sbSpec sb) = map_option (default_snapshot_name name) (restTerminationPolicyToCRD (cqTermination req))"
      "metaName (sbMeta sb) = name" "metaCreated (sbMeta sb) = zero_time"
    using cr by (auto simp: requestToSandboxCR_def request_pod_spec_def empty_meta_def split: sum.splits prod.splits)
  have net: "crdNetworkToREST (restNetworkToCRD n) = n" for n
    by (cases n) (simp_all add: crdNetworkToREST_def restNetworkToCRD_def)
  have policy: "crdTerminationPolicyToREST (map_option (default_snapshot_name name) (restTerminationPolicyToCRD t)) =
      map_option (\<lambda>t. t \<lparr>rtSnapshot := map_option (\<lambda>c. if rstName c = [] then c \<lparr>rstName := name\<rparr> else c) (rtSnapshot t)\<rparr>) t" for t
    by (cases t; cases "rtSnapshot (the t)")
       (auto simp: crdTerminationPolicyToREST_def restTerminationPolicyToCRD_def default_snapshot_name_def termination_text_of)
  show ?thesis
    using answers_request [OF loop] names sb
    by (simp add: sandboxToResponse_def requested_def Let_def net policy container_names_def)
qed


lemma request_environment:
  assumes "containers_loop g range_of i cs = Inr (containers, sources)"
  shows "map ctrEnv containers = map (\<lambda>c. mapToEnvVars range_of (crEnv c)) cs"
proof -
  have "map ctrEnv containers = map (\<lambda>x. mapToEnvVars range_of (crEnv (snd x))) (enumerate i cs)"
    by (rule list_all2_map_eq [OF conjunct2 [OF containers_loop_Inr [OF assms]]]) (auto simp: request_container_def)
  also have "\<dots> = map (\<lambda>c. mapToEnvVars range_of (crEnv c)) (map snd (enumerate i cs))"
    by (simp only: map_map comp_def)
  finally show ?thesis by (simp only: map_snd_enumerate)
qed

text \<open>What the generator of identifiers promises: that many characters of the alphabet.\<close>

definition nanoid :: "'w gateway \<Rightarrow> bool" where
  "nanoid g \<longleftrightarrow> (\<forall>al n w s w'. gwGenerate g al n w = (Inr s, w') \<longrightarrow> length s = n \<and> set s \<subseteq> set al)"

definition sandbox_id :: "string \<Rightarrow> bool" where
  "sandbox_id name \<longleftrightarrow> length name = 22 \<and> hd name \<in> set letterAlphabet \<and> set name \<subseteq> set fullAlphabet"

lemma generated_sandbox_id:
  assumes "nanoid g" "gwGenerate g letterAlphabet 1 w = (Inr first, v)"
    and "gwGenerate g fullAlphabet (sandboxIDLength - 1) v = (Inr rest, u)"
  shows "sandbox_id (first @ rest)"
proof -
  have f: "length first = 1" "set first \<subseteq> set letterAlphabet" and r: "length rest = 21" "set rest \<subseteq> set fullAlphabet"
    using assms unfolding nanoid_def sandboxIDLength_def by fastforce+
  then obtain c where "first = [c]" by (cases first) auto
  moreover have "set letterAlphabet \<subseteq> set fullAlphabet" by (simp add: letterAlphabet_def fullAlphabet_def)
  ultimately show ?thesis using f r by (auto simp: sandbox_id_def)
qed


definition demo_gateway :: "unit gateway" where
  "demo_gateway = \<lparr>gwNamespace = ''sandboxes'',
     gwGetSandbox = (\<lambda>ns n w. (Inl \<lparr>keStatus = None, keDelay = None, keNotFound = True, keAlreadyExists = False\<rparr>, w)),
     gwCreateSandbox = (\<lambda>sb w. (Inr sb, w)), gwDeleteSandbox = (\<lambda>ns n w. (Inr (), w)),
     gwListSandboxes = (\<lambda>ns w. (Inr [], w)),
     gwGetSnapshot = (\<lambda>ns n w. (Inl \<lparr>keStatus = None, keDelay = None, keNotFound = True, keAlreadyExists = False\<rparr>, w)),
     gwCreateSnapshot = (\<lambda>sn w. (Inr sn, w)), gwGenerate = (\<lambda>al n w. (if al = [] then Inl ''empty'' else Inr (replicate n (hd al)), w)),
     gwDo = (\<lambda>r w. (Inl ''down'', w)), gwRequestOk = (\<lambda>m u. True), gwMarshal = (\<lambda>r. None), gwErrorDetail = (\<lambda>b. None),
     gwDecodeID = (\<lambda>b. None), gwDecodeExit = (\<lambda>b. None), gwStatusText = (\<lambda>c. []), gwFindCondition = (\<lambda>cs t. None),
     gwConditionTrue = (\<lambda>cs t. False), gwFormatTime = (\<lambda>t. ''1970-01-01T00:00:00Z''), gwQuantity = Inr\<rparr>"

definition demo_create :: create_request where
  "demo_create = \<lparr>cqContainers = [\<lparr>crName = [], crImage = ''img'', crCommand = [], crEnv = Map.empty,
       crSnapshot = ''base'', crResources = None\<rparr>],
     cqTimeout = Some 60, cqStartup = None, cqNetwork = None,
     cqTermination = Some \<lparr>rtType = ''SnapshotRootfs'', rtSnapshot = Some \<lparr>rstName = [], rstTimeout = None\<rparr>\<rparr>\<rparr>"

lemma demo_gateway_nanoid: "nanoid demo_gateway"
  by (auto simp: nanoid_def demo_gateway_def)

lemma demo_gateway_post:
  "wp (PostSandbox demo_gateway (\<lambda>m. []) demo_create) (\<lambda>r t. \<not> isl r) \<lparr>rWorld = (), rCalls = [], rObject = ()\<rparr>"
  by (simp add: PostSandbox_def generateSandboxID_def demo_gateway_def demo_create_def one_container_only_def
      requestToSandboxCR_def container_resources_def Let_def letterAlphabet_def fullAlphabet_def)


text \<open>A default name can be the explicit name of another container.\<close>

lemma default_name_collides:
  "\<exists>named unnamed. crName named = ''sandbox1'' \<and> crName unnamed = [] \<and>
     (\<forall>req. cqContainers req = [named, unnamed] \<longrightarrow> \<not> distinct (container_names req))"
proof -
  define c where "c = (\<lambda>n. \<lparr>crName = n, crImage = ''img'', crCommand = [], crEnv = Map.empty, crSnapshot = [], crResources = None\<rparr>)"
  have "itoa 1 = ''1''" by code_simp
  then show ?thesis
    by (intro exI [of _ "c ''sandbox1''"] exI [of _ "c []"]) (auto simp: c_def container_names_def container_name_def)
qed

end
