(* ===== verification/SnapshotJob.thy ===== *)
theory SnapshotJob
  imports SnapshotController Paths Archive Guarded
begin

text \<open>
  The two programs of a snapshot job. \<open>src/cmd/runsc-launcher/main.go\<close> executes the \<open>runsc\<close> that a
  sandbox was created with, as containerd and the shim recorded it; \<open>src/cmd/snapshot-uploader/main.go\<close>
  stores the archive in the bucket and leaves a result for the controller. Both are started with what
  the snapshot controller writes into the job.
\<close>


section \<open>The launcher\<close>

text \<open>
  The launcher reads two files and examines one, each once. \<open>lhOptions\<close> decodes the shim's state: the
  entries of its options in the order in which Go ranges over them, each with the string it holds, if
  it is one.
\<close>

record launcher_host =
  lhRead :: "string \<Rightarrow> fs_error + string"
  lhOptions :: "string \<Rightarrow> (string \<times> string option) list option"
  lhStat :: "string \<Rightarrow> fs_error + file_info"

record launcher_options =
  loBundleRoot :: string
  loNamespace :: string
  loContainerID :: string
  loInstallDir :: string
  loFallback :: string
  loArgs :: "string list"

definition no_options :: launcher_options where
  "no_options = \<lparr>loBundleRoot = [], loNamespace = [], loContainerID = [], loInstallDir = [], loFallback = [], loArgs = []\<rparr>"

fun parse_flags :: "launcher_options \<Rightarrow> string list \<Rightarrow> string + launcher_options" where
  "parse_flags opts [] = Inr opts"
| "parse_flags opts (arg # rest) =
     (if arg = ''--'' then Inr (opts \<lparr>loArgs := rest\<rparr>)
      else case str_cut (trim_prefix arg ''--'') ''='' of (name, val, ok) \<Rightarrow>
        if \<not> ok then Inl (''expected --flag=value, got '' @ quoted arg)
        else if name = ''bundle-root'' then parse_flags (opts \<lparr>loBundleRoot := val\<rparr>) rest
        else if name = ''namespace'' then parse_flags (opts \<lparr>loNamespace := val\<rparr>) rest
        else if name = ''container-id'' then parse_flags (opts \<lparr>loContainerID := val\<rparr>) rest
        else if name = ''install-dir'' then parse_flags (opts \<lparr>loInstallDir := val\<rparr>) rest
        else if name = ''fallback'' then parse_flags (opts \<lparr>loFallback := val\<rparr>) rest
        else Inl (''unknown flag '' @ quoted name))"

definition required_flags :: "launcher_options \<Rightarrow> (string \<times> string) list" where
  "required_flags opts =
     [(''bundle-root'', loBundleRoot opts), (''namespace'', loNamespace opts),
      (''container-id'', loContainerID opts), (''install-dir'', loInstallDir opts)]"

definition parseArgs :: "string list \<Rightarrow> string + launcher_options" where
  "parseArgs argv =
     (case parse_flags no_options argv of
        Inl e \<Rightarrow> Inl e
      | Inr opts \<Rightarrow>
          (case find (\<lambda>(name, val). val = []) (required_flags opts) of
             Some (name, val) \<Rightarrow> Inl (''--'' @ name @ '' is required'')
           | None \<Rightarrow>
               if loArgs opts = [] then Inl ''no runsc arguments given after --'' else Inr opts))"

definition unsafe_part :: "string \<Rightarrow> bool" where
  "unsafe_part part \<longleftrightarrow> part = [] \<or> part = ''.'' \<or> part = ''..'' \<or> CHR ''/'' \<in> set part"

definition bundleDir :: "launcher_options \<Rightarrow> string + string" where
  "bundleDir opts =
     (case find unsafe_part [loNamespace opts, loContainerID opts] of
        Some part \<Rightarrow> Inl (''unsafe path component '' @ quoted part)
      | None \<Rightarrow> Inr (path_join [loBundleRoot opts, loNamespace opts, loContainerID opts]))"

definition clean_absolute :: "string \<Rightarrow> bool" where
  "clean_absolute p \<longleftrightarrow> path_is_abs p \<and> p = path_clean p"

definition generationFromShimPath :: "launcher_host \<Rightarrow> string \<Rightarrow> string + string" where
  "generationFromShimPath h bundle =
     (case lhRead h (path_join [bundle, ''shim-binary-path'']) of
        Inl e \<Rightarrow> Inl (err_text e)
      | Inr data \<Rightarrow>
          (let p = trim_space data in
           if \<not> clean_absolute p then Inl (''shim binary path '' @ quoted p @ '' is not a clean absolute path'')
           else Inr (path_dir p)))"

text \<open>\<open>strings.EqualFold\<close> with a key of these letters folds ASCII letters only.\<close>

definition equal_fold :: "string \<Rightarrow> string \<Rightarrow> bool" where
  "equal_fold a b \<longleftrightarrow> to_lower a = to_lower b"

fun binary_option :: "(string \<times> string option) list \<Rightarrow> string option" where
  "binary_option [] = None"
| "binary_option ((key, raw) # opts) =
     (if \<not> equal_fold key ''binaryname'' \<and> \<not> equal_fold key ''binary_name'' then binary_option opts
      else case raw of
        None \<Rightarrow> None
      | Some p \<Rightarrow>
          if p = [] then None
          else if \<not> clean_absolute p then None
          else Some (path_dir p))"

definition generationFromShimState :: "launcher_host \<Rightarrow> string \<Rightarrow> string option" where
  "generationFromShimState h bundle =
     (case lhRead h (path_join [bundle, ''state.json'']) of
        Inl e \<Rightarrow> None
      | Inr data \<Rightarrow> (case lhOptions h data of None \<Rightarrow> None | Some opts \<Rightarrow> binary_option opts))"

definition unmanaged :: "launcher_options \<Rightarrow> string \<Rightarrow> string + string" where
  "unmanaged opts cause =
     (if loFallback opts = [] then
        Inl (''cannot determine the runsc this sandbox was created with and no fallback is configured: '' @ cause)
      else Inr (loFallback opts))"

definition resolveRunsc :: "launcher_host \<Rightarrow> launcher_options \<Rightarrow> string + string" where
  "resolveRunsc h opts =
     (case bundleDir opts of
        Inl e \<Rightarrow> Inl e
      | Inr dir \<Rightarrow>
          (let shim = generationFromShimPath h dir; st = generationFromShimState h dir;
               fromShim = (case shim of Inl e \<Rightarrow> [] | Inr g \<Rightarrow> g);
               fromState = (case st of None \<Rightarrow> [] | Some g \<Rightarrow> g);
               releases = path_join [loInstallDir opts, ''releases''];
               managed = (path_dir fromShim = releases \<or> path_dir fromState = releases) in
           if managed \<and> \<not> isl shim \<and> st \<noteq> None \<and> fromShim \<noteq> fromState then
             Inl (''containerd records shim generation '' @ quoted fromShim @ '' but the shim state records '' @ quoted fromState)
           else (case find (\<lambda>gen. gen \<noteq> [] \<and> path_dir gen = releases) [fromShim, fromState] of
             Some gen \<Rightarrow> Inr (path_join [gen, ''runsc''])
           | None \<Rightarrow>
               (case (shim, st) of
                  (Inl e, None) \<Rightarrow> unmanaged opts (''reading the containerd bundle: '' @ e)
                | _ \<Rightarrow> unmanaged opts (''sandbox runs outside '' @ quoted releases)))))"

definition executable :: "file_info \<Rightarrow> bool" where
  "executable fi \<longleftrightarrow> fiRegular fi \<and> and (fiPerm fi) 73 \<noteq> 0"

text \<open>On success the process becomes this program, with these arguments.\<close>

definition run_launcher :: "launcher_host \<Rightarrow> string list \<Rightarrow> string + string \<times> string list" where
  "run_launcher h argv =
     (case parseArgs argv of
        Inl e \<Rightarrow> Inl e
      | Inr opts \<Rightarrow>
          (case resolveRunsc h opts of
             Inl e \<Rightarrow> Inl e
           | Inr runsc \<Rightarrow>
               (case lhStat h runsc of
                  Inl e \<Rightarrow> Inl (''resolved runsc '' @ quoted runsc @ '' is not an executable file'')
                | Inr fi \<Rightarrow>
                    if \<not> executable fi then Inl (''resolved runsc '' @ quoted runsc @ '' is not an executable file'')
                    else Inr (runsc, runsc # loArgs opts))))"


section \<open>What the launcher runs\<close>

text \<open>A generation that one of the two records of the bundle names.\<close>

definition recorded_generation :: "launcher_host \<Rightarrow> string \<Rightarrow> string \<Rightarrow> bool" where
  "recorded_generation h dir gen \<longleftrightarrow> generationFromShimPath h dir = Inr gen \<or> generationFromShimState h dir = Some gen"

lemma path_clean_not_Nil: "path_clean p \<noteq> []"
proof -
  let ?parts = "clean_parts (split_char CHR ''/'' p)"
  have "list_all (\<lambda>p. CHR ''/'' \<notin> set p) (split_char CHR ''/'' p)" using split_char_pieces by (auto simp: list_all_iff)
  from clean_fold_shape [OF this, of "[]" 0] obtain os n where
      parts: "?parts = os @ replicate n ''..''" and os: "list_all ordinary os"
    by (auto simp: clean_parts_def)
  have "x \<noteq> []" if "x \<in> set os" for x using os that unfolding list_all_iff ordinary_def by blast
  then have ne: "\<forall>x \<in> set ?parts. x \<noteq> []" unfolding parts by auto
  have "str_join sep xs \<noteq> []" if "xs \<noteq> []" "\<forall>x \<in> set xs. x \<noteq> []" for sep and xs :: "string list"
    using that by (cases xs; cases "tl xs") auto
  then have "(if b then ''/'' @ u else if rev ps = [] then ''.'' else str_join ''/'' (rev ps)) \<noteq> []"
    if "\<forall>x \<in> set ps. x \<noteq> []" for b u and ps :: "string list" using that by simp
  from this [OF ne] show ?thesis unfolding path_clean_def Let_def .
qed

lemma recorded_not_Nil: "recorded_generation h dir gen \<Longrightarrow> gen \<noteq> []"
proof -
  have "binary_option opts = Some g \<Longrightarrow> g \<noteq> []" for opts g
    by (induction opts rule: binary_option.induct) (auto simp: path_dir_def path_clean_not_Nil split: if_splits option.splits)
  then show "recorded_generation h dir gen \<Longrightarrow> gen \<noteq> []"
    by (auto simp: recorded_generation_def generationFromShimPath_def generationFromShimState_def path_dir_def
        path_clean_not_Nil Let_def split: sum.splits if_splits option.splits)
qed

lemma resolved_runsc:
  assumes "resolveRunsc h opts = Inr runsc"
  shows "\<exists>dir. bundleDir opts = Inr dir \<and>
    (let releases = path_join [loInstallDir opts, ''releases''] in
     (\<exists>gen. recorded_generation h dir gen \<and> path_dir gen = releases \<and> runsc = path_join [gen, ''runsc''] \<and>
        (\<forall>g. recorded_generation h dir g \<longrightarrow> g = gen)) \<or>
     (\<forall>g. recorded_generation h dir g \<longrightarrow> path_dir g \<noteq> releases) \<and> runsc = loFallback opts \<and> runsc \<noteq> [])"
proof -
  obtain dir where dir: "bundleDir opts = Inr dir" using assms by (cases "bundleDir opts") (auto simp: resolveRunsc_def)
  show ?thesis
    using assms dir recorded_not_Nil [of h dir]
    by (cases "generationFromShimPath h dir"; cases "generationFromShimState h dir")
       (auto simp: resolveRunsc_def recorded_generation_def unmanaged_def Let_def split: if_splits)
qed

lemma flag_cut:
  "CHR ''='' \<notin> set name \<Longrightarrow> str_cut (trim_prefix (''--'' @ name @ ''='' @ val) ''--'') ''='' = (name, val, True)"
proof -
  have "str_cut (name @ CHR ''='' # val) ''='' = (name, val, True)" if "CHR ''='' \<notin> set name"
    using that
  proof (induction name)
    case (Cons c name)
    then show ?case by (simp add: str_cut_def split: option.splits prod.splits)
  qed (simp add: str_cut_def)
  then show "CHR ''='' \<notin> set name \<Longrightarrow> ?thesis" by (simp add: trim_prefix_def)
qed


definition runsc_args :: "snapshot_reconciler \<Rightarrow> string \<Rightarrow> string \<Rightarrow> string list" where
  "runsc_args r containerID snapshotPath =
     [''--root='' @ GvisorRunscRoot r, ''tar'', ''rootfs-upper'', ''--file'', snapshotPath, containerID]"

text \<open>The launcher reads from its arguments what the controller wrote into the job.\<close>

lemma launcher_arguments:
  assumes "managedGvisor r" "snapshotterCommand r containerID snapshotPath = (img, command, args)"
  shows "parse_flags no_options args = Inr \<lparr>loBundleRoot = containerdBundleRoot r, loNamespace = containerdCRINamespace,
    loContainerID = containerID, loInstallDir = GvisorInstallDir r, loFallback = GvisorRunscPath r,
    loArgs = runsc_args r containerID snapshotPath\<rparr>"
proof -
  note cut = flag_cut [of "''bundle-root''"] flag_cut [of "''namespace''"] flag_cut [of "''container-id''"]
    flag_cut [of "''install-dir''"] flag_cut [of "''fallback''"]
  have "args = [''--'' @ ''bundle-root'' @ ''='' @ containerdBundleRoot r, ''--'' @ ''namespace'' @ ''='' @ containerdCRINamespace,
      ''--'' @ ''container-id'' @ ''='' @ containerID, ''--'' @ ''install-dir'' @ ''='' @ GvisorInstallDir r,
      ''--'' @ ''fallback'' @ ''='' @ GvisorRunscPath r, ''--''] @ runsc_args r containerID snapshotPath"
    using assms by (simp add: snapshotterCommand_def runsc_args_def)
  then show ?thesis using cut by (simp add: no_options_def)
qed

text \<open>
  C37. When the job of a snapshot on a managed node executes \<open>runsc\<close>, it is an executable file, with the
  arguments of the snapshot, and it is the one of the release that the sandbox was created with: if
  containerd or the shim recorded a release of the installer, that one, agreed on by every record
  there is; only when neither did, the configured fallback. The container's id cannot leave the
  bundle directory.
\<close>

theorem snapshot_runs_recorded_release:
  assumes "managedGvisor r" "snapshotterCommand r containerID snapshotPath = (img, command, args)"
    and "run_launcher h args = Inr (runsc, argv)"
  shows "argv = runsc # runsc_args r containerID snapshotPath \<and> (\<exists>fi. lhStat h runsc = Inr fi \<and> executable fi) \<and>
    ordinary containerID \<and>
    (let dir = path_join [containerdBundleRoot r, containerdCRINamespace, containerID];
         releases = path_join [GvisorInstallDir r, ''releases''] in
     (\<exists>gen. recorded_generation h dir gen \<and> path_dir gen = releases \<and> runsc = path_join [gen, ''runsc''] \<and>
        (\<forall>g. recorded_generation h dir g \<longrightarrow> g = gen)) \<or>
     (\<forall>g. recorded_generation h dir g \<longrightarrow> path_dir g \<noteq> releases) \<and> runsc = GvisorRunscPath r \<and> runsc \<noteq> [])"
proof -
  obtain opts where opts: "parseArgs args = Inr opts" "resolveRunsc h opts = Inr runsc"
      "\<exists>fi. lhStat h runsc = Inr fi \<and> executable fi" "argv = runsc # loArgs opts"
    using assms(3) by (auto simp: run_launcher_def split: sum.splits if_splits)
  have o: "opts = \<lparr>loBundleRoot = containerdBundleRoot r, loNamespace = containerdCRINamespace,
      loContainerID = containerID, loInstallDir = GvisorInstallDir r, loFallback = GvisorRunscPath r,
      loArgs = runsc_args r containerID snapshotPath\<rparr>"
    using opts(1) launcher_arguments [OF assms(1,2)] by (auto simp: parseArgs_def split: option.splits if_splits)
  obtain dir where dir: "bundleDir opts = Inr dir"
    and res: "let releases = path_join [loInstallDir opts, ''releases''] in
     (\<exists>gen. recorded_generation h dir gen \<and> path_dir gen = releases \<and> runsc = path_join [gen, ''runsc''] \<and>
        (\<forall>g. recorded_generation h dir g \<longrightarrow> g = gen)) \<or>
     (\<forall>g. recorded_generation h dir g \<longrightarrow> path_dir g \<noteq> releases) \<and> runsc = loFallback opts \<and> runsc \<noteq> []"
    using resolved_runsc [OF opts(2)] by auto
  have "ordinary containerID" "dir = path_join [containerdBundleRoot r, containerdCRINamespace, containerID]"
    using dir by (auto simp: o bundleDir_def unsafe_part_def ordinary_def split: if_splits)
  then show ?thesis using res opts(3,4) by (simp add: o)
qed

definition demo_reconciler :: snapshot_reconciler where
  "demo_reconciler = \<lparr>BucketURL = ''s3://b'', CredentialSecretName = [], UploaderImage = ''uploader'',
     UploaderImagePullPolicy = [], SnapshotServiceAccount = [], SnapshotPullSecrets = [], SnapshotEnabled = True,
     GvisorRunscPath = [], GvisorRunscRoot = ''/run/runsc'', GvisorInstallDir = ''/i'', ContainerdStateDir = ''/c''\<rparr>"

definition demo_launcher :: launcher_host where
  "demo_launcher = \<lparr>lhRead = (\<lambda>p. if suffix ''shim-binary-path'' p then Inr ''/i/releases/v1/shim'' else Inl (NotExist p)),
     lhOptions = (\<lambda>d. None), lhStat = (\<lambda>p. Inr \<lparr>fiDir = False, fiRegular = True, fiPerm = 493, fiSize = 1\<rparr>)\<rparr>"

lemma demo_launcher_runs:
  "run_launcher demo_launcher (snd (snd (snapshotterCommand demo_reconciler ''c1'' ''/s.tar''))) =
     Inr (''/i/releases/v1/runsc'', ''/i/releases/v1/runsc'' # runsc_args demo_reconciler ''c1'' ''/s.tar'')"
  by code_simp

theorem snapshot_runs_recorded_release_witness:
  "\<exists>gen. recorded_generation demo_launcher (path_join [containerdBundleRoot demo_reconciler, containerdCRINamespace, ''c1'']) gen \<and>
     ''/i/releases/v1/runsc'' = path_join [gen, ''runsc'']"
proof -
  have m: "managedGvisor demo_reconciler" by (simp add: managedGvisor_def demo_reconciler_def)
  obtain img command args where c: "snapshotterCommand demo_reconciler ''c1'' ''/s.tar'' = (img, command, args)"
    by (metis prod_cases3)
  have "GvisorRunscPath demo_reconciler = []" by (simp add: demo_reconciler_def)
  then show ?thesis
    using snapshot_runs_recorded_release [OF m c demo_launcher_runs [unfolded c, simplified]] by (auto simp: Let_def)
qed


section \<open>The uploader\<close>

definition EnvBucketURL :: string where "EnvBucketURL = ''ISOLA_BUCKET_URL''"
definition EnvSnapshotName :: string where "EnvSnapshotName = ''SNAPSHOT_NAME''"
definition EnvSnapshotNamespace :: string where "EnvSnapshotNamespace = ''SNAPSHOT_NAMESPACE''"
definition EnvSnapshotFile :: string where "EnvSnapshotFile = ''SNAPSHOT_FILE''"
definition terminationLogPath :: string where "terminationLogPath = ''/dev/termination-log''"

text \<open>The bucket is a parameter; an object appears in it when its writer is closed.\<close>

record 'w uploader_host =
  uhGetenv :: "string \<Rightarrow> string"
  uhOpenBucket :: "string \<Rightarrow> 'w \<Rightarrow> (fs_error + unit) \<times> 'w"
  uhCloseBucket :: "'w \<Rightarrow> (fs_error + unit) \<times> 'w"
  uhOpen :: "string \<Rightarrow> 'w \<Rightarrow> (fs_error + unit) \<times> 'w"
  uhFileStat :: "string \<Rightarrow> 'w \<Rightarrow> (fs_error + file_info) \<times> 'w"
  uhCloseFile :: "string \<Rightarrow> 'w \<Rightarrow> (fs_error + unit) \<times> 'w"
  uhNewWriter :: "string \<Rightarrow> 'w \<Rightarrow> (fs_error + unit) \<times> 'w"
  uhCopy :: "string \<Rightarrow> string \<Rightarrow> 'w \<Rightarrow> (fs_error + int) \<times> 'w"
  uhCloseWriter :: "string \<Rightarrow> 'w \<Rightarrow> (fs_error + unit) \<times> 'w"
  uhMarshal :: "upload_result \<Rightarrow> fs_error + string"
  uhWriteFile :: "string \<Rightarrow> string \<Rightarrow> 'w \<Rightarrow> (fs_error + unit) \<times> 'w"

datatype upload_call =
    UpOpenBucket string "fs_error + unit"
  | UpCloseBucket
  | UpOpen string "fs_error + unit"
  | UpStat string
  | UpCloseFile string
  | UpNewWriter string "fs_error + unit"
  | UpCopy string string "fs_error + int"
  | UpCloseWriter string "fs_error + unit"
  | UpWriteFile string string "fs_error + unit"

type_synonym ('w, 'a) upl = "('w, unit, upload_call, fs_error + 'a) program"

definition errMissingEnv :: "string \<Rightarrow> fs_error" where
  "errMissingEnv name = Failed (name @ '' environment variable is required'')"

definition snapshotKeyPath :: "string \<Rightarrow> string \<Rightarrow> string" where
  "snapshotKeyPath namespace snapshotName = ''rootfssnapshots/'' @ namespace @ ''/'' @ snapshotName @ ''.tar''"

text \<open>A deferred call whose result is dropped.\<close>

definition finally_call :: "('w, unit, upload_call, 'b) program \<Rightarrow> ('w, 'a) upl \<Rightarrow> ('w, 'a) upl" where
  "finally_call c m = seq m (\<lambda>r. seq c (\<lambda>_. State_Monad.return r))"

definition upload :: "'w uploader_host \<Rightarrow> string \<Rightarrow> string \<Rightarrow> ('w, int) upl" where
  "upload h key src =
     bindE (call_api (uhNewWriter h key) (UpNewWriter key)) (\<lambda>_.
     seq (call_api (uhCopy h src key) (UpCopy src key)) (\<lambda>r. case r of
       Inl e \<Rightarrow> seq (call_api (uhCloseWriter h key) (UpCloseWriter key)) (\<lambda>_. throwE e)
     | Inr written \<Rightarrow>
         bindE (call_api (uhCloseWriter h key) (UpCloseWriter key)) (\<lambda>_. returnE written)))"

definition writeTerminationLogTo :: "'w uploader_host \<Rightarrow> string \<Rightarrow> upload_result \<Rightarrow> ('w, unit) upl" where
  "writeTerminationLogTo h p res =
     (case uhMarshal h res of
        Inl e \<Rightarrow> throwE e
      | Inr data \<Rightarrow> call_api (uhWriteFile h p data) (UpWriteFile p data))"

record upload_config =
  ucFile :: string
  ucName :: string
  ucNamespace :: string
  ucTerminationLog :: string

definition uploadSnapshot :: "'w uploader_host \<Rightarrow> upload_config \<Rightarrow> ('w, unit) upl" where
  "uploadSnapshot h cfg =
     (let key = snapshotKeyPath (ucNamespace cfg) (ucName cfg) in
      bindE (call_api (uhOpen h (ucFile cfg)) (UpOpen (ucFile cfg))) (\<lambda>_.
      finally_call (call_api (uhCloseFile h (ucFile cfg)) (\<lambda>_. UpCloseFile (ucFile cfg)))
        (bindE (call_api (uhFileStat h (ucFile cfg)) (\<lambda>_. UpStat (ucFile cfg))) (\<lambda>st.
         bindE (upload h key (ucFile cfg)) (\<lambda>written.
         seq (writeTerminationLogTo h (ucTerminationLog cfg) \<lparr>urSnapshotKey = key, urBytesWritten = written\<rparr>)
           (\<lambda>_. returnE ()))))))"

definition run_uploader :: "'w uploader_host \<Rightarrow> ('w, unit) upl" where
  "run_uploader h =
     (let getenv = uhGetenv h in
      if getenv EnvBucketURL = [] then throwE (errMissingEnv EnvBucketURL)
      else if getenv EnvSnapshotFile = [] then throwE (errMissingEnv EnvSnapshotFile)
      else if getenv EnvSnapshotName = [] then throwE (errMissingEnv EnvSnapshotName)
      else if getenv EnvSnapshotNamespace = [] then throwE (errMissingEnv EnvSnapshotNamespace)
      else
        bindE (call_api (uhOpenBucket h (getenv EnvBucketURL)) (UpOpenBucket (getenv EnvBucketURL))) (\<lambda>_.
        finally_call (call_api (uhCloseBucket h) (\<lambda>_. UpCloseBucket))
          (uploadSnapshot h \<lparr>ucFile = getenv EnvSnapshotFile, ucName = getenv EnvSnapshotName,
             ucNamespace = getenv EnvSnapshotNamespace, ucTerminationLog = terminationLogPath\<rparr>)))"


section \<open>What the uploader stores\<close>

text \<open>\<open>os.Getenv\<close> in a container started with this environment.\<close>

definition env_lookup :: "env_var list \<Rightarrow> string \<Rightarrow> string" where
  "env_lookup es k = (case find (\<lambda>e. envName e = k) es of None \<Rightarrow> [] | Some e \<Rightarrow> envVal e)"

lemma wp_finally_call [wp_rules]:
  "wp (finally_call c m) Q s = wp m (\<lambda>r. wp c (\<lambda>_. Q r)) s"
proof -
  have "wp (State_Monad.bind c (\<lambda>_. State_Monad.return r)) Q = wp c (\<lambda>_. Q r)" for r
  proof -
    have "wp (State_Monad.return r) Q = Q r" by (rule ext) simp
    then show ?thesis by (intro ext) simp
  qed
  then show ?thesis by (simp add: finally_call_def)
qed

text \<open>
  C38. The uploader of a snapshot's job succeeds only when the whole local archive was copied to, and
  closed without an error at, the key of this snapshot in its namespace, below the prefix of
  snapshots in the configured bucket; the result it then leaves for the controller, if it can be
  written, carries that key and the number of bytes copied.
\<close>

theorem snapshot_upload_exact:
  assumes "\<And>k. uhGetenv h k = env_lookup (jcnEnv (uploader_container r sn snapshotName)) k"
    and "run_state (run_uploader h) s = (Inr (), t)"
  shows "\<exists>key written pre post. key = ''rootfssnapshots/'' @ metaNamespace (snMeta sn) @ ''/'' @ snapshotName @ ''.tar'' \<and>
    rCalls t = rCalls s @ [UpOpenBucket (BucketURL r) (Inr ()), UpOpen localSnapshotPath (Inr ()), UpStat localSnapshotPath,
      UpNewWriter key (Inr ()), UpCopy localSnapshotPath key (Inr written), UpCloseWriter key (Inr ())] @ pre @
      [UpCloseFile localSnapshotPath, UpCloseBucket] \<and>
    (case uhMarshal h \<lparr>urSnapshotKey = key, urBytesWritten = written\<rparr> of
       Inl e \<Rightarrow> pre = [] | Inr data \<Rightarrow> \<exists>a. pre = [UpWriteFile ''/dev/termination-log'' data a])"
proof -
  let ?key = "''rootfssnapshots/'' @ metaNamespace (snMeta sn) @ ''/'' @ snapshotName @ ''.tar''"
  have env: "uhGetenv h EnvBucketURL = BucketURL r" "uhGetenv h EnvSnapshotFile = localSnapshotPath"
      "uhGetenv h EnvSnapshotName = snapshotName" "uhGetenv h EnvSnapshotNamespace = metaNamespace (snMeta sn)"
    by (simp_all add: assms(1) env_lookup_def uploader_container_def env_def EnvBucketURL_def EnvSnapshotFile_def
        EnvSnapshotName_def EnvSnapshotNamespace_def)
  have "wp (run_uploader h) (\<lambda>res t. res = Inr () \<longrightarrow> (\<exists>written pre.
      rCalls t = rCalls s @ [UpOpenBucket (BucketURL r) (Inr ()), UpOpen localSnapshotPath (Inr ()), UpStat localSnapshotPath,
        UpNewWriter ?key (Inr ()), UpCopy localSnapshotPath ?key (Inr written), UpCloseWriter ?key (Inr ())] @ pre @
        [UpCloseFile localSnapshotPath, UpCloseBucket] \<and>
      (case uhMarshal h \<lparr>urSnapshotKey = ?key, urBytesWritten = written\<rparr> of
         Inl e \<Rightarrow> pre = [] | Inr data \<Rightarrow> \<exists>a. pre = [UpWriteFile ''/dev/termination-log'' data a]))) s"
    unfolding run_uploader_def uploadSnapshot_def upload_def writeTerminationLogTo_def env Let_def
    by (auto simp: wp_finally_call snapshotKeyPath_def terminationLogPath_def split: prod.splits sum.splits)
  then show ?thesis using assms(2) by (auto simp: wp_def)
qed


definition demo_snapshot :: rootfs_snapshot where
  "demo_snapshot = \<lparr>snMeta = empty_meta \<lparr>metaName := ''snap'', metaNamespace := ''ns''\<rparr>,
     snSpec = \<lparr>snSandboxName = ''sb'', snSnapshotName = ''base'', snContainerName = [], snTimeoutSeconds = None, snTTLSeconds = None\<rparr>,
     snStatus = empty_snapshot_status\<rparr>"

definition demo_uploader :: "unit uploader_host" where
  "demo_uploader = \<lparr>uhGetenv = env_lookup (jcnEnv (uploader_container demo_reconciler demo_snapshot ''base'')),
     uhOpenBucket = (\<lambda>u w. (Inr (), w)), uhCloseBucket = (\<lambda>w. (Inr (), w)), uhOpen = (\<lambda>p w. (Inr (), w)),
     uhFileStat = (\<lambda>p w. (Inr \<lparr>fiDir = False, fiRegular = True, fiPerm = 420, fiSize = 7\<rparr>, w)),
     uhCloseFile = (\<lambda>p w. (Inr (), w)), uhNewWriter = (\<lambda>k w. (Inr (), w)), uhCopy = (\<lambda>p k w. (Inr 7, w)),
     uhCloseWriter = (\<lambda>k w. (Inr (), w)), uhMarshal = (\<lambda>r. Inr (urSnapshotKey r)),
     uhWriteFile = (\<lambda>p d w. (Inr (), w))\<rparr>"

lemma demo_upload:
  "wp (run_uploader demo_uploader) (\<lambda>r t. r = Inr ()) \<lparr>rWorld = (), rCalls = [], rObject = ()\<rparr>"
  by (simp add: run_uploader_def uploadSnapshot_def upload_def writeTerminationLogTo_def demo_uploader_def wp_finally_call
      env_lookup_def uploader_container_def env_def EnvBucketURL_def EnvSnapshotFile_def EnvSnapshotName_def
      EnvSnapshotNamespace_def demo_reconciler_def demo_snapshot_def localSnapshotPath_def Let_def)

theorem snapshot_upload_exact_witness:
  "\<exists>t. run_state (run_uploader demo_uploader) \<lparr>rWorld = (), rCalls = [], rObject = ()\<rparr> = (Inr (), t) \<and>
     (\<exists>written. UpCopy localSnapshotPath ''rootfssnapshots/ns/base.tar'' (Inr written) \<in> set (rCalls t))"
proof -
  obtain t where t: "run_state (run_uploader demo_uploader) \<lparr>rWorld = (), rCalls = [], rObject = ()\<rparr> = (Inr (), t)"
    using demo_upload unfolding wp_def by (metis (mono_tags, lifting) case_prod_conv surj_pair)
  have g: "\<And>k. uhGetenv demo_uploader k = env_lookup (jcnEnv (uploader_container demo_reconciler demo_snapshot ''base'')) k"
    by (simp add: demo_uploader_def)
  have "metaNamespace (snMeta demo_snapshot) = ''ns''" by (simp add: demo_snapshot_def)
  then show ?thesis using snapshot_upload_exact [OF g t] t by auto
qed

end
