(* ===== verification/InstallerConfig.thy ===== *)
theory InstallerConfig
  imports Installer Paths
begin

text \<open>
  Where the installer's configuration comes from, \<open>src/internal/gvisor-installer/config.go\<close> with the helpers
  of \<open>src/internal/env/env.go\<close>, and its health endpoints, \<open>health.go\<close>. The environment is a function, with
  the empty string for a variable that is not set; \<open>time.ParseDuration\<close>, which computes fractions in
  floating point, and \<open>url.Parse\<close>, of whose result the scheme and the host are used, are parameters.
\<close>


section \<open>The environment\<close>

record env_host =
  ehGetenv :: "string \<Rightarrow> string"
  ehParseDuration :: "string \<Rightarrow> duration option"
  ehParseURL :: "string \<Rightarrow> (string \<times> string) option"

definition GetOrDefault :: "env_host \<Rightarrow> string \<Rightarrow> string \<Rightarrow> string" where
  "GetOrDefault e key defaultValue = (let v = ehGetenv e key in if v \<noteq> [] then v else defaultValue)"

definition GetOrDefaultInt :: "env_host \<Rightarrow> string \<Rightarrow> int \<Rightarrow> int" where
  "GetOrDefaultInt e key defaultValue =
     (let v = ehGetenv e key in
      if v \<noteq> [] then (case atoi v of Some n \<Rightarrow> n | None \<Rightarrow> defaultValue) else defaultValue)"

definition GetOrDefaultDuration :: "env_host \<Rightarrow> string \<Rightarrow> duration \<Rightarrow> duration" where
  "GetOrDefaultDuration e key defaultValue =
     (let v = ehGetenv e key in
      if v \<noteq> [] then (case ehParseDuration e v of Some d \<Rightarrow> if 0 < d then d else defaultValue | None \<Rightarrow> defaultValue)
      else defaultValue)"


section \<open>The configuration\<close>

definition validateDownloadURLBase :: "env_host \<Rightarrow> string \<Rightarrow> fs_error + unit" where
  "validateDownloadURLBase e raw =
     (case ehParseURL e raw of
        None \<Rightarrow> Inl (Failed (''GVISOR_DOWNLOAD_URL_BASE '' @ quoted raw @ '' is not a valid URL''))
      | Some (scheme, host) \<Rightarrow>
          if to_lower scheme \<noteq> ''https'' \<or> host = []
          then Inl (Failed (''GVISOR_DOWNLOAD_URL_BASE '' @ quoted raw @ '' must be an absolute https URL''))
          else Inr ())"

text \<open>The configuration is returned beside the error, too.\<close>

definition config_of_env :: "env_host \<Rightarrow> config" where
  "config_of_env e =
     \<lparr>cfgNodeName = ehGetenv e ''NODE_NAME'',
      cfgVersion = ehGetenv e ''GVISOR_VERSION'',
      cfgURLBase = GetOrDefault e ''GVISOR_DOWNLOAD_URL_BASE'' ''https://storage.googleapis.com/gvisor/releases/release'',
      cfgHandler = GetOrDefault e ''GVISOR_HANDLER'' ''runsc'',
      cfgInstallDir = ''/opt/isola/bin'',
      cfgHostRoot = ''/host'',
      cfgRunscSrc = ''/etc/isola-gvisor/runsc.toml'',
      cfgHealthAddr = '':8093'',
      cfgReconcileInterval = GetOrDefaultDuration e ''RECONCILE_INTERVAL'' (5 * (60 * nano_second)),
      cfgRetryInterval = GetOrDefaultDuration e ''RETRY_INTERVAL'' (60 * nano_second),
      cfgReconcileTimeout = GetOrDefaultDuration e ''RECONCILE_TIMEOUT'' defaultReconcileTimeout\<rparr>"

definition ConfigFromEnv :: "env_host \<Rightarrow> config \<times> (fs_error + unit)" where
  "ConfigFromEnv e =
     (let cfg = config_of_env e in
      if cfgNodeName cfg = [] then (cfg, Inl (Failed ''NODE_NAME is required''))
      else (case validateVersion (cfgVersion cfg) of
          Inl err \<Rightarrow> (cfg, Inl err)
        | Inr _ \<Rightarrow>
            (case validateDownloadURLBase e (cfgURLBase cfg) of
               Inl err \<Rightarrow> (cfg, Inl err)
             | Inr _ \<Rightarrow>
                 if \<not> handler_ok (cfgHandler cfg)
                 then (cfg, Inl (Failed (''GVISOR_HANDLER '' @ quoted (cfgHandler cfg) @ '' must be a lowercase DNS label'')))
                 else (cfg, Inr ()))))"


section \<open>Health endpoints\<close>

text \<open>The status and the text of an answer; the mux knows these two paths.\<close>

definition healthz :: "config \<Rightarrow> installer \<Rightarrow> time \<Rightarrow> int \<times> string" where
  "healthz c i now =
     (case Stalled c i now of
        (True, silent) \<Rightarrow> (503, ''no reconcile iteration completed, the reconcile loop is wedged'')
      | (False, silent) \<Rightarrow> (200, []))"

definition readyz :: "installer \<Rightarrow> int \<times> string" where
  "readyz i =
     (if inReady i then (200, []) else (503, ''last reconcile did not converge, see pod logs and node events''))"


section \<open>An accepted configuration\<close>

lemma accepted_parts:
  assumes "ConfigFromEnv e = (c, Inr ())"
  shows "c = config_of_env e" "validateVersion (cfgVersion c) = Inr ()" "validateDownloadURLBase e (cfgURLBase c) = Inr ()"
    "handler_ok (cfgHandler c)" "cfgNodeName c \<noteq> []"
  using assms by (simp_all add: ConfigFromEnv_def Let_def split: if_splits sum.splits)

lemma accepted_intervals:
  assumes "ConfigFromEnv e = (c, Inr ())"
  shows "0 < cfgReconcileInterval c" "0 < cfgRetryInterval c" "0 < cfgReconcileTimeout c"
  using accepted_parts(1) [OF assms]
  by (simp_all add: config_of_env_def GetOrDefaultDuration_def Let_def nano_second_def defaultReconcileTimeout_def
      split: option.splits)

lemma accepted_url:
  assumes "ConfigFromEnv e = (c, Inr ())"
  shows "\<exists>scheme host. ehParseURL e (cfgURLBase c) = Some (scheme, host) \<and> to_lower scheme = ''https'' \<and> host \<noteq> []"
  using accepted_parts(3) [OF assms] by (auto simp: validateDownloadURLBase_def split: option.splits if_splits)

lemma handler_chars: "handler_ok h \<Longrightarrow> CHR ''#'' \<notin> set h"
  by (auto simp: handler_ok_def list_all_iff Let_def is_digit_def char_in_def dest!: bspec)

lemma version_chars:
  assumes "validateVersion v = Inr ()"
  shows "v \<noteq> [] \<and> is_digit (hd v) \<and> list_all (\<lambda>c. is_digit c \<or> c = CHR ''.'') v"
proof -
  have "version_date v \<noteq> None" "v \<noteq> []" using assms by (auto simp: validateVersion_def split: if_splits option.splits)
  then have d: "length (take 8 v) = 8" "list_all is_digit (take 8 v)" "drop 8 v \<noteq> []" "hd (drop 8 v) = CHR ''.''"
      "list_all is_digit (tl (drop 8 v))"
    by (auto simp: version_date_def Let_def split: if_splits)
  have "list_all (\<lambda>c. is_digit c \<or> c = CHR ''.'') (take 8 v @ hd (drop 8 v) # tl (drop 8 v))"
    using d(2,4,5) by (auto simp: list_all_iff)
  then have "list_all (\<lambda>c. is_digit c \<or> c = CHR ''.'') v"
    unfolding list.collapse [OF d(3)] append_take_drop_id .
  moreover have "hd v = hd (take 8 v)" using \<open>v \<noteq> []\<close> by (cases v) simp_all
  moreover have "take 8 v \<noteq> []" using d(1) by auto
  ultimately show ?thesis using d(2) \<open>v \<noteq> []\<close> by (metis list.pred_set list.set_sel(1))
qed

lemma generation_name:
  assumes "validateVersion v = Inr ()" "isHex sha"
  shows "ordinary (generationDirName v sha) \<and> CHR ''#'' \<notin> set (generationDirName v sha)"
proof -
  have v: "v \<noteq> []" "is_digit (hd v)" "list_all (\<lambda>c. is_digit c \<or> c = CHR ''.'') v"
    using version_chars [OF assms(1)] by simp_all
  have s: "list_all is_hex_digit sha" using assms(2) by (simp add: isHex_def)
  have no: "CHR ''#'' \<notin> set v" "CHR ''/'' \<notin> set v" "CHR ''#'' \<notin> set sha" "CHR ''/'' \<notin> set sha"
    using v(3) s by (auto simp: list_all_iff is_digit_def is_hex_digit_def char_in_def dest!: bspec)
  have "hd (generationDirName v sha) \<noteq> CHR ''.''" using v(1,2) by (auto simp: generationDirName_def is_digit_def)
  then have "generationDirName v sha \<noteq> ''.''" "generationDirName v sha \<noteq> ''..''" by auto
  then show ?thesis using no v(1) by (simp add: ordinary_def) (simp add: generationDirName_def)
qed

definition bin_parts :: "string list" where
  "bin_parts = [''opt'', ''isola'', ''bin'']"

lemma install_dirs:
  assumes "cfgInstallDir c = ''/opt/isola/bin''"
  shows "releasesDir c = abs_path (bin_parts @ [''releases''])" "configsDir c = abs_path (bin_parts @ [''runsc-configs''])"
  using path_join_names [of bin_parts "[''releases'']"] path_join_names [of bin_parts "[''runsc-configs'']"] assms
  by (simp_all add: releasesDir_def configsDir_def bin_parts_def ordinary_def abs_path_def)

lemma installed_path:
  assumes "cfgInstallDir c = ''/opt/isola/bin''" "ordinary n" "ordinary f"
  shows "path_join [path_join [releasesDir c, n], f] = ''/opt/isola/bin/releases/'' @ n @ ''/'' @ f"
    "path_join [configsDir c, n] = ''/opt/isola/bin/runsc-configs/'' @ n"
proof -
  have o: "list_all ordinary (bin_parts @ [''releases'', n, f])" "list_all ordinary (bin_parts @ [''runsc-configs'', n])"
    using assms(2,3) by (simp_all add: bin_parts_def ordinary_def)
  have "path_join [path_join [releasesDir c, n], f] = abs_path (bin_parts @ [''releases'', n, f])"
    using path_join_names [of "bin_parts @ [''releases'']" "[n]"] path_join_names [of "bin_parts @ [''releases'', n]" "[f]"] o(1)
    by (simp add: install_dirs [OF assms(1)] bin_parts_def)
  then show "path_join [path_join [releasesDir c, n], f] = ''/opt/isola/bin/releases/'' @ n @ ''/'' @ f"
    by (simp add: bin_parts_def abs_path_def)
  have "path_join [configsDir c, n] = abs_path (bin_parts @ [''runsc-configs'', n])"
    using path_join_names [of "bin_parts @ [''runsc-configs'']" "[n]"] o(2)
    by (simp add: install_dirs [OF assms(1)] bin_parts_def)
  then show "path_join [configsDir c, n] = ''/opt/isola/bin/runsc-configs/'' @ n" by (simp add: bin_parts_def abs_path_def)
qed

lemma config_file_name:
  assumes "isHex (tlSHA512 t content)"
  shows "ordinary (config_name t content) \<and> CHR ''#'' \<notin> set (config_name t content)"
proof -
  have "list_all is_hex_digit (take 32 (tlSHA512 t content))"
    using assms by (auto simp: isHex_def list_all_iff dest: in_set_takeD)
  then have "CHR ''#'' \<notin> set (take 32 (tlSHA512 t content))" "CHR ''/'' \<notin> set (take 32 (tlSHA512 t content))"
    by (auto simp: list_all_iff is_hex_digit_def is_digit_def char_in_def dest!: bspec)
  then show ?thesis by (auto simp: config_name_def ordinary_def append_eq_Cons_conv)
qed

text \<open>What the installer names when it renders the block of a release it has installed.\<close>

definition installed_target :: "'w tools \<Rightarrow> config \<Rightarrow> string \<Rightarrow> string \<Rightarrow> runtime_target" where
  "installed_target t c sha content =
     \<lparr>targetShim = path_join [path_join [releasesDir c, generationDirName (cfgVersion c) sha], shimBinary],
      targetConfig = path_join [configsDir c, config_name t content]\<rparr>"

lemma configured_target:
  assumes cfg: "ConfigFromEnv e = (c, Inr ())" and "isHex sha" "isHex (tlSHA512 t content)"
  shows "installed_target t c sha content =
      \<lparr>targetShim = ''/opt/isola/bin/releases/'' @ generationDirName (cfgVersion c) sha @ ''/'' @ shimBinary,
       targetConfig = ''/opt/isola/bin/runsc-configs/'' @ config_name t content\<rparr>" (is ?target)
    "CHR ''#'' \<notin> set (targetShim (installed_target t c sha content)) \<union> set (targetConfig (installed_target t c sha content))"
proof -
  have dir: "cfgInstallDir c = ''/opt/isola/bin''" using accepted_parts(1) [OF cfg] by (simp add: config_of_env_def)
  note g = generation_name [OF accepted_parts(2) [OF cfg] assms(2)] and k = config_file_name [OF assms(3)]
  have b: "ordinary shimBinary" "CHR ''#'' \<notin> set shimBinary" by (simp_all add: shimBinary_def ordinary_def)
  show t: ?target
    using installed_path(1) [OF dir _ b(1)] installed_path(2) [OF dir _ b(1)] g k by (simp add: installed_target_def)
  show "CHR ''#'' \<notin> set (targetShim (installed_target t c sha content)) \<union> set (targetConfig (installed_target t c sha content))"
    using g k b by (simp add: t)
qed

lemma configured_block:
  assumes cfg: "ConfigFromEnv e = (c, Inr ())" and "isHex sha" "isHex (tlSHA512 t content)"
    and block: "desiredManagedBlock c raw (installed_target t c sha content) = Inr b" and "spliceManagedBlock s b = Inr s'"
  shows "managedBlock s' = Inr (Some b)"
proof -
  obtain p where p: "criPluginID (configSchemaVersion raw) = Inr p"
    "b = renderManagedBlock p (cfgHandler c) (targetShim (installed_target t c sha content))
           (targetConfig (installed_target t c sha content))"
    using block by (auto simp: desiredManagedBlock_def split: sum.splits)
  have "CHR ''#'' \<notin> set p"
    using p(1) by (auto simp: criPluginID_def criPluginIDV2_def criPluginIDV3_def split: if_splits)
  then have "\<not> sublist endMarker b" unfolding p(2)
    using handler_chars [OF accepted_parts(4) [OF cfg]] configured_target(2) [OF assms(1-3)] by (intro rendered_no_end) simp
  from managed_block_splice(1) [OF assms(5) this] show ?thesis by (simp only: p(2) rendered_trim)
qed


section \<open>Properties\<close>

text \<open>
  C39. A configuration that is accepted names an https server and has positive intervals. For every
  release installed under it, the shim lies in a directory of its own under the release directory, and the
  block that is spliced into containerd's configuration for it is read back whole.
\<close>

theorem configured_release_recognised:
  assumes "ConfigFromEnv e = (c, Inr ())" "isHex sha" "isHex (tlSHA512 t content)"
    and "desiredManagedBlock c raw (installed_target t c sha content) = Inr b" "spliceManagedBlock s b = Inr s'"
  shows "targetShim (installed_target t c sha content) =
       ''/opt/isola/bin/releases/'' @ cfgVersion c @ ''-'' @ sha @ ''/'' @ shimBinary \<and>
     managedBlock s' = Inr (Some b) \<and>
     0 < cfgReconcileInterval c \<and> 0 < cfgRetryInterval c \<and> 0 < cfgReconcileTimeout c \<and>
     (\<exists>scheme host. ehParseURL e (cfgURLBase c) = Some (scheme, host) \<and> to_lower scheme = ''https'' \<and> host \<noteq> [])"
  using configured_target(1) [OF assms(1-3)] configured_block [OF assms] accepted_intervals [OF assms(1)]
    accepted_url [OF assms(1)] by (simp add: generationDirName_def)

definition witness_env :: env_host where
  "witness_env = \<lparr>ehGetenv = (\<lambda>k. if k = ''NODE_NAME'' then ''n'' else if k = ''GVISOR_VERSION'' then ''20260721.0''
        else if k = ''RETRY_INTERVAL'' then ''-1s'' else if k = ''RECONCILE_INTERVAL'' then ''90s'' else []),
     ehParseDuration = (\<lambda>s. if s = ''90s'' then Some (90 * nano_second) else if s = ''-1s'' then Some (- nano_second) else None),
     ehParseURL = (\<lambda>s. Some (''HTTPS'', ''storage.googleapis.com''))\<rparr>"

lemma witness_env_accepted: "ConfigFromEnv witness_env = (config_of_env witness_env, Inr ())"
  by code_simp

theorem configured_release_recognised_witness:
  "\<exists>c b s'. ConfigFromEnv witness_env = (c, Inr ()) \<and> spliceManagedBlock [] b = Inr s' \<and>
     managedBlock s' = Inr (Some b) \<and> cfgReconcileInterval c = 90 * nano_second \<and> cfgRetryInterval c = 60 * nano_second"
proof -
  let ?c = "config_of_env witness_env" and ?t = "witness_tools"
  let ?w = "installed_target ?t ?c ''ab'' []"
  let ?b = "renderManagedBlock criPluginIDV2 (cfgHandler ?c) (targetShim ?w) (targetConfig ?w)"
  let ?s = "newline @ section_of ?b @ newline"
  have sha: "isHex ''ab''" "isHex (tlSHA512 ?t [])"
    by (simp_all add: isHex_def witness_tools_def zeros_def list_all_iff is_hex_digit_def is_digit_def char_in_def)
  have "configSchemaVersion ''version = 2'' = 2" by code_simp
  then have b: "desiredManagedBlock ?c ''version = 2'' ?w = Inr ?b" by (simp add: desiredManagedBlock_def criPluginID_def)
  have s: "spliceManagedBlock [] ?b = Inr ?s" by (simp add: spliceManagedBlock_def beginMarker_def)
  have i: "cfgReconcileInterval ?c = 90 * nano_second" "cfgRetryInterval ?c = 60 * nano_second"
    by (simp_all add: config_of_env_def GetOrDefaultDuration_def witness_env_def nano_second_def)
  have "managedBlock ?s = Inr (Some ?b)"
    using configured_release_recognised [OF witness_env_accepted sha b s] by (elim conjE)
  then show ?thesis using witness_env_accepted s i by blast
qed

end
