(* ===== verification/OperatorConfig.thy ===== *)
theory OperatorConfig
  imports SandboxSafety SnapshotController
begin

text \<open>
  How the operator is started, \<open>src/cmd/operator/main.go\<close>: its flags, with image references from the
  environment in their place, what it refuses, and the two reconcilers it runs. The manager and its
  clients are third-party code; the flags that only they use are left out.
\<close>


section \<open>Flags\<close>

record operator_flags =
  flSidecarImage :: string
  flRuntimeClass :: string
  flPriorityClass :: string
  flBucketURL :: string
  flCredentialSecret :: string
  flUploaderImage :: string
  flServiceAccount :: string
  flPullSecrets :: string
  flSnapshotEnabled :: bool
  flRunscPath :: string
  flRunscRoot :: string
  flInstallDir :: string
  flContainerdStateDir :: string
  flHostMountPath :: string
  flSidecarPullPolicy :: string
  flUploaderPullPolicy :: string

definition default_flags :: operator_flags where
  "default_flags = \<lparr>flSidecarImage = [], flRuntimeClass = [], flPriorityClass = [], flBucketURL = [],
     flCredentialSecret = [], flUploaderImage = [], flServiceAccount = [], flPullSecrets = [],
     flSnapshotEnabled = False, flRunscPath = [], flRunscRoot = [], flInstallDir = [],
     flContainerdStateDir = ''/run/containerd'', flHostMountPath = [], flSidecarPullPolicy = [],
     flUploaderPullPolicy = []\<rparr>"

definition images_of_env :: "(string \<Rightarrow> string) \<Rightarrow> operator_flags \<Rightarrow> operator_flags" where
  "images_of_env getenv f =
     (let f1 = (if flSidecarImage f = [] then f \<lparr>flSidecarImage := getenv ''ISOLA_SANDBOX_SIDECAR_IMAGE''\<rparr> else f) in
      if flUploaderImage f1 = [] then f1 \<lparr>flUploaderImage := getenv ''ISOLA_SNAPSHOT_UPLOADER_IMAGE''\<rparr> else f1)"

text \<open>The message of the log entry before the operator exits.\<close>

definition refused :: "operator_flags \<Rightarrow> string option" where
  "refused f =
     (if flRuntimeClass f = [] then Some ''--runtime-class is required''
      else if flSidecarImage f = [] then Some ''--sidecar-image or ISOLA_SANDBOX_SIDECAR_IMAGE env var is required''
      else if flSnapshotEnabled f then
        (if flUploaderImage f = [] then Some ''--rootfssnapshot-uploader-image or ISOLA_SNAPSHOT_UPLOADER_IMAGE env var is required''
         else if flBucketURL f = [] then Some ''--rootfssnapshot-bucket-url is required''
         else None)
      else None)"

definition pull_secrets :: "string \<Rightarrow> string list" where
  "pull_secrets s =
     (if s \<noteq> [] then filter (\<lambda>name. name \<noteq> []) (map trim_space (split_char CHR '','' s)) else [])"


section \<open>The reconcilers\<close>

definition sandbox_reconciler_of :: "string \<Rightarrow> operator_flags \<Rightarrow> sandbox_reconciler" where
  "sandbox_reconciler_of version f =
     \<lparr>SandboxSidecarImage = flSidecarImage f, SandboxSidecarImagePullPolicy = flSidecarPullPolicy f,
      RuntimeClassName = flRuntimeClass f, PriorityClassName = flPriorityClass f,
      ImagePullSecrets = pull_secrets (flPullSecrets f),
      RootfsSnapshotHostMountPath = flHostMountPath f, GitVersion = version\<rparr>"

definition snapshot_reconciler_of :: "operator_flags \<Rightarrow> snapshot_reconciler" where
  "snapshot_reconciler_of f =
     \<lparr>BucketURL = flBucketURL f, CredentialSecretName = flCredentialSecret f, UploaderImage = flUploaderImage f,
      UploaderImagePullPolicy = flUploaderPullPolicy f, SnapshotServiceAccount = flServiceAccount f,
      SnapshotPullSecrets = pull_secrets (flPullSecrets f), SnapshotEnabled = flSnapshotEnabled f,
      GvisorRunscPath = flRunscPath f, GvisorRunscRoot = flRunscRoot f, GvisorInstallDir = flInstallDir f,
      ContainerdStateDir = flContainerdStateDir f\<rparr>"

definition operator_setup ::
  "(string \<Rightarrow> string) \<Rightarrow> string \<Rightarrow> operator_flags \<Rightarrow> string + sandbox_reconciler \<times> snapshot_reconciler" where
  "operator_setup getenv version flags =
     (let f = images_of_env getenv flags in
      case refused f of
        Some msg \<Rightarrow> Inl msg
      | None \<Rightarrow> Inr (sandbox_reconciler_of version f, snapshot_reconciler_of f))"


section \<open>What a started operator creates\<close>

lemma setup_complete:
  assumes "operator_setup getenv version flags = Inr (sr, nr)"
  shows "RuntimeClassName sr = flRuntimeClass flags" "flRuntimeClass flags \<noteq> []" "SandboxSidecarImage sr \<noteq> []"
    "ImagePullSecrets sr = pull_secrets (flPullSecrets flags)" "SnapshotPullSecrets nr = ImagePullSecrets sr"
    "SnapshotEnabled nr \<longrightarrow> UploaderImage nr \<noteq> [] \<and> BucketURL nr \<noteq> []"
  using assms
  by (auto simp: operator_setup_def refused_def images_of_env_def sandbox_reconciler_of_def snapshot_reconciler_of_def
      Let_def split: option.splits if_splits)

lemma pull_secrets_named: "name \<in> set (pull_secrets s) \<Longrightarrow> name \<noteq> []"
  by (auto simp: pull_secrets_def split: if_splits)

text \<open>What the steps after the base pod leave as it is.\<close>

lemma restored_spec:
  assumes "injectRootfsRestore r sources p ns = (None, q)"
  shows "podRuntimeClass (podSpec q) = podRuntimeClass (podSpec p)" "podPullSecrets (podSpec q) = podPullSecrets (podSpec p)"
proof -
  have "restore_loop r ns sources p = (None, q)" using assms by (auto simp: injectRootfsRestore_def split: if_splits)
  then have "podSpec q \<lparr>podContainers := podContainers (podSpec p)\<rparr> = podSpec p" using restore_loop_ok by metis
  then show "podRuntimeClass (podSpec q) = podRuntimeClass (podSpec p)" "podPullSecrets (podSpec q) = podPullSecrets (podSpec p)"
    by (metis (no_types) pod_spec.simps pod_spec.surjective)+
qed

lemma finished_spec:
  "podRuntimeClass (podSpec (finish_pod r sb p)) = podRuntimeClass (podSpec p)"
  "podPullSecrets (podSpec (finish_pod r sb p)) = podPullSecrets (podSpec p)"
  "buildSandboxSidecarContainer r \<in> set (podInitContainers (podSpec (finish_pod r sb p)))"
  by (auto simp: finish_pod_def configureDNS_def injectSandboxSidecar_def markContainers_def Let_def split: option.splits)

lemma created_spec:
  assumes "created_from r k i p"
  shows "podRuntimeClass (podSpec p) = Some (RuntimeClassName r) \<and>
    set (ImagePullSecrets r) \<subseteq> set (podPullSecrets (podSpec p)) \<and>
    buildSandboxSidecarContainer r \<in> set (podInitContainers (podSpec p))"
proof -
  obtain sb p0 m where p0: "p0 = base_pod r sb \<or>
      injectRootfsRestore r (snapshotSources (sbSpec sb)) (base_pod r sb) (metaNamespace (sbMeta sb)) = (None, p0)"
    and m: "p = finish_pod r sb p0 \<lparr>podMeta := m\<rparr>"
    using assms unfolding created_from_def by blast
  from m have p: "podSpec p = podSpec (finish_pod r sb p0)" by simp
  have "podRuntimeClass (podSpec p0) = Some (RuntimeClassName r) \<and>
      set (ImagePullSecrets r) \<subseteq> set (podPullSecrets (podSpec p0))"
    using p0 restored_spec by (auto simp: base_pod_def Let_def)
  then show ?thesis using finished_spec [of r sb p0] by (simp add: p)
qed

lemma reconcile_creates:
  assumes k: "orderly k" and run: "run_state (Reconcile r k ns name) s = (res, t)"
    and start: "rCalls s = []" and pod: "CreatePod p o1 \<in> set (rCalls t)"
  shows "\<exists>i. created_from r k i p"
  using run
proof (cases rule: Reconcile_run)
  case (failed e)
  then show ?thesis using pod start by auto
next
  case (found sb w)
  obtain cs where "rCalls t = GetSandbox ns name (Inr sb) # cs"
      "body_ok r k (identity sb) (\<not> time_is_zero (metaDeleted (sbMeta sb)))
        (kContainsFinalizer k (sbMeta sb) SandboxFinalizer) cs"
    using traces_run [OF traces_reconcile_found [OF k] _ found(2), of "identity sb"] start by auto
  then have "created_from r k (identity sb) p" using pod by (auto simp: body_ok_def creations_ok_def)
  then show ?thesis by blast
qed


section \<open>Properties\<close>

text \<open>
  C40. Every pod that a reconcile of a started operator creates, whatever the sandbox asks for and the API
  server answers, runs under the runtime class of the operator's flags, which is not empty, beside
  a sidecar that has an image, and with pull secrets whose names are not empty; an operator that takes
  snapshots has an uploader and a bucket.
\<close>

theorem started_operator_isolates:
  assumes "operator_setup getenv version flags = Inr (sr, nr)"
    and "orderly k" "run_state (Reconcile sr k ns name) s = (res, t)" "rCalls s = []" "CreatePod p o1 \<in> set (rCalls t)"
  shows "podRuntimeClass (podSpec p) = Some (flRuntimeClass flags) \<and> flRuntimeClass flags \<noteq> [] \<and>
     (\<exists>c \<in> set (podInitContainers (podSpec p)). ctrName c = sandboxSidecarContainerName \<and> ctrImage c \<noteq> []) \<and>
     (\<forall>secret \<in> set (SnapshotPullSecrets nr). secret \<noteq> [] \<and> secret \<in> set (podPullSecrets (podSpec p))) \<and>
     (SnapshotEnabled nr \<longrightarrow> UploaderImage nr \<noteq> [] \<and> BucketURL nr \<noteq> [])"
proof -
  note f = setup_complete [OF assms(1)]
  obtain i where "created_from sr k i p" using reconcile_creates [OF assms(2-5)] by blast
  note p = created_spec [OF this]
  have "ctrName (buildSandboxSidecarContainer sr) = sandboxSidecarContainerName \<and> ctrImage (buildSandboxSidecarContainer sr) \<noteq> []"
    using f(3) by (simp add: buildSandboxSidecarContainer_def)
  moreover have "\<forall>secret \<in> set (SnapshotPullSecrets nr). secret \<noteq> [] \<and> secret \<in> set (podPullSecrets (podSpec p))"
    using p pull_secrets_named f(4) unfolding f(5) by auto
  ultimately show ?thesis using p f(1,2,6) by auto
qed

definition example_flags :: operator_flags where
  "example_flags = default_flags \<lparr>flRuntimeClass := ''gvisor'', flHostMountPath := ''/mnt'', flPullSecrets := '' , ''\<rparr>"

lemma example_setup:
  "\<exists>nr. operator_setup (\<lambda>v. if v = ''ISOLA_SANDBOX_SIDECAR_IMAGE'' then ''sidecar:1'' else []) ''v1'' example_flags =
     Inr (example_reconciler, nr)"
proof -
  have "pull_secrets '' , '' = []" by code_simp
  then show ?thesis
    by (simp add: operator_setup_def refused_def images_of_env_def sandbox_reconciler_of_def example_flags_def
        default_flags_def example_reconciler_def Let_def)
qed

theorem started_operator_isolates_witness:
  "\<exists>p o1. CreatePod p o1 \<in> set (rCalls (snd (run_state (Reconcile example_reconciler sim_kube ''ns'' ''sb'')
       (start_run example_world)))) \<and> podRuntimeClass (podSpec p) = Some ''gvisor''"
proof -
  let ?run = "run_state (Reconcile example_reconciler sim_kube ''ns'' ''sb'') (start_run example_world)"
  obtain c where "c \<in> set (rCalls (snd ?run))" "creates_pod c"
    using example_run_creates by (auto simp: list_ex_iff wp_def split: prod.splits)
  then obtain p o1 where c: "CreatePod p o1 \<in> set (rCalls (snd ?run))" by (metis creates_pod.elims(2))
  obtain nr where "operator_setup (\<lambda>v. if v = ''ISOLA_SANDBOX_SIDECAR_IMAGE'' then ''sidecar:1'' else []) ''v1'' example_flags =
     Inr (example_reconciler, nr)" using example_setup by blast
  from started_operator_isolates [OF this sim_orderly, of "''ns''" "''sb''" "start_run example_world" "fst ?run" "snd ?run" p o1] c
  show ?thesis by (auto simp: start_run_def example_flags_def)
qed

end
