(* ===== verification/Spec2Isabelle.thy ===== *)
theory Spec2Isabelle
  imports SandboxTermination SandboxStatus SnapshotSafety InstallerRun CommandStdin GatewayApi SnapshotJob InstallerConfig OperatorConfig
begin

text \<open>
  Verification library for Isola, a service that runs untrusted code in sandboxes on Kubernetes. Four
  programs written in Go make up the system, and two small ones help them:

  \<^item> the operator (\<open>src/internal/operator\<close>) turns \<open>Sandbox\<close> resources into pods behind a network policy,
    ends them by their termination policy, and takes root file system snapshots with jobs;
  \<^item> the programs of such a job, the runsc launcher and the uploader (\<open>src/cmd/runsc-launcher\<close>,
    \<open>src/cmd/snapshot-uploader\<close>);
  \<^item> the gVisor installer (\<open>src/internal/gvisor-installer\<close>) installs a release of gVisor on a node,
    enters it into containerd's configuration and restarts containerd, with a journal for crashes;
  \<^item> the sidecar (\<open>src/internal/sandbox-sidecar\<close>) runs in each sandbox pod and gives access to the files
    and the commands of its containers;
  \<^item> the API gateway (\<open>src/internal/api-gateway\<close>) creates the resources for its clients and passes
    requests on to the sidecars.

  They meet in few places, and the model joins them there. The gateway's resources are the ones the
  operator reconciles (\<open>ApiTypes\<close>); the job the snapshot controller builds starts the launcher and the
  uploader with the arguments and variables that these programs read (\<open>SnapshotJob\<close>); the release
  directories that the installer writes are the ones the launcher trusts; the marker that the operator
  puts into the environment of a container is the one the sidecar looks for (\<open>SandboxPod\<close>, \<open>Sidecar\<close>);
  the gateway's request to a sidecar is what the sidecar's handlers parse (\<open>Gateway\<close>); and both HTTP
  servers share \<open>src/internal/sseutil\<close> and \<open>src/internal/httputil\<close>.
\<close>

section \<open>The theories\<close>

text \<open>
  Shared.

  \<^item> \<open>Prelude\<close>: Go's times and durations (a duration is an int64 of nanoseconds and wraps), string and path
    functions of the standard library, error and state monads with a weakest precondition.
  \<^item> \<open>Traced\<close>: programs that call the outside world. A run (\<open>rWorld\<close>, \<open>rCalls\<close>, \<open>rObject\<close>) carries the world,
    the calls made so far, each with its arguments and its outcome, and the object in memory that the
    Go code passes by reference.
  \<^item> \<open>Guarded\<close>: a Hoare logic for such programs over what the calls have shown. The locale \<open>protocol\<close> says
    which call is allowed after which; it is interpreted for the installer (\<open>InstallerSafety\<close>) and
    for the sidecar (\<open>Sidecar\<close>).
  \<^item> \<open>HostOs\<close>, \<open>Paths\<close>: the operating system as a record of calls, \<open>writeFileAtomic\<close> and its helpers from
    \<open>binaries.go\<close>, lemmas on clean paths. The locale \<open>posix\<close> states what is relied on: what a
    write, a sync and a rename do to the contents and to what survives a crash. A disk with faults and lost
    writes is an interpretation.

  The operator.

  \<^item> \<open>ApiTypes\<close>: \<open>src/api/v1alpha1\<close> and the Kubernetes types that the code uses. \<open>Netip\<close>, \<open>Cidr\<close>, \<open>NetPolicy\<close>:
    \<open>net/netip\<close> on words, \<open>network/cidr/cidr.go\<close> and \<open>network/builder.go\<close>.
  \<^item> \<open>Kube\<close>: the client as a record of functions on any world; the locale \<open>kube_laws\<close> has the documented
    behaviour of the condition and finalizer helpers. \<open>KubeModel\<close> is a server in memory that satisfies it.
  \<^item> \<open>SandboxPod\<close>, \<open>SandboxController\<close>, \<open>SandboxReconcile\<close>: \<open>sandbox_controller.go\<close> and \<open>podutil.go\<close>,
    function by function. \<open>SandboxCalls\<close> has the calls each step makes; \<open>SandboxSafety\<close>,
    \<open>SandboxTermination\<close> and \<open>SandboxStatus\<close> the properties. \<open>OperatorConfig\<close>: how
    \<open>src/cmd/operator/main.go\<close> makes the reconcilers from its flags.
  \<^item> \<open>SnapshotController\<close>, \<open>SnapshotSafety\<close>: \<open>rootfssnapshot_controller.go\<close>. \<open>SnapshotJob\<close>: the two programs
    of the job.

  The installer.

  \<^item> \<open>Containerd\<close>: \<open>containerd.go\<close> and \<open>runscconfig.go\<close>, the managed section and the merged configuration.
  \<^item> \<open>Archive\<close>, \<open>InstallerConfig\<close>: \<open>config.go\<close>, \<open>extract.go\<close>, \<open>env.go\<close>, \<open>health.go\<close>.
    \<open>Releases\<close>: \<open>generation.go\<close>, \<open>binaries.go\<close>, \<open>state.go\<close>.
  \<^item> \<open>Preflight\<close>, \<open>Installer\<close>: \<open>preflight.go\<close>, \<open>cri.go\<close>, \<open>node.go\<close> and \<open>installer.go\<close>. \<open>InstallerSafety\<close>
    proves the protocol of a pass; \<open>InstallerRun\<close> reads the properties off the calls.

  The sidecar and the gateway.

  \<^item> \<open>Sse\<close>, \<open>HttpUtil\<close>: \<open>sseutil/writer.go\<close>, \<open>httputil/flush.go\<close> and \<open>deadline.go\<close>.
  \<^item> \<open>Sidecar\<close>: \<open>proc/procfs.go\<close>, \<open>sidecar.go\<close> and \<open>filesystem/filesystem.go\<close>. \<open>Commands\<close>,
    \<open>CommandStream\<close>, \<open>CommandStdin\<close>: \<open>command/command.go\<close>, its starts, output streams and standard input.
  \<^item> \<open>Gateway\<close>: \<open>proxy.go\<close>, \<open>command/command.go\<close> and \<open>filesystem/filesystem.go\<close> of the gateway, with the
    query strings of \<open>net/url\<close>. \<open>GatewayApi\<close>: \<open>sandbox\<close> and \<open>rootfssnapshot\<close>.
\<close>

section \<open>Correspondence with the code\<close>

text \<open>
  Definitions keep the names of the Go functions; a suffix (\<open>GetSandbox_gw\<close>, \<open>snap_patchStatus\<close>) or a
  word of explanation is added where two functions have one name. A handler is one program: every guard,
  every early return and every call in the order of the code. A Go function with a pointer to an object
  works on \<open>rObject\<close>; one that returns an error has a sum as its result, with \<open>Inl\<close> for the error. Texts of
  errors are shortened, and the errors of libraries keep the distinctions the code asks for (\<open>IsNotFound\<close>,
  \<open>IsAlreadyExists\<close>, \<open>os.ErrNotExist\<close>, and the like). A function literal or a loop body that the model names
  has a name of its own (\<open>restore_loop\<close>, \<open>unless_started\<close>, \<open>stream_round\<close>). Deferred calls are written at
  every exit of the function.

  Integers of the code that can wrap are kept so: durations by \<open>int64\<close>, addresses as words of 32 and 128 bits.
  Strings are lists of bytes. Maps are functions where only lookup matters, association lists where the
  code ranges over them; the order of a range is a parameter (\<open>range_of\<close>) or the list, and the properties
  hold for every order.

  Concurrency is modelled where the code has it: the late callbacks of the flush timer and the writers
  (\<open>HttpUtil\<close>), the writes to one standard input under its mutex (\<open>CommandStdin\<close>), and the reader of an
  output file beside the command that writes it (\<open>CommandStream\<close>) are step relations or schedules over
  every interleaving. The reconcilers run one pass at a time, as controller-runtime and the installer's loop
  guarantee, in a world that others change between any two calls: nothing is assumed of the answers
  unless a theorem says so.

  Parameters stand for code outside \<open>src\<close>, and for the parts of the standard library that perform I/O,
  hash, or parse a format as large as JSON: the Kubernetes client and \<open>apimachinery\<close>'s helpers (\<open>'w kube\<close>),
  the operating system (\<open>'w os\<close>, \<open>'w sidecar_host\<close>, \<open>launcher_host\<close>, \<open>'w uploader_host\<close>), hashing, HTTP,
  TOML and JSON (\<open>'w tools\<close>), the runtime status and containerd (\<open>'w node\<close>), HTTP connections
  (\<open>'w http_conn\<close>, \<open>'w gateway\<close>), the environment (\<open>env_host\<close>).
\<close>

section \<open>What the lemmas show\<close>

text \<open>
  Operator: it does not start without a runtime class and a sidecar image, and every pod it creates has
  them; a pod is created only with its network policy in place, the finalizer held and no other pod,
  and it is the pod the specification asks for; the policy admits exactly the addresses outside every
  blocked range; a terminating sandbox is not released before its snapshot is settled; success is never
  taken back, the timeout is written once, and a reconcile is due again in time; a snapshot is
  reported as succeeded only with a complete job and its result, and kept for its time.

  Snapshot job: the launcher executes the release that the sandbox was created with, and the uploader
  stores the whole archive at the key of its snapshot, or neither succeeds.

  Installer: however a pass is cut, the file that is replaced holds old or new contents, and the journal
  durably names an activation before the configuration is changed (a refinement of a journal machine with
  three states); a release that is served was verified, file by file; the label of a node is set only after
  the handler was seen; a pass without an error has converged; the wait for containerd ends.

  Sidecar and gateway: a file is opened only below the root of a process that carries the container's
  marker; a command that is entered was started as asked, and a start that fails leaves nothing
  behind; an output stream that ends has delivered every byte once, also when it is resumed; the
  events decode to the text of the output, however it is cut into writes; bytes wait unflushed for a
  bounded time; writes to standard input do not mix; the gateway sends one request, to a sandbox seen running,
  and its query reads back as it was meant; a resource that was created reads back as the request.
\<close>

section \<open>Bounds\<close>

text \<open>
  Recursion is structural or has a measure nearly everywhere: loops over lists, the decoding of UTF-8, the
  walks over paths. The one loop on fuel waits for containerd after a restart: \<open>await_fuel\<close> is 47 rounds, and
  a round waits two seconds before a deadline of ninety; \<open>await_terminates\<close> shows for every clock that
  advances by the wait that more fuel changes nothing. A stream is a sequence of rounds;
  \<open>stream_terminates\<close> bounds their number by what is left to read. The runs of reconcilers have no loop
  of their own: a requeue is the next pass.
\<close>

section \<open>Not modelled\<close>

text \<open>
  The entry points under \<open>src/cmd\<close> (flags and the wiring of libraries) other than the job's programs and the
  operator's settings,
  \<open>SetupWithManager\<close> and the registration of HTTP routes, metrics, logs and the answers of the health and
  version endpoints of the servers, since they hold no decision of the program; generated code (deep copies,
  clients, the OpenAPI document), since values of the model are immutable; the settings of HTTP clients and
  servers; the SDKs, charts and manifests, which are not Go. Panics of the
  Go runtime are not a result of the programs here. Go's \<open>%q\<close> keeps bytes from 0x80 on, as it does for printable text.
\<close>

end
